(* ===== verification/Prelude.thy ===== *)
theory Prelude
  imports Main "HOL-Library.Word"
begin

text \<open>
  Shared vocabulary of the development: the machine types of the C++ sources, little-endian
  byte access (\<open>word\<close> helpers of the loader sources), address spans and the pairwise
  overlap loop that the loader recipes repeat, and the lemma collections the component
  theories use.

  Fixed-size arrays (\<open>std::array<std::byte,N>\<close>) are lists of bytes; the static size is the
  \<open>length\<close> of the list and is stated where a property depends on it.
  \<open>std::uint32_t\<close> and \<open>std::uint64_t\<close> are words, so every wrap-around of the source is a
  wrap-around of the model.
\<close>

unbundle bit_operations_syntax

type_synonym u8 = "8 word"
type_synonym u16 = "16 word"
type_synonym u32 = "32 word"
type_synonym u64 = "64 word"
type_synonym bytes = "8 word list"

named_theorems span_simps \<open>evaluation of span checks\<close>
named_theorems byte_simps \<open>reading and writing little-endian words in byte lists\<close>

section \<open>Little-endian words in byte lists\<close>

text \<open>\<open>for(unsigned j=0;j<4;++j) b[i+j]=std::byte((v>>(8*j))&255U);\<close>\<close>

definition put_word :: "bytes \<Rightarrow> nat \<Rightarrow> u32 \<Rightarrow> bytes" where
  "put_word b i v = b[i := ucast (v AND 255), i + 1 := ucast (drop_bit 8 v AND 255),
     i + 2 := ucast (drop_bit 16 v AND 255), i + 3 := ucast (drop_bit 24 v AND 255)]"

text \<open>\<open>raw |= std::to_integer<std::uint32_t>(b[i+j]) << (8*j)\<close> for \<open>j < 4\<close>\<close>

definition get_word :: "bytes \<Rightarrow> nat \<Rightarrow> u32" where
  "get_word b i = ucast (b ! i) OR push_bit 8 (ucast (b ! (i + 1)))
     OR push_bit 16 (ucast (b ! (i + 2))) OR push_bit 24 (ucast (b ! (i + 3)))"

lemma length_put_word [simp, byte_simps]: "length (put_word b i v) = length b"
  by (simp add: put_word_def)

lemma nth_put_word_outside [byte_simps]:
  "k < i \<or> i + 4 \<le> k \<Longrightarrow> put_word b i v ! k = b ! k"
  by (auto simp: put_word_def nth_list_update_neq)

lemma byte_of_word_bit:
  "bit (ucast (drop_bit n (v::u32) AND 255) :: u8) k \<longleftrightarrow> k < 8 \<and> bit v (n + k)"
proof -
  have m: "(255::u32) = mask 8" by (simp add: mask_eq_exp_minus_1)
  show ?thesis
    unfolding m by (auto simp: bit_ucast_iff bit_and_iff bit_drop_bit_eq bit_mask_iff ac_simps
        simp del: mask_numeral dest: bit_imp_le_length)
qed

lemma bit_byte_at:
  "bit (push_bit n (ucast (x::u8)) :: u32) k \<longleftrightarrow> k < 32 \<and> n \<le> k \<and> k < n + 8 \<and> bit x (k - n)"
proof -
  have "bit x (k - n) \<Longrightarrow> k - n < 8" using bit_imp_le_length[of x "k - n"] by simp
  then show ?thesis by (auto simp: bit_push_bit_iff bit_ucast_iff)
qed

lemma get_word_bit_at:
  assumes "q < 4" and "r < 8"
  shows "bit (get_word b i) (8 * q + r) = bit (b ! (i + q)) r"
proof -
  have w: "get_word b i = push_bit 0 (ucast (b ! i)) OR push_bit 8 (ucast (b ! (i + 1)))
     OR push_bit 16 (ucast (b ! (i + 2))) OR push_bit 24 (ucast (b ! (i + 3)))"
    by (simp add: get_word_def)
  from assms(1) consider "q = 0" | "q = 1" | "q = 2" | "q = 3" by linarith
  then show ?thesis
    unfolding w bit_or_iff bit_byte_at by cases (use assms(2) in simp_all)
qed

lemma get_word_bit:
  "bit (get_word b i) k \<longleftrightarrow> k < 32 \<and> bit (b ! (i + k div 8)) (k mod 8)"
proof (cases "k < 32")
  case True
  then have "k div 8 < 4" by auto
  then show ?thesis
    using get_word_bit_at[of "k div 8" "k mod 8" b i] True by simp
next
  case False
  then show ?thesis using bit_imp_le_length[of "get_word b i" k] by auto
qed

lemma nth_put_word_inside:
  assumes "i + 4 \<le> length b" and "j < 4"
  shows "put_word b i v ! (i + j) = ucast (drop_bit (8 * j) v AND 255)"
proof -
  from assms(2) consider "j = 0" | "j = 1" | "j = 2" | "j = 3" by linarith
  then show ?thesis using assms(1)
    by cases (simp_all add: put_word_def)
qed

text \<open>What was written is what is read back, and rewriting the bytes read changes nothing.\<close>

lemma get_put_word [simp, byte_simps]:
  assumes "i + 4 \<le> length b"
  shows "get_word (put_word b i v) i = v"
proof (rule bit_word_eqI)
  fix k assume k: "k < LENGTH(32)"
  then have "k div 8 < 4" by auto
  then show "bit (get_word (put_word b i v) i) k = bit v k"
    using k assms by (auto simp: get_word_bit nth_put_word_inside byte_of_word_bit)
qed

lemma get_put_word_other [byte_simps]:
  "i + 4 \<le> j \<or> j + 4 \<le> i \<Longrightarrow> get_word (put_word b i v) j = get_word b j"
  by (auto simp: get_word_def nth_put_word_outside)

lemma put_get_word [simp, byte_simps]:
  assumes "i + 4 \<le> length b"
  shows "put_word b i (get_word b i) = b"
proof (rule nth_equalityI)
  fix k assume "k < length (put_word b i (get_word b i))"
  show "put_word b i (get_word b i) ! k = b ! k"
  proof (cases "k < i \<or> i + 4 \<le> k")
    case False
    define j where "j = k - i"
    from False have j: "j < 4" and k: "k = i + j" by (auto simp: j_def)
    have "ucast (drop_bit (8 * j) (get_word b i) AND 255) = b ! (i + j)"
      using j by (intro bit_word_eqI) (auto simp: byte_of_word_bit get_word_bit)
    then show ?thesis using assms j by (simp add: k nth_put_word_inside)
  qed (simp add: nth_put_word_outside)
qed simp

section \<open>Address spans\<close>

text \<open>
  The overlap loop of the loader recipes: a span is a start address and a byte count, and
  two spans clash when \<open>a < b+m && b < a+n\<close> in 32-bit arithmetic.
\<close>

type_synonym span = "u32 \<times> u32"

fun span_clash :: "span \<Rightarrow> span \<Rightarrow> bool" where
  "span_clash (a, n) (b, m) \<longleftrightarrow> a < b + m \<and> b < a + n"

lemma span_clash_iff: "span_clash s t \<longleftrightarrow> fst s < fst t + snd t \<and> fst t < fst s + snd s"
  by (cases s; cases t) auto

text \<open>The inner loop \<open>for(j=0;j<i;++j)\<close> over the spans already accepted.\<close>

fun disjoint_from :: "span list \<Rightarrow> span list \<Rightarrow> bool" where
  "disjoint_from seen [] \<longleftrightarrow> True"
| "disjoint_from seen (s # ss) \<longleftrightarrow>
     list_all (\<lambda>t. \<not> span_clash s t) seen \<and> disjoint_from (seen @ [s]) ss"

text \<open>\<open>spans[i][0]<4096 || spans[i][0]>sz-spans[i][1]\<close> rejects a span.\<close>

fun in_image :: "u32 \<Rightarrow> span \<Rightarrow> bool" where
  "in_image sz (a, n) \<longleftrightarrow> \<not> (a < 4096 \<or> a > sz - n)"

definition spans_ok :: "u32 \<Rightarrow> span list \<Rightarrow> bool" where
  "spans_ok sz ss \<longleftrightarrow> list_all (in_image sz) ss \<and> disjoint_from [] ss"

text \<open>The addresses a span covers, as natural numbers: no wrap-around.\<close>

definition span_set :: "span \<Rightarrow> nat set" where
  "span_set s = {unat (fst s) ..< unat (fst s) + unat (snd s)}"

lemma in_image_bounds:
  assumes "in_image sz (a, n)" and "n \<le> sz"
  shows "4096 \<le> unat a" and "unat a + unat n \<le> unat sz"
proof -
  from assms have "4096 \<le> a" "a \<le> sz - n" by auto
  then show "4096 \<le> unat a" by (simp add: word_le_nat_alt)
  have "unat (sz - n) = unat sz - unat n" using assms(2) by (simp add: unat_sub)
  with \<open>a \<le> sz - n\<close> show "unat a + unat n \<le> unat sz"
    using assms(2) by (simp add: word_le_nat_alt)
qed

lemma unat_add_no_wrap:
  assumes "unat (a::u32) + unat n \<le> unat (sz::u32)"
  shows "unat (a + n) = unat a + unat n"
  proof -
  have "unat sz < 2 ^ 32" using unsigned_less[of sz, where ?'a = nat] by simp
  with assms have "unat a + unat n < 2 ^ LENGTH(32)" by simp
  then show ?thesis by (rule unat_add_lem[THEN iffD1])
qed

lemma not_clash_disjoint:
  assumes "\<not> span_clash s t"
    and "unat (fst s) + unat (snd s) \<le> unat (sz::u32)"
    and "unat (fst t) + unat (snd t) \<le> unat sz"
  shows "span_set s \<inter> span_set t = {}"
proof -
  obtain a n b m where s: "s = (a, n)" and t: "t = (b, m)" by fastforce
  from assms have "unat (a + n) = unat a + unat n" "unat (b + m) = unat b + unat m"
    unfolding s t by (auto intro: unat_add_no_wrap)
  with assms(1) show ?thesis
    unfolding s t span_set_def by (auto simp: word_less_nat_alt)
qed

lemma disjoint_from_sound:
  assumes "disjoint_from seen ss"
    and "\<forall>s \<in> set (seen @ ss). unat (fst s) + unat (snd s) \<le> unat (sz::u32)"
    and "sorted_wrt (\<lambda>s t. span_set s \<inter> span_set t = {}) seen"
  shows "sorted_wrt (\<lambda>s t. span_set s \<inter> span_set t = {}) (seen @ ss)"
  using assms
proof (induction seen ss rule: disjoint_from.induct)
  case (1 seen)
  then show ?case by simp
next
  case (2 seen s ss)
  have "\<forall>t \<in> set seen. span_set t \<inter> span_set s = {}"
  proof
    fix t assume t: "t \<in> set seen"
    with "2.prems"(1) have "\<not> span_clash s t" by (auto simp: list_all_iff)
    then have "span_set s \<inter> span_set t = {}"
      by (rule not_clash_disjoint) (use "2.prems"(2) t in auto)
    then show "span_set t \<inter> span_set s = {}" by (simp add: Int_commute)
  qed
  then have "sorted_wrt (\<lambda>s t. span_set s \<inter> span_set t = {}) (seen @ [s])"
    using "2.prems"(3) by (auto simp: sorted_wrt_append)
  with "2.IH" "2.prems" show ?case by auto
qed

text \<open>
  The check means what it is meant to mean: the accepted spans lie in the image and are
  pairwise disjoint as sets of addresses, provided no length exceeds the image.
\<close>

definition span_layout :: "nat \<Rightarrow> span list \<Rightarrow> bool" where
  "span_layout sz ss \<longleftrightarrow>
     (\<forall>s \<in> set ss. 4096 \<le> unat (fst s) \<and> unat (fst s) + unat (snd s) \<le> sz) \<and>
     sorted_wrt (\<lambda>s t. span_set s \<inter> span_set t = {}) ss"

lemma spans_ok_sound:
  assumes "spans_ok sz ss" and "\<forall>s \<in> set ss. snd s \<le> sz"
  shows "span_layout (unat sz) ss"
proof -
  have b: "4096 \<le> unat (fst s) \<and> unat (fst s) + unat (snd s) \<le> unat sz" if "s \<in> set ss" for s
    using that assms in_image_bounds[of sz "fst s" "snd s"]
    by (auto simp: spans_ok_def list_all_iff)
  moreover have "sorted_wrt (\<lambda>s t. span_set s \<inter> span_set t = {}) ([] @ ss)"
    by (rule disjoint_from_sound[of _ _ sz])
       (use assms b in \<open>auto simp: spans_ok_def\<close>)
  ultimately show ?thesis by (simp add: span_layout_def)
qed

section \<open>Powers of two and alignment\<close>

text \<open>\<open>!(a & (a-1))\<close>\<close>

definition power2_word :: "'a::len word \<Rightarrow> bool" where
  "power2_word n \<longleftrightarrow> n AND (n - 1) = 0"

section \<open>Widening\<close>

lemma unat_ucast16_32 [simp]: "unat (ucast (x::u16) :: u32) = unat x"
proof -
  have "unat x < 2 ^ 16" using unsigned_less[of x, where ?'a = nat] by simp
  then show ?thesis by (simp add: unsigned_ucast_eq take_bit_nat_eq_self)
qed

lemma unat_ucast32_64 [simp]: "unat (ucast (x::u32) :: u64) = unat x"
proof -
  have "unat x < 2 ^ 32" using unsigned_less[of x, where ?'a = nat] by simp
  then show ?thesis by (simp add: unsigned_ucast_eq take_bit_nat_eq_self)
qed

lemma unat_less_32: "unat (x::u32) < 2 ^ 32"
  using unsigned_less[of x, where ?'a = nat] by simp

lemma unat_word_of_nat_32: "n < 2 ^ 32 \<Longrightarrow> unat (word_of_nat n :: u32) = n"
  by (simp add: unsigned_of_nat take_bit_nat_eq_self)

section \<open>Lists\<close>

lemma list_all_nth_iff: "list_all P xs \<longleftrightarrow> (\<forall>i < length xs. P (xs ! i))"
  by (auto simp: list_all_length)

lemma take_eq_prefix_nth:
  assumes "take n xs = take n ys" and "i < n" and "n \<le> length xs" and "n \<le> length ys"
  shows "xs ! i = ys ! i"
  using assms by (metis nth_take)

end
