(* ===== verification/Identity.thy ===== *)
theory Identity
  imports Prelude
begin

text \<open>
  \<open>include/saex/contracts/strong_id.hpp\<close> and \<open>include/saex/contracts/foundation.generated.hpp\<close>:
  the phantom-typed 64-bit identities, their order, the checked successor \<open>next\<close>, and the
  entity reference with its validity test.
\<close>

section \<open>Strong identities\<close>

text \<open>
  \<open>template <typename Tag> struct StrongId\<close>: the tag is a phantom parameter, so identities of
  different kinds cannot be mixed, in the model as in the code.
\<close>

datatype 'tag strong_id = StrongId (id_value: u64)

typedecl WorldIdTag
typedecl WorldEpochTag
typedecl EntityIdTag
typedecl GenerationTag
typedecl SessionIdTag
typedecl ResourceEpochTag
typedecl OwnerEpochTag
typedecl ClockDomainIdTag
typedecl StateRevisionTag
typedecl CatalogRevisionTag
typedecl SequenceTag

type_synonym WorldId = "WorldIdTag strong_id"
type_synonym WorldEpoch = "WorldEpochTag strong_id"
type_synonym EntityId = "EntityIdTag strong_id"
type_synonym Generation = "GenerationTag strong_id"
type_synonym SessionId = "SessionIdTag strong_id"
type_synonym ResourceEpoch = "ResourceEpochTag strong_id"
type_synonym OwnerEpoch = "OwnerEpochTag strong_id"
type_synonym ClockDomainId = "ClockDomainIdTag strong_id"
type_synonym StateRevision = "StateRevisionTag strong_id"
type_synonym CatalogRevision = "CatalogRevisionTag strong_id"
type_synonym Sequence = "SequenceTag strong_id"

text \<open>The defaulted \<open>operator<=>\<close> compares the one member.\<close>

instantiation strong_id :: (type) linorder
begin

definition less_eq_strong_id :: "'a strong_id \<Rightarrow> 'a strong_id \<Rightarrow> bool" where
  "less_eq_strong_id x y \<longleftrightarrow> id_value x \<le> id_value y"

definition less_strong_id :: "'a strong_id \<Rightarrow> 'a strong_id \<Rightarrow> bool" where
  "less_strong_id x y \<longleftrightarrow> id_value x < id_value y"

instance
  by standard (auto simp: less_eq_strong_id_def less_strong_id_def strong_id.expand)

end

definition max_u64 :: u64 where
  "max_u64 = - 1"

text \<open>\<open>next\<close> in the source: \<open>nullopt\<close> at the maximum, the successor otherwise.\<close>

definition next_id :: "'tag strong_id \<Rightarrow> 'tag strong_id option" where
  "next_id current = (if id_value current = max_u64 then None
     else Some (StrongId (id_value current + 1)))"

lemma unat_succ_below_max: "(x::u64) \<noteq> max_u64 \<Longrightarrow> unat (x + 1) = Suc (unat x)"
  proof -
  assume "x \<noteq> max_u64"
  then have "1 + x \<noteq> 0" by (simp add: max_u64_def eq_neg_iff_add_eq_0 add.commute)
  then show ?thesis by (simp add: unatSuc add.commute)
qed

text \<open>A successor never wraps: it is strictly larger and never the zero identity.\<close>

lemma next_id_Some:
  assumes "next_id x = Some y"
  shows "unat (id_value y) = Suc (unat (id_value x))" and "x < y" and "id_value y \<noteq> 0"
proof -
  from assms have y: "id_value x \<noteq> max_u64" "id_value y = id_value x + 1"
    by (auto simp: next_id_def split: if_splits)
  then show u: "unat (id_value y) = Suc (unat (id_value x))"
    by (simp add: unat_succ_below_max)
  then show "x < y" by (simp add: less_strong_id_def word_less_nat_alt)
  from u show "id_value y \<noteq> 0" by (metis nat.distinct(1) unat_0)
qed

lemma next_id_None: "next_id x = None \<longleftrightarrow> unat (id_value x) = 2 ^ 64 - 1"
proof
  assume "next_id x = None"
  then have "id_value x = - 1" by (simp add: next_id_def max_u64_def split: if_splits)
  then show "unat (id_value x) = 2 ^ 64 - 1" by (simp add: unsigned_minus_1_eq_mask mask_eq_exp_minus_1)
next
  assume "unat (id_value x) = 2 ^ 64 - 1"
  then have "unat (id_value x) = unat (- 1 :: u64)" by (simp add: unsigned_minus_1_eq_mask mask_eq_exp_minus_1)
  then have "id_value x = - 1" by (simp only: word_unat_eq_iff)
  then show "next_id x = None" by (simp add: next_id_def max_u64_def)
qed

section \<open>Entity references\<close>

text \<open>\<open>struct EntityRef\<close>, with the members in their declared order.\<close>

datatype entity_ref = EntityRef (worldId: WorldId) (worldEpoch: WorldEpoch)
  (entityId: EntityId) (generation: Generation)

definition default_entity :: entity_ref where
  "default_entity = EntityRef (StrongId 0) (StrongId 0) (StrongId 0) (StrongId 0)"

definition entity_valid :: "entity_ref \<Rightarrow> bool" where
  "entity_valid e \<longleftrightarrow> id_value (worldId e) \<noteq> 0 \<and> id_value (worldEpoch e) \<noteq> 0
     \<and> id_value (entityId e) \<noteq> 0 \<and> id_value (generation e) \<noteq> 0"

text \<open>The defaulted comparison is lexicographic in declaration order.\<close>

instantiation entity_ref :: linorder
begin

definition less_entity_ref :: "entity_ref \<Rightarrow> entity_ref \<Rightarrow> bool" where
  "less_entity_ref x y \<longleftrightarrow> worldId x < worldId y \<or> worldId x = worldId y \<and>
     (worldEpoch x < worldEpoch y \<or> worldEpoch x = worldEpoch y \<and>
       (entityId x < entityId y \<or> entityId x = entityId y \<and> generation x < generation y))"

definition less_eq_entity_ref :: "entity_ref \<Rightarrow> entity_ref \<Rightarrow> bool" where
  "less_eq_entity_ref x y \<longleftrightarrow> x < y \<or> x = (y::entity_ref)"

instance
  by standard
    (auto simp: less_eq_entity_ref_def less_entity_ref_def intro: entity_ref.expand)

end

end
