(* ===== verification/Fixture_Codec.thy ===== *)
theory Fixture_Codec
  imports Identity
begin

text \<open>
  \<open>src/contracts/fixture_codec.cpp\<close>: the bounded fixture frame (twelve header bytes, a
  32-byte entity payload), its header check, decoder and encoder, and the stdin/stdout probe
  \<open>src/tools/contract_probe.cpp\<close> that wraps them.
\<close>

unbundle bit_operations_syntax

section \<open>Little-endian integers\<close>

text \<open>The loop of \<open>read_le\<close>; the callers pass at most eight bytes, so no shift reaches 64.\<close>

fun read_le_loop :: "nat \<Rightarrow> bytes \<Rightarrow> u64 \<Rightarrow> u64" where
  "read_le_loop index [] value = value"
| "read_le_loop index (b # bs) value =
     read_le_loop (Suc index) bs (value OR push_bit (8 * index) (ucast b))"

definition read_le :: "bytes \<Rightarrow> u64" where
  "read_le bs = read_le_loop 0 bs 0"

definition write_le :: "nat \<Rightarrow> u64 \<Rightarrow> bytes" where
  "write_le n value = map (\<lambda>index. ucast (drop_bit (8 * index) value AND 0xff)) [0..<n]"

lemma bit_byte_shift:
  "bit (push_bit n (ucast (x::u8)) :: u64) k \<longleftrightarrow> k < 64 \<and> n \<le> k \<and> k < n + 8 \<and> bit x (k - n)"
proof -
  have "bit x (k - n) \<Longrightarrow> k - n < 8" using bit_imp_le_length[of x "k - n"] by simp
  then show ?thesis by (auto simp: bit_push_bit_iff bit_ucast_iff)
qed

lemma byte_span_div: "8 * i \<le> k \<and> k < 8 * i + 8 \<longleftrightarrow> k div 8 = (i::nat)"
  by auto

lemma read_le_loop_bit:
  "bit (read_le_loop i bs v) k \<longleftrightarrow> bit v k \<or>
     (k < 64 \<and> i \<le> k div 8 \<and> k div 8 < i + length bs \<and> bit (bs ! (k div 8 - i)) (k mod 8))"
proof (induction bs arbitrary: i v)
  case Nil
  then show ?case by auto
next
  case (Cons b bs)
  have "bit (push_bit (8 * i) (ucast b) :: u64) k \<longleftrightarrow> k < 64 \<and> k div 8 = i \<and> bit b (k mod 8)"
  proof -
    have "k div 8 = i \<Longrightarrow> k - 8 * i = k mod 8" by (simp add: modulo_nat_def mult.commute)
    then show ?thesis using byte_span_div[of i k] unfolding bit_byte_shift by auto
  qed
  then show ?case
    unfolding read_le_loop.simps Cons.IH bit_or_iff
    by (cases "k div 8 = i") (auto simp: nth_Cons' Suc_le_eq)
qed

lemma read_le_bit:
  "bit (read_le bs) k \<longleftrightarrow> k < 64 \<and> k div 8 < length bs \<and> bit (bs ! (k div 8)) (k mod 8)"
  by (simp add: read_le_def read_le_loop_bit)

lemma length_write_le [simp]: "length (write_le n v) = n"
  by (simp add: write_le_def)

lemma write_le_nth_bit:
  "i < n \<Longrightarrow> bit (write_le n v ! i) k \<longleftrightarrow> k < 8 \<and> bit v (8 * i + k)"
proof -
  have m: "(255::u64) = mask 8" by (simp add: mask_eq_exp_minus_1)
  assume "i < n"
  then show ?thesis
    unfolding write_le_def m by (auto simp: bit_ucast_iff bit_and_iff bit_drop_bit_eq
        bit_mask_iff simp del: mask_numeral dest: bit_imp_le_length)
qed

lemma read_write_le:
  assumes "n \<le> 8" and "unat v < 2 ^ (8 * n)"
  shows "read_le (write_le n v) = v"
proof (rule bit_word_eqI)
  fix k assume k: "k < LENGTH(64)"
  have "v = take_bit (8 * n) v"
    using assms by (simp add: word_unat_eq_iff unsigned_take_bit_eq take_bit_nat_eq_self)
  then have hi: "bit v k \<Longrightarrow> k < 8 * n" by (metis bit_take_bit_iff)
  show "bit (read_le (write_le n v)) k = bit v k"
    using k hi by (auto simp: read_le_bit write_le_nth_bit less_mult_imp_div_less mult.commute)
qed

lemma write_read_le:
  assumes "length bs = n" and "n \<le> 8"
  shows "write_le n (read_le bs) = bs"
proof (rule nth_equalityI)
  fix i assume "i < length (write_le n (read_le bs))"
  then have i: "i < n" by simp
  have b: "(8 * i + k) div 8 = i" "(8 * i + k) mod 8 = k" if "k < 8" for k
    using that by auto
  show "write_le n (read_le bs) ! i = bs ! i"
    by (rule bit_word_eqI) (use i assms in \<open>auto simp: write_le_nth_bit read_le_bit b\<close>)
qed (simp add: assms)

section \<open>Header, decoder, encoder\<close>

definition fixture_magic :: u64 where "fixture_magic = 1480933715"
definition fixture_version :: u64 where "fixture_version = 1"
definition fixture_payload_bytes :: nat where "fixture_payload_bytes = 32"
definition fixture_header_bytes :: nat where "fixture_header_bytes = 12"
definition fixture_frame_bytes :: nat where
  "fixture_frame_bytes = fixture_header_bytes + fixture_payload_bytes"

lemmas fixture_sizes = fixture_payload_bytes_def fixture_header_bytes_def fixture_frame_bytes_def
lemmas fixture_constants = fixture_magic_def fixture_version_def

datatype decode_error = none | truncated | bad_magic | unsupported_version | reserved_bits
  | invalid_length | invalid_entity

record decode_result =
  derror :: decode_error
  dentity :: entity_ref

text \<open>\<open>std::span::subspan(off, n)\<close>\<close>

definition subspan :: "nat \<Rightarrow> nat \<Rightarrow> bytes \<Rightarrow> bytes" where
  "subspan off n bs = take n (drop off bs)"

definition validate_fixture_header :: "bytes \<Rightarrow> decode_error" where
  "validate_fixture_header header =
    (if length header \<noteq> fixture_header_bytes then truncated
     else if read_le (take 4 header) \<noteq> fixture_magic then bad_magic
     else if read_le (subspan 4 2 header) \<noteq> fixture_version then unsupported_version
     else if read_le (subspan 6 2 header) \<noteq> 0 then reserved_bits
     else if read_le (subspan 8 4 header) \<noteq> word_of_nat fixture_payload_bytes then invalid_length
     else none)"

definition decode_fixture :: "bytes \<Rightarrow> decode_result" where
  "decode_fixture frame =
    (if length frame < fixture_header_bytes then \<lparr>derror = truncated, dentity = default_entity\<rparr>
     else let header = validate_fixture_header (take fixture_header_bytes frame) in
       if header \<noteq> none then \<lparr>derror = header, dentity = default_entity\<rparr>
       else if length frame \<noteq> fixture_frame_bytes
         then \<lparr>derror = invalid_length, dentity = default_entity\<rparr>
       else let entity = EntityRef (StrongId (read_le (subspan 12 8 frame)))
                (StrongId (read_le (subspan 20 8 frame))) (StrongId (read_le (subspan 28 8 frame)))
                (StrongId (read_le (subspan 36 8 frame)))
         in \<lparr>derror = (if entity_valid entity then none else invalid_entity), dentity = entity\<rparr>)"

text \<open>\<open>write_le(bytes.subspan(off, n), value)\<close> on the zero-initialised frame.\<close>

definition write_at :: "nat \<Rightarrow> nat \<Rightarrow> u64 \<Rightarrow> bytes \<Rightarrow> bytes" where
  "write_at off n value frame = take off frame @ write_le n value @ drop (off + n) frame"

text \<open>\<open>None\<close> is the \<open>std::invalid_argument\<close> the encoder throws.\<close>

definition encode_fixture :: "entity_ref \<Rightarrow> bytes option" where
  "encode_fixture entity =
    (if \<not> entity_valid entity then None
     else let frame = replicate fixture_frame_bytes 0;
              frame = write_at 0 4 fixture_magic frame;
              frame = write_at 4 2 fixture_version frame;
              frame = write_at 8 4 (word_of_nat fixture_payload_bytes) frame;
              frame = write_at 12 8 (id_value (worldId entity)) frame;
              frame = write_at 20 8 (id_value (worldEpoch entity)) frame;
              frame = write_at 28 8 (id_value (entityId entity)) frame;
              frame = write_at 36 8 (id_value (generation entity)) frame
          in Some frame)"

text \<open>The header every encoded frame starts with.\<close>

definition fixture_header :: bytes where
  "fixture_header = write_le 4 fixture_magic @ write_le 2 fixture_version @ [0, 0]
     @ write_le 4 (word_of_nat fixture_payload_bytes)"

definition entity_bytes :: "entity_ref \<Rightarrow> bytes" where
  "entity_bytes e = write_le 8 (id_value (worldId e)) @ write_le 8 (id_value (worldEpoch e))
     @ write_le 8 (id_value (entityId e)) @ write_le 8 (id_value (generation e))"

lemma write_at_skip:
  "length a \<le> off \<Longrightarrow> write_at off n v (a @ r) = a @ write_at (off - length a) n v r"
  by (simp add: write_at_def)

lemma write_at_here: "length b = n \<Longrightarrow> write_at 0 n v (b @ c) = write_le n v @ c"
  by (simp add: write_at_def)

lemma write_at_last: "length b = n \<Longrightarrow> write_at 0 n v b = write_le n v"
  by (simp add: write_at_def)

lemma zero_frame_split:
  "replicate fixture_frame_bytes (0::u8) = replicate 4 0 @ replicate 2 0 @ replicate 2 0
     @ replicate 4 0 @ replicate 8 0 @ replicate 8 0 @ replicate 8 0 @ replicate 8 0"
  by (simp add: fixture_sizes flip: replicate_add)

lemma encode_fixture_eq:
  "encode_fixture e = (if entity_valid e then Some (fixture_header @ entity_bytes e) else None)"
proof -
  have "[0, 0] = replicate 2 (0::u8)" by (simp add: numeral_eq_Suc)
  then show ?thesis
    unfolding encode_fixture_def zero_frame_split Let_def fixture_header_def entity_bytes_def
    by (simp add: write_at_skip write_at_here write_at_last)
qed

section \<open>Round trips\<close>

lemma subspan_skip:
  "length a \<le> off \<Longrightarrow> subspan off n (a @ r) = subspan (off - length a) n r"
  by (simp add: subspan_def)

lemma subspan_here: "length b = n \<Longrightarrow> subspan 0 n (b @ c) = b"
  by (simp add: subspan_def)

lemma subspan_last: "length b = n \<Longrightarrow> subspan 0 n b = b"
  by (simp add: subspan_def)

lemmas subspan_simps = subspan_skip subspan_here subspan_last

lemma length_fixture_header [simp]: "length fixture_header = 12"
  by (simp add: fixture_header_def)

lemma length_entity_bytes [simp]: "length (entity_bytes e) = 32"
  by (simp add: entity_bytes_def)

lemma read_write_le8 [simp]: "read_le (write_le 8 v) = v"
  by (rule read_write_le) (use unsigned_less[of v, where ?'a = nat] in simp_all)

lemma read_zeros: "read_le [0, 0] = 0"
  by (simp add: read_le_def)

lemma validate_fixture_header_accepts: "validate_fixture_header fixture_header = none"
proof -
  have t: "take 4 fixture_header = write_le 4 fixture_magic"
    by (simp add: fixture_header_def)
  have "read_le (write_le 4 fixture_magic) = fixture_magic"
    and "read_le (write_le 2 fixture_version) = fixture_version"
    and "read_le (write_le 4 (word_of_nat fixture_payload_bytes)) = word_of_nat fixture_payload_bytes"
    by (rule read_write_le; simp add: fixture_constants fixture_sizes)+
  moreover have "subspan 4 2 fixture_header = write_le 2 fixture_version"
    and "subspan 6 2 fixture_header = [0, 0]"
    and "subspan 8 4 fixture_header = write_le 4 (word_of_nat fixture_payload_bytes)"
    by (simp_all add: fixture_header_def subspan_simps subspan_def)
  ultimately show ?thesis
    by (simp add: validate_fixture_header_def t read_zeros fixture_sizes)
qed

lemma take_subspan_split:
  "length f = n + m \<Longrightarrow> f = take n f @ subspan n m f"
  by (simp add: subspan_def)

lemma subspan_split:
  "length f \<ge> off + n + m \<Longrightarrow> subspan off (n + m) f = subspan off n f @ subspan (off + n) m f"
  by (simp add: subspan_def take_add add.commute[of off n])

lemma length_subspan: "off + n \<le> length f \<Longrightarrow> length (subspan off n f) = n"
  by (simp add: subspan_def)

lemma validate_fixture_header_only:
  assumes "validate_fixture_header h = none"
  shows "h = fixture_header"
proof -
  from assms have len: "length h = 12" and parts: "read_le (take 4 h) = fixture_magic"
      "read_le (subspan 4 2 h) = fixture_version" "read_le (subspan 6 2 h) = 0"
      "read_le (subspan 8 4 h) = word_of_nat fixture_payload_bytes"
    by (auto simp: validate_fixture_header_def fixture_header_bytes_def split: if_splits)
  have "h = take 4 h @ subspan 4 8 h" using len take_subspan_split[of h 4 8] by simp
  also have "subspan 4 8 h = subspan 4 2 h @ subspan 6 6 h"
    using subspan_split[of 4 2 6 h] len by simp
  also have "subspan 6 6 h = subspan 6 2 h @ subspan 8 4 h"
    using subspan_split[of 6 2 4 h] len by simp
  finally have h: "h = take 4 h @ subspan 4 2 h @ subspan 6 2 h @ subspan 8 4 h" .
  have "take 4 h = write_le 4 fixture_magic"
    using write_read_le[of "take 4 h" 4] len parts by simp
  moreover have "subspan 4 2 h = write_le 2 fixture_version"
    using write_read_le[of "subspan 4 2 h" 2] len parts by (simp add: length_subspan)
  moreover have "subspan 6 2 h = [0, 0]"
    using write_read_le[of "subspan 6 2 h" 2] len parts
    by (simp add: length_subspan write_le_def numeral_2_eq_2)
  moreover have "subspan 8 4 h = write_le 4 (word_of_nat fixture_payload_bytes)"
    using write_read_le[of "subspan 8 4 h" 4] len parts by (simp add: length_subspan)
  ultimately show ?thesis using h by (simp add: fixture_header_def)
qed

lemma decode_encoded:
  assumes "entity_valid e"
  shows "decode_fixture (fixture_header @ entity_bytes e) = \<lparr>derror = none, dentity = e\<rparr>"
proof -
  have "subspan 12 8 (fixture_header @ entity_bytes e) = write_le 8 (id_value (worldId e))"
    "subspan 20 8 (fixture_header @ entity_bytes e) = write_le 8 (id_value (worldEpoch e))"
    "subspan 28 8 (fixture_header @ entity_bytes e) = write_le 8 (id_value (entityId e))"
    "subspan 36 8 (fixture_header @ entity_bytes e) = write_le 8 (id_value (generation e))"
    by (simp_all add: subspan_simps entity_bytes_def)
  with assms show ?thesis
    by (simp add: decode_fixture_def fixture_sizes validate_fixture_header_accepts)
qed

lemma decode_accepts_only:
  assumes "decode_fixture f = \<lparr>derror = none, dentity = e\<rparr>"
  shows "entity_valid e \<and> f = fixture_header @ entity_bytes e"
proof -
  from assms have len: "length f = 44" and hdr: "validate_fixture_header (take 12 f) = none"
    and v: "entity_valid e"
    and e: "e = EntityRef (StrongId (read_le (subspan 12 8 f))) (StrongId (read_le (subspan 20 8 f)))
      (StrongId (read_le (subspan 28 8 f))) (StrongId (read_le (subspan 36 8 f)))"
    by (auto simp: decode_fixture_def fixture_sizes Let_def split: if_splits)
  have "f = take 12 f @ subspan 12 32 f" using len take_subspan_split[of f 12 32] by simp
  also have "take 12 f = fixture_header" using hdr by (rule validate_fixture_header_only)
  also have "subspan 12 32 f = subspan 12 8 f @ subspan 20 24 f"
    using subspan_split[of 12 8 24 f] len by simp
  also have "subspan 20 24 f = subspan 20 8 f @ subspan 28 16 f"
    using subspan_split[of 20 8 16 f] len by simp
  also have "subspan 28 16 f = subspan 28 8 f @ subspan 36 8 f"
    using subspan_split[of 28 8 8 f] len by simp
  also have "subspan 12 8 f @ subspan 20 8 f @ subspan 28 8 f @ subspan 36 8 f = entity_bytes e"
    using len by (simp add: e entity_bytes_def write_read_le length_subspan)
  finally show ?thesis using v by simp
qed

text \<open>
  Claim C1. The decoder accepts exactly the frames the encoder produces, and returns the entity
  that was encoded: decoding inverts encoding, no second byte sequence decodes to the same
  entity, and an invalid entity is never accepted.
\<close>

theorem codec_decodes_exactly_encoded_frames:
  "decode_fixture frame = \<lparr>derror = none, dentity = e\<rparr> \<longleftrightarrow> encode_fixture e = Some frame"
proof
  assume "decode_fixture frame = \<lparr>derror = none, dentity = e\<rparr>"
  then show "encode_fixture e = Some frame"
    using decode_accepts_only[of frame e] by (simp add: encode_fixture_eq)
next
  assume "encode_fixture e = Some frame"
  then show "decode_fixture frame = \<lparr>derror = none, dentity = e\<rparr>"
    by (auto simp: encode_fixture_eq decode_encoded split: if_splits)
qed

section \<open>The stdin/stdout probe\<close>

text \<open>
  \<open>src/tools/contract_probe.cpp\<close>, on the bytes that standard input delivers before its end.
  \<open>std::cin.read\<close> takes as many bytes as are left, up to the count; \<open>written\<close> is
  \<open>std::cout.good()\<close> after the write. The result is the exit code, standard output and
  the diagnostic on standard error.
\<close>

definition contract_probe :: "bool \<Rightarrow> bytes \<Rightarrow> nat \<times> bytes \<times> string" where
  "contract_probe written input =
    (let header = take fixture_header_bytes input; rest = drop fixture_header_bytes input in
     if length header \<noteq> fixture_header_bytes then (2, [], ''truncated_header'')
     else if validate_fixture_header header \<noteq> none then (3, [], ''invalid_header'')
     else let payload = take fixture_payload_bytes rest; tail = drop fixture_payload_bytes rest in
       if length payload \<noteq> fixture_payload_bytes then (2, [], ''truncated_payload'')
       else if tail \<noteq> [] then (3, [], ''trailing_bytes'')
       else let decoded = decode_fixture (header @ payload) in
         if derror decoded \<noteq> none then (4, [], ''invalid_entity'')
         else case encode_fixture (dentity decoded) of
             None \<Rightarrow> (4, [], ''uncaught_invalid_argument'')
           | Some output \<Rightarrow> ((if written then 0 else 5), output, []))"

lemma probe_accepts:
  assumes "encode_fixture e = Some input"
  shows "contract_probe True input = (0, input, [])"
proof -
  from assms have i: "input = fixture_header @ entity_bytes e" and v: "entity_valid e"
    by (auto simp: encode_fixture_eq split: if_splits)
  then show ?thesis
    by (simp add: contract_probe_def fixture_sizes validate_fixture_header_accepts
        decode_encoded encode_fixture_eq)
qed

lemma probe_exit_zero:
  assumes "contract_probe True input = (0, output, err)"
  shows "\<exists>e. encode_fixture e = Some input"
proof -
  define d where "d = decode_fixture input"
  from assms have "derror d = none"
    by (auto simp: contract_probe_def fixture_sizes Let_def d_def append_take_drop_id
        split: if_splits option.splits)
  then have "decode_fixture input = \<lparr>derror = none, dentity = dentity d\<rparr>" by (simp add: d_def)
  then show ?thesis
    using decode_accepts_only by (auto simp: encode_fixture_eq)
qed

lemma encode_of_decoded:
  "derror (decode_fixture f) = none \<Longrightarrow> encode_fixture (dentity (decode_fixture f)) = Some f"
  using decode_accepts_only[of f "dentity (decode_fixture f)"]
  by (cases "decode_fixture f") (auto simp: encode_fixture_eq)

lemma probe_never_throws: "snd (snd (contract_probe w input)) \<noteq> ''uncaught_invalid_argument''"
  by (auto simp: contract_probe_def Let_def dest: encode_of_decoded split: if_splits option.splits)

text \<open>
  Claim C2. With a working standard output the probe exits with 0 exactly on the encoding of
  some valid entity; it echoes that frame byte for byte and writes nothing in every other
  case; and the exception the encoder could throw is never reached.
\<close>

theorem probe_echoes_exactly_valid_frames:
  "(fst (contract_probe True input) = 0 \<longleftrightarrow> (\<exists>e. encode_fixture e = Some input))
   \<and> fst (snd (contract_probe True input)) = (if \<exists>e. encode_fixture e = Some input then input else [])
   \<and> snd (snd (contract_probe True input)) \<noteq> ''uncaught_invalid_argument''"
proof (cases "\<exists>e. encode_fixture e = Some input")
  case True
  then show ?thesis using probe_accepts by auto
next
  case False
  then have nz: "fst (contract_probe True input) \<noteq> 0"
    using probe_exit_zero[of input "fst (snd (contract_probe True input))"]
    by (metis prod.collapse)
  then have "fst (snd (contract_probe True input)) = []"
    by (auto simp: contract_probe_def Let_def split: if_splits option.splits)
  with False nz show ?thesis by (simp add: probe_never_throws)
qed

end
