(* ===== verification/Bounded_Inbox.thy ===== *)
theory Bounded_Inbox
  imports Identity
begin

text \<open>
  \<open>include/saex/core/bounded_inbox.hpp\<close> and \<open>src/core/bounded_inbox.cpp\<close>: the byte- and
  item-bounded command queue. Each member function holds the mutex for its whole body, so an
  execution of any number of threads is a sequence of operations.

  The interface \<open>bounded_fifo\<close> states what a bounded first-in-first-out queue promises; its
  conservation law is proved once and interpreted on the inbox.
\<close>

section \<open>The interface: a bounded queue that may refuse\<close>

text \<open>
  \<open>fifo_run\<close> performs a sequence of operations (\<open>Some x\<close> offers \<open>x\<close>, \<open>None\<close> takes one) and
  collects what was admitted and what was taken, in order.
\<close>

fun fifo_run :: "('a \<Rightarrow> 'q \<Rightarrow> bool \<times> 'q) \<Rightarrow> ('q \<Rightarrow> 'a option \<times> 'q) \<Rightarrow> 'a option list \<Rightarrow> 'q
    \<Rightarrow> 'a list \<times> 'a list \<times> 'q" where
  "fifo_run enq deq [] q = ([], [], q)"
| "fifo_run enq deq (Some x # ops) q =
     (case enq x q of (ok, q') \<Rightarrow> (case fifo_run enq deq ops q' of (ins, outs, r) \<Rightarrow>
        ((if ok then x # ins else ins), outs, r)))"
| "fifo_run enq deq (None # ops) q =
     (case deq q of (y, q') \<Rightarrow> (case fifo_run enq deq ops q' of (ins, outs, r) \<Rightarrow>
        (ins, (case y of None \<Rightarrow> outs | Some z \<Rightarrow> z # outs), r)))"

locale bounded_fifo =
  fixes enq :: "'a \<Rightarrow> 'q \<Rightarrow> bool \<times> 'q"
    and deq :: "'q \<Rightarrow> 'a option \<times> 'q"
    and items :: "'q \<Rightarrow> 'a list"
    and invar :: "'q \<Rightarrow> bool"
    and offerable :: "'a \<Rightarrow> bool"
  assumes enq_items: "invar q \<Longrightarrow> offerable x \<Longrightarrow> enq x q = (ok, q') \<Longrightarrow>
      items q' = (if ok then items q @ [x] else items q)"
    and enq_invar: "invar q \<Longrightarrow> offerable x \<Longrightarrow> enq x q = (ok, q') \<Longrightarrow> invar q'"
    and deq_items: "invar q \<Longrightarrow> deq q = (y, q') \<Longrightarrow>
      (case y of None \<Rightarrow> items q = [] \<and> items q' = [] | Some z \<Rightarrow> items q = z # items q')"
    and deq_invar: "invar q \<Longrightarrow> deq q = (y, q') \<Longrightarrow> invar q'"
begin

text \<open>Nothing is lost, duplicated or reordered: what was there and what was admitted is, in
  order, what was taken followed by what is left.\<close>

lemma run_conserves:
  "invar q \<Longrightarrow> \<forall>x. Some x \<in> set ops \<longrightarrow> offerable x \<Longrightarrow>
   fifo_run enq deq ops q = (ins, outs, r) \<Longrightarrow> items q @ ins = outs @ items r"
proof (induction ops arbitrary: q ins outs)
  case Nil
  then show ?case by simp
next
  case (Cons op ops)
  show ?case
  proof (cases op)
    case None
    obtain y q' where d: "deq q = (y, q')" by fastforce
    obtain i o' r' where f: "fifo_run enq deq ops q' = (i, o', r')" by (metis prod_cases3)
    have "items q' @ i = o' @ items r'"
      using Cons.IH[of q' i o'] Cons.prems d f None deq_invar by auto
    then show ?thesis
      using deq_items[OF Cons.prems(1) d] Cons.prems(3) None d f by (auto split: option.splits)
  next
    case (Some x)
    obtain ok q' where e: "enq x q = (ok, q')" by fastforce
    obtain i o' r' where f: "fifo_run enq deq ops q' = (i, o', r')" by (metis prod_cases3)
    have off: "offerable x" using Cons.prems(2) Some by simp
    have "items q' @ i = o' @ items r'"
      using Cons.IH[of q' i o'] Cons.prems e f Some off enq_invar by auto
    then show ?thesis
      using enq_items[OF Cons.prems(1) off e] Cons.prems(3) Some e f by (auto split: if_splits)
  qed
qed

end

section \<open>The inbox\<close>

datatype admission = admitted | closed_inbox | invalid_epoch | item_limit | byte_limit

record ingress_command =
  resource :: ResourceEpoch
  payload :: bytes

record inbox_usage =
  used_items :: u64
  charged_bytes :: u64
  is_closed :: bool

record inbox =
  max_items :: u64
  max_bytes :: u64
  queue :: "ingress_command list"
  bytes_used :: u64
  closed :: bool

text \<open>
  \<open>size_t\<close> is 64 bits on the core's targets. \<open>command_charge = sizeof(IngressCommand)\<close> is fixed by
  the compiler's layout of \<open>std::vector\<close> and is a parameter of the model.
\<close>

definition size_of :: "'a list \<Rightarrow> u64" where
  "size_of xs = word_of_nat (length xs)"

text \<open>\<open>None\<close> is the \<open>std::invalid_argument\<close> of the constructor.\<close>

definition new_inbox :: "u64 \<Rightarrow> u64 \<Rightarrow> u64 \<Rightarrow> inbox option" where
  "new_inbox command_charge items limit =
    (if items = 0 \<or> limit < command_charge then None
     else Some \<lparr>max_items = items, max_bytes = limit, queue = [], bytes_used = 0, closed = False\<rparr>)"

definition push :: "u64 \<Rightarrow> ResourceEpoch \<Rightarrow> bytes \<Rightarrow> inbox \<Rightarrow> admission \<times> inbox" where
  "push command_charge res p ib =
    (if closed ib then (closed_inbox, ib)
     else if id_value res = 0 then (invalid_epoch, ib)
     else if size_of (queue ib) \<ge> max_items ib then (item_limit, ib)
     else let remaining = max_bytes ib - bytes_used ib in
       if remaining < command_charge \<or> size_of p > remaining - command_charge then (byte_limit, ib)
       else (admitted, ib\<lparr>queue := queue ib @ [\<lparr>resource = res, payload = p\<rparr>],
                          bytes_used := bytes_used ib + (command_charge + size_of p)\<rparr>))"

definition pop :: "u64 \<Rightarrow> inbox \<Rightarrow> ingress_command option \<times> inbox" where
  "pop command_charge ib =
    (case queue ib of [] \<Rightarrow> (None, ib)
     | command # rest \<Rightarrow> (Some command, ib\<lparr>queue := rest,
         bytes_used := bytes_used ib - (command_charge + size_of (payload command))\<rparr>))"

definition usage :: "inbox \<Rightarrow> inbox_usage" where
  "usage ib = \<lparr>used_items = size_of (queue ib), charged_bytes = bytes_used ib,
     is_closed = closed ib\<rparr>"

definition close_inbox :: "inbox \<Rightarrow> inbox" where
  "close_inbox ib = ib\<lparr>closed := True\<rparr>"

section \<open>The invariant\<close>

text \<open>What the queued commands cost, in unbounded arithmetic.\<close>

definition charge_of :: "u64 \<Rightarrow> ingress_command list \<Rightarrow> nat" where
  "charge_of command_charge cs = (\<Sum>c\<leftarrow>cs. unat command_charge + length (payload c))"

definition inbox_inv :: "u64 \<Rightarrow> inbox \<Rightarrow> bool" where
  "inbox_inv command_charge ib \<longleftrightarrow>
     unat (bytes_used ib) = charge_of command_charge (queue ib) \<and>
     bytes_used ib \<le> max_bytes ib \<and> length (queue ib) \<le> unat (max_items ib) \<and>
     (\<forall>c \<in> set (queue ib). id_value (resource c) \<noteq> 0 \<and> length (payload c) < 2 ^ 64)"

lemma unat_size_of: "length xs < 2 ^ 64 \<Longrightarrow> unat (size_of xs) = length xs"
  by (simp add: size_of_def unsigned_of_nat take_bit_nat_eq_self)

lemma charge_of_append: "charge_of k (xs @ ys) = charge_of k xs + charge_of k ys"
  by (simp add: charge_of_def)

lemma charge_of_Cons: "charge_of k (c # cs) = unat k + length (payload c) + charge_of k cs"
  by (simp add: charge_of_def)

text \<open>The two unsigned comparisons of the byte test do not wrap: they say that the command fits.\<close>

lemma fits_in_remaining:
  assumes "(used::u64) \<le> limit" and "length p < 2 ^ 64"
  shows "\<not> (limit - used < k \<or> size_of p > limit - used - k) \<longleftrightarrow>
         unat used + unat k + length p \<le> unat limit"
proof -
  have r: "unat (limit - used) = unat limit - unat used" "unat used \<le> unat limit"
    using assms(1) by (simp_all add: unat_sub word_le_nat_alt)
  show ?thesis
  proof (cases "limit - used < k")
    case True
    then have "unat limit - unat used < unat k" by (simp add: word_less_nat_alt r)
    with True r show ?thesis by simp
  next
    case False
    then have k: "k \<le> limit - used" "unat k \<le> unat limit - unat used"
      by (simp_all add: word_le_nat_alt r not_less)
    then have "unat (limit - used - k) = unat limit - unat used - unat k"
      by (simp add: unat_sub r)
    with False k r show ?thesis
      by (auto simp: not_less word_le_nat_alt unat_size_of[OF assms(2)])
  qed
qed

lemma inbox_inv_item_test:
  assumes "inbox_inv k ib"
  shows "size_of (queue ib) \<ge> max_items ib \<longleftrightarrow> length (queue ib) = unat (max_items ib)"
proof -
  have "length (queue ib) \<le> unat (max_items ib)" using assms by (simp add: inbox_inv_def)
  moreover have "unat (max_items ib) < 2 ^ 64"
    using unsigned_less[of "max_items ib", where ?'a = nat] by simp
  ultimately show ?thesis by (auto simp: word_le_nat_alt unat_size_of)
qed

lemma push_admitted_iff:
  assumes inv: "inbox_inv k ib" and len: "length p < 2 ^ 64"
  shows "fst (push k res p ib) = admitted \<longleftrightarrow>
     \<not> closed ib \<and> id_value res \<noteq> 0 \<and> length (queue ib) < unat (max_items ib) \<and>
     unat (bytes_used ib) + unat k + length p \<le> unat (max_bytes ib)"
proof -
  have used: "bytes_used ib \<le> max_bytes ib" "length (queue ib) \<le> unat (max_items ib)"
    using inv by (simp_all add: inbox_inv_def)
  show ?thesis
    using fits_in_remaining[OF used(1) len, of k] inbox_inv_item_test[OF inv] used(2)
    by (auto simp: push_def Let_def)
qed

lemma push_refused: "fst (push k res p ib) \<noteq> admitted \<Longrightarrow> snd (push k res p ib) = ib"
  by (auto simp: push_def Let_def)

lemma push_admitted_state:
  "fst (push k res p ib) = admitted \<Longrightarrow> snd (push k res p ib) =
     ib\<lparr>queue := queue ib @ [\<lparr>resource = res, payload = p\<rparr>],
        bytes_used := bytes_used ib + (k + size_of p)\<rparr>"
  by (auto simp: push_def Let_def split: if_splits)

lemma push_inv:
  assumes inv: "inbox_inv k ib" and len: "length p < 2 ^ 64"
  shows "inbox_inv k (snd (push k res p ib))"
proof (cases "fst (push k res p ib) = admitted")
  case False
  with inv show ?thesis by (simp add: push_refused)
next
  case True
  then have adm: "id_value res \<noteq> 0" "length (queue ib) < unat (max_items ib)"
      "unat (bytes_used ib) + unat k + length p \<le> unat (max_bytes ib)"
    using push_admitted_iff[OF inv len] by simp_all
  have top: "unat (max_bytes ib) < 2 ^ LENGTH(64)"
    using unsigned_less[of "max_bytes ib", where ?'a = nat] by simp
  have kp: "unat (k + size_of p) = unat k + length p"
    using adm(3) top unat_add_lem[of k "size_of p"] by (simp add: unat_size_of[OF len])
  have "unat (bytes_used ib + (k + size_of p)) = unat (bytes_used ib) + (unat k + length p)"
    using adm(3) top unat_add_lem[of "bytes_used ib" "k + size_of p"] by (simp add: kp)
  with adm inv len show ?thesis
    by (auto simp: push_admitted_state[OF True] inbox_inv_def charge_of_append charge_of_Cons
        charge_of_def word_le_nat_alt)
qed

lemma pop_inv:
  assumes inv: "inbox_inv k ib"
  shows "inbox_inv k (snd (pop k ib))"
proof (cases "queue ib")
  case Nil
  with inv show ?thesis by (simp add: pop_def)
next
  case (Cons c cs)
  have u: "unat (bytes_used ib) = unat k + length (payload c) + charge_of k cs"
    and len: "length (payload c) < 2 ^ 64"
    using inv Cons by (simp_all add: inbox_inv_def charge_of_Cons)
  have "unat (bytes_used ib) < 2 ^ LENGTH(64)"
    using unsigned_less[of "bytes_used ib", where ?'a = nat] by simp
  then have kp: "unat (k + size_of (payload c)) = unat k + length (payload c)"
    using u unat_add_lem[of k "size_of (payload c)"] by (simp add: unat_size_of[OF len])
  then have le: "k + size_of (payload c) \<le> bytes_used ib" using u by (simp add: word_le_nat_alt)
  then have "unat (bytes_used ib - (k + size_of (payload c))) = charge_of k cs"
    using u by (simp add: unat_sub kp)
  moreover have "bytes_used ib - (k + size_of (payload c)) \<le> max_bytes ib"
    using inv u calculation by (simp add: inbox_inv_def word_le_nat_alt)
  ultimately show ?thesis using inv Cons by (simp add: pop_def inbox_inv_def)
qed

lemma new_inbox_inv: "new_inbox k m b = Some ib \<Longrightarrow> inbox_inv k ib"
  by (auto simp: new_inbox_def inbox_inv_def charge_of_def split: if_splits)

section \<open>The inbox implements the interface\<close>

definition inbox_enq :: "u64 \<Rightarrow> ingress_command \<Rightarrow> inbox \<Rightarrow> bool \<times> inbox" where
  "inbox_enq k c ib = (case push k (resource c) (payload c) ib of (a, ib') \<Rightarrow> (a = admitted, ib'))"

interpretation inbox: bounded_fifo "inbox_enq k" "pop k" queue "inbox_inv k"
    "\<lambda>c. length (payload c) < 2 ^ 64" for k
proof (unfold_locales, goal_cases)
  case (1 q x ok q')
  then show ?case
    using push_refused[of k "resource x" "payload x" q]
      push_admitted_state[of k "resource x" "payload x" q]
    by (auto simp: inbox_enq_def split: prod.splits)
next
  case (2 q x ok q')
  then show ?case
    using push_inv[of k q "payload x" "resource x"] by (auto simp: inbox_enq_def split: prod.splits)
next
  case (3 q y q')
  then show ?case by (auto simp: pop_def split: list.splits)
next
  case (4 q y q')
  then show ?case using pop_inv[of k q] by simp
qed

text \<open>
  Claim C3. From a fresh inbox, under any sequence of pushes and pops, the admitted commands are exactly
  the popped commands followed by the commands still queued, in order: nothing is lost,
  duplicated or reordered, whichever pushes are refused.
\<close>

theorem inbox_conserves_commands:
  assumes "new_inbox k items limit = Some ib"
    and "\<forall>c. Some c \<in> set ops \<longrightarrow> length (payload c) < 2 ^ 64"
    and "fifo_run (inbox_enq k) (pop k) ops ib = (admitted_cs, popped, ib')"
  shows "admitted_cs = popped @ queue ib'"
proof -
  have "queue ib @ admitted_cs = popped @ queue ib'"
    by (rule inbox.run_conserves[OF new_inbox_inv[OF assms(1)] assms(2,3)])
  moreover have "queue ib = []" using assms(1) by (auto simp: new_inbox_def split: if_splits)
  ultimately show ?thesis by simp
qed

theorem inbox_conserves_commands_witness:
  "\<exists>popped ib'. fifo_run (inbox_enq 32) (pop 32)
     [Some \<lparr>resource = StrongId 1, payload = [7]\<rparr>, None, Some \<lparr>resource = StrongId 0, payload = []\<rparr>]
     (the (new_inbox 32 2 100)) = ([\<lparr>resource = StrongId 1, payload = [7]\<rparr>], popped, ib')
   \<and> [\<lparr>resource = StrongId 1, payload = [7]\<rparr>] = popped @ queue ib'"
proof -
  let ?c = "\<lparr>resource = StrongId 1, payload = [7]\<rparr>"
  let ?ib = "\<lparr>max_items = 2, max_bytes = 100, queue = [], bytes_used = 0, closed = False\<rparr>"
  let ?ops = "[Some ?c, None, Some \<lparr>resource = StrongId 0, payload = []\<rparr>]"
  have n: "new_inbox 32 2 100 = Some ?ib" by (simp add: new_inbox_def)
  have r: "fifo_run (inbox_enq 32) (pop 32) ?ops ?ib = ([?c], [?c], ?ib)"
    by (simp add: inbox_enq_def push_def pop_def size_of_def)
  have "[?c] = [?c] @ queue ?ib"
    by (rule inbox_conserves_commands[OF n _ r]) auto
  then show ?thesis unfolding n option.sel r by (intro exI conjI) (rule refl)
qed

section \<open>Operation sequences\<close>

datatype inbox_op = OpPush ResourceEpoch bytes | OpPop | OpClose

fun inbox_step :: "u64 \<Rightarrow> inbox_op \<Rightarrow> inbox \<Rightarrow> inbox" where
  "inbox_step k (OpPush r p) ib = snd (push k r p ib)"
| "inbox_step k OpPop ib = snd (pop k ib)"
| "inbox_step k OpClose ib = close_inbox ib"

fun op_fits :: "inbox_op \<Rightarrow> bool" where
  "op_fits (OpPush r p) \<longleftrightarrow> length p < 2 ^ 64"
| "op_fits _ \<longleftrightarrow> True"

definition inbox_steps :: "u64 \<Rightarrow> inbox_op list \<Rightarrow> inbox \<Rightarrow> inbox" where
  "inbox_steps k ops ib = fold (inbox_step k) ops ib"

lemma inbox_step_inv: "op_fits op \<Longrightarrow> inbox_inv k ib \<Longrightarrow> inbox_inv k (inbox_step k op ib)"
  by (cases op) (simp_all add: push_inv pop_inv, simp add: close_inbox_def inbox_inv_def)

lemma inbox_step_limits:
  "max_items (inbox_step k op ib) = max_items ib \<and> max_bytes (inbox_step k op ib) = max_bytes ib
   \<and> (closed ib \<longrightarrow> closed (inbox_step k op ib))"
  by (cases op) (auto simp: push_def pop_def close_inbox_def Let_def split: list.splits)

lemma inbox_steps_inv:
  "\<forall>op \<in> set ops. op_fits op \<Longrightarrow> inbox_inv k ib \<Longrightarrow>
   inbox_inv k (inbox_steps k ops ib) \<and> max_items (inbox_steps k ops ib) = max_items ib \<and>
   max_bytes (inbox_steps k ops ib) = max_bytes ib"
  by (induction ops arbitrary: ib) (auto simp: inbox_steps_def inbox_step_inv inbox_step_limits)

text \<open>
  Claim C4. Under every sequence of pushes, pops and closes on a fresh inbox the reported usage is the
  true cost of the queued commands in unbounded arithmetic, and neither budget is ever
  exceeded; so the unsigned counters never wrap.
\<close>

theorem inbox_never_exceeds_budgets:
  assumes "new_inbox k items limit = Some ib" and "\<forall>op \<in> set ops. op_fits op"
  shows "let u = usage (inbox_steps k ops ib) in
     unat (charged_bytes u) = charge_of k (queue (inbox_steps k ops ib)) \<and>
     unat (used_items u) = length (queue (inbox_steps k ops ib)) \<and>
     charged_bytes u \<le> limit \<and> used_items u \<le> items"
proof -
  let ?q = "inbox_steps k ops ib"
  have lim: "max_items ib = items" "max_bytes ib = limit"
    using assms(1) by (auto simp: new_inbox_def split: if_splits)
  have inv: "inbox_inv k ?q" and mi: "max_items ?q = items" and mb: "max_bytes ?q = limit"
    using inbox_steps_inv[OF assms(2) new_inbox_inv[OF assms(1)]] lim by simp_all
  have len: "length (queue ?q) \<le> unat items" using inv mi by (simp add: inbox_inv_def)
  moreover have "unat items < 2 ^ 64" using unsigned_less[of items, where ?'a = nat] by simp
  ultimately have "unat (size_of (queue ?q)) = length (queue ?q)" by (simp add: unat_size_of)
  then show ?thesis
    using inv mb len by (simp add: usage_def inbox_inv_def word_le_nat_alt)
qed

theorem inbox_never_exceeds_budgets_witness:
  "charged_bytes (usage (inbox_steps 32 [OpPush (StrongId 1) [7, 8], OpPush (StrongId 1) [9], OpClose]
     (the (new_inbox 32 2 66)))) \<le> 66"
proof -
  have n: "new_inbox 32 2 66 = Some \<lparr>max_items = 2, max_bytes = 66, queue = [], bytes_used = 0, closed = False\<rparr>"
    by (simp add: new_inbox_def)
  show ?thesis
    using inbox_never_exceeds_budgets[OF n, of "[OpPush (StrongId 1) [7, 8], OpPush (StrongId 1) [9], OpClose]"]
    by (simp add: n Let_def)
qed

end
