(* ===== verification/Control_Clock.thy ===== *)
theory Control_Clock
  imports Identity
begin

text \<open>
  \<open>include/saex/core/control_clock.hpp\<close> and \<open>src/core/control_clock.cpp\<close>: time stamps, the
  clock interface and the steady clock that implements it.
\<close>

record control_stamp =
  domain :: ClockDomainId
  microseconds :: u64

text \<open>
  The interface \<open>ControlClock\<close>: \<open>now\<close> reads the clock in a world state, \<open>later\<close> orders the
  world states in which the process runs. A clock that keeps the contract has one nonzero
  domain, counts fewer than \<open>2^62\<close> microseconds and never steps back.
\<close>

locale control_clock =
  fixes now :: "'w \<Rightarrow> control_stamp"
    and later :: "'w \<Rightarrow> 'w \<Rightarrow> bool"
    and running :: "'w \<Rightarrow> bool"
  assumes nonzero_domain: "running w \<Longrightarrow> id_value (domain (now w)) \<noteq> 0"
    and same_domain: "running w \<Longrightarrow> running w' \<Longrightarrow> domain (now w) = domain (now w')"
    and bounded: "running w \<Longrightarrow> unat (microseconds (now w)) < 2 ^ 62"
    and monotone: "running w \<Longrightarrow> running w' \<Longrightarrow> later w w' \<Longrightarrow>
      microseconds (now w) \<le> microseconds (now w')"

text \<open>
  \<open>SteadyControlClock\<close>: the world state is the reading of \<open>std::chrono::steady_clock\<close> in
  nanoseconds (monotonic by the standard). The constructor refuses the zero domain.
\<close>

record steady_control_clock =
  clock_domain :: ClockDomainId
  origin :: nat

definition new_steady_clock :: "ClockDomainId \<Rightarrow> nat \<Rightarrow> steady_control_clock option" where
  "new_steady_clock d t = (if id_value d = 0 then None
     else Some \<lparr>clock_domain = d, origin = t\<rparr>)"

definition steady_now :: "steady_control_clock \<Rightarrow> nat \<Rightarrow> control_stamp" where
  "steady_now c t = \<lparr>domain = clock_domain c,
     microseconds = word_of_nat ((t - origin c) div 1000)\<rparr>"

text \<open>
  \<open>std::chrono\<close> counts nanoseconds in 64 signed bits, so the readings a process can see stay
  below \<open>2^63\<close>.
\<close>

definition steady_running :: "steady_control_clock \<Rightarrow> nat \<Rightarrow> bool" where
  "steady_running c t \<longleftrightarrow> new_steady_clock (clock_domain c) (origin c) = Some c
     \<and> origin c \<le> t \<and> t < 2 ^ 63"

lemma steady_microseconds:
  assumes "steady_running c t"
  shows "unat (microseconds (steady_now c t)) = (t - origin c) div 1000"
proof -
  have "t - origin c < 2 ^ 64" using assms by (auto simp: steady_running_def)
  then have "(t - origin c) div 1000 < 2 ^ 64" by (rule le_less_trans[OF div_le_dividend])
  then show ?thesis by (simp add: steady_now_def unsigned_of_nat take_bit_nat_eq_self)
qed

interpretation steady: control_clock "steady_now c" "(\<le>)" "steady_running c" for c
proof (unfold_locales, goal_cases)
  case (1 w)
  then show ?case by (simp add: steady_now_def steady_running_def new_steady_clock_def split: if_splits)
next
  case (2 w w')
  then show ?case by (simp add: steady_now_def)
next
  case (3 w)
  then have "w - origin c < 1000 * 2 ^ 62" by (auto simp: steady_running_def)
  then have "(w - origin c) div 1000 < 2 ^ 62" by (simp add: div_less_iff_less_mult mult.commute)
  with 3 show ?case by (simp add: steady_microseconds)
next
  case (4 w w')
  then show ?case
    by (auto simp: word_le_nat_alt steady_microseconds intro!: div_le_mono diff_le_mono)
qed

end
