(* ===== verification/Lease_Authority.thy ===== *)
theory Lease_Authority
  imports Control_Clock
begin

text \<open>
  \<open>include/saex/core/lease_authority.hpp\<close> and \<open>src/core/lease_authority.cpp\<close>: the single-threaded lease
  gate. Every operation is a function of the stamp the clock returns during the call, the
  arguments and the state; a history is the sequence of calls with their stamps and results.
\<close>

unbundle bit_operations_syntax

section \<open>Data\<close>

datatype lease_result = accepted | no_grant | expired | stale_entity | stale_owner
  | stale_revision | stale_sequence | field_denied | clock_discontinuity | recovery_required

record lease_grant =
  g_entity :: entity_ref
  g_session :: SessionId
  g_owner :: OwnerEpoch
  g_catalog :: CatalogRevision
  g_state :: StateRevision
  g_field_mask :: u64
  g_deadline :: control_stamp

record owner_proposal =
  p_entity :: entity_ref
  p_session :: SessionId
  p_owner :: OwnerEpoch
  p_catalog :: CatalogRevision
  p_state :: StateRevision
  p_sequence :: Sequence
  p_field_mask :: u64

record lease_authority =
  la_entity :: entity_ref
  last_stamp :: control_stamp
  last_owner :: OwnerEpoch
  last_motion :: Sequence
  last_renewal :: Sequence
  fenced :: bool
  grant :: "lease_grant option"

definition lease_microseconds :: u64 where
  "lease_microseconds = 2000000"

section \<open>Operations\<close>

text \<open>The constructor; \<open>None\<close> is the \<open>std::invalid_argument\<close> it throws.\<close>

definition new_authority :: "control_stamp \<Rightarrow> entity_ref \<Rightarrow> lease_authority option" where
  "new_authority now e =
    (if \<not> entity_valid e \<or> id_value (domain now) = 0 then None
     else Some \<lparr>la_entity = e, last_stamp = now, last_owner = StrongId 0, last_motion = StrongId 0,
       last_renewal = StrongId 0, fenced = False, grant = None\<rparr>)"

definition revoke :: "lease_authority \<Rightarrow> lease_authority" where
  "revoke s = s\<lparr>grant := None\<rparr>"

definition suspend_or_resume :: "lease_authority \<Rightarrow> lease_authority" where
  "suspend_or_resume s = revoke (s\<lparr>fenced := True\<rparr>)"

definition sample :: "control_stamp \<Rightarrow> lease_authority \<Rightarrow> control_stamp option \<times> lease_authority" where
  "sample current s =
    (if fenced s then (None, s)
     else if domain current \<noteq> domain (last_stamp s) \<or>
         microseconds current < microseconds (last_stamp s) then (None, suspend_or_resume s)
     else (Some current, s\<lparr>last_stamp := current\<rparr>))"

definition issue :: "control_stamp \<Rightarrow> SessionId \<Rightarrow> CatalogRevision \<Rightarrow> StateRevision \<Rightarrow> u64 \<Rightarrow> bool
    \<Rightarrow> lease_authority \<Rightarrow> lease_grant option \<times> lease_authority" where
  "issue now session catalog state field_mask participant_applied s0 =
    (case sample now s0 of
      (None, s) \<Rightarrow> (None, s)
    | (Some current, s) \<Rightarrow>
        if \<not> participant_applied \<or> id_value session = 0 \<or> id_value catalog = 0 \<or>
           id_value state = 0 \<or> field_mask = 0 then (None, s)
        else (case next_id (last_owner s) of
            None \<Rightarrow> (None, suspend_or_resume s)
          | Some owner \<Rightarrow>
              if microseconds current > max_u64 - lease_microseconds then (None, suspend_or_resume s)
              else let g = \<lparr>g_entity = la_entity s, g_session = session, g_owner = owner,
                     g_catalog = catalog, g_state = state, g_field_mask = field_mask,
                     g_deadline = \<lparr>domain = domain current,
                       microseconds = microseconds current + lease_microseconds\<rparr>\<rparr>
                in (Some g, s\<lparr>last_owner := owner, last_motion := StrongId 0,
                     last_renewal := StrongId 0, grant := Some g\<rparr>)))"

definition accept :: "control_stamp \<Rightarrow> owner_proposal \<Rightarrow> lease_authority
    \<Rightarrow> lease_result \<times> lease_authority" where
  "accept now proposal s0 =
    (if fenced s0 then (recovery_required, s0)
     else case sample now s0 of
      (None, s) \<Rightarrow> (clock_discontinuity, s)
    | (Some current, s) \<Rightarrow> (case grant s of
        None \<Rightarrow> (no_grant, s)
      | Some g \<Rightarrow>
          if microseconds current \<ge> microseconds (g_deadline g) then (expired, revoke s)
          else if p_entity proposal \<noteq> la_entity s then (stale_entity, s)
          else if p_session proposal \<noteq> g_session g \<or> p_owner proposal \<noteq> g_owner g
            then (stale_owner, s)
          else if p_catalog proposal \<noteq> g_catalog g \<or> p_state proposal \<noteq> g_state g
            then (stale_revision, s)
          else if id_value (p_sequence proposal) \<le> id_value (last_motion s) then (stale_sequence, s)
          else if p_field_mask proposal = 0 \<or>
              (p_field_mask proposal AND NOT (g_field_mask g)) \<noteq> 0 then (field_denied, s)
          else (accepted, s\<lparr>last_motion := p_sequence proposal\<rparr>)))"

definition renew :: "control_stamp \<Rightarrow> SessionId \<Rightarrow> OwnerEpoch \<Rightarrow> Sequence \<Rightarrow> lease_authority
    \<Rightarrow> lease_result \<times> lease_authority" where
  "renew now session owner renewal s0 =
    (if fenced s0 then (recovery_required, s0)
     else case sample now s0 of
      (None, s) \<Rightarrow> (clock_discontinuity, s)
    | (Some current, s) \<Rightarrow> (case grant s of
        None \<Rightarrow> (no_grant, s)
      | Some g \<Rightarrow>
          if microseconds current \<ge> microseconds (g_deadline g) then (expired, revoke s)
          else if session \<noteq> g_session g \<or> owner \<noteq> g_owner g then (stale_owner, s)
          else if id_value renewal \<le> id_value (last_renewal s) then (stale_sequence, s)
          else if microseconds current > max_u64 - lease_microseconds
            then (recovery_required, suspend_or_resume s)
          else (accepted, s\<lparr>last_renewal := renewal, grant := Some (g\<lparr>g_deadline :=
              (g_deadline g)\<lparr>microseconds := microseconds current + lease_microseconds\<rparr>\<rparr>)\<rparr>)))"

definition recover_after_readiness :: "control_stamp \<Rightarrow> lease_authority \<Rightarrow> bool \<times> lease_authority" where
  "recover_after_readiness current s =
    (if id_value (domain current) = 0 then (False, s)
     else (True, s\<lparr>last_stamp := current, grant := None, fenced := False\<rparr>))"

section \<open>Histories\<close>

datatype lease_op = Issue SessionId CatalogRevision StateRevision u64 bool
  | Accept owner_proposal | Renew SessionId OwnerEpoch Sequence
  | Revoke | SuspendOrResume | Recover

datatype lease_out = OutGrant "lease_grant option" | OutResult lease_result
  | OutRecovered bool | OutUnit

fun lease_step :: "control_stamp \<Rightarrow> lease_op \<Rightarrow> lease_authority \<Rightarrow> lease_out \<times> lease_authority" where
  "lease_step now (Issue se c st m a) s = (case issue now se c st m a s of (g, s') \<Rightarrow> (OutGrant g, s'))"
| "lease_step now (Accept p) s = (case accept now p s of (r, s') \<Rightarrow> (OutResult r, s'))"
| "lease_step now (Renew se ow q) s = (case renew now se ow q s of (r, s') \<Rightarrow> (OutResult r, s'))"
| "lease_step now Revoke s = (OutUnit, revoke s)"
| "lease_step now SuspendOrResume s = (OutUnit, suspend_or_resume s)"
| "lease_step now Recover s = (case recover_after_readiness now s of (b, s') \<Rightarrow> (OutRecovered b, s'))"

type_synonym lease_event = "control_stamp \<times> lease_op \<times> lease_out"

text \<open>\<open>lease_history h s\<close>: the calls \<open>h\<close>, in order, on a fresh authority end in \<open>s\<close>.\<close>

inductive lease_history :: "lease_event list \<Rightarrow> lease_authority \<Rightarrow> bool" where
  created: "new_authority now e = Some s \<Longrightarrow> lease_history [] s"
| called: "lease_history h s \<Longrightarrow> lease_step now op s = (out, s') \<Longrightarrow>
     lease_history (h @ [(now, op, out)]) s'"

lemma lease_history_snocD:
  "lease_history (h @ [(now, op, out)]) s' \<Longrightarrow>
   \<exists>s. lease_history h s \<and> lease_step now op s = (out, s')"
  by (erule lease_history.cases) auto

text \<open>The owners granted, the proposals accepted, and the times a lease was granted or renewed.\<close>

fun granted_owner :: "lease_event \<Rightarrow> OwnerEpoch option" where
  "granted_owner (_, Issue _ _ _ _ _, OutGrant (Some g)) = Some (g_owner g)"
| "granted_owner _ = None"

fun accepted_proposal :: "lease_event \<Rightarrow> owner_proposal option" where
  "accepted_proposal (_, Accept p, OutResult accepted) = Some p"
| "accepted_proposal _ = None"

fun lease_time :: "lease_event \<Rightarrow> control_stamp option" where
  "lease_time (now, Issue _ _ _ _ _, OutGrant (Some g)) = Some now"
| "lease_time (now, Renew _ _ _, OutResult accepted) = Some now"
| "lease_time _ = None"

section \<open>What each operation can do\<close>

lemmas sample_defs = sample_def suspend_or_resume_def revoke_def

text \<open>\<open>weakened s s'\<close>: the grant is kept at a later stamp, or it is gone.\<close>

definition weakened :: "lease_authority \<Rightarrow> lease_authority \<Rightarrow> bool" where
  "weakened s s' \<longleftrightarrow> la_entity s' = la_entity s \<and> last_owner s' = last_owner s \<and>
     last_motion s' = last_motion s \<and>
     (grant s' = None \<or> grant s' = grant s \<and> domain (last_stamp s') = domain (last_stamp s) \<and>
        microseconds (last_stamp s) \<le> microseconds (last_stamp s'))"

lemma weakened_refl [simp]: "weakened s s"
  by (simp add: weakened_def)

lemma weakened_revoke: "weakened s s' \<Longrightarrow> weakened s (revoke s')"
  and weakened_suspend: "weakened s s' \<Longrightarrow> weakened s (suspend_or_resume s')"
  by (auto simp: weakened_def revoke_def suspend_or_resume_def)

lemma sample_Some:
  assumes "sample now s = (Some current, s')"
  shows "current = now" "\<not> fenced s" "s' = s\<lparr>last_stamp := now\<rparr>"
    "domain now = domain (last_stamp s)" "microseconds (last_stamp s) \<le> microseconds now"
  using assms by (auto simp: sample_def split: if_splits)

lemma sample_weakened: "sample now s = (r, s') \<Longrightarrow> weakened s s'"
  by (auto simp: sample_defs weakened_def split: if_splits)

lemma issue_granted:
  assumes "issue now se c st m a s = (Some g, s')"
  shows "\<exists>owner. next_id (last_owner s) = Some owner \<and> \<not> fenced s \<and> domain now = domain (last_stamp s)
    \<and> microseconds (last_stamp s) \<le> microseconds now \<and> microseconds now \<le> max_u64 - lease_microseconds
    \<and> g = \<lparr>g_entity = la_entity s, g_session = se, g_owner = owner, g_catalog = c, g_state = st,
        g_field_mask = m, g_deadline = \<lparr>domain = domain now,
          microseconds = microseconds now + lease_microseconds\<rparr>\<rparr>
    \<and> s' = s\<lparr>last_stamp := now, last_owner := owner, last_motion := StrongId 0,
        last_renewal := StrongId 0, grant := Some g\<rparr>"
proof -
  obtain current s1 where sm: "sample now s = (Some current, s1)"
    using assms by (auto simp: issue_def split: prod.splits option.splits)
  note c = sample_Some[OF sm]
  from assms have "(if \<not> a \<or> id_value se = 0 \<or> id_value c = 0 \<or> id_value st = 0 \<or> m = 0 then False
      else \<exists>owner. next_id (last_owner s1) = Some owner \<and> microseconds now \<le> max_u64 - lease_microseconds
        \<and> g = \<lparr>g_entity = la_entity s1, g_session = se, g_owner = owner, g_catalog = c,
            g_state = st, g_field_mask = m, g_deadline = \<lparr>domain = domain now,
            microseconds = microseconds now + lease_microseconds\<rparr>\<rparr>
        \<and> s' = s1\<lparr>last_owner := owner, last_motion := StrongId 0, last_renewal := StrongId 0,
            grant := Some g\<rparr>)"
    by (auto simp: issue_def sm c(1) Let_def not_less split: option.splits if_splits)
  then show ?thesis using c(2,4,5) by (auto simp: c(3) split: if_splits)
qed

lemma issue_refused: "issue now se c st m a s = (None, s') \<Longrightarrow> weakened s s'"
  using sample_weakened[of now s]
  by (cases "sample now s") (auto simp: issue_def Let_def weakened_suspend
      split: option.splits if_splits)

lemma accept_accepted:
  assumes "accept now p s = (accepted, s')"
  shows "\<exists>g. grant s = Some g \<and> \<not> fenced s \<and> domain now = domain (last_stamp s)
    \<and> microseconds (last_stamp s) \<le> microseconds now
    \<and> microseconds now < microseconds (g_deadline g) \<and> p_entity p = la_entity s
    \<and> p_session p = g_session g \<and> p_owner p = g_owner g \<and> p_catalog p = g_catalog g
    \<and> p_state p = g_state g \<and> last_motion s < p_sequence p \<and> p_field_mask p \<noteq> 0
    \<and> p_field_mask p AND NOT (g_field_mask g) = 0
    \<and> s' = s\<lparr>last_stamp := now, last_motion := p_sequence p\<rparr>"
proof -
  have "\<not> fenced s" using assms by (auto simp: accept_def split: if_splits)
  then obtain current s1 where sm: "sample now s = (Some current, s1)"
    using assms by (auto simp: accept_def split: prod.splits option.splits)
  note c = sample_Some[OF sm]
  obtain g where g: "grant s = Some g"
    using assms c by (cases "grant s") (auto simp: accept_def sm)
  have "accept now p s = (if microseconds now \<ge> microseconds (g_deadline g) then (expired, revoke s1)
     else if p_entity p \<noteq> la_entity s then (stale_entity, s1)
     else if p_session p \<noteq> g_session g \<or> p_owner p \<noteq> g_owner g then (stale_owner, s1)
     else if p_catalog p \<noteq> g_catalog g \<or> p_state p \<noteq> g_state g then (stale_revision, s1)
     else if id_value (p_sequence p) \<le> id_value (last_motion s) then (stale_sequence, s1)
     else if p_field_mask p = 0 \<or> (p_field_mask p AND NOT (g_field_mask g)) \<noteq> 0 then (field_denied, s1)
     else (accepted, s1\<lparr>last_motion := p_sequence p\<rparr>))"
    using c(2) by (simp add: accept_def sm c(1,3) g)
  with assms show ?thesis
    using c(2,4,5) by (simp add: g c(3) less_strong_id_def not_le split: if_splits)
qed

lemma accept_refused: "accept now p s = (r, s') \<Longrightarrow> r \<noteq> accepted \<Longrightarrow> weakened s s'"
  using sample_weakened[of now s]
  by (cases "sample now s") (auto simp: accept_def weakened_revoke
      split: option.splits if_splits)

lemma renew_accepted:
  assumes "renew now se ow q s = (accepted, s')"
  shows "\<exists>g. grant s = Some g \<and> \<not> fenced s \<and> domain now = domain (last_stamp s)
    \<and> microseconds (last_stamp s) \<le> microseconds now
    \<and> microseconds now < microseconds (g_deadline g) \<and> se = g_session g \<and> ow = g_owner g
    \<and> last_renewal s < q \<and> microseconds now \<le> max_u64 - lease_microseconds
    \<and> s' = s\<lparr>last_stamp := now, last_renewal := q, grant := Some (g\<lparr>g_deadline :=
        (g_deadline g)\<lparr>microseconds := microseconds now + lease_microseconds\<rparr>\<rparr>)\<rparr>"
proof -
  have "\<not> fenced s" using assms by (auto simp: renew_def split: if_splits)
  then obtain current s1 where sm: "sample now s = (Some current, s1)"
    using assms by (auto simp: renew_def split: prod.splits option.splits)
  note c = sample_Some[OF sm]
  obtain g where g: "grant s = Some g"
    using assms c by (cases "grant s") (auto simp: renew_def sm)
  have "renew now se ow q s = (if microseconds now \<ge> microseconds (g_deadline g) then (expired, revoke s1)
     else if se \<noteq> g_session g \<or> ow \<noteq> g_owner g then (stale_owner, s1)
     else if id_value q \<le> id_value (last_renewal s) then (stale_sequence, s1)
     else if microseconds now > max_u64 - lease_microseconds then (recovery_required, suspend_or_resume s1)
     else (accepted, s1\<lparr>last_renewal := q, grant := Some (g\<lparr>g_deadline :=
              (g_deadline g)\<lparr>microseconds := microseconds now + lease_microseconds\<rparr>\<rparr>)\<rparr>))"
    using c(2) by (simp add: renew_def sm c(1,3) g)
  with assms show ?thesis
    using c(2,4,5) by (simp add: g c(3) less_strong_id_def not_le not_less split: if_splits)
qed

lemma renew_refused: "renew now se ow q s = (r, s') \<Longrightarrow> r \<noteq> accepted \<Longrightarrow> weakened s s'"
  using sample_weakened[of now s]
  by (cases "sample now s") (auto simp: renew_def weakened_revoke weakened_suspend split: option.splits if_splits)

lemma deadline_no_wrap:
  assumes "us \<le> max_u64 - lease_microseconds"
  shows "unat (us + lease_microseconds) = unat us + 2000000"
proof -
  have "unat us \<le> unat (max_u64 - lease_microseconds)" using assms by (simp add: word_le_nat_alt)
  then have "unat us + unat lease_microseconds < 2 ^ LENGTH(64)"
    by (simp add: max_u64_def lease_microseconds_def)
  then show ?thesis
    using unat_add_lem[of us lease_microseconds] by (simp add: lease_microseconds_def)
qed

section \<open>The invariant of histories\<close>

text \<open>Renewals move the deadline and nothing else.\<close>

definition same_lease :: "lease_grant \<Rightarrow> lease_grant \<Rightarrow> bool" where
  "same_lease g0 g \<longleftrightarrow> g_entity g0 = g_entity g \<and> g_session g0 = g_session g \<and>
     g_owner g0 = g_owner g \<and> g_catalog g0 = g_catalog g \<and> g_state g0 = g_state g \<and>
     g_field_mask g0 = g_field_mask g"

text \<open>The grants the calls of a history returned.\<close>

fun issued_grant :: "lease_event \<Rightarrow> lease_grant option" where
  "issued_grant (_, Issue _ _ _ _ _, OutGrant (Some g)) = Some g"
| "issued_grant _ = None"

definition grant_justified :: "lease_event list \<Rightarrow> lease_authority \<Rightarrow> lease_grant \<Rightarrow> bool" where
  "grant_justified h s g \<longleftrightarrow> g_owner g = last_owner s \<and> g_entity g = la_entity s \<and>
     (\<exists>e \<in> set h. \<exists>g0. issued_grant e = Some g0 \<and> same_lease g0 g) \<and>
     (\<exists>e \<in> set h. \<exists>t. lease_time e = Some t \<and> domain t = domain (last_stamp s) \<and>
        microseconds t \<le> microseconds (last_stamp s) \<and>
        unat (microseconds (g_deadline g)) = unat (microseconds t) + 2000000)"

lemma grant_justifiedI:
  assumes "g_owner g = last_owner s" and "g_entity g = la_entity s"
    and "e0 \<in> set h" and "issued_grant e0 = Some g0" and "same_lease g0 g"
    and "e \<in> set h" and "lease_time e = Some t" and "domain t = domain (last_stamp s)"
    and "microseconds t \<le> microseconds (last_stamp s)"
    and "unat (microseconds (g_deadline g)) = unat (microseconds t) + 2000000"
  shows "grant_justified h s g"
  using assms unfolding grant_justified_def by blast

definition lease_inv :: "lease_event list \<Rightarrow> lease_authority \<Rightarrow> bool" where
  "lease_inv h s \<longleftrightarrow>
     (\<forall>e \<in> set h. \<forall>ow. granted_owner e = Some ow \<longrightarrow> ow \<le> last_owner s) \<and>
     (\<forall>e \<in> set h. \<forall>p. accepted_proposal e = Some p \<longrightarrow> p_owner p \<le> last_owner s \<and>
        (p_owner p = last_owner s \<longrightarrow> p_sequence p \<le> last_motion s)) \<and>
     (\<forall>g. grant s = Some g \<longrightarrow> grant_justified h s g)"

text \<open>An event that grants, accepts and renews nothing keeps the invariant of a weakened state.\<close>

lemma lease_inv_weakened:
  assumes "lease_inv h s" and "weakened s s'"
    and "granted_owner e = None" and "accepted_proposal e = None"
  shows "lease_inv (h @ [e]) s'"
proof -
  have "grant_justified (h @ [e]) s' g" if "grant s' = Some g" for g
  proof -
    from that assms(2) have g: "grant s = Some g" "domain (last_stamp s') = domain (last_stamp s)"
      "microseconds (last_stamp s) \<le> microseconds (last_stamp s')"
      by (auto simp: weakened_def)
    with assms(1) have "grant_justified h s g" by (simp add: lease_inv_def)
    with g assms(2) show ?thesis
      by (auto simp: grant_justified_def weakened_def intro: order_trans)
  qed
  with assms show ?thesis by (auto simp: lease_inv_def weakened_def)
qed

lemma lease_inv_issue:
  assumes inv: "lease_inv h s" and i: "issue now se c st m a s = (Some g, s')"
  shows "lease_inv (h @ [(now, Issue se c st m a, OutGrant (Some g))]) s'"
proof -
  from issue_granted[OF i] obtain owner where own: "next_id (last_owner s) = Some owner"
    and us: "microseconds now \<le> max_u64 - lease_microseconds"
    and g: "g_owner g = owner" "g_entity g = la_entity s"
      "microseconds (g_deadline g) = microseconds now + lease_microseconds"
    and s': "s' = s\<lparr>last_stamp := now, last_owner := owner, last_motion := StrongId 0,
        last_renewal := StrongId 0, grant := Some g\<rparr>"
    by auto
  let ?e = "(now, Issue se c st m a, OutGrant (Some g))"
  have lt: "last_owner s < owner" using next_id_Some(2)[OF own] .
  have "same_lease g g" by (simp add: same_lease_def)
  then have "grant_justified (h @ [?e]) s' g"
    by (auto simp: grant_justified_def s' g deadline_no_wrap[OF us])
  moreover have "ow < owner" if "e \<in> set h" "granted_owner e = Some ow" for e ow
    using that inv lt by (fastforce simp: lease_inv_def)
  moreover have "p_owner p < owner" if "e \<in> set h" "accepted_proposal e = Some p" for e p
    using that inv lt by (fastforce simp: lease_inv_def)
  ultimately show ?thesis
    unfolding lease_inv_def by (fastforce simp: s' g less_imp_le)
qed

lemma lease_inv_accept:
  assumes inv: "lease_inv h s" and a: "accept now p s = (accepted, s')"
  shows "lease_inv (h @ [(now, Accept p, OutResult accepted)]) s'"
proof -
  from accept_accepted[OF a] obtain g where g: "grant s = Some g" "p_owner p = g_owner g"
    and st: "domain now = domain (last_stamp s)" "microseconds (last_stamp s) \<le> microseconds now"
    and sq: "last_motion s < p_sequence p"
    and s': "s' = s\<lparr>last_stamp := now, last_motion := p_sequence p\<rparr>"
    by auto
  from inv g have j: "grant_justified h s g" by (simp add: lease_inv_def)
  then have "grant_justified (h @ [(now, Accept p, OutResult accepted)]) s' g"
    using st by (auto simp: s' grant_justified_def intro: order_trans)
  moreover have "p_owner p = last_owner s" using j g by (simp add: grant_justified_def)
  ultimately show ?thesis
    using inv sq g by (auto simp: lease_inv_def s' intro: order.trans less_imp_le)
qed

lemma lease_inv_renew:
  assumes inv: "lease_inv h s" and r: "renew now se ow q s = (accepted, s')"
  shows "lease_inv (h @ [(now, Renew se ow q, OutResult accepted)]) s'"
proof -
  from renew_accepted[OF r] obtain g where g: "grant s = Some g"
    and us: "microseconds now \<le> max_u64 - lease_microseconds"
    and s': "s' = s\<lparr>last_stamp := now, last_renewal := q, grant := Some (g\<lparr>g_deadline :=
        (g_deadline g)\<lparr>microseconds := microseconds now + lease_microseconds\<rparr>\<rparr>)\<rparr>"
    by auto
  from inv g have j: "grant_justified h s g" by (simp add: lease_inv_def)
  then obtain e0 g0 where "e0 \<in> set h" "issued_grant e0 = Some g0" "same_lease g0 g"
    by (auto simp: grant_justified_def)
  then have "grant_justified (h @ [(now, Renew se ow q, OutResult accepted)]) s' (the (grant s'))"
    using j by (intro grant_justifiedI[where ?e0.0 = e0 and ?g0.0 = g0 and t = now
          and e = "(now, Renew se ow q, OutResult accepted)"])
      (simp_all add: grant_justified_def s' same_lease_def deadline_no_wrap[OF us])
  with inv show ?thesis by (auto simp: lease_inv_def s')
qed

lemma lease_inv_step:
  assumes inv: "lease_inv h s" and st: "lease_step now op s = (out, s')"
  shows "lease_inv (h @ [(now, op, out)]) s'"
proof (cases op)
  case (Issue se c sta m a)
  then obtain r where r: "issue now se c sta m a s = (r, s')" and out: "out = OutGrant r"
    using st by (auto split: prod.splits)
  show ?thesis
  proof (cases r)
    case None
    then show ?thesis using lease_inv_weakened[OF inv] issue_refused r Issue out by auto
  next
    case (Some g)
    then show ?thesis using lease_inv_issue[OF inv] r Issue out by auto
  qed
next
  case (Accept p)
  then obtain r where r: "accept now p s = (r, s')" and out: "out = OutResult r"
    using st by (auto split: prod.splits)
  show ?thesis
  proof (cases "r = accepted")
    case True
    then show ?thesis using lease_inv_accept[OF inv] r Accept out by auto
  next
    case False
    then show ?thesis
      using lease_inv_weakened[OF inv accept_refused[OF r]] Accept out by (cases r) auto
  qed
next
  case (Renew se ow q)
  then obtain r where r: "renew now se ow q s = (r, s')" and out: "out = OutResult r"
    using st by (auto split: prod.splits)
  show ?thesis
  proof (cases "r = accepted")
    case True
    then show ?thesis using lease_inv_renew[OF inv] r Renew out by auto
  next
    case False
    then show ?thesis
      using lease_inv_weakened[OF inv renew_refused[OF r]] Renew out by auto
  qed
next
  case Revoke
  then show ?thesis using lease_inv_weakened[OF inv, of s'] st by (auto simp: weakened_def revoke_def)
next
  case SuspendOrResume
  then show ?thesis
    using lease_inv_weakened[OF inv, of s'] st
    by (auto simp: weakened_def revoke_def suspend_or_resume_def)
next
  case Recover
  then show ?thesis
    using lease_inv_weakened[OF inv, of s'] st
    by (auto simp: weakened_def recover_after_readiness_def split: if_splits prod.splits)
qed

lemma lease_history_inv: "lease_history h s \<Longrightarrow> lease_inv h s"
proof (induction rule: lease_history.induct)
  case (created now e s)
  then show ?case by (auto simp: lease_inv_def new_authority_def split: if_splits)
next
  case (called h s now op out s')
  then show ?case by (blast intro: lease_inv_step)
qed

section \<open>What a history can contain\<close>

lemma lease_history_split:
  assumes "lease_history (h1 @ (now, op, out) # h2) s"
  shows "\<exists>s1 s2. lease_history h1 s1 \<and> lease_step now op s1 = (out, s2)"
  using assms
proof (induction h2 arbitrary: s rule: rev_induct)
  case Nil
  then show ?case using lease_history_snocD by fastforce
next
  case (snoc e h2)
  obtain n o' r where "e = (n, o', r)" by (metis prod_cases3)
  with snoc.prems obtain s' where "lease_history (h1 @ (now, op, out) # h2) s'"
    using lease_history_snocD[of "h1 @ (now, op, out) # h2" n o' r s] by auto
  then show ?case by (rule snoc.IH)
qed

lemma accepted_proposalE:
  assumes "accepted_proposal e = Some p"
  obtains now where "e = (now, Accept p, OutResult accepted)"
  using assms by (cases e rule: accepted_proposal.cases) auto

lemma issued_grantE:
  assumes "issued_grant e = Some g"
  obtains now se c st m a where "e = (now, Issue se c st m a, OutGrant (Some g))"
  using assms by (cases e rule: issued_grant.cases) auto

lemma granted_owner_issued: "granted_owner e = map_option g_owner (issued_grant e)"
  by (cases e rule: issued_grant.cases) auto

text \<open>The state in which a proposal of a history was accepted.\<close>

lemma accepted_at:
  assumes "lease_history h s" and "j < length h" and "accepted_proposal (h ! j) = Some p"
  obtains now s1 g where "h ! j = (now, Accept p, OutResult accepted)"
    "lease_inv (take j h) s1" "grant s1 = Some g" "grant_justified (take j h) s1 g"
    "p_owner p = last_owner s1" "same_lease g \<lparr>g_entity = p_entity p, g_session = p_session p,
       g_owner = p_owner p, g_catalog = p_catalog p, g_state = p_state p,
       g_field_mask = g_field_mask g, g_deadline = now\<rparr>"
    "p_field_mask p \<noteq> 0" "p_field_mask p AND NOT (g_field_mask g) = 0"
    "last_motion s1 < p_sequence p" "domain now = domain (last_stamp s1)"
    "microseconds (last_stamp s1) \<le> microseconds now"
    "microseconds now < microseconds (g_deadline g)"
proof -
  obtain now where e: "h ! j = (now, Accept p, OutResult accepted)"
    using assms(3) by (rule accepted_proposalE)
  have "h = take j h @ (now, Accept p, OutResult accepted) # drop (Suc j) h"
    using assms(2) e by (metis id_take_nth_drop)
  then obtain s1 s2 where h: "lease_history (take j h) s1"
    and st: "lease_step now (Accept p) s1 = (OutResult accepted, s2)"
    using lease_history_split assms(1) by metis
  then have acc: "accept now p s1 = (accepted, s2)" by (auto split: prod.splits)
  have inv: "lease_inv (take j h) s1" using h by (rule lease_history_inv)
  from accept_accepted[OF acc] obtain g where g: "grant s1 = Some g"
    "domain now = domain (last_stamp s1)" "microseconds (last_stamp s1) \<le> microseconds now"
    "microseconds now < microseconds (g_deadline g)" "p_entity p = la_entity s1"
    "p_session p = g_session g" "p_owner p = g_owner g" "p_catalog p = g_catalog g"
    "p_state p = g_state g" "last_motion s1 < p_sequence p" "p_field_mask p \<noteq> 0"
    "p_field_mask p AND NOT (g_field_mask g) = 0"
    by auto
  then have j: "grant_justified (take j h) s1 g" using inv by (simp add: lease_inv_def)
  show thesis
    by (rule that[OF e inv g(1) j]) (use g j in \<open>auto simp: grant_justified_def same_lease_def\<close>)
qed

lemma issued_at:
  assumes "lease_history h s" and "j < length h" and "issued_grant (h ! j) = Some g"
  obtains s1 where "lease_inv (take j h) s1" "next_id (last_owner s1) = Some (g_owner g)"
proof -
  obtain now se c st m a where e: "h ! j = (now, Issue se c st m a, OutGrant (Some g))"
    using assms(3) by (rule issued_grantE)
  have "h = take j h @ (now, Issue se c st m a, OutGrant (Some g)) # drop (Suc j) h"
    using assms(2) e by (metis id_take_nth_drop)
  then obtain s1 s2 where h: "lease_history (take j h) s1"
    and stp: "lease_step now (Issue se c st m a) s1 = (OutGrant (Some g), s2)"
    using lease_history_split assms(1) by metis
  then have "issue now se c st m a s1 = (Some g, s2)" by (auto split: prod.splits)
  then have "next_id (last_owner s1) = Some (g_owner g)" using issue_granted by fastforce
  with lease_history_inv[OF h] show thesis by (rule that)
qed

lemma nth_mem_take: "i < j \<Longrightarrow> j < length h \<Longrightarrow> h ! i \<in> set (take j h)"
  by (metis in_set_conv_nth length_take min_less_iff_conj nth_take order_less_trans)

text \<open>
  Claim C5. Owner epochs are fencing tokens: in every history each grant carries a strictly larger owner
  epoch than all grants before it, and once an epoch has been granted no proposal of an older
  epoch is ever accepted again.
\<close>

theorem lease_owner_epochs_fence:
  assumes "lease_history h s" and "i < j" and "j < length h" and "granted_owner (h ! i) = Some ow"
  shows "(granted_owner (h ! j) = Some ow' \<longrightarrow> ow < ow') \<and>
         (accepted_proposal (h ! j) = Some p \<longrightarrow> ow \<le> p_owner p)"
proof (intro conjI impI)
  have mem: "h ! i \<in> set (take j h)" using assms(2,3) by (rule nth_mem_take)
  {
    assume "granted_owner (h ! j) = Some ow'"
    then obtain g where g: "issued_grant (h ! j) = Some g" "ow' = g_owner g"
      by (auto simp: granted_owner_issued)
    then obtain s1 where "lease_inv (take j h) s1" "next_id (last_owner s1) = Some ow'"
      using issued_at[OF assms(1,3) g(1)] by metis
    with mem assms(4) show "ow < ow'"
      using next_id_Some(2) by (fastforce simp: lease_inv_def)
  }
  assume "accepted_proposal (h ! j) = Some p"
  then obtain s1 where "lease_inv (take j h) s1" "p_owner p = last_owner s1"
    using accepted_at[OF assms(1,3)] by metis
  with mem assms(4) show "ow \<le> p_owner p" by (auto simp: lease_inv_def)
qed


text \<open>
  Claim C7. Accepted motion is never replayed or reordered: two proposals accepted under the same owner
  epoch have strictly increasing sequence numbers in the order of acceptance.
\<close>

theorem lease_sequences_strictly_increase:
  assumes "lease_history h s" and "i < j" and "j < length h"
    and "accepted_proposal (h ! i) = Some p" and "accepted_proposal (h ! j) = Some q"
    and "p_owner p = p_owner q"
  shows "p_sequence p < p_sequence q"
proof -
  obtain s1 where "lease_inv (take j h) s1" "p_owner q = last_owner s1" "last_motion s1 < p_sequence q"
    using accepted_at[OF assms(1,3,5)] by metis
  with assms(4,6) nth_mem_take[OF assms(2,3)] show ?thesis
    by (auto simp: lease_inv_def intro: le_less_trans)
qed

section \<open>The fence\<close>

fun lease_run :: "(control_stamp \<times> lease_op) list \<Rightarrow> lease_authority \<Rightarrow> lease_out list \<times> lease_authority" where
  "lease_run [] s = ([], s)"
| "lease_run ((now, op) # calls) s =
     (case lease_step now op s of (out, s') \<Rightarrow>
        (case lease_run calls s' of (outs, r) \<Rightarrow> (out # outs, r)))"

fun refusal :: "lease_out \<Rightarrow> bool" where
  "refusal (OutGrant g) \<longleftrightarrow> g = None"
| "refusal (OutResult r) \<longleftrightarrow> r = recovery_required"
| "refusal (OutRecovered b) \<longleftrightarrow> \<not> b"
| "refusal OutUnit \<longleftrightarrow> True"

lemma fenced_step:
  "fenced s \<Longrightarrow> lease_step now op s = (out, s') \<Longrightarrow> out \<noteq> OutRecovered True \<Longrightarrow> fenced s' \<and> refusal out"
  by (cases op) (auto simp: issue_def accept_def renew_def sample_def revoke_def
      suspend_or_resume_def recover_after_readiness_def split: if_splits)

lemma fenced_run:
  "fenced s \<Longrightarrow> lease_run calls s = (outs, s') \<Longrightarrow> OutRecovered True \<notin> set outs \<Longrightarrow>
   fenced s' \<and> (\<forall>out \<in> set outs. refusal out)"
proof (induction calls arbitrary: s outs)
  case Nil
  then show ?case by simp
next
  case (Cons call calls)
  obtain now op where call: "call = (now, op)" by fastforce
  obtain out s1 where st: "lease_step now op s = (out, s1)" by fastforce
  obtain outs' where rest: "lease_run calls s1 = (outs', s')" and outs: "outs = out # outs'"
    using Cons.prems(2) call st by (auto split: prod.splits)
  have "fenced s1 \<and> refusal out" using fenced_step[OF Cons.prems(1) st] Cons.prems(3) outs by auto
  then show ?case using Cons.IH[OF _ rest] Cons.prems(3) outs by auto
qed


section \<open>On a clock that keeps its contract the gate stays open\<close>

text \<open>No call on a good clock fences the authority by itself, as long as owner epochs last.\<close>

lemma unfenced_step:
  assumes "\<not> fenced s" and "domain now = domain (last_stamp s)"
    and "microseconds (last_stamp s) \<le> microseconds now" and "unat (microseconds now) < 2 ^ 62"
    and "id_value (domain now) \<noteq> 0" and "unat (id_value (last_owner s)) < 2 ^ 64 - 1"
    and "op \<noteq> SuspendOrResume" and "lease_step now op s = (out, s')"
  shows "\<not> fenced s'" and "last_stamp s' = now \<or> last_stamp s' = last_stamp s"
    and "unat (id_value (last_owner s')) \<le> Suc (unat (id_value (last_owner s)))"
    and "out \<noteq> OutResult clock_discontinuity" and "out \<noteq> OutResult recovery_required"
proof -
  have us: "\<not> max_u64 - lease_microseconds < microseconds now"
    using assms(4) by (simp add: word_less_nat_alt max_u64_def lease_microseconds_def)
  have sm: "sample now s = (Some now, s\<lparr>last_stamp := now\<rparr>)"
    using assms(1,2,3) by (auto simp: sample_def)
  have "next_id (last_owner s) \<noteq> None" using assms(6) by (simp only: next_id_None)
  then obtain ow where own: "next_id (last_owner s) = Some ow" by blast
  note ow = own next_id_Some(1)[OF own]
  define good where "good r t \<longleftrightarrow> \<not> fenced t \<and> (last_stamp t = now \<or> last_stamp t = last_stamp s) \<and>
      unat (id_value (last_owner t)) \<le> Suc (unat (id_value (last_owner s))) \<and>
      r \<noteq> OutResult clock_discontinuity \<and> r \<noteq> OutResult recovery_required" for r and t :: lease_authority
  have nf: "\<not> fenced s" by (rule assms(1))
  have issue: "good (OutGrant (fst (issue now se c st m a s))) (snd (issue now se c st m a s))" for se c st m a
    using nf us by (simp add: issue_def sm ow good_def Let_def)
  have accept: "good (OutResult (fst (accept now p s))) (snd (accept now p s))" for p
    using nf by (simp add: accept_def sm good_def revoke_def split: option.splits)
  have renew: "good (OutResult (fst (renew now se o' q s))) (snd (renew now se o' q s))" for se o' q
    using nf us by (simp add: renew_def sm good_def revoke_def split: option.splits)
  have "good out s'"
  proof (cases op)
    case (Issue se c st m a)
    then show ?thesis using assms(8) issue[of se c st m a] by (auto split: prod.splits)
  next
    case (Accept p)
    then show ?thesis using assms(8) accept[of p] by (auto split: prod.splits)
  next
    case (Renew se o' q)
    then show ?thesis using assms(8) renew[of se o' q] by (auto split: prod.splits)
  next
    case Revoke
    then show ?thesis using assms(8) nf by (auto simp: good_def revoke_def)
  next
    case SuspendOrResume
    then show ?thesis using assms(7) by simp
  next
    case Recover
    then show ?thesis using assms(5,8) by (auto simp: good_def recover_after_readiness_def)
  qed
  then show "\<not> fenced s'" and "last_stamp s' = now \<or> last_stamp s' = last_stamp s"
    and "unat (id_value (last_owner s')) \<le> Suc (unat (id_value (last_owner s)))"
    and "out \<noteq> OutResult clock_discontinuity" and "out \<noteq> OutResult recovery_required"
    by (simp_all add: good_def)
qed

context control_clock begin

lemma gate_stays_open:
  assumes "\<not> fenced s" and "last_stamp s = now w0" and "running w0"
    and "\<forall>(w, op) \<in> set calls. running w \<and> later w0 w \<and> op \<noteq> SuspendOrResume"
    and "sorted_wrt (\<lambda>c d. later (fst c) (fst d)) calls"
    and "unat (id_value (last_owner s)) + length calls < 2 ^ 64"
    and "lease_run (map (\<lambda>(w, op). (now w, op)) calls) s = (outs, s')"
  shows "\<not> fenced s' \<and> OutResult clock_discontinuity \<notin> set outs \<and> OutResult recovery_required \<notin> set outs"
  using assms
proof (induction calls arbitrary: s w0 outs)
  case Nil
  then show ?case by simp
next
  case (Cons call calls)
  obtain w op where call: "call = (w, op)" by fastforce
  obtain out s1 where st: "lease_step (now w) op s = (out, s1)" by fastforce
  obtain outs' where rest: "lease_run (map (\<lambda>(w, op). (now w, op)) calls) s1 = (outs', s')"
    and outs: "outs = out # outs'"
    using Cons.prems(7) call st by (auto split: prod.splits)
  have w: "running w" "later w0 w" "op \<noteq> SuspendOrResume" using Cons.prems(4) call by auto
  have "unat (id_value (last_owner s)) < 2 ^ 64 - 1" using Cons.prems(6) by simp
  note step = unfenced_step[OF Cons.prems(1) _ _ bounded[OF w(1)] nonzero_domain[OF w(1)] this w(3) st]
  have d: "domain (now w) = domain (last_stamp s)"
    using same_domain[OF w(1) Cons.prems(3)] Cons.prems(2) by simp
  have m: "microseconds (last_stamp s) \<le> microseconds (now w)"
    using monotone[OF Cons.prems(3) w(1,2)] Cons.prems(2) by simp
  note step = step[OF d m]
  have own: "unat (id_value (last_owner s1)) + length calls < 2 ^ 64"
    using step(3) Cons.prems(6) by simp
  have "\<not> fenced s' \<and> OutResult clock_discontinuity \<notin> set outs' \<and> OutResult recovery_required \<notin> set outs'"
  proof (cases "last_stamp s1 = now w")
    case True
    show ?thesis
      by (rule Cons.IH[OF step(1) True w(1) _ _ own rest]) (use Cons.prems(4,5) call in auto)
  next
    case False
    then have "last_stamp s1 = now w0" using step(2) Cons.prems(2) by simp
    then show ?thesis
      by (rule Cons.IH[OF step(1) _ Cons.prems(3) _ _ own rest]) (use Cons.prems(4,5) call in auto)
  qed
  then show ?case using step(4,5) outs by auto
qed

end

text \<open>
  Claim C9. On the steady clock the gate never closes by itself: for a new authority, calls at increasing times
  (without an explicit suspension, and fewer than \<open>2^64\<close> of them) never meet a clock
  discontinuity and never require recovery.
\<close>

theorem lease_live_on_steady_clock:
  assumes "new_authority (steady_now c t0) e = Some s" and "steady_running c t0"
    and "\<forall>(t, op) \<in> set calls. steady_running c t \<and> t0 \<le> t \<and> op \<noteq> SuspendOrResume"
    and "sorted (map fst calls)" and "length calls < 2 ^ 64"
    and "lease_run (map (\<lambda>(t, op). (steady_now c t, op)) calls) s = (outs, s')"
  shows "\<not> fenced s' \<and> OutResult clock_discontinuity \<notin> set outs \<and> OutResult recovery_required \<notin> set outs"
proof (rule steady.gate_stays_open[of s c t0 calls outs s'])
  show "\<not> fenced s" "last_stamp s = steady_now c t0"
    "unat (id_value (last_owner s)) + length calls < 2 ^ 64"
    using assms(1,5) by (auto simp: new_authority_def split: if_splits)
  show "sorted_wrt (\<lambda>c d. fst c \<le> fst d) calls" using assms(4) by (simp add: sorted_map)
qed (use assms in auto)

section \<open>A concrete run\<close>

lemma lease_run_history:
  "lease_history h s \<Longrightarrow> lease_run calls s = (outs, s') \<Longrightarrow>
   lease_history (h @ map2 (\<lambda>c out. (fst c, snd c, out)) calls outs) s'"
proof (induction calls arbitrary: h s outs)
  case Nil
  then show ?case by simp
next
  case (Cons call calls)
  obtain now op where call: "call = (now, op)" by fastforce
  obtain out s1 where st: "lease_step now op s = (out, s1)" by fastforce
  obtain outs' where rest: "lease_run calls s1 = (outs', s')" and outs: "outs = out # outs'"
    using Cons.prems(2) call st by (auto split: prod.splits)
  show ?case
    using Cons.IH[OF lease_history.called[OF Cons.prems(1) st] rest] by (simp add: call outs)
qed

text \<open>A session is granted a lease, moves twice, renews, is replaced by a second one, which moves.\<close>

definition demo_entity :: entity_ref where
  "demo_entity = EntityRef (StrongId 1) (StrongId 1) (StrongId 7) (StrongId 1)"

definition at_us :: "u64 \<Rightarrow> control_stamp" where
  "at_us us = \<lparr>domain = StrongId 1, microseconds = us\<rparr>"

definition demo_proposal :: "u64 \<Rightarrow> u64 \<Rightarrow> u64 \<Rightarrow> owner_proposal" where
  "demo_proposal session owner sq = \<lparr>p_entity = demo_entity, p_session = StrongId session,
     p_owner = StrongId owner, p_catalog = StrongId 3, p_state = StrongId 4,
     p_sequence = StrongId sq, p_field_mask = 1\<rparr>"

definition demo_grant :: "u64 \<Rightarrow> u64 \<Rightarrow> u64 \<Rightarrow> lease_grant" where
  "demo_grant session owner deadline = \<lparr>g_entity = demo_entity, g_session = StrongId session,
     g_owner = StrongId owner, g_catalog = StrongId 3, g_state = StrongId 4, g_field_mask = 3,
     g_deadline = at_us deadline\<rparr>"

definition demo_calls :: "(control_stamp \<times> lease_op) list" where
  "demo_calls = [(at_us 10, Issue (StrongId 5) (StrongId 3) (StrongId 4) 3 True),
     (at_us 20, Accept (demo_proposal 5 1 1)), (at_us 30, Accept (demo_proposal 5 1 2)),
     (at_us 40, Issue (StrongId 6) (StrongId 3) (StrongId 4) 3 True),
     (at_us 50, Accept (demo_proposal 5 1 3)), (at_us 60, Accept (demo_proposal 6 2 1))]"

definition demo_outs :: "lease_out list" where
  "demo_outs = [OutGrant (Some (demo_grant 5 1 2000010)), OutResult accepted, OutResult accepted,
     OutGrant (Some (demo_grant 6 2 2000040)), OutResult stale_owner, OutResult accepted]"

definition demo_history :: "lease_event list" where
  "demo_history = map2 (\<lambda>c out. (fst c, snd c, out)) demo_calls demo_outs"

definition demo_start :: lease_authority where
  "demo_start = \<lparr>la_entity = demo_entity, last_stamp = at_us 0, last_owner = StrongId 0,
     last_motion = StrongId 0, last_renewal = StrongId 0, fenced = False, grant = None\<rparr>"

lemma demo_new: "new_authority (at_us 0) demo_entity = Some demo_start"
  by (simp add: new_authority_def demo_start_def at_us_def entity_valid_def demo_entity_def)

lemmas demo_defs = demo_proposal_def demo_grant_def demo_entity_def at_us_def

lemma demo_run: "fst (lease_run demo_calls demo_start) = demo_outs"
  by (simp add: demo_calls_def demo_outs_def demo_start_def demo_defs issue_def accept_def
      sample_def next_id_def word_le_nat_alt max_u64_def lease_microseconds_def Let_def)

lemma demo_history_ok: "lease_history demo_history (snd (lease_run demo_calls demo_start))"
  unfolding demo_history_def
  by (rule lease_run_history[of "[]", simplified])
     (rule lease_history.created[OF demo_new], simp flip: demo_run)

lemma demo_history_eval:
  "length demo_history = 6"
  "granted_owner (demo_history ! 0) = Some (StrongId 1)"
  "granted_owner (demo_history ! 3) = Some (StrongId 2)"
  "accepted_proposal (demo_history ! 1) = Some (demo_proposal 5 1 1)"
  "accepted_proposal (demo_history ! 2) = Some (demo_proposal 5 1 2)"
  "accepted_proposal (demo_history ! 5) = Some (demo_proposal 6 2 1)"
  by (simp_all add: demo_history_def demo_calls_def demo_outs_def demo_grant_def numeral_eq_Suc)

theorem lease_owner_epochs_fence_witness:
  "(StrongId 1 :: OwnerEpoch) < StrongId 2 \<and> (StrongId 1 :: OwnerEpoch) \<le> p_owner (demo_proposal 6 2 1)"
proof
  show "(StrongId 1 :: OwnerEpoch) < StrongId 2"
    using lease_owner_epochs_fence[OF demo_history_ok, of 0 3 "StrongId 1" "StrongId 2"]
    by (simp add: demo_history_eval)
  show "(StrongId 1 :: OwnerEpoch) \<le> p_owner (demo_proposal 6 2 1)"
    using lease_owner_epochs_fence[OF demo_history_ok, of 0 5 "StrongId 1" "StrongId 0" "demo_proposal 6 2 1"]
    by (simp add: demo_history_eval)
qed


theorem lease_sequences_strictly_increase_witness:
  "p_sequence (demo_proposal 5 1 1) < p_sequence (demo_proposal 5 1 2)"
  by (rule lease_sequences_strictly_increase[OF demo_history_ok, where i = 1 and j = 2])
     (simp_all only: demo_history_eval, simp_all add: demo_proposal_def)


theorem lease_live_on_steady_clock_witness:
  "\<exists>outs s'. lease_run (map (\<lambda>(t, op). (steady_now \<lparr>clock_domain = StrongId 1, origin = 0\<rparr> t, op))
     [(10000, Issue (StrongId 5) (StrongId 3) (StrongId 4) 3 True), (20000, Accept (demo_proposal 5 1 1))])
     (demo_start\<lparr>last_stamp := steady_now \<lparr>clock_domain = StrongId 1, origin = 0\<rparr> 0\<rparr>) = (outs, s') \<and> \<not> fenced s'"
proof -
  let ?c = "\<lparr>clock_domain = StrongId 1, origin = 0\<rparr>"
  let ?calls = "[(10000, Issue (StrongId 5) (StrongId 3) (StrongId 4) 3 True), (20000, Accept (demo_proposal 5 1 1))]"
  let ?s = "demo_start\<lparr>last_stamp := steady_now ?c 0\<rparr>"
  have n: "new_authority (steady_now ?c 0) demo_entity = Some ?s"
    by (simp add: new_authority_def demo_start_def entity_valid_def demo_entity_def steady_now_def)
  have r: "steady_running ?c t" if "t < 2 ^ 63" for t
    using that by (simp add: steady_running_def new_steady_clock_def)
  obtain outs s' where run: "lease_run (map (\<lambda>(t, op). (steady_now ?c t, op)) ?calls) ?s = (outs, s')"
    by fastforce
  have "\<not> fenced s'"
    using lease_live_on_steady_clock[OF n r _ _ _ run] r by simp
  then show ?thesis using run by blast
qed

end
