(* ===== verification/Mapping_Ledger.thy ===== *)
theory Mapping_Ledger
  imports Prelude
begin

text \<open>
  \<open>include/saex/engine/loader_mapping_ledger.hpp\<close> and \<open>src/engine/loader/loader_mapping_ledger.cpp\<close>: the record of
  module mappings in the observed process. Identifiers are never reused, even for the same
  base address. Addresses are 32 bits (the loader is an x86 tool).

  The used prefix of the fixed array \<open>history_\<close> is a list; \<open>count_\<close> is its length.
\<close>

section \<open>The interface: a registry of lifetimes\<close>

text \<open>
  \<open>live\<close> is the current map from keys to lifetime identifiers, \<open>issued\<close> the identifiers ever
  given out. Opening a key that is live is refused, closing one that is not live too.
\<close>

text \<open>A sequence of calls: \<open>True\<close> opens, \<open>False\<close> closes.\<close>

fun registry_run :: "('k \<Rightarrow> 'e \<Rightarrow> 'r \<Rightarrow> 'i option \<times> 'r) \<Rightarrow> ('k \<Rightarrow> 'e \<Rightarrow> 'r \<Rightarrow> 'i option \<times> 'r)
    \<Rightarrow> (bool \<times> 'k \<times> 'e) list \<Rightarrow> 'r \<Rightarrow> 'r" where
  "registry_run op cl [] r = r"
| "registry_run op cl ((is_open, k, e) # calls) r =
     registry_run op cl calls (snd (if is_open then op k e r else cl k e r))"

locale lifetime_registry =
  fixes open_key :: "'k \<Rightarrow> 'e \<Rightarrow> 'r \<Rightarrow> 'i option \<times> 'r"
    and close_key :: "'k \<Rightarrow> 'e \<Rightarrow> 'r \<Rightarrow> 'i option \<times> 'r"
    and live :: "'r \<Rightarrow> 'k \<rightharpoonup> 'i"
    and issued :: "'r \<Rightarrow> 'i list"
    and invar :: "'r \<Rightarrow> bool"
  assumes open_law: "invar r \<Longrightarrow> open_key k e r = (Some i, r') \<Longrightarrow>
      live r k = None \<and> live r' = (live r)(k \<mapsto> i) \<and> issued r' = issued r @ [i] \<and> i \<notin> set (issued r)"
    and close_law: "invar r \<Longrightarrow> close_key k e r = (Some i, r') \<Longrightarrow>
      live r k = Some i \<and> live r' = (live r)(k := None) \<and> issued r' = issued r"
    and open_refused: "open_key k e r = (None, r') \<Longrightarrow> r' = r"
    and close_refused: "close_key k e r = (None, r') \<Longrightarrow> r' = r"
    and open_invar: "invar r \<Longrightarrow> open_key k e r = (x, r') \<Longrightarrow> invar r'"
    and close_invar: "invar r \<Longrightarrow> close_key k e r = (x, r') \<Longrightarrow> invar r'"
begin

lemma step_invar:
  assumes "invar r"
  shows "invar (snd (if is_open then open_key k e r else close_key k e r))"
proof -
  obtain x r' y r'' where "open_key k e r = (x, r')" "close_key k e r = (y, r'')" by fastforce
  then show ?thesis
    using open_invar[OF assms, of k e x r'] close_invar[OF assms, of k e y r''] by simp
qed

lemma run_invar: "invar r \<Longrightarrow> invar (registry_run open_key close_key calls r)"
proof (induction calls arbitrary: r)
  case (Cons c calls)
  obtain is_open k e where c: "c = (is_open, k, e)" by (metis prod_cases3)
  have "invar (snd (if is_open then open_key k e r else close_key k e r))"
    by (rule step_invar[OF Cons.prems])
  then show ?case using Cons.IH by (simp add: c)
qed simp

lemma step_issued:
  assumes "invar r"
  shows "\<exists>js. issued (snd (open_key k e r)) = issued r @ js \<and> distinct js \<and> set js \<inter> set (issued r) = {}"
    and "issued (snd (close_key k e r)) = issued r"
proof -
  obtain x r' where o: "open_key k e r = (x, r')" by fastforce
  show "\<exists>js. issued (snd (open_key k e r)) = issued r @ js \<and> distinct js \<and> set js \<inter> set (issued r) = {}"
  proof (cases x)
    case None
    then show ?thesis using open_refused o by (intro exI[of _ "[]"]) auto
  next
    case (Some i)
    then show ?thesis using open_law[OF assms, of k e i r'] o by (intro exI[of _ "[i]"]) auto
  qed
  obtain y r'' where c: "close_key k e r = (y, r'')" by fastforce
  show "issued (snd (close_key k e r)) = issued r"
    using close_refused close_law[OF assms] c by (cases y) auto
qed

text \<open>Identifiers are never reused, whatever is opened and closed in between.\<close>

lemma run_issued_distinct:
  "invar r \<Longrightarrow> distinct (issued r) \<Longrightarrow> distinct (issued (registry_run open_key close_key calls r))"
proof (induction calls arbitrary: r)
  case (Cons c calls)
  obtain is_open k e where c: "c = (is_open, k, e)" by (metis prod_cases3)
  let ?r = "snd (if is_open then open_key k e r else close_key k e r)"
  have "invar ?r" by (rule step_invar[OF Cons.prems(1)])
  moreover have "distinct (issued ?r)"
  proof (cases is_open)
    case True
    from step_issued(1)[OF Cons.prems(1), of k e] obtain js where
      "issued (snd (open_key k e r)) = issued r @ js" "distinct js" "set js \<inter> set (issued r) = {}" by blast
    then show ?thesis using True Cons.prems(2) by auto
  next
    case False
    then show ?thesis using step_issued(2)[OF Cons.prems(1), of k e] Cons.prems(2) by simp
  qed
  ultimately show ?case using Cons.IH by (simp add: c)
qed simp

end

section \<open>The ledger\<close>

definition max_loader_mappings :: nat where "max_loader_mappings = 64"

record loader_mapping =
  m_base :: u32
  m_id :: u32
  load_event :: u32
  unload_event :: u32

record ledger =
  l_history :: "loader_mapping list"
  l_limit :: u32
  l_active :: u32
  l_last_event :: u32

record mapping_transition =
  t_mapping_id :: u32
  t_error :: string

definition new_ledger :: "u32 \<Rightarrow> ledger" where
  "new_ledger limit = \<lparr>l_history = [], l_limit = limit, l_active = 0, l_last_event = 0\<rparr>"

definition l_count :: "ledger \<Rightarrow> u32" where
  "l_count l = word_of_nat (length (l_history l))"

text \<open>The empty string is \<open>return {}\<close>.\<close>

definition ledger_validate :: "ledger \<Rightarrow> u32 \<Rightarrow> u32 \<Rightarrow> string" where
  "ledger_validate l base event =
    (if l_limit l = 0 \<or> l_limit l > word_of_nat max_loader_mappings then ''loader_mapping_invalid_limit''
     else if base = 0 then ''loader_mapping_invalid_base''
     else if event = 0 \<or> event \<le> l_last_event l then ''loader_mapping_event_order''
     else [])"

definition is_live :: "u32 \<Rightarrow> loader_mapping \<Rightarrow> bool" where
  "is_live base m \<longleftrightarrow> m_base m = base \<and> unload_event m = 0"

definition admit :: "u32 \<Rightarrow> u32 \<Rightarrow> ledger \<Rightarrow> mapping_transition \<times> ledger" where
  "admit base event l =
    (let error = ledger_validate l base event in
     if error \<noteq> [] then (\<lparr>t_mapping_id = 0, t_error = error\<rparr>, l)
     else if list_ex (is_live base) (l_history l)
       then (\<lparr>t_mapping_id = 0, t_error = ''loader_mapping_base_active''\<rparr>, l)
     else if l_count l = l_limit l then (\<lparr>t_mapping_id = 0, t_error = ''loader_mapping_limit''\<rparr>, l)
     else let i = l_count l + 1 in
       (\<lparr>t_mapping_id = i, t_error = []\<rparr>,
        l\<lparr>l_history := l_history l @ [\<lparr>m_base = base, m_id = i, load_event = event, unload_event = 0\<rparr>],
          l_active := l_active l + 1, l_last_event := event\<rparr>))"

text \<open>The loop of \<open>retire\<close>: the first live mapping at the base is closed.\<close>

fun retire_first :: "u32 \<Rightarrow> u32 \<Rightarrow> loader_mapping list \<Rightarrow> (u32 \<times> loader_mapping list) option" where
  "retire_first base event [] = None"
| "retire_first base event (m # ms) =
     (if is_live base m then Some (m_id m, m\<lparr>unload_event := event\<rparr> # ms)
      else map_option (\<lambda>(i, ms'). (i, m # ms')) (retire_first base event ms))"

definition retire :: "u32 \<Rightarrow> u32 \<Rightarrow> ledger \<Rightarrow> mapping_transition \<times> ledger" where
  "retire base event l =
    (let error = ledger_validate l base event in
     if error \<noteq> [] then (\<lparr>t_mapping_id = 0, t_error = error\<rparr>, l)
     else case retire_first base event (l_history l) of
         None \<Rightarrow> (\<lparr>t_mapping_id = 0, t_error = ''loader_mapping_not_active''\<rparr>, l)
       | Some (i, ms) \<Rightarrow> (\<lparr>t_mapping_id = i, t_error = []\<rparr>,
           l\<lparr>l_history := ms, l_active := l_active l - 1, l_last_event := event\<rparr>))"

definition mapping_active :: "u32 \<Rightarrow> u32 \<Rightarrow> ledger \<Rightarrow> bool" where
  "mapping_active i base l \<longleftrightarrow> i \<noteq> 0 \<and> i \<le> l_count l \<and> base \<noteq> 0 \<and>
     m_base (l_history l ! (unat i - 1)) = base \<and> unload_event (l_history l ! (unat i - 1)) = 0"

definition unload_count :: "ledger \<Rightarrow> u32" where
  "unload_count l = l_count l - l_active l"

section \<open>Invariant and abstraction\<close>

definition live_list :: "ledger \<Rightarrow> loader_mapping list" where
  "live_list l = filter (\<lambda>m. unload_event m = 0) (l_history l)"

definition ledger_live :: "ledger \<Rightarrow> u32 \<rightharpoonup> u32" where
  "ledger_live l = map_of (map (\<lambda>m. (m_base m, m_id m)) (live_list l))"

definition ledger_issued :: "ledger \<Rightarrow> u32 list" where
  "ledger_issued l = map m_id (l_history l)"

definition ledger_inv :: "ledger \<Rightarrow> bool" where
  "ledger_inv l \<longleftrightarrow> length (l_history l) \<le> 64 \<and>
     length (l_history l) \<le> unat (l_limit l) \<and>
     (\<forall>i < length (l_history l). m_id (l_history l ! i) = word_of_nat (Suc i)) \<and>
     distinct (map m_base (live_list l)) \<and>
     l_active l = word_of_nat (length (live_list l)) \<and>
     (\<forall>m \<in> set (l_history l). m_base m \<noteq> 0 \<and> load_event m \<noteq> 0 \<and> load_event m \<le> l_last_event l \<and>
        (unload_event m \<noteq> 0 \<longrightarrow> load_event m < unload_event m \<and> unload_event m \<le> l_last_event l)) \<and>
     sorted_wrt (<) (map load_event (l_history l))"

lemma ledger_inv_new: "ledger_inv (new_ledger limit)"
  by (simp add: ledger_inv_def new_ledger_def live_list_def)

lemma unat_small: "n < 2 ^ 32 \<Longrightarrow> unat (word_of_nat n :: u32) = n"
  by (simp add: unsigned_of_nat take_bit_nat_eq_self)

lemma validate_ok:
  "ledger_validate l base event = [] \<Longrightarrow> base \<noteq> 0 \<and> event \<noteq> 0 \<and> l_last_event l < event \<and>
     l_limit l \<noteq> 0 \<and> l_limit l \<le> 64"
  by (auto simp: ledger_validate_def max_loader_mappings_def not_less not_le split: if_splits)

lemma admit_success:
  assumes "t_error (fst (admit base event l)) = []"
  shows "ledger_validate l base event = []" and "\<not> list_ex (is_live base) (l_history l)"
    and "l_count l \<noteq> l_limit l" and "t_mapping_id (fst (admit base event l)) = l_count l + 1"
    and "snd (admit base event l) = l\<lparr>l_history := l_history l @
         [\<lparr>m_base = base, m_id = l_count l + 1, load_event = event, unload_event = 0\<rparr>],
          l_active := l_active l + 1, l_last_event := event\<rparr>"
  using assms by (auto simp: admit_def Let_def split: if_splits)

lemma admit_failure: "t_error (fst (admit base event l)) \<noteq> [] \<Longrightarrow> snd (admit base event l) = l"
  by (auto simp: admit_def Let_def)

lemma retire_success:
  assumes "t_error (fst (retire base event l)) = []"
  obtains i ms where "ledger_validate l base event = []"
    "retire_first base event (l_history l) = Some (i, ms)"
    "t_mapping_id (fst (retire base event l)) = i"
    "snd (retire base event l) = l\<lparr>l_history := ms, l_active := l_active l - 1, l_last_event := event\<rparr>"
  using assms by (auto simp: retire_def Let_def split: if_splits option.splits)

lemma retire_failure: "t_error (fst (retire base event l)) \<noteq> [] \<Longrightarrow> snd (retire base event l) = l"
  by (auto simp: retire_def Let_def split: option.splits prod.splits)

lemma retire_first_Some:
  assumes "retire_first base event ms = Some (i, ms')"
  shows "\<exists>k < length ms. is_live base (ms ! k) \<and> i = m_id (ms ! k) \<and>
     ms' = ms[k := (ms ! k)\<lparr>unload_event := event\<rparr>]"
  using assms
proof (induction ms arbitrary: ms')
  case (Cons m ms)
  show ?case
  proof (cases "is_live base m")
    case True
    then show ?thesis using Cons.prems by (intro exI[of _ 0]) auto
  next
    case False
    then obtain ms'' where r: "retire_first base event ms = Some (i, ms'')" "ms' = m # ms''"
      using Cons.prems by auto
    from Cons.IH[OF r(1)] obtain k where "k < length ms" "is_live base (ms ! k)" "i = m_id (ms ! k)"
      "ms'' = ms[k := (ms ! k)\<lparr>unload_event := event\<rparr>]" by blast
    then show ?thesis using r(2) by (intro exI[of _ "Suc k"]) auto
  qed
qed simp

lemma filter_list_update_out:
  assumes "k < length xs" and "P (xs ! k)" and "\<not> P y"
  shows "filter P (xs[k := y]) = filter P (take k xs) @ filter P (drop (Suc k) xs)"
    and "filter P xs = filter P (take k xs) @ xs ! k # filter P (drop (Suc k) xs)"
proof -
  show "filter P (xs[k := y]) = filter P (take k xs) @ filter P (drop (Suc k) xs)"
    using assms by (simp add: upd_conv_take_nth_drop)
  have "filter P xs = filter P (take k xs @ xs ! k # drop (Suc k) xs)"
    using assms(1) by (simp flip: id_take_nth_drop)
  then show "filter P xs = filter P (take k xs) @ xs ! k # filter P (drop (Suc k) xs)"
    using assms(2) by simp
qed

lemma live_list_admit:
  "live_list (l\<lparr>l_history := l_history l @ [\<lparr>m_base = b, m_id = i, load_event = e, unload_event = 0\<rparr>],
     l_active := a, l_last_event := e'\<rparr>)
   = live_list l @ [\<lparr>m_base = b, m_id = i, load_event = e, unload_event = 0\<rparr>]"
  by (simp add: live_list_def)

lemma not_live_iff:
  "\<not> list_ex (is_live base) (l_history l) \<longleftrightarrow> base \<notin> set (map m_base (live_list l))"
  by (auto simp: list_ex_iff is_live_def live_list_def)

lemma ledger_count: "ledger_inv l \<Longrightarrow> unat (l_count l) = length (l_history l)"
  by (simp add: ledger_inv_def l_count_def unat_small)

lemma admit_inv:
  assumes inv: "ledger_inv l"
  shows "ledger_inv (snd (admit base event l))"
proof (cases "t_error (fst (admit base event l)) = []")
  case False
  with inv show ?thesis by (simp add: admit_failure)
next
  case True
  note a = admit_success[OF True]
  note v = validate_ok[OF a(1)]
  have lim: "unat (l_limit l) \<le> 64" using v by (simp add: word_le_nat_alt)
  have "length (l_history l) \<noteq> unat (l_limit l)"
    using a(3) ledger_count[OF inv] by (auto simp: word_unat_eq_iff)
  then have room: "length (l_history l) < unat (l_limit l)"
    using inv by (simp add: ledger_inv_def)
  have id: "l_count l + 1 = word_of_nat (Suc (length (l_history l)))"
    by (simp add: l_count_def add.commute)
  have ev: "\<forall>m \<in> set (l_history l). load_event m < event \<and> unload_event m \<le> event"
  proof
    fix m assume "m \<in> set (l_history l)"
    then have m: "load_event m \<le> l_last_event l" "unload_event m \<noteq> 0 \<longrightarrow> unload_event m \<le> l_last_event l"
      using inv by (auto simp: ledger_inv_def)
    have e: "l_last_event l < event" using v by simp
    from m(1) e have "load_event m < event" by (rule le_less_trans)
    moreover have "unload_event m \<le> event"
    proof (cases "unload_event m = 0")
      case False
      with m(2) have "unload_event m \<le> l_last_event l" by simp
      then show ?thesis using e by (metis le_less_trans less_imp_le)
    qed simp
    ultimately show "load_event m < event \<and> unload_event m \<le> event" ..
  qed
  have fresh: "base \<notin> set (map m_base (live_list l))" by (rule not_live_iff[THEN iffD1, OF a(2)])
  show ?thesis
    unfolding a(5) ledger_inv_def live_list_admit
    using inv[unfolded ledger_inv_def] v room lim fresh ev
    by (auto simp: nth_append id sorted_wrt_append add.commute less_Suc_eq l_count_def intro: less_imp_le)
qed

lemma retire_first_live:
  assumes "retire_first base event (l_history l) = Some (i, ms)" and "event \<noteq> 0"
  shows "\<exists>k < length (l_history l). is_live base (l_history l ! k) \<and> i = m_id (l_history l ! k) \<and>
     ms = (l_history l)[k := (l_history l ! k)\<lparr>unload_event := event\<rparr>] \<and>
     (\<exists>xs ys. live_list l = xs @ l_history l ! k # ys \<and>
        live_list (l\<lparr>l_history := ms, l_active := a, l_last_event := e\<rparr>) = xs @ ys)"
proof -
  from retire_first_Some[OF assms(1)] obtain k where k: "k < length (l_history l)"
    "is_live base (l_history l ! k)" "i = m_id (l_history l ! k)"
    "ms = (l_history l)[k := (l_history l ! k)\<lparr>unload_event := event\<rparr>]" by blast
  have "unload_event (l_history l ! k) = 0" using k(2) by (simp add: is_live_def)
  note f = filter_list_update_out[OF k(1), of "\<lambda>m. unload_event m = 0" "(l_history l ! k)\<lparr>unload_event := event\<rparr>",
      OF this]
  show ?thesis
    using k f assms(2) by (intro exI[of _ k]) (auto simp: live_list_def)
qed

lemma retire_inv:
  assumes inv: "ledger_inv l"
  shows "ledger_inv (snd (retire base event l))"
proof (cases "t_error (fst (retire base event l)) = []")
  case False
  with inv show ?thesis by (simp add: retire_failure)
next
  case True
  then obtain i ms where a: "ledger_validate l base event = []"
    "retire_first base event (l_history l) = Some (i, ms)"
    "snd (retire base event l) = l\<lparr>l_history := ms, l_active := l_active l - 1, l_last_event := event\<rparr>"
    by (rule retire_success)
  note v = validate_ok[OF a(1)]
  let ?l = "snd (retire base event l)"
  from retire_first_live[OF a(2), where a = "l_active l - 1" and e = event] v
  obtain k xs ys where k: "k < length (l_history l)" "is_live base (l_history l ! k)"
    and ms: "ms = (l_history l)[k := (l_history l ! k)\<lparr>unload_event := event\<rparr>]"
    and live: "live_list l = xs @ l_history l ! k # ys" "live_list ?l = xs @ ys"
    unfolding a(3) by blast
  have hist: "l_history ?l = ms" "l_last_event ?l = event" "l_limit ?l = l_limit l"
    "l_active ?l = l_active l - 1" by (simp_all add: a(3))
  have ev: "load_event m < event \<and> (unload_event m \<noteq> 0 \<longrightarrow> unload_event m \<le> event)"
    if "m \<in> set (l_history l)" for m
  proof -
    have m: "load_event m \<le> l_last_event l" "unload_event m \<noteq> 0 \<longrightarrow> unload_event m \<le> l_last_event l"
      using inv that by (auto simp: ledger_inv_def)
    have e: "l_last_event l < event" using v by simp
    show ?thesis using m e by (meson le_less_trans less_imp_le)
  qed
  have len: "length ms = length (l_history l)" by (simp add: ms)
  have ids: "\<forall>j < length ms. m_id (ms ! j) = word_of_nat (Suc j)"
    using inv k(1) by (auto simp: ms nth_list_update ledger_inv_def)
  have loads: "map load_event ms = map load_event (l_history l)"
    by (rule nth_equalityI) (use k(1) in \<open>auto simp: ms nth_list_update\<close>)
  have each: "m_base m \<noteq> 0 \<and> load_event m \<noteq> 0 \<and> load_event m \<le> event \<and>
      (unload_event m \<noteq> 0 \<longrightarrow> load_event m < unload_event m \<and> unload_event m \<le> event)"
    if m: "m \<in> set ms" for m
  proof -
    from m ms k(1) have "m = (l_history l ! k)\<lparr>unload_event := event\<rparr> \<or> m \<in> set (l_history l)"
      by (metis insert_iff set_update_subset_insert subset_eq)
    then show ?thesis
    proof
      assume n: "m = (l_history l ! k)\<lparr>unload_event := event\<rparr>"
      have h: "l_history l ! k \<in> set (l_history l)" using k(1) by simp
      show ?thesis using ev[OF h] inv h by (auto simp: n ledger_inv_def)
    next
      assume h: "m \<in> set (l_history l)"
      then show ?thesis using ev[OF h] inv by (auto simp: ledger_inv_def)
    qed
  qed
  show ?thesis
    unfolding ledger_inv_def hist live(2) loads
    using inv ids each live(1) len by (auto simp: ledger_inv_def)
qed

section \<open>Abstraction\<close>

lemma ledger_live_eq:
  assumes "live_list l' = xs"
  shows "ledger_live l' = map_of (map (\<lambda>m. (m_base m, m_id m)) xs)"
  by (simp add: ledger_live_def assms)

lemma map_of_snoc_fresh:
  "k \<notin> set (map fst xs) \<Longrightarrow> map_of (xs @ [(k, v)]) = (map_of xs)(k \<mapsto> v)"
  by (induction xs) auto

lemma map_of_delete_mid:
  assumes "distinct (map fst (xs @ (k, v) # ys))"
  shows "map_of (xs @ ys) = (map_of (xs @ (k, v) # ys))(k := None)"
proof
  fix a
  have "k \<notin> fst ` set xs" "k \<notin> fst ` set ys" using assms by auto
  then have "map_of xs k = None" "map_of ys k = None" by (auto simp: map_of_eq_None_iff)
  then show "map_of (xs @ ys) a = ((map_of (xs @ (k, v) # ys))(k := None)) a"
    by (auto simp: map_add_def split: option.splits)
qed

lemma admit_live:
  assumes inv: "ledger_inv l" and ok: "t_error (fst (admit base event l)) = []"
  shows "ledger_live l base = None"
    and "ledger_live (snd (admit base event l)) = (ledger_live l)(base \<mapsto> t_mapping_id (fst (admit base event l)))"
    and "ledger_issued (snd (admit base event l)) = ledger_issued l @ [t_mapping_id (fst (admit base event l))]"
    and "t_mapping_id (fst (admit base event l)) \<notin> set (ledger_issued l)"
proof -
  note a = admit_success[OF ok]
  have fresh: "base \<notin> set (map m_base (live_list l))" by (rule not_live_iff[THEN iffD1, OF a(2)])
  have fst_map: "map fst (map (\<lambda>m. (m_base m, m_id m)) (live_list l)) = map m_base (live_list l)" by simp
  show none: "ledger_live l base = None"
    using fresh by (auto simp: ledger_live_def map_of_eq_None_iff)
  have "ledger_live (snd (admit base event l))
      = map_of (map (\<lambda>m. (m_base m, m_id m)) (live_list l) @ [(base, l_count l + 1)])"
    unfolding a(5) ledger_live_def live_list_admit by simp
  also have "\<dots> = (ledger_live l)(base \<mapsto> l_count l + 1)"
    unfolding ledger_live_def by (rule map_of_snoc_fresh) (use fresh in auto)
  finally show "ledger_live (snd (admit base event l)) = (ledger_live l)(base \<mapsto> t_mapping_id (fst (admit base event l)))"
    by (simp only: a(4))
  show "ledger_issued (snd (admit base event l)) = ledger_issued l @ [t_mapping_id (fst (admit base event l))]"
    unfolding a(4) a(5) ledger_issued_def by simp
  show "t_mapping_id (fst (admit base event l)) \<notin> set (ledger_issued l)"
  proof
    assume "t_mapping_id (fst (admit base event l)) \<in> set (ledger_issued l)"
    then obtain i where i: "i < length (l_history l)" "m_id (l_history l ! i) = l_count l + 1"
      by (auto simp: ledger_issued_def a(4) in_set_conv_nth)
    have len: "length (l_history l) \<le> 64" using inv by (simp add: ledger_inv_def)
    have "word_of_nat (Suc i) = (word_of_nat (Suc (length (l_history l))) :: u32)"
      using inv i unfolding ledger_inv_def by (simp add: l_count_def add.commute)
    then have "unat (word_of_nat (Suc i) :: u32) = unat (word_of_nat (Suc (length (l_history l))) :: u32)"
      by (rule arg_cong)
    moreover have "unat (word_of_nat (Suc i) :: u32) = Suc i" by (rule unat_small) (use i len in simp)
    moreover have "unat (word_of_nat (Suc (length (l_history l))) :: u32) = Suc (length (l_history l))"
      by (rule unat_small) (use len in simp)
    ultimately show False using i(1) by linarith
  qed
qed

lemma retire_live:
  assumes inv: "ledger_inv l" and ok: "t_error (fst (retire base event l)) = []"
  shows "ledger_live l base = Some (t_mapping_id (fst (retire base event l)))"
    and "ledger_live (snd (retire base event l)) = (ledger_live l)(base := None)"
    and "ledger_issued (snd (retire base event l)) = ledger_issued l"
proof -
  from ok obtain i ms where a: "ledger_validate l base event = []"
    "retire_first base event (l_history l) = Some (i, ms)"
    "t_mapping_id (fst (retire base event l)) = i"
    "snd (retire base event l) = l\<lparr>l_history := ms, l_active := l_active l - 1, l_last_event := event\<rparr>"
    by (rule retire_success)
  note v = validate_ok[OF a(1)]
  from retire_first_live[OF a(2), where a = "l_active l - 1" and e = event] v
  obtain k xs ys where k: "k < length (l_history l)" "is_live base (l_history l ! k)" "i = m_id (l_history l ! k)"
    and ms: "ms = (l_history l)[k := (l_history l ! k)\<lparr>unload_event := event\<rparr>]"
    and live: "live_list l = xs @ l_history l ! k # ys" "live_list (snd (retire base event l)) = xs @ ys"
    unfolding a(4) by blast
  let ?f = "\<lambda>m. (m_base m, m_id m)"
  have d: "distinct (map fst (map ?f xs @ (base, i) # map ?f ys))"
    using inv live(1) k(2,3) by (auto simp: ledger_inv_def is_live_def comp_def)
  have l: "ledger_live l = map_of (map ?f xs @ (base, i) # map ?f ys)"
    using live(1) k(2,3) by (simp add: ledger_live_def is_live_def)
  have "base \<notin> fst ` set (map ?f xs)" using d by auto
  then have "map_of (map ?f xs) base = None" by (simp only: map_of_eq_None_iff not_False_eq_True)
  then have "map_of (map ?f xs @ (base, i) # map ?f ys) base = Some i"
    by (auto simp: map_add_def split: option.splits)
  then show "ledger_live l base = Some (t_mapping_id (fst (retire base event l)))"
    by (simp only: l a(3))
  have "ledger_live (snd (retire base event l)) = map_of (map ?f xs @ map ?f ys)"
    by (simp add: ledger_live_def live(2))
  also have "\<dots> = (ledger_live l)(base := None)" unfolding l by (rule map_of_delete_mid[OF d])
  finally show "ledger_live (snd (retire base event l)) = (ledger_live l)(base := None)" .
  have "map m_id ms = map m_id (l_history l)" by (rule nth_equalityI) (use k(1) in \<open>auto simp: ms nth_list_update\<close>)
  then show "ledger_issued (snd (retire base event l)) = ledger_issued l"
    by (simp add: ledger_issued_def a(4))
qed

text \<open>The identifier is the position in the history, so \<open>active\<close> looks up the live map.\<close>

lemma mapping_active_live:
  assumes inv: "ledger_inv l"
  shows "mapping_active i base l \<longleftrightarrow> base \<noteq> 0 \<and> ledger_live l base = Some i"
proof -
  let ?h = "l_history l"
  have len: "length ?h \<le> 64" and ids: "\<And>j. j < length ?h \<Longrightarrow> m_id (?h ! j) = word_of_nat (Suc j)"
    using inv by (auto simp: ledger_inv_def simp del: of_nat_Suc)
  have cnt: "unat (l_count l) = length ?h" by (rule ledger_count[OF inv])
  have d: "distinct (map fst (map (\<lambda>m. (m_base m, m_id m)) (live_list l)))"
    using inv by (simp add: ledger_inv_def comp_def)
  have small: "unat (word_of_nat (Suc j) :: u32) = Suc j" if "j < length ?h" for j
    by (rule unat_small) (use that len in simp)
  have live: "ledger_live l base = Some i \<longleftrightarrow> (\<exists>j < length ?h. is_live base (?h ! j) \<and> i = word_of_nat (Suc j))"
  proof -
    have "ledger_live l base = Some i \<longleftrightarrow> (base, i) \<in> set (map (\<lambda>m. (m_base m, m_id m)) (live_list l))"
      using d by (simp only: ledger_live_def map_of_eq_Some_iff)
    also have "\<dots> \<longleftrightarrow> (\<exists>m \<in> set ?h. is_live base m \<and> i = m_id m)"
      by (auto simp: live_list_def is_live_def)
    also have "\<dots> \<longleftrightarrow> (\<exists>j < length ?h. is_live base (?h ! j) \<and> i = word_of_nat (Suc j))"
      by (metis ids in_set_conv_nth)
    finally show ?thesis .
  qed
  have "i \<noteq> 0 \<and> i \<le> l_count l \<and> is_live base (?h ! (unat i - 1))
     \<longleftrightarrow> (\<exists>j < length ?h. is_live base (?h ! j) \<and> i = word_of_nat (Suc j))"
  proof
    assume a: "i \<noteq> 0 \<and> i \<le> l_count l \<and> is_live base (?h ! (unat i - 1))"
    then have "unat i \<noteq> 0" "unat i \<le> length ?h" using cnt by (auto simp: word_le_nat_alt unat_eq_0)
    then have "unat i - 1 < length ?h" "Suc (unat i - 1) = unat i" by auto
    then show "\<exists>j < length ?h. is_live base (?h ! j) \<and> i = word_of_nat (Suc j)"
      using a by (intro exI[of _ "unat i - 1"]) simp
  next
    assume "\<exists>j < length ?h. is_live base (?h ! j) \<and> i = word_of_nat (Suc j)"
    then obtain j where j: "j < length ?h" "is_live base (?h ! j)" "i = word_of_nat (Suc j)" by blast
    then have u: "unat i = Suc j" using small by simp
    then have "i \<noteq> 0" by auto
    moreover have "i \<le> l_count l" using u j(1) cnt by (simp add: word_le_nat_alt)
    ultimately show "i \<noteq> 0 \<and> i \<le> l_count l \<and> is_live base (?h ! (unat i - 1))"
      using j(2) u by simp
  qed
  then show ?thesis by (auto simp: mapping_active_def live is_live_def)
qed

lemma retire_first_None_iff:
  "retire_first base event ms = None \<longleftrightarrow> \<not> list_ex (is_live base) ms"
  by (induction ms) auto

lemma live_None_iff: "ledger_live l base = None \<longleftrightarrow> \<not> list_ex (is_live base) (l_history l)"
  unfolding not_live_iff ledger_live_def map_of_eq_None_iff by (simp add: image_image)

lemma validate_ok_iff:
  "ledger_validate l base event = [] \<longleftrightarrow> base \<noteq> 0 \<and> l_last_event l < event \<and> l_limit l \<noteq> 0 \<and> l_limit l \<le> 64"
  by (auto simp: ledger_validate_def max_loader_mappings_def not_less not_le)

text \<open>The calls as the operations of a registry: a successful transition yields its identifier.\<close>

definition ledger_open :: "u32 \<Rightarrow> u32 \<Rightarrow> ledger \<Rightarrow> u32 option \<times> ledger" where
  "ledger_open base event l = (case admit base event l of (t, l') \<Rightarrow>
     (if t_error t = [] then Some (t_mapping_id t) else None, l'))"

definition ledger_close :: "u32 \<Rightarrow> u32 \<Rightarrow> ledger \<Rightarrow> u32 option \<times> ledger" where
  "ledger_close base event l = (case retire base event l of (t, l') \<Rightarrow>
     (if t_error t = [] then Some (t_mapping_id t) else None, l'))"

lemma ledger_open_cases:
  "ledger_open b e l = (x, l') \<longleftrightarrow> l' = snd (admit b e l) \<and>
     x = (if t_error (fst (admit b e l)) = [] then Some (t_mapping_id (fst (admit b e l))) else None)"
  by (auto simp: ledger_open_def split: prod.splits)

lemma ledger_close_cases:
  "ledger_close b e l = (x, l') \<longleftrightarrow> l' = snd (retire b e l) \<and>
     x = (if t_error (fst (retire b e l)) = [] then Some (t_mapping_id (fst (retire b e l))) else None)"
  by (auto simp: ledger_close_def split: prod.splits)

interpretation mappings: lifetime_registry ledger_open ledger_close ledger_live ledger_issued ledger_inv
proof
  fix l l' b e i assume inv: "ledger_inv l"
  { assume "ledger_open b e l = (Some i, l')"
    then have o: "t_error (fst (admit b e l)) = []" "l' = snd (admit b e l)" "i = t_mapping_id (fst (admit b e l))"
      by (auto simp: ledger_open_cases split: if_splits)
    show "ledger_live l b = None \<and> ledger_live l' = (ledger_live l)(b \<mapsto> i) \<and>
        ledger_issued l' = ledger_issued l @ [i] \<and> i \<notin> set (ledger_issued l)"
      using admit_live[OF inv o(1)] o(2,3) by simp }
  { assume "ledger_close b e l = (Some i, l')"
    then have c: "t_error (fst (retire b e l)) = []" "l' = snd (retire b e l)" "i = t_mapping_id (fst (retire b e l))"
      by (auto simp: ledger_close_cases split: if_splits)
    show "ledger_live l b = Some i \<and> ledger_live l' = (ledger_live l)(b := None) \<and>
        ledger_issued l' = ledger_issued l"
      using retire_live[OF inv c(1)] c(2,3) by simp }
next
  fix l l' b e x
  { assume "ledger_open b e l = (None, l')"
    then show "l' = l" by (auto simp: ledger_open_cases admit_failure split: if_splits) }
  { assume "ledger_close b e l = (None, l')"
    then show "l' = l" by (auto simp: ledger_close_cases retire_failure split: if_splits) }
  { assume "ledger_inv l" "ledger_open b e l = (x, l')"
    then show "ledger_inv l'" by (simp add: ledger_open_cases admit_inv) }
  { assume "ledger_inv l" "ledger_close b e l = (x, l')"
    then show "ledger_inv l'" by (simp add: ledger_close_cases retire_inv) }
qed

definition ledger_after :: "u32 \<Rightarrow> (bool \<times> u32 \<times> u32) list \<Rightarrow> ledger" where
  "ledger_after limit calls = registry_run ledger_open ledger_close calls (new_ledger limit)"

lemma ledger_after_inv: "ledger_inv (ledger_after limit calls)"
  unfolding ledger_after_def by (rule mappings.run_invar[OF ledger_inv_new])

lemma ledger_limit_step:
  "l_limit (snd (ledger_open b e l)) = l_limit l" "l_limit (snd (ledger_close b e l)) = l_limit l"
  by (auto simp: ledger_open_def ledger_close_def admit_def retire_def Let_def split: option.splits)

lemma registry_run_limit: "l_limit (registry_run ledger_open ledger_close calls l) = l_limit l"
  by (induction calls arbitrary: l) (auto simp: ledger_limit_step)

section \<open>Properties\<close>

text \<open>
  Claim C10. After any sequence of calls of \<open>admit\<close> and \<open>retire\<close> the ledger behaves as a map from
  base addresses to live identifiers. \<open>admit\<close> succeeds exactly when the limit, base and event
  are valid, the base is not live and the history has room; it adds the base with an identifier
  never given out before. \<open>retire\<close> succeeds exactly when the base is live, and removes it. A
  refused call changes nothing, and \<open>active\<close> reads the map.
\<close>

theorem ledger_refines_live_map:
  fixes limit :: u32 and calls :: "(bool \<times> u32 \<times> u32) list" and base event i :: u32
  defines "l \<equiv> ledger_after limit calls"
  defines "valid \<equiv> base \<noteq> 0 \<and> l_last_event l < event \<and> limit \<noteq> 0 \<and> limit \<le> 64"
  shows "distinct (ledger_issued l)
    \<and> (if valid \<and> ledger_live l base = None \<and> length (ledger_issued l) < unat limit
       then \<exists>fresh. fst (admit base event l) = \<lparr>t_mapping_id = fresh, t_error = []\<rparr>
          \<and> ledger_live (snd (admit base event l)) = (ledger_live l)(base \<mapsto> fresh)
          \<and> fresh \<notin> set (ledger_issued l)
          \<and> ledger_issued (snd (admit base event l)) = ledger_issued l @ [fresh]
       else t_error (fst (admit base event l)) \<noteq> [] \<and> snd (admit base event l) = l)
    \<and> (if valid \<and> ledger_live l base \<noteq> None
       then fst (retire base event l) = \<lparr>t_mapping_id = the (ledger_live l base), t_error = []\<rparr>
          \<and> ledger_live (snd (retire base event l)) = (ledger_live l)(base := None)
          \<and> ledger_issued (snd (retire base event l)) = ledger_issued l
       else t_error (fst (retire base event l)) \<noteq> [] \<and> snd (retire base event l) = l)
    \<and> (mapping_active i base l \<longleftrightarrow> base \<noteq> 0 \<and> ledger_live l base = Some i)"
proof -
  have inv: "ledger_inv l" by (simp add: l_def ledger_after_inv)
  have lim: "l_limit l = limit"
    by (simp add: l_def ledger_after_def registry_run_limit new_ledger_def)
  have valid: "valid \<longleftrightarrow> ledger_validate l base event = []" by (simp add: valid_def validate_ok_iff lim)
  have room: "length (ledger_issued l) < unat limit \<longleftrightarrow> l_count l \<noteq> l_limit l"
    using ledger_count[OF inv] inv lim
    by (auto simp: ledger_issued_def word_unat_eq_iff ledger_inv_def)
  have "distinct (ledger_issued l)"
    unfolding l_def ledger_after_def
    by (rule mappings.run_issued_distinct[OF ledger_inv_new]) (simp add: ledger_issued_def new_ledger_def)
  moreover have adm: "t_error (fst (admit base event l)) = [] \<longleftrightarrow>
      valid \<and> ledger_live l base = None \<and> length (ledger_issued l) < unat limit"
    unfolding valid room live_None_iff by (auto simp: admit_def Let_def)
  moreover have ret: "t_error (fst (retire base event l)) = [] \<longleftrightarrow> valid \<and> ledger_live l base \<noteq> None"
    unfolding valid live_None_iff retire_first_None_iff[where event = event, symmetric]
    by (auto simp: retire_def Let_def split: option.splits)
  ultimately show ?thesis
    using admit_live[OF inv, of base event] retire_live[OF inv, of base event] admit_failure retire_failure
      mapping_active_live[OF inv]
    by (auto intro: mapping_transition.equality)
qed

text \<open>
  Claim C11. The counters are true and bounded: after any sequence of calls the history never
  exceeds the limit nor the 64 slots of the array, \<open>active_\<close> counts the mappings not yet
  unloaded, \<open>unload_count\<close> the others, and no two live mappings share a base address.
\<close>

theorem ledger_counters_true:
  fixes limit :: u32 and calls :: "(bool \<times> u32 \<times> u32) list"
  defines "l \<equiv> ledger_after limit calls"
  shows "length (l_history l) \<le> min 64 (unat limit)
    \<and> unat (l_count l) = length (l_history l)
    \<and> unat (l_active l) = length (filter (\<lambda>m. unload_event m = 0) (l_history l))
    \<and> unat (unload_count l) = length (filter (\<lambda>m. unload_event m \<noteq> 0) (l_history l))
    \<and> distinct (map m_base (filter (\<lambda>m. unload_event m = 0) (l_history l)))
    \<and> sorted_wrt (<) (map load_event (l_history l))"
proof -
  have inv: "ledger_inv l" by (simp add: l_def ledger_after_inv)
  have lim: "l_limit l = limit"
    by (simp add: l_def ledger_after_def registry_run_limit new_ledger_def)
  let ?live = "filter (\<lambda>m. unload_event m = 0) (l_history l)"
  have len: "length (l_history l) \<le> 64" using inv by (simp add: ledger_inv_def)
  have "length ?live \<le> 64" using len length_filter_le[of "\<lambda>m. unload_event m = 0" "l_history l"] by linarith
  then have act: "unat (l_active l) = length ?live"
    using inv by (simp add: ledger_inv_def live_list_def unat_small)
  have split: "length ?live + length (filter (\<lambda>m. unload_event m \<noteq> 0) (l_history l)) = length (l_history l)"
    by (rule sum_length_filter_compl)
  have "l_active l \<le> l_count l"
    using act ledger_count[OF inv] by (simp add: word_le_nat_alt)
  then have "unat (unload_count l) = unat (l_count l) - unat (l_active l)"
    by (simp add: unload_count_def unat_sub)
  then have unl: "unat (unload_count l) = length (filter (\<lambda>m. unload_event m \<noteq> 0) (l_history l))"
    using split act ledger_count[OF inv] by linarith
  show ?thesis
    using inv lim act unl ledger_count[OF inv] by (simp add: ledger_inv_def live_list_def)
qed

end
