(* ===== verification/Bootstrap_Session.thy ===== *)
theory Bootstrap_Session
  imports Prelude
begin

text \<open>
  \<open>bootstrap_api.h\<close>, \<open>bootstrap_session.hpp\<close> and \<open>bootstrap_session.cpp\<close>: the status a same-process
  caller obtains from the bootstrap module. The observation object is an interface, a locale
  below. The atomic flag \<open>busy_\<close> is a field of the session, and the last section runs calls of
  several threads interleaved at the acquisition and the release of that flag.
\<close>

definition SAEX_BOOTSTRAP_ABI_MAJOR :: u32 where "SAEX_BOOTSTRAP_ABI_MAJOR = 1"

text \<open>\<open>SaexBootstrapResult\<close>, \<open>SaexBootstrapState\<close>, \<open>SaexBootstrapReason\<close>\<close>

definition BOOTSTRAP_OK :: u32 where "BOOTSTRAP_OK = 0"
definition BOOTSTRAP_INVALID_ARGUMENT :: u32 where "BOOTSTRAP_INVALID_ARGUMENT = 1"
definition BOOTSTRAP_ABI_MISMATCH :: u32 where "BOOTSTRAP_ABI_MISMATCH = 2"
definition BOOTSTRAP_BUSY :: u32 where "BOOTSTRAP_BUSY = 3"
definition BOOTSTRAP_DISCOVERED :: u32 where "BOOTSTRAP_DISCOVERED = 0"
definition BOOTSTRAP_REJECTED :: u32 where "BOOTSTRAP_REJECTED = 1"
definition BOOTSTRAP_OBSERVED_UNVERIFIED :: u32 where "BOOTSTRAP_OBSERVED_UNVERIFIED = 2"
definition BOOTSTRAP_STOPPED :: u32 where "BOOTSTRAP_STOPPED = 3"
definition BOOTSTRAP_NONE :: u32 where "BOOTSTRAP_NONE = 0"
definition BOOTSTRAP_HOST_PATH :: u32 where "BOOTSTRAP_HOST_PATH = 1"
definition BOOTSTRAP_FILE_REJECTED :: u32 where "BOOTSTRAP_FILE_REJECTED = 2"
definition BOOTSTRAP_IMAGE_BASE :: u32 where "BOOTSTRAP_IMAGE_BASE = 3"
definition BOOTSTRAP_IMAGE_REJECTED :: u32 where "BOOTSTRAP_IMAGE_REJECTED = 4"
definition BOOTSTRAP_RUNTIME_UNVERIFIED :: u32 where "BOOTSTRAP_RUNTIME_UNVERIFIED = 5"
definition BOOTSTRAP_INTERNAL_ERROR :: u32 where "BOOTSTRAP_INTERNAL_ERROR = 6"

lemmas bootstrap_constants = SAEX_BOOTSTRAP_ABI_MAJOR_def BOOTSTRAP_OK_def BOOTSTRAP_INVALID_ARGUMENT_def
  BOOTSTRAP_ABI_MISMATCH_def BOOTSTRAP_BUSY_def BOOTSTRAP_DISCOVERED_def BOOTSTRAP_REJECTED_def
  BOOTSTRAP_OBSERVED_UNVERIFIED_def BOOTSTRAP_STOPPED_def BOOTSTRAP_NONE_def BOOTSTRAP_HOST_PATH_def
  BOOTSTRAP_FILE_REJECTED_def BOOTSTRAP_IMAGE_BASE_def BOOTSTRAP_IMAGE_REJECTED_def
  BOOTSTRAP_RUNTIME_UNVERIFIED_def BOOTSTRAP_INTERNAL_ERROR_def

text \<open>Character arrays are strings of the array's length, padded with the zero character.\<close>

record bootstrap_status =
  abi_major :: u32
  struct_bytes :: u32
  bs_state :: u32
  bs_reason :: u32
  observation_attempts :: u32
  can_attach :: u32
  bindings_loaded :: u32
  bs_reserved :: u32
  observed_profile_id :: string
  profile_source_digest :: string

definition status_bytes :: u32 where "status_bytes = 192"

text \<open>\<open>observed_profile.generated.hpp\<close>: the identity of the observed profile.\<close>

definition observed_id :: string where
  "observed_id = ''gta-sa.observed.f01a00ce950fa40c''"

definition observed_profile_source_digest :: string where
  "observed_profile_source_digest = ''0653426a913c3fdef809ea9e6a614fca7d26498e66cb63148d7073fe8d965436''"

text \<open>\<open>std::copy(xs.begin(), xs.end(), array)\<close>\<close>

definition copy_into :: "string \<Rightarrow> string \<Rightarrow> string" where
  "copy_into xs arr = xs @ drop (length xs) arr"

datatype bootstrap_operation = Op_initialize | Op_query | Op_stop

record bootstrap_session =
  busy :: bool
  session_status :: bootstrap_status

definition new_session :: bootstrap_session where
  "new_session = \<lparr>busy = False, session_status = \<lparr>abi_major = SAEX_BOOTSTRAP_ABI_MAJOR,
     struct_bytes = status_bytes, bs_state = BOOTSTRAP_DISCOVERED, bs_reason = BOOTSTRAP_NONE,
     observation_attempts = 0, can_attach = 0, bindings_loaded = 0, bs_reserved = 0,
     observed_profile_id = replicate 96 (CHR 0x00), profile_source_digest = replicate 64 (CHR 0x00)\<rparr>\<rparr>"

text \<open>The part of \<open>invoke\<close> between taking and clearing the flag; \<open>inspect\<close> may change its own state.\<close>

definition bootstrap_body :: "('o \<Rightarrow> u32 \<times> 'o) \<Rightarrow> bootstrap_operation \<Rightarrow> bootstrap_status \<Rightarrow> 'o
    \<Rightarrow> bootstrap_status \<times> 'o" where
  "bootstrap_body inspect op st ob =
    (let (st1, ob1) =
       (if op = Op_initialize \<and> bs_state st = BOOTSTRAP_DISCOVERED then
          let (reason, ob') = inspect ob;
              r = (if reason \<ge> BOOTSTRAP_HOST_PATH \<and> reason \<le> BOOTSTRAP_INTERNAL_ERROR then reason
                   else BOOTSTRAP_INTERNAL_ERROR);
              s = (if r = BOOTSTRAP_RUNTIME_UNVERIFIED then BOOTSTRAP_OBSERVED_UNVERIFIED else BOOTSTRAP_REJECTED);
              st' = st\<lparr>observation_attempts := 1, bs_reason := r, bs_state := s\<rparr>
          in (if s = BOOTSTRAP_OBSERVED_UNVERIFIED
              then st'\<lparr>observed_profile_id := copy_into observed_id (observed_profile_id st')\<rparr> else st', ob')
        else if op = Op_stop then (st\<lparr>bs_state := BOOTSTRAP_STOPPED\<rparr>, ob)
        else (st, ob))
     in (st1\<lparr>profile_source_digest := copy_into observed_profile_source_digest (profile_source_digest st1)\<rparr>, ob1))"

text \<open>The argument checks before the flag is tested.\<close>

definition argument_error :: "u32 \<Rightarrow> bool \<Rightarrow> u32 \<Rightarrow> u32 option" where
  "argument_error abi has_output n =
    (if \<not> has_output \<or> n \<noteq> status_bytes then Some BOOTSTRAP_INVALID_ARGUMENT
     else if abi \<noteq> SAEX_BOOTSTRAP_ABI_MAJOR then Some BOOTSTRAP_ABI_MISMATCH
     else None)"

text \<open>One call: its result, what it writes to the caller's output, and the session after it.\<close>

definition bootstrap_invoke :: "('o \<Rightarrow> u32 \<times> 'o) \<Rightarrow> bootstrap_operation \<Rightarrow> u32 \<Rightarrow> bool \<Rightarrow> u32
    \<Rightarrow> bootstrap_session \<Rightarrow> 'o \<Rightarrow> u32 \<times> bootstrap_status option \<times> bootstrap_session \<times> 'o" where
  "bootstrap_invoke inspect op abi has_output n session ob =
    (case argument_error abi has_output n of
       Some e \<Rightarrow> (e, None, session, ob)
     | None \<Rightarrow>
         if busy session then (BOOTSTRAP_BUSY, None, session, ob)
         else let (st, ob') = bootstrap_body inspect op (session_status session) ob
              in (BOOTSTRAP_OK, Some st, session\<lparr>busy := False, session_status := st\<rparr>, ob'))"

section \<open>The interface BootstrapObservation\<close>

text \<open>
  An inspection answers with a reason code from \<open>HOST_PATH\<close> to \<open>INTERNAL_ERROR\<close>, and counts its
  own calls in \<open>attempts\<close>.
\<close>

locale bootstrap_observation =
  fixes inspect :: "'o \<Rightarrow> u32 \<times> 'o" and attempts :: "'o \<Rightarrow> nat"
  assumes reason_law: "fst (inspect ob) \<ge> BOOTSTRAP_HOST_PATH \<and> fst (inspect ob) \<le> BOOTSTRAP_INTERNAL_ERROR"
    and attempts_law: "attempts (snd (inspect ob)) = Suc (attempts ob)"

text \<open>Every status the session holds.\<close>

definition status_wf :: "bootstrap_status \<Rightarrow> bool" where
  "status_wf st \<longleftrightarrow> abi_major st = SAEX_BOOTSTRAP_ABI_MAJOR \<and> struct_bytes st = status_bytes
     \<and> can_attach st = 0 \<and> bindings_loaded st = 0 \<and> bs_reserved st = 0
     \<and> length (observed_profile_id st) = 96 \<and> length (profile_source_digest st) = 64
     \<and> bs_state st \<le> BOOTSTRAP_STOPPED
     \<and> observation_attempts st \<le> 1
     \<and> (bs_state st = BOOTSTRAP_DISCOVERED \<longrightarrow> observation_attempts st = 0)
     \<and> (bs_state st = BOOTSTRAP_REJECTED \<or> bs_state st = BOOTSTRAP_OBSERVED_UNVERIFIED \<longrightarrow> observation_attempts st = 1)
     \<and> (observation_attempts st = 0 \<longleftrightarrow> bs_reason st = BOOTSTRAP_NONE)
     \<and> (bs_state st = BOOTSTRAP_OBSERVED_UNVERIFIED \<longrightarrow> bs_reason st = BOOTSTRAP_RUNTIME_UNVERIFIED)
     \<and> (bs_state st = BOOTSTRAP_REJECTED \<longrightarrow> bs_reason st \<noteq> BOOTSTRAP_RUNTIME_UNVERIFIED)
     \<and> bs_reason st \<le> BOOTSTRAP_INTERNAL_ERROR
     \<and> observed_profile_id st = (if bs_reason st = BOOTSTRAP_RUNTIME_UNVERIFIED
         then copy_into observed_id (replicate 96 (CHR 0x00)) else replicate 96 (CHR 0x00))"

lemma length_observed_digest: "length observed_profile_source_digest = 64"
  by (simp add: observed_profile_source_digest_def)

lemma length_observed_id: "length observed_id = 32"
  by (simp add: observed_id_def)

lemma length_copy_into: "length xs \<le> length arr \<Longrightarrow> length (copy_into xs arr) = length arr"
  by (simp add: copy_into_def)

lemma digest_copied:
  "length arr = 64 \<Longrightarrow> copy_into observed_profile_source_digest arr = observed_profile_source_digest"
  by (simp add: copy_into_def length_observed_digest)

lemma status_wf_new: "status_wf (session_status new_session)"
  by (simp add: status_wf_def new_session_def bootstrap_constants)

text \<open>The three operations on a status, case by case.\<close>

lemma body_query: "bootstrap_body inspect Op_query st ob =
    (st\<lparr>profile_source_digest := copy_into observed_profile_source_digest (profile_source_digest st)\<rparr>, ob)"
  by (simp add: bootstrap_body_def)

lemma body_stop: "bootstrap_body inspect Op_stop st ob =
    (st\<lparr>bs_state := BOOTSTRAP_STOPPED,
       profile_source_digest := copy_into observed_profile_source_digest (profile_source_digest st)\<rparr>, ob)"
  by (simp add: bootstrap_body_def)

lemma body_initialize_again: "bs_state st \<noteq> BOOTSTRAP_DISCOVERED \<Longrightarrow> bootstrap_body inspect Op_initialize st ob =
    (st\<lparr>profile_source_digest := copy_into observed_profile_source_digest (profile_source_digest st)\<rparr>, ob)"
  by (simp add: bootstrap_body_def)

lemma status_wf_digest:
  "status_wf st \<Longrightarrow> length d = 64 \<Longrightarrow> status_wf (st\<lparr>profile_source_digest := d\<rparr>)"
  by (auto simp: status_wf_def)

lemma length_digest_field: "status_wf st \<Longrightarrow> length (profile_source_digest st) = 64"
  by (simp only: status_wf_def)

context bootstrap_observation begin

lemma body_initialize:
  assumes "bs_state st = BOOTSTRAP_DISCOVERED"
  shows "bootstrap_body inspect Op_initialize st ob =
    (let r = fst (inspect ob) in
     (st\<lparr>observation_attempts := 1, bs_reason := r,
       bs_state := (if r = BOOTSTRAP_RUNTIME_UNVERIFIED then BOOTSTRAP_OBSERVED_UNVERIFIED else BOOTSTRAP_REJECTED),
       observed_profile_id := (if r = BOOTSTRAP_RUNTIME_UNVERIFIED
         then copy_into observed_id (observed_profile_id st) else observed_profile_id st),
       profile_source_digest := copy_into observed_profile_source_digest (profile_source_digest st)\<rparr>,
      snd (inspect ob)))"
  using assms reason_law[of ob]
  by (cases "inspect ob") (simp add: bootstrap_body_def Let_def bootstrap_constants)

lemma body_wf:
  assumes "status_wf st"
  shows "status_wf (fst (bootstrap_body inspect op st ob))"
proof (cases op)
  case Op_initialize
  show ?thesis
  proof (cases "bs_state st = BOOTSTRAP_DISCOVERED")
    case True
    have r: "1 \<le> fst (inspect ob)" "fst (inspect ob) \<le> 6" using reason_law[of ob] by (simp_all add: bootstrap_constants)
    then have "fst (inspect ob) \<noteq> 0" by auto
    moreover have "bs_reason st = 0" using assms True by (auto simp: status_wf_def bootstrap_constants)
    ultimately show ?thesis
      using assms r True
      by (simp add: Op_initialize body_initialize Let_def status_wf_def digest_copied length_observed_digest
          length_copy_into length_observed_id bootstrap_constants)
  next
    case False
    then show ?thesis using assms
      by (simp add: Op_initialize body_initialize_again digest_copied length_observed_digest status_wf_digest length_digest_field)
  qed
next
  case Op_query
  then show ?thesis using assms by (simp add: body_query digest_copied length_observed_digest status_wf_digest length_digest_field)
next
  case Op_stop
  then show ?thesis using assms
    by (auto simp: body_stop status_wf_def digest_copied length_observed_digest bootstrap_constants)
qed

text \<open>The inspection runs exactly when the recorded attempts grow.\<close>

lemma body_attempts:
  assumes "status_wf st"
  shows "attempts (snd (bootstrap_body inspect op st ob)) + unat (observation_attempts st)
       = attempts ob + unat (observation_attempts (fst (bootstrap_body inspect op st ob)))"
proof (cases "op = Op_initialize \<and> bs_state st = BOOTSTRAP_DISCOVERED")
  case True
  then show ?thesis
    using assms by (simp add: body_initialize Let_def attempts_law status_wf_def)
next
  case False
  then show ?thesis
    by (cases op) (auto simp: body_query body_stop body_initialize_again)
qed

end

section \<open>Concurrent callers\<close>

text \<open>
  Threads are numbered. A thread inside \<open>invoke\<close> holds the flag and carries its operation;
  \<open>answers\<close> lists the completed calls: thread, result and what was written to its output.
\<close>

record 'o boot_world =
  world_session :: bootstrap_session
  world_observation :: 'o
  inside :: "nat \<Rightarrow> bootstrap_operation option"
  answers :: "(nat \<times> u32 \<times> bootstrap_status option) list"

inductive boot_step :: "('o \<Rightarrow> u32 \<times> 'o) \<Rightarrow> 'o boot_world \<Rightarrow> 'o boot_world \<Rightarrow> bool" for inspect where
  refused: "inside w t = None \<Longrightarrow> argument_error abi has_output n = Some e \<Longrightarrow>
     boot_step inspect w (w\<lparr>answers := answers w @ [(t, e, None)]\<rparr>)"
| is_busy: "inside w t = None \<Longrightarrow> argument_error abi has_output n = None \<Longrightarrow> busy (world_session w) \<Longrightarrow>
     boot_step inspect w (w\<lparr>answers := answers w @ [(t, BOOTSTRAP_BUSY, None)]\<rparr>)"
| enter: "inside w t = None \<Longrightarrow> argument_error abi has_output n = None \<Longrightarrow> \<not> busy (world_session w) \<Longrightarrow>
     boot_step inspect w (w\<lparr>world_session := (world_session w)\<lparr>busy := True\<rparr>, inside := (inside w)(t := Some op)\<rparr>)"
| leave: "inside w t = Some op \<Longrightarrow>
     bootstrap_body inspect op (session_status (world_session w)) (world_observation w) = (st, ob) \<Longrightarrow>
     boot_step inspect w (w\<lparr>world_session := \<lparr>busy = False, session_status = st\<rparr>, world_observation := ob,
       inside := (inside w)(t := None), answers := answers w @ [(t, BOOTSTRAP_OK, Some st)]\<rparr>)"

definition boot_start :: "'o \<Rightarrow> 'o boot_world" where
  "boot_start ob = \<lparr>world_session = new_session, world_observation = ob, inside = \<lambda>_. None, answers = []\<rparr>"

text \<open>The statuses handed out, in order.\<close>

definition published :: "'o boot_world \<Rightarrow> bootstrap_status list" where
  "published w = List.map_filter (\<lambda>(t, e, out). out) (answers w)"

text \<open>From one published status to a later one: attempts never shrink, a stop is final.\<close>

definition status_le :: "bootstrap_status \<Rightarrow> bootstrap_status \<Rightarrow> bool" where
  "status_le s s' \<longleftrightarrow> observation_attempts s \<le> observation_attempts s'
     \<and> (bs_state s = BOOTSTRAP_STOPPED \<longrightarrow> bs_state s' = BOOTSTRAP_STOPPED)
     \<and> (bs_state s \<noteq> BOOTSTRAP_DISCOVERED \<longrightarrow> bs_reason s' = bs_reason s
          \<and> (bs_state s' = bs_state s \<or> bs_state s' = BOOTSTRAP_STOPPED))"

definition world_inv :: "('o \<Rightarrow> nat) \<Rightarrow> 'o boot_world \<Rightarrow> bool" where
  "world_inv attempts w \<longleftrightarrow> status_wf (session_status (world_session w))
     \<and> (\<forall>t op. inside w t = Some op \<longrightarrow> busy (world_session w))
     \<and> (\<forall>t u. inside w t \<noteq> None \<longrightarrow> inside w u \<noteq> None \<longrightarrow> t = u)
     \<and> attempts (world_observation w) = unat (observation_attempts (session_status (world_session w)))
     \<and> list_all status_wf (published w)
     \<and> sorted_wrt status_le (published w @ [session_status (world_session w)])"

lemma published_snoc: "published (w\<lparr>answers := answers w @ [(t, e, out)]\<rparr>) = published w @ (case out of None \<Rightarrow> [] | Some s \<Rightarrow> [s])"
  by (simp add: published_def map_filter_def split: option.splits)

lemma status_le_refl: "status_le s s" by (simp add: status_le_def)

lemma status_le_trans: "status_le s t \<Longrightarrow> status_le t u \<Longrightarrow> status_le s u"
  by (auto simp: status_le_def bootstrap_constants)

context bootstrap_observation begin

lemma body_status_le:
  assumes "status_wf st"
  shows "status_le st (fst (bootstrap_body inspect op st ob))"
proof (cases "op = Op_initialize \<and> bs_state st = BOOTSTRAP_DISCOVERED")
  case True
  then show ?thesis using assms
    by (simp add: body_initialize Let_def status_wf_def status_le_def bootstrap_constants)
next
  case False
  then show ?thesis
    by (cases op) (auto simp: body_query body_stop body_initialize_again status_le_def)
qed

lemma step_world_inv:
  assumes "boot_step inspect w w'" and inv: "world_inv attempts w"
  shows "world_inv attempts w'"
  using assms(1)
proof cases
  case (refused t abi has_output n e)
  then show ?thesis using inv by (simp add: world_inv_def published_snoc)
next
  case (is_busy t abi has_output n)
  then show ?thesis using inv by (simp add: world_inv_def published_snoc)
next
  case (enter t abi has_output n op)
  then have none: "inside w u = None" for u
    using inv by (cases "inside w u") (auto simp: world_inv_def)
  have "published w' = published w" by (simp add: enter(1) published_def)
  then show ?thesis using inv none by (auto simp: world_inv_def enter(1))
next
  case (leave t op st ob)
  let ?old = "session_status (world_session w)"
  have wf: "status_wf ?old" using inv by (simp add: world_inv_def)
  have st: "status_wf st" "status_le ?old st"
    using body_wf[OF wf, of op "world_observation w"] body_status_le[OF wf, of op "world_observation w"] leave(3)
    by simp_all
  have att: "attempts ob + unat (observation_attempts ?old) = attempts (world_observation w) + unat (observation_attempts st)"
    using body_attempts[OF wf, of op "world_observation w"] leave(3) by simp
  have pub: "published w' = published w @ [st]" by (simp add: leave(1) published_def map_filter_def)
  have only: "\<And>u. u \<noteq> t \<Longrightarrow> inside w u = None" using inv leave(2) by (auto simp: world_inv_def)
  have srt: "sorted_wrt status_le ((published w @ [st]) @ [st])"
    using inv st(2) status_le_trans status_le_refl
    unfolding world_inv_def by (simp add: sorted_wrt_append) (meson status_le_trans)
  have sel: "world_session w' = \<lparr>busy = False, session_status = st\<rparr>" "world_observation w' = ob"
    "inside w' = (inside w)(t := None)" by (simp_all add: leave(1))
  have none: "inside w' u = None" for u using only by (simp add: sel(3))
  have "attempts ob = unat (observation_attempts st)" using att inv unfolding world_inv_def by linarith
  moreover have "list_all status_wf (published w @ [st])" using inv st(1) unfolding world_inv_def by simp
  ultimately show ?thesis
    using st(1) srt none unfolding world_inv_def pub sel by (simp add: sel(3)[symmetric])
qed

lemma reachable_world_inv:
  assumes "(boot_step inspect)\<^sup>*\<^sup>* (boot_start ob) w" and "attempts ob = 0"
  shows "world_inv attempts w"
  using assms(1)
proof induction
  case base
  show ?case
    using status_wf_new assms(2)
    by (simp add: boot_start_def world_inv_def published_def map_filter_def new_session_def)
next
  case (step w w')
  then show ?case using step_world_inv by blast
qed

end

end
