(* ===== verification/Launch_Context.thy ===== *)
theory Launch_Context
  imports Bootstrap_Session "HOL-Library.Multiset"
begin

text \<open>
  \<open>launch_context.hpp/.cpp\<close>: the directory and the environment a child is launched with. The
  environment block is validated, ordered and rebuilt from its entries; the directory is pinned by
  an open handle and compared by identity later.

  Wide strings are lists of 16-bit units. \<open>std::sort\<close> is an insertion sort: every order of equal
  keys is refused right after it. The operating system is a record of functions:
  \<open>CompareStringOrdinal\<close>, \<open>BCryptHash\<close>, \<open>CreateFileW\<close> on the directory, its attributes, its final
  path and its identity.
\<close>

type_synonym wide = "u16 list"

definition max_environment_units :: nat where "max_environment_units = 65536"
definition max_environment_entries :: nat where "max_environment_entries = 1024"
definition MAX_PATH :: nat where "MAX_PATH = 260"

record launch_api =
  ordinal_less :: "wide \<Rightarrow> wide \<Rightarrow> bool"
  block_hash :: "wide \<Rightarrow> bytes option"
  open_directory :: "wide \<Rightarrow> nat option"
  is_directory :: "nat \<Rightarrow> bool"
  final_path :: "nat \<Rightarrow> wide option"
  file_identity :: "nat \<Rightarrow> (u64 \<times> bytes) option"

section \<open>Entries\<close>

definition drive_letter :: "u16 \<Rightarrow> bool" where
  "drive_letter c \<longleftrightarrow> (c \<ge> 0x41 \<and> c \<le> 0x5a) \<or> (c \<ge> 0x61 \<and> c \<le> 0x7a)"

definition absolute_drive_path :: "wide \<Rightarrow> bool" where
  "absolute_drive_path path \<longleftrightarrow> length path \<ge> 3 \<and> drive_letter (path ! 0) \<and> path ! 1 = 0x3a
     \<and> (path ! 2 = 0x5c \<or> path ! 2 = 0x2f) \<and> 0 \<notin> set path"

text \<open>The name in front of the first equals sign, or of the second one for the per-drive entries.\<close>

definition entry_key :: "wide \<Rightarrow> wide" where
  "entry_key e = (let from = (if take 1 e = [0x3d] then 1 else 0) in
     case List.find (\<lambda>i. e ! i = 0x3d) [from..<length e] of None \<Rightarrow> [] | Some i \<Rightarrow> take i e)"

definition valid_entry :: "wide \<Rightarrow> bool" where
  "valid_entry e \<longleftrightarrow>
     (if e = [] \<or> length e > 32767 \<or> 0 \<in> set e then False
      else let name = entry_key e in
        if name = [] then False
        else if name ! 0 = 0x3d then length name = 3 \<and> name ! 2 = 0x3a \<and> drive_letter (name ! 1) \<and> absolute_drive_path (drop 4 e)
        else True)"

section \<open>Capturing the process environment\<close>

text \<open>The block as memory: the inner loop finds the end of an entry, the outer one collects the entries.\<close>

function scan_entry :: "(nat \<Rightarrow> u16) \<Rightarrow> nat \<Rightarrow> nat option" where
  "scan_entry env i = (if env i = 0 then Some i else if i + 1 \<ge> max_environment_units - 1 then None else scan_entry env (i + 1))"
  by pat_completeness auto
termination by (relation "measure (\<lambda>(_, i). max_environment_units - i)") auto

declare scan_entry.simps [simp del]

lemma scan_entry_Some:
  "scan_entry env i = Some j \<Longrightarrow> i \<le> j \<and> env j = 0 \<and> (\<forall>n. i \<le> n \<and> n < j \<longrightarrow> env n \<noteq> 0) \<and> (i < j \<longrightarrow> j < max_environment_units - 1)"
proof (induction env i rule: scan_entry.induct)
  case (1 env i)
  show ?case
  proof (cases "env i = 0")
    case True
    then show ?thesis using "1.prems" by (auto simp: scan_entry.simps)
  next
    case False
    then have r: "i + 1 < max_environment_units - 1" "scan_entry env (i + 1) = Some j"
      using "1.prems" by (simp_all add: scan_entry.simps[of env i] not_le split: if_splits)
    then have ih: "i + 1 \<le> j" "env j = 0" "\<forall>n. i + 1 \<le> n \<and> n < j \<longrightarrow> env n \<noteq> 0" "i + 1 < j \<longrightarrow> j < max_environment_units - 1"
      using "1.IH" False by auto
    moreover have "env n \<noteq> 0" if "i \<le> n" "n < j" for n
      using that ih(3) False by (cases "n = i") auto
    ultimately show ?thesis using r(1) by (cases "i + 1 = j") auto
  qed
qed

lemma scan_entry_finds:
  "i \<le> j \<Longrightarrow> env j = 0 \<Longrightarrow> \<forall>n. i \<le> n \<and> n < j \<longrightarrow> env n \<noteq> 0 \<Longrightarrow> j < max_environment_units - 1 \<Longrightarrow> scan_entry env i = Some j"
proof (induction env i rule: scan_entry.induct)
  case (1 env i)
  show ?case
  proof (cases "i = j")
    case False
    then have "env i \<noteq> 0" "\<not> i + 1 \<ge> max_environment_units - 1" using "1.prems" by auto
    then show ?thesis using "1.IH" "1.prems" False by (subst scan_entry.simps) simp
  qed (use "1.prems" in \<open>simp add: scan_entry.simps\<close>)
qed

function capture_entries :: "(nat \<Rightarrow> u16) \<Rightarrow> wide list \<Rightarrow> nat \<Rightarrow> string + wide list" where
  "capture_entries env acc i =
    (if env i = 0 then Inr acc
     else if length acc = max_environment_entries then Inl ''launch_environment_limit''
     else (case scan_entry env i of None \<Rightarrow> Inl ''launch_environment_limit''
       | Some j \<Rightarrow> capture_entries env (acc @ [map env [i..<j]]) (j + 1)))"
  by pat_completeness auto
termination
proof (relation "measure (\<lambda>(_, _, i). max_environment_units - i)")
  fix env :: "nat \<Rightarrow> u16" and acc :: "wide list" and i j
  assume "env i \<noteq> 0" "scan_entry env i = Some j"
  then have "i \<le> j" "j \<noteq> i" "i < j \<longrightarrow> j < max_environment_units - 1" using scan_entry_Some[of env i j] by auto
  then show "((env, acc @ [map env [i..<j]], j + 1), env, acc, i) \<in> measure (\<lambda>(_, _, i). max_environment_units - i)"
    by (auto simp: max_environment_units_def)
qed simp

declare capture_entries.simps [simp del]

section \<open>Preparation\<close>

text \<open>The loop that validates the entries and counts the units of the block.\<close>

fun count_units :: "wide list \<Rightarrow> nat \<Rightarrow> string + nat" where
  "count_units [] units = Inr units"
| "count_units (e # es) units =
    (if \<not> valid_entry e then Inl ''launch_environment_entry''
     else if length e + 1 > max_environment_units - units then Inl ''launch_environment_limit''
     else count_units es (units + (length e + 1)))"

fun insert_entry :: "(wide \<Rightarrow> wide \<Rightarrow> bool) \<Rightarrow> wide \<Rightarrow> wide list \<Rightarrow> wide list" where
  "insert_entry lt e [] = [e]"
| "insert_entry lt e (x # xs) = (if lt (entry_key x) (entry_key e) then x # insert_entry lt e xs else e # x # xs)"

definition sort_entries :: "(wide \<Rightarrow> wide \<Rightarrow> bool) \<Rightarrow> wide list \<Rightarrow> wide list" where
  "sort_entries lt es = foldr (insert_entry lt) es []"

text \<open>Neighbours with keys that do not increase are duplicates.\<close>

fun keys_increase :: "(wide \<Rightarrow> wide \<Rightarrow> bool) \<Rightarrow> wide list \<Rightarrow> bool" where
  "keys_increase lt (a # b # es) \<longleftrightarrow> lt (entry_key a) (entry_key b) \<and> keys_increase lt (b # es)"
| "keys_increase lt _ \<longleftrightarrow> True"

definition environment_block :: "wide list \<Rightarrow> wide" where
  "environment_block ordered = concat (map (\<lambda>e. e @ [0]) ordered) @ [0] @ (if ordered = [] then [0] else [])"

record launch_context =
  directory_handle :: nat
  directory :: wide
  environment :: wide
  environment_hash :: bytes
  entry_count :: nat

definition verbatim_prefix :: wide where
  "verbatim_prefix = [0x5c, 0x5c, 0x3f, 0x5c]"

text \<open>The pin of the directory: the context, or the reason and the handles the guard closes again.\<close>

definition pin_directory :: "launch_api \<Rightarrow> wide \<Rightarrow> wide \<Rightarrow> bytes \<Rightarrow> nat \<Rightarrow> (string + launch_context) \<times> nat list" where
  "pin_directory os dir block hash entry_total =
    (case open_directory os dir of None \<Rightarrow> (Inl ''launch_directory_unavailable'', [])
     | Some h \<Rightarrow>
        if \<not> is_directory os h then (Inl ''launch_directory_unavailable'', [h])
        else (case final_path os h of None \<Rightarrow> (Inl ''launch_directory_resolution'', [h])
         | Some resolved \<Rightarrow>
            if resolved = [] \<or> length resolved \<ge> 32768 then (Inl ''launch_directory_resolution'', [h])
            else if take 4 resolved \<noteq> verbatim_prefix \<or> \<not> absolute_drive_path (drop 4 resolved) \<or> length resolved - 4 \<ge> MAX_PATH
            then (Inl ''launch_directory_resolution'', [h])
            else (Inr \<lparr>directory_handle = h, directory = drop 4 resolved, environment = block, environment_hash = hash, entry_count = entry_total\<rparr>, [])))"

definition prepare :: "launch_api \<Rightarrow> wide \<Rightarrow> wide list \<Rightarrow> (string + launch_context) \<times> nat list" where
  "prepare os dir entries =
    (if \<not> absolute_drive_path dir \<or> length dir \<ge> MAX_PATH then (Inl ''launch_directory_input'', [])
     else if length entries > max_environment_entries then (Inl ''launch_environment_limit'', [])
     else (case count_units entries (if entries = [] then 2 else 1) of Inl reason \<Rightarrow> (Inl reason, [])
      | Inr units \<Rightarrow>
         let ordered = sort_entries (ordinal_less os) entries in
         if \<not> keys_increase (ordinal_less os) ordered then (Inl ''launch_environment_duplicate'', [])
         else (case block_hash os (environment_block ordered) of None \<Rightarrow> (Inl ''launch_environment_hash_failed'', [])
          | Some hash \<Rightarrow> pin_directory os dir (environment_block ordered) hash (length ordered))))"

text \<open>\<open>LaunchContext(directory)\<close>: the entries are those of the process; \<open>None\<close> when they cannot be had.\<close>

definition launch_context_from_process :: "launch_api \<Rightarrow> (nat \<Rightarrow> u16) option \<Rightarrow> wide \<Rightarrow> (string + launch_context) \<times> nat list" where
  "launch_context_from_process os snapshot dir =
    (case snapshot of None \<Rightarrow> (Inl ''launch_environment_capture_failed'', [])
     | Some env \<Rightarrow> (case capture_entries env [] 0 of Inl reason \<Rightarrow> (Inl reason, []) | Inr entries \<Rightarrow> prepare os dir entries))"

text \<open>Compares the pinned directory with the one the path names now.\<close>

definition directory_matches :: "launch_api \<Rightarrow> launch_context \<Rightarrow> bool" where
  "directory_matches os ctx =
    (case open_directory os (directory ctx) of None \<Rightarrow> False
     | Some current \<Rightarrow>
        (case (file_identity os (directory_handle ctx), file_identity os current) of
           (Some (v, i), Some (v', i')) \<Rightarrow> v = v' \<and> i = i'
         | _ \<Rightarrow> False))"


section \<open>The prepared environment\<close>

lemma valid_entry_text: "valid_entry e \<Longrightarrow> e \<noteq> [] \<and> 0 \<notin> set e"
  by (auto simp: valid_entry_def split: if_splits)

lemma count_units_Inr:
  "count_units es u = Inr n \<Longrightarrow> u \<le> max_environment_units \<Longrightarrow>
     n = u + (\<Sum>e\<leftarrow>es. length e + 1) \<and> n \<le> max_environment_units \<and> (\<forall>e \<in> set es. valid_entry e)"
proof (induction es u rule: count_units.induct)
  case (2 e es u)
  then have "u + (length e + 1) \<le> max_environment_units" "valid_entry e" "count_units es (u + (length e + 1)) = Inr n"
    by (auto split: if_splits)
  then show ?case using 2 by (auto split: if_splits)
qed simp

lemma mset_insert_entry [simp]: "mset (insert_entry lt e es) = add_mset e (mset es)"
  by (induction es) auto

lemma mset_sort_entries [simp]: "mset (sort_entries lt es) = mset es"
  by (induction es) (auto simp: sort_entries_def)

lemma keys_increase_sorted:
  "transp lt \<Longrightarrow> keys_increase lt es \<Longrightarrow> sorted_wrt (\<lambda>a b. lt (entry_key a) (entry_key b)) es"
proof (induction lt es rule: keys_increase.induct)
  case (1 lt a b es)
  then have "sorted_wrt (\<lambda>a b. lt (entry_key a) (entry_key b)) (b # es)" "lt (entry_key a) (entry_key b)" by auto
  then show ?case using transpD[OF "1.prems"(1)] by auto
qed auto

lemma length_environment_block:
  "length (environment_block es) = (\<Sum>e\<leftarrow>es. length e + 1) + (if es = [] then 2 else 1)"
  by (simp add: environment_block_def length_concat comp_def)

lemma sum_units_mset: "mset es = mset fs \<Longrightarrow> (\<Sum>e\<leftarrow>es. length e + 1) = (\<Sum>e\<leftarrow>fs. length e + (1::nat))"
  by (simp only: flip: sum_mset_sum_list) (simp only: mset_map)

text \<open>Reading the terminated entries at an offset gives them back.\<close>

lemma capture_terminated:
  "\<forall>e \<in> set es. e \<noteq> [] \<and> 0 \<notin> set e \<Longrightarrow> length acc + length es \<le> max_environment_entries \<Longrightarrow>
     p + (\<Sum>e\<leftarrow>es. length e + 1) \<le> max_environment_units - 1 \<Longrightarrow>
     \<forall>k \<le> (\<Sum>e\<leftarrow>es. length e + 1). env (p + k) = (concat (map (\<lambda>e. e @ [0]) es) @ [0]) ! k \<Longrightarrow>
     capture_entries env acc p = Inr (acc @ es)"
proof (induction es arbitrary: acc p)
  case Nil
  then show ?case by (simp add: capture_entries.simps)
next
  case (Cons e es)
  let ?rest = "concat (map (\<lambda>e. e @ [0]) es) @ [0]"
  have whole: "env (p + k) = (e @ 0 # ?rest) ! k" if "k \<le> length e + 1 + (\<Sum>e\<leftarrow>es. length e + 1)" for k
    using Cons.prems(4) that by auto
  have e: "env (p + k) = e ! k" if "k < length e" for k using whole[of k] that by (simp add: nth_append)
  have n: "env (p + k) \<noteq> 0" if "k < length e" for k using e[OF that] Cons.prems(1) that by (metis list.set_intros(1) nth_mem)
  have "env i \<noteq> 0" if "p \<le> i" "i < p + length e" for i using n[of "i - p"] that by simp
  moreover have "env (p + length e) = 0" using whole[of "length e"] by simp
  ultimately have scan: "scan_entry env p = Some (p + length e)"
    using Cons.prems(3) by (intro scan_entry_finds) auto
  have entry: "map env [p..<p + length e] = e" by (rule nth_equalityI) (auto simp: e)
  have tail: "capture_entries env (acc @ [e]) (p + length e + 1) = Inr ((acc @ [e]) @ es)"
  proof (rule Cons.IH)
    show "\<forall>k \<le> (\<Sum>e\<leftarrow>es. length e + 1). env (p + length e + 1 + k) = ?rest ! k"
    proof (intro allI impI)
      fix k assume "k \<le> (\<Sum>e\<leftarrow>es. length e + 1)"
      then show "env (p + length e + 1 + k) = ?rest ! k" using whole[of "length e + 1 + k"] by (simp add: nth_append add.assoc)
    qed
  qed (use Cons.prems in auto)
  show ?case using n[of 0] Cons.prems(1,2) scan entry tail by (subst capture_entries.simps) auto
qed

lemma capture_environment_block:
  assumes "\<forall>e \<in> set es. valid_entry e" and "length es \<le> max_environment_entries"
    and "length (environment_block es) \<le> max_environment_units"
    and "\<forall>i < length (environment_block es). env i = environment_block es ! i"
  shows "capture_entries env [] 0 = Inr es"
proof -
  have u: "(\<Sum>e\<leftarrow>es. length e + 1) + 1 \<le> length (environment_block es)" by (simp add: length_environment_block)
  let ?c = "concat (map (\<lambda>e. e @ [0]) es) @ [0]"
  have l: "length ?c = (\<Sum>e\<leftarrow>es. length e + 1) + 1" by (simp add: length_concat comp_def)
  have "environment_block es ! k = ?c ! k" if "k < length ?c" for k
    using that by (auto simp: environment_block_def nth_append)
  then have "\<forall>k \<le> (\<Sum>e\<leftarrow>es. length e + 1). env (0 + k) = ?c ! k" using assms(4) u l by auto
  then show ?thesis using capture_terminated[of es "[]" 0 env] assms(1-3) u valid_entry_text by fastforce
qed

lemma pin_directory_Inr:
  "pin_directory os dir block hash entry_total = (Inr ctx, leaked) \<Longrightarrow>
     leaked = [] \<and> environment ctx = block \<and> environment_hash ctx = hash \<and> entry_count ctx = entry_total
     \<and> open_directory os dir = Some (directory_handle ctx) \<and> is_directory os (directory_handle ctx)
     \<and> final_path os (directory_handle ctx) = Some (verbatim_prefix @ directory ctx)
     \<and> absolute_drive_path (directory ctx) \<and> length (directory ctx) < MAX_PATH"
  by (auto simp: pin_directory_def split: option.splits if_splits)
     (metis append_take_drop_id)+

lemma prepare_Inr:
  assumes "prepare os dir entries = (Inr ctx, closed)"
  obtains ordered where "ordered = sort_entries (ordinal_less os) entries" "keys_increase (ordinal_less os) ordered"
    "\<forall>e \<in> set entries. valid_entry e" "length entries \<le> max_environment_entries"
    "length (environment_block ordered) \<le> max_environment_units"
    "block_hash os (environment_block ordered) = Some (environment_hash ctx)"
    "pin_directory os dir (environment_block ordered) (environment_hash ctx) (length entries) = (Inr ctx, closed)"
    "absolute_drive_path dir" "length dir < MAX_PATH"
proof -
  let ?ordered = "sort_entries (ordinal_less os) entries"
  have m: "mset ?ordered = mset entries" by simp
  then have len: "length ?ordered = length entries" "(?ordered = []) = (entries = [])"
    using mset_eq_length[OF m] by (simp, metis length_0_conv)
  obtain units hash where u: "count_units entries (if entries = [] then 2 else 1) = Inr units"
    and k: "keys_increase (ordinal_less os) ?ordered" and h: "block_hash os (environment_block ?ordered) = Some hash"
    and p: "pin_directory os dir (environment_block ?ordered) hash (length entries) = (Inr ctx, closed)"
    and d: "absolute_drive_path dir" "length dir < MAX_PATH" and n: "length entries \<le> max_environment_entries"
    using assms len(1) by (auto simp: prepare_def Let_def split: if_splits sum.splits option.splits)
  have "(if entries = [] then 2 else 1) \<le> max_environment_units" by (simp add: max_environment_units_def)
  from count_units_Inr[OF u this]
  have "length (environment_block ?ordered) \<le> max_environment_units" "\<forall>e \<in> set entries. valid_entry e"
    using sum_units_mset[OF m] len(2) by (auto simp: length_environment_block)
  then show thesis using that k h p d n pin_directory_Inr[OF p] by blast
qed

text \<open>
  Claim C38. When \<open>LaunchContext::prepare\<close> accepts, the environment block it publishes holds exactly
  the given entries, each valid, in strictly increasing order of their keys (so no key twice), in at
  most 65536 units; its hash is the one of that block and the entry count the number of entries. Reading the
  block the way the process environment is captured gives those entries back, whatever memory follows it. The pinned handle is the one
  of the requested directory, no other handle stays open, and the recorded path is an absolute drive path shorter
  than \<open>MAX_PATH\<close>. The only assumption is that \<open>CompareStringOrdinal\<close>'s order is transitive.
\<close>

theorem launch_environment_roundtrip:
  assumes "prepare os dir entries = (Inr ctx, closed)" and "transp (ordinal_less os)"
  shows "\<exists>ordered. environment ctx = environment_block ordered \<and> mset ordered = mset entries
     \<and> sorted_wrt (\<lambda>a b. ordinal_less os (entry_key a) (entry_key b)) ordered
     \<and> (\<forall>e \<in> set ordered. valid_entry e)
     \<and> length (environment ctx) \<le> 65536 \<and> entry_count ctx = length ordered
     \<and> block_hash os (environment ctx) = Some (environment_hash ctx)
     \<and> (\<forall>env. (\<forall>i < length (environment ctx). env i = environment ctx ! i) \<longrightarrow> capture_entries env [] 0 = Inr ordered)
     \<and> open_directory os dir = Some (directory_handle ctx) \<and> closed = []
     \<and> final_path os (directory_handle ctx) = Some (verbatim_prefix @ directory ctx)
     \<and> absolute_drive_path (directory ctx) \<and> length (directory ctx) < 260"
proof -
  from prepare_Inr[OF assms(1)] obtain ordered where o: "ordered = sort_entries (ordinal_less os) entries"
    "keys_increase (ordinal_less os) ordered" "\<forall>e \<in> set entries. valid_entry e" "length entries \<le> max_environment_entries"
    "length (environment_block ordered) \<le> max_environment_units"
    "block_hash os (environment_block ordered) = Some (environment_hash ctx)"
    "pin_directory os dir (environment_block ordered) (environment_hash ctx) (length entries) = (Inr ctx, closed)" by metis
  have m: "mset ordered = mset entries" using o(1) by simp
  then have s: "set ordered = set entries" "length ordered = length entries" using mset_eq_setD[OF m] mset_eq_length[OF m] by simp_all
  have env: "environment ctx = environment_block ordered" using pin_directory_Inr[OF o(7)] by simp
  have capture: "capture_entries env [] 0 = Inr ordered"
    if "\<forall>i < length (environment ctx). env i = environment ctx ! i" for env
    using capture_environment_block[of ordered env] that o(3,4,5) s env by simp
  have "length (environment ctx) \<le> 65536" using o(5) env by (simp add: max_environment_units_def)
  then show ?thesis using capture env m s o(3,6) keys_increase_sorted[OF assms(2) o(2)] pin_directory_Inr[OF o(7)]
    by (intro exI[of _ ordered]) (simp add: MAX_PATH_def)
qed


text \<open>Two entries, given in the wrong order; the order of the demonstration compares lengths.\<close>

definition demo_launch_api :: launch_api where
  "demo_launch_api = \<lparr>ordinal_less = \<lambda>a b. length a < length b, block_hash = \<lambda>b. Some [of_nat (length b)],
     open_directory = \<lambda>d. Some 7, is_directory = \<lambda>h. True,
     final_path = \<lambda>h. Some (verbatim_prefix @ [0x43, 0x3a, 0x5c]), file_identity = \<lambda>h. None\<rparr>"

definition demo_entries :: "wide list" where
  "demo_entries = [[0x3d, 0x43, 0x3a, 0x3d, 0x43, 0x3a, 0x5c], [0x41, 0x3d, 0x31]]"

definition demo_launch_context :: launch_context where
  "demo_launch_context = \<lparr>directory_handle = 7, directory = [0x43, 0x3a, 0x5c],
     environment = [0x41, 0x3d, 0x31, 0, 0x3d, 0x43, 0x3a, 0x3d, 0x43, 0x3a, 0x5c, 0, 0],
     environment_hash = [13], entry_count = 2\<rparr>"

lemma demo_prepare: "prepare demo_launch_api [0x43, 0x3a, 0x5c] demo_entries = (Inr demo_launch_context, [])"
proof -
  have k: "entry_key [0x3d, 0x43, 0x3a, 0x3d, 0x43, 0x3a, 0x5c] = [0x3d, 0x43, 0x3a]" "entry_key [0x41, 0x3d, 0x31] = [0x41]"
    by (simp_all add: entry_key_def upt_rec)
  have "valid_entry [0x3d, 0x43, 0x3a, 0x3d, 0x43, 0x3a, 0x5c]" "valid_entry [0x41, 0x3d, 0x31]"
    by (simp_all add: valid_entry_def k drive_letter_def absolute_drive_path_def)
  then have "count_units demo_entries 1 = Inr 13" by (simp add: demo_entries_def max_environment_units_def)
  moreover have "sort_entries (ordinal_less demo_launch_api) demo_entries = rev demo_entries" "keys_increase (ordinal_less demo_launch_api) (rev demo_entries)"
    by (simp_all add: sort_entries_def demo_entries_def demo_launch_api_def k)
  moreover have "environment_block (rev demo_entries) = environment demo_launch_context" "demo_entries \<noteq> []" "length demo_entries = 2"
    by (simp_all add: environment_block_def demo_entries_def demo_launch_context_def)
  moreover have "block_hash demo_launch_api (environment demo_launch_context) = Some [13]"
    by (simp add: demo_launch_api_def demo_launch_context_def)
  moreover have "pin_directory demo_launch_api [0x43, 0x3a, 0x5c] (environment demo_launch_context) [13] 2 = (Inr demo_launch_context, [])"
    by (simp add: pin_directory_def demo_launch_api_def demo_launch_context_def absolute_drive_path_def drive_letter_def
        verbatim_prefix_def MAX_PATH_def)
  moreover have "absolute_drive_path [0x43, 0x3a, 0x5c]" by (simp add: absolute_drive_path_def drive_letter_def)
  ultimately show ?thesis by (simp add: prepare_def MAX_PATH_def max_environment_entries_def)
qed

theorem launch_environment_roundtrip_witness:
  "prepare demo_launch_api [0x43, 0x3a, 0x5c] demo_entries = (Inr demo_launch_context, [])
   \<and> (\<exists>ordered. environment demo_launch_context = environment_block ordered \<and> mset ordered = mset demo_entries
     \<and> (\<forall>env. (\<forall>i < length (environment demo_launch_context). env i = environment demo_launch_context ! i)
           \<longrightarrow> capture_entries env [] 0 = Inr ordered))"
proof -
  have "transp (ordinal_less demo_launch_api)" by (auto simp: demo_launch_api_def intro: transpI)
  from launch_environment_roundtrip[OF demo_prepare this] show ?thesis using demo_prepare by blast
qed

end
