(* ===== verification/Pe_Image.thy ===== *)
theory Pe_Image
  imports Prelude "HOL-Library.Monad_Syntax"
begin

text \<open>
  \<open>include/saex/engine/pe_image.hpp\<close> and \<open>src/engine/bootstrap/pe_image.cpp\<close>: the parser of PE32 disk layouts.

  An element access \<open>b[p]\<close> of a \<open>std::span\<close> past its end is undefined behaviour, so a read is an
  option and the whole parser is one: \<open>None\<close> is a read out of bounds. Sizes and offsets
  (\<open>std::size_t\<close>) are naturals: a parsed file has at most 256 MiB, and every sum below stays far
  from \<open>2 ^ 32\<close>. Values read from the file keep their widths.
\<close>

definition max_image_bytes :: nat where "max_image_bytes = 256 * 1024 * 1024"
definition max_sections :: nat where "max_sections = 96"

record pe_section =
  sec_name :: bytes
  virtual_size :: u32
  sec_rva :: u32
  raw_size :: u32
  sec_raw_offset :: u32
  sec_characteristics :: u32

record pe_layout =
  timestamp :: u32
  image_base :: u32
  entry_rva :: u32
  image_size :: u32
  headers_size :: u32
  section_alignment :: u32
  file_alignment :: u32
  lay_characteristics :: u16
  dll_characteristics :: u16
  section_count :: u16
  sections :: "pe_section list"

datatype pe_error = PE_none | PE_size | PE_dos_signature | PE_header_bounds | PE_pe_signature
  | PE_architecture | PE_executable_kind | PE_section_count | PE_optional_header | PE_image_layout
  | PE_section_bounds | PE_section_overlap | PE_entry_point

definition no_section :: pe_section where
  "no_section = \<lparr>sec_name = replicate 8 0, virtual_size = 0, sec_rva = 0, raw_size = 0,
     sec_raw_offset = 0, sec_characteristics = 0\<rparr>"

definition empty_layout :: pe_layout where
  "empty_layout = \<lparr>timestamp = 0, image_base = 0, entry_rva = 0, image_size = 0, headers_size = 0,
     section_alignment = 0, file_alignment = 0, lay_characteristics = 0, dll_characteristics = 0,
     section_count = 0, sections = replicate 96 no_section\<rparr>"

section \<open>Reading\<close>

definition rd8 :: "bytes \<Rightarrow> nat \<Rightarrow> u8 option" where
  "rd8 b p = (if p < length b then Some (b ! p) else None)"

definition rd16 :: "bytes \<Rightarrow> nat \<Rightarrow> u16 option" where
  "rd16 b p = do { x \<leftarrow> rd8 b p; y \<leftarrow> rd8 b (p + 1); Some (ucast x OR push_bit 8 (ucast y)) }"

definition rd32 :: "bytes \<Rightarrow> nat \<Rightarrow> u32 option" where
  "rd32 b p = do { x \<leftarrow> rd16 b p; y \<leftarrow> rd16 b (p + 2); Some (ucast x OR push_bit 16 (ucast y)) }"

definition fits :: "nat \<Rightarrow> nat \<Rightarrow> nat \<Rightarrow> bool" where
  "fits offset len limit \<longleftrightarrow> offset \<le> limit \<and> len \<le> limit - offset"

definition power2 :: "u32 \<Rightarrow> bool" where
  "power2 n \<longleftrightarrow> n \<noteq> 0 \<and> n AND (n - 1) = 0"

text \<open>The sums are taken in 64 bits.\<close>

definition overlaps :: "u32 \<Rightarrow> u32 \<Rightarrow> u32 \<Rightarrow> u32 \<Rightarrow> bool" where
  "overlaps a an b bn \<longleftrightarrow> an \<noteq> 0 \<and> bn \<noteq> 0 \<and>
     (ucast a :: u64) < ucast b + ucast bn \<and> (ucast b :: u64) < ucast a + ucast an"

section \<open>The parser\<close>

text \<open>
  The headers: up to the loop over the section table. A success carries the layout and the
  offset of the table.
\<close>

definition parse_header :: "bytes \<Rightarrow> (pe_error + (pe_layout \<times> nat)) option" where
  "parse_header b =
    (if length b < 64 \<or> length b > max_image_bytes then Some (Inl PE_size) else do {
      mz \<leftarrow> rd16 b 0;
      if mz \<noteq> 0x5a4d then Some (Inl PE_dos_signature) else do {
      pe32 \<leftarrow> rd32 b 60;
      let pe = unat pe32;
      if pe < 64 \<or> \<not> fits pe 24 (length b) then Some (Inl PE_header_bounds) else do {
      sig \<leftarrow> rd32 b pe;
      if sig \<noteq> 0x4550 then Some (Inl PE_pe_signature) else do {
      machine \<leftarrow> rd16 b (pe + 4);
      if machine \<noteq> 0x14c then Some (Inl PE_architecture) else do {
      count \<leftarrow> rd16 b (pe + 6);
      if count = 0 \<or> unat count > max_sections then Some (Inl PE_section_count) else do {
      stamp \<leftarrow> rd32 b (pe + 8);
      chars \<leftarrow> rd16 b (pe + 22);
      if chars AND 2 = 0 \<or> chars AND 0x2000 \<noteq> 0 then Some (Inl PE_executable_kind) else do {
      optional_size \<leftarrow> rd16 b (pe + 20);
      let ob = pe + 24;
      if unat optional_size < 96 \<or> \<not> fits ob (unat optional_size) (length b)
        then Some (Inl PE_optional_header) else do {
      magic \<leftarrow> rd16 b ob;
      if magic \<noteq> 0x10b then Some (Inl PE_architecture) else do {
      directories \<leftarrow> rd32 b (ob + 92);
      if directories > 16 \<or> 96 + directories * 8 > ucast optional_size
        then Some (Inl PE_optional_header) else do {
      managed \<leftarrow> (if directories > 14 then do {
          x \<leftarrow> rd32 b (ob + 96 + 14 * 8);
          if x \<noteq> 0 then Some True else do { y \<leftarrow> rd32 b (ob + 100 + 14 * 8); Some (y \<noteq> 0) } }
        else Some False);
      if managed then Some (Inl PE_executable_kind) else do {
      let table = ob + unat optional_size;
      let table_size = unat count * 40;
      if \<not> fits table table_size (length b) then Some (Inl PE_header_bounds) else do {
      entry \<leftarrow> rd32 b (ob + 16);
      base \<leftarrow> rd32 b (ob + 28);
      salign \<leftarrow> rd32 b (ob + 32);
      falign \<leftarrow> rd32 b (ob + 36);
      isize \<leftarrow> rd32 b (ob + 56);
      hsize \<leftarrow> rd32 b (ob + 60);
      dll \<leftarrow> rd16 b (ob + 70);
      if \<not> power2 falign \<or> falign < 512 \<or> falign > 65536 \<or> \<not> power2 salign \<or> salign < falign
         \<or> isize = 0 \<or> unat isize > max_image_bytes \<or> isize mod salign \<noteq> 0
         \<or> hsize = 0 \<or> hsize mod falign \<noteq> 0 \<or> unat hsize > length b \<or> hsize > isize
         \<or> table + table_size > unat hsize
         \<or> base = 0 \<or> base mod 65536 \<noteq> 0 \<or> (ucast base :: u64) + ucast isize > 0x100000000
      then Some (Inl PE_image_layout)
      else Some (Inr (empty_layout\<lparr>timestamp := stamp, image_base := base, entry_rva := entry,
          image_size := isize, headers_size := hsize, section_alignment := salign,
          file_alignment := falign, lay_characteristics := chars, dll_characteristics := dll,
          section_count := count\<rparr>, table)) }}}}}}}}}}}})"

fun rd_name :: "bytes \<Rightarrow> nat \<Rightarrow> nat \<Rightarrow> bytes option" where
  "rd_name b p 0 = Some []"
| "rd_name b p (Suc n) = do { x \<leftarrow> rd8 b p; xs \<leftarrow> rd_name b (p + 1) n; Some (x # xs) }"

definition read_section :: "bytes \<Rightarrow> nat \<Rightarrow> pe_section option" where
  "read_section b p = do {
     nm \<leftarrow> rd_name b p 8;
     vs \<leftarrow> rd32 b (p + 8);
     rva \<leftarrow> rd32 b (p + 12);
     rs \<leftarrow> rd32 b (p + 16);
     ro \<leftarrow> rd32 b (p + 20);
     ch \<leftarrow> rd32 b (p + 36);
     Some \<lparr>sec_name = nm, virtual_size = vs, sec_rva = rva, raw_size = rs, sec_raw_offset = ro,
       sec_characteristics = ch\<rparr> }"

definition extent :: "pe_section \<Rightarrow> u32" where
  "extent s = max (virtual_size s) (raw_size s)"

definition section_in_bounds :: "nat \<Rightarrow> pe_layout \<Rightarrow> pe_section \<Rightarrow> bool" where
  "section_in_bounds len l s \<longleftrightarrow> \<not> (extent s = 0 \<or> sec_rva s < headers_size l
     \<or> sec_rva s mod section_alignment l \<noteq> 0
     \<or> \<not> fits (unat (sec_rva s)) (unat (extent s)) (unat (image_size l))
     \<or> \<not> fits (unat (sec_raw_offset s)) (unat (raw_size s)) len
     \<or> (raw_size s \<noteq> 0 \<and> (sec_raw_offset s < headers_size l
          \<or> sec_raw_offset s mod file_alignment l \<noteq> 0 \<or> raw_size s mod file_alignment l \<noteq> 0)))"

definition sections_overlap :: "pe_section \<Rightarrow> pe_section \<Rightarrow> bool" where
  "sections_overlap s t \<longleftrightarrow> overlaps (sec_rva s) (extent s) (sec_rva t) (extent t)
     \<or> overlaps (sec_raw_offset s) (raw_size s) (sec_raw_offset t) (raw_size t)"

definition holds_entry :: "pe_layout \<Rightarrow> pe_section \<Rightarrow> bool" where
  "holds_entry l s \<longleftrightarrow> entry_rva l \<ge> sec_rva s \<and> entry_rva l - sec_rva s < raw_size s
     \<and> sec_characteristics s AND 0x20000000 \<noteq> 0"

text \<open>The loop: \<open>n\<close> sections are left, \<open>i\<close> is the next index.\<close>

fun parse_sections :: "bytes \<Rightarrow> nat \<Rightarrow> nat \<Rightarrow> nat \<Rightarrow> pe_layout \<Rightarrow> bool
    \<Rightarrow> (pe_error + (pe_layout \<times> bool)) option" where
  "parse_sections b table 0 i l ex = Some (Inr (l, ex))"
| "parse_sections b table (Suc n) i l ex = do {
     s \<leftarrow> read_section b (table + i * 40);
     let l' = l\<lparr>sections := (sections l)[i := s]\<rparr>;
     if \<not> section_in_bounds (length b) l s then Some (Inl PE_section_bounds)
     else if list_ex (sections_overlap s) (take i (sections l)) then Some (Inl PE_section_overlap)
     else parse_sections b table n (i + 1) l' (ex \<or> holds_entry l s) }"

definition parse_pe32 :: "bytes \<Rightarrow> (pe_error \<times> pe_layout) option" where
  "parse_pe32 b = do {
     h \<leftarrow> parse_header b;
     case h of Inl e \<Rightarrow> Some (e, empty_layout)
     | Inr (l, table) \<Rightarrow> do {
         r \<leftarrow> parse_sections b table (unat (section_count l)) 0 l False;
         case r of Inl e \<Rightarrow> Some (e, empty_layout)
         | Inr (l', ex) \<Rightarrow> if \<not> ex then Some (PE_entry_point, empty_layout) else Some (PE_none, l') } }"

section \<open>Raw offsets and error names\<close>

definition section_holds :: "u32 \<Rightarrow> nat \<Rightarrow> pe_section \<Rightarrow> bool" where
  "section_holds rva len s \<longleftrightarrow> rva \<ge> sec_rva s \<and> fits (unat (rva - sec_rva s)) len (unat (raw_size s))"

fun raw_offset_loop :: "u32 \<Rightarrow> nat \<Rightarrow> pe_section list \<Rightarrow> nat option \<Rightarrow> nat option" where
  "raw_offset_loop rva len [] result = result"
| "raw_offset_loop rva len (s # ss) result =
     (if section_holds rva len s
      then (if result \<noteq> None then None
            else raw_offset_loop rva len ss (Some (unat (sec_raw_offset s) + unat (rva - sec_rva s))))
      else raw_offset_loop rva len ss result)"

definition raw_offset :: "pe_layout \<Rightarrow> u32 \<Rightarrow> nat \<Rightarrow> nat option" where
  "raw_offset l rva len = (if len = 0 \<or> unat (section_count l) > max_sections then None
     else raw_offset_loop rva len (take (unat (section_count l)) (sections l)) None)"

fun pe_error_name :: "pe_error \<Rightarrow> string" where
  "pe_error_name PE_none = ''none''"
| "pe_error_name PE_size = ''engine_file_size''"
| "pe_error_name PE_dos_signature = ''dos_signature''"
| "pe_error_name PE_header_bounds = ''header_bounds''"
| "pe_error_name PE_pe_signature = ''pe_signature''"
| "pe_error_name PE_architecture = ''unsupported_engine_architecture''"
| "pe_error_name PE_executable_kind = ''unsupported_executable_kind''"
| "pe_error_name PE_section_count = ''section_count''"
| "pe_error_name PE_optional_header = ''optional_header''"
| "pe_error_name PE_image_layout = ''image_layout''"
| "pe_error_name PE_section_bounds = ''section_bounds''"
| "pe_error_name PE_section_overlap = ''section_overlap''"
| "pe_error_name PE_entry_point = ''entry_point''"

section \<open>Reads in bounds\<close>

lemma rd8_in [simp]: "p < length b \<Longrightarrow> \<exists>x. rd8 b p = Some x"
  by (simp add: rd8_def)

lemma rd16_in: "p + 2 \<le> length b \<Longrightarrow> \<exists>x. rd16 b p = Some x"
  by (simp add: rd16_def rd8_def)

lemma rd32_in: "p + 4 \<le> length b \<Longrightarrow> \<exists>x. rd32 b p = Some x"
  using rd16_in[of p b] rd16_in[of "p + 2" b] by (auto simp: rd32_def)

lemma rd_name_in: "p + n \<le> length b \<Longrightarrow> \<exists>xs. rd_name b p n = Some xs"
proof (induction n arbitrary: p)
  case (Suc n)
  then obtain xs where "rd_name b (p + 1) n = Some xs" by fastforce
  then show ?case using Suc.prems by (simp add: rd8_def)
qed simp

lemma read_section_in:
  assumes "p + 40 \<le> length b"
  shows "\<exists>s. read_section b p = Some s"
proof -
  from rd_name_in[of p 8 b] obtain nm where "rd_name b p 8 = Some nm" using assms by auto
  moreover have "\<exists>x. rd32 b (p + k) = Some x" if "k \<le> 36" for k
    by (rule rd32_in) (use that assms in simp)
  then have "\<exists>x. rd32 b (p + 8) = Some x" "\<exists>x. rd32 b (p + 12) = Some x" "\<exists>x. rd32 b (p + 16) = Some x"
    "\<exists>x. rd32 b (p + 20) = Some x" "\<exists>x. rd32 b (p + 36) = Some x" by (simp_all del: add_2_eq_Suc')
  ultimately show ?thesis by (auto simp: read_section_def)
qed

text \<open>A conditional and a read followed by a continuation are defined when their parts are.\<close>

lemma if_defined:
  assumes "c \<Longrightarrow> x \<noteq> None" and "\<not> c \<Longrightarrow> y \<noteq> None"
  shows "(if c then x else y) \<noteq> None"
  using assms by simp

lemma bind_defined:
  assumes "r \<noteq> None" and "\<And>x. r = Some x \<Longrightarrow> f x \<noteq> None"
  shows "Option.bind r f \<noteq> None"
  using assms by auto

lemma rd16_defined: "p + 2 \<le> length b \<Longrightarrow> rd16 b p \<noteq> None"
  using rd16_in by fastforce

lemma rd32_defined: "p + 4 \<le> length b \<Longrightarrow> rd32 b p \<noteq> None"
  using rd32_in by fastforce

text \<open>Fifteen directories need an optional header of at least 216 bytes.\<close>

lemma directory_room:
  assumes "\<not> (d > 16 \<or> 96 + d * 8 > (ucast (os :: u16) :: u32))" and "d > 14"
  shows "216 \<le> unat os"
proof -
  have d: "unat d \<le> 16" "14 < unat d" using assms by (auto simp: word_le_nat_alt word_less_nat_alt not_less)
  have "unat (96 + d * 8) = 96 + unat d * 8"
    using d(1) by (simp add: unat_word_ariths)
  moreover have "unat (96 + d * 8) \<le> unat os"
    using assms(1) by (simp add: word_le_nat_alt not_less)
  ultimately show ?thesis using d(2) by linarith
qed

lemma fits_iff: "fits p n k \<longleftrightarrow> p + n \<le> k"
  by (auto simp: fits_def)

lemma parse_header_defined: "parse_header b \<noteq> None"
  unfolding parse_header_def Let_def
  apply (intro if_defined bind_defined rd16_defined rd32_defined option.distinct(2))
  by ((drule (1) directory_room, simp add: fits_iff not_less) | (simp add: fits_iff not_less))+

text \<open>What an accepted header guarantees.\<close>

definition header_wf :: "nat \<Rightarrow> pe_layout \<Rightarrow> bool" where
  "header_wf len l \<longleftrightarrow> len \<le> max_image_bytes
     \<and> 0 < unat (section_count l) \<and> unat (section_count l) \<le> max_sections
     \<and> length (sections l) = max_sections
     \<and> power2 (file_alignment l) \<and> 512 \<le> unat (file_alignment l) \<and> unat (file_alignment l) \<le> 65536
     \<and> power2 (section_alignment l) \<and> file_alignment l \<le> section_alignment l
     \<and> 0 < unat (image_size l) \<and> unat (image_size l) \<le> max_image_bytes
     \<and> unat (section_alignment l) dvd unat (image_size l)
     \<and> 0 < unat (headers_size l) \<and> unat (file_alignment l) dvd unat (headers_size l)
     \<and> unat (headers_size l) \<le> len \<and> headers_size l \<le> image_size l
     \<and> 0 < unat (image_base l) \<and> 65536 dvd unat (image_base l)
     \<and> unat (image_base l) + unat (image_size l) \<le> 2 ^ 32"

lemma mod_zero_dvd: "(x::u32) mod y = 0 \<longleftrightarrow> unat y dvd unat x"
  by (simp add: word_unat_eq_iff unat_mod mod_eq_0_iff_dvd)

lemma sum64: "unat ((ucast (x::u32) :: u64) + ucast (y::u32)) = unat x + unat y"
proof -
  have "unat x < 2 ^ 32" "unat y < 2 ^ 32" by (rule unat_less_32)+
  then show ?thesis by (simp add: unat_word_ariths)
qed

text \<open>A property of every successful outcome of a fallible computation.\<close>

definition on_success :: "('a \<Rightarrow> bool) \<Rightarrow> ('e + 'a) option \<Rightarrow> bool" where
  "on_success P r \<longleftrightarrow> (\<forall>x. r = Some (Inr x) \<longrightarrow> P x)"

lemma on_success_if:
  "(c \<Longrightarrow> on_success P x) \<Longrightarrow> (\<not> c \<Longrightarrow> on_success P y) \<Longrightarrow> on_success P (if c then x else y)"
  by simp

lemma on_success_bind:
  "(\<And>x. r = Some x \<Longrightarrow> on_success P (f x)) \<Longrightarrow> on_success P (Option.bind r f)"
  by (cases r) (auto simp: on_success_def)

lemma on_success_Inl: "on_success P (Some (Inl e))"
  by (simp add: on_success_def)

lemma on_success_Inr: "P x \<Longrightarrow> on_success P (Some (Inr x))"
  by (simp add: on_success_def)

lemmas on_success_rules = on_success_if on_success_bind on_success_Inl on_success_Inr

lemma parse_header_wf:
  "on_success (\<lambda>(l, table). header_wf (length b) l \<and> sections l = replicate 96 no_section
     \<and> table + unat (section_count l) * 40 \<le> unat (headers_size l)) (parse_header b)"
  unfolding parse_header_def Let_def
  apply (intro on_success_rules)
  apply (simp add: header_wf_def empty_layout_def max_sections_def mod_zero_dvd sum64 word_le_nat_alt word_less_nat_alt not_less unat_gt_0)
  done

section \<open>The section table\<close>

text \<open>The addresses of a section in the mapped image and the offsets of its data in the file.\<close>

definition rva_range :: "pe_section \<Rightarrow> nat set" where
  "rva_range s = {unat (sec_rva s) ..< unat (sec_rva s) + unat (extent s)}"

definition raw_range :: "pe_section \<Rightarrow> nat set" where
  "raw_range s = {unat (sec_raw_offset s) ..< unat (sec_raw_offset s) + unat (raw_size s)}"

definition section_wf :: "nat \<Rightarrow> pe_layout \<Rightarrow> pe_section \<Rightarrow> bool" where
  "section_wf len l s \<longleftrightarrow> 0 < unat (extent s)
     \<and> unat (headers_size l) \<le> unat (sec_rva s) \<and> unat (section_alignment l) dvd unat (sec_rva s)
     \<and> unat (sec_rva s) + unat (extent s) \<le> unat (image_size l)
     \<and> unat (sec_raw_offset s) + unat (raw_size s) \<le> len
     \<and> (raw_size s = 0 \<or> (unat (headers_size l) \<le> unat (sec_raw_offset s)
          \<and> unat (file_alignment l) dvd unat (sec_raw_offset s) \<and> unat (file_alignment l) dvd unat (raw_size s)))"

definition separate :: "pe_section \<Rightarrow> pe_section \<Rightarrow> bool" where
  "separate s t \<longleftrightarrow> rva_range s \<inter> rva_range t = {} \<and> raw_range s \<inter> raw_range t = {}"

definition same_header :: "pe_layout \<Rightarrow> pe_layout \<Rightarrow> bool" where
  "same_header l l' \<longleftrightarrow> l'\<lparr>sections := sections l\<rparr> = l"

lemma section_in_bounds_wf: "section_in_bounds len l s \<Longrightarrow> section_wf len l s"
  by (auto simp: section_in_bounds_def section_wf_def fits_iff mod_zero_dvd word_less_nat_alt not_less unat_gt_0)

lemma overlaps_iff:
  "overlaps a an b bn \<longleftrightarrow> {unat a ..< unat a + unat an} \<inter> {unat b ..< unat b + unat bn} \<noteq> {}"
proof -
  have "overlaps a an b bn \<longleftrightarrow> 0 < unat an \<and> 0 < unat bn \<and> unat a < unat b + unat bn \<and> unat b < unat a + unat an"
    by (simp add: overlaps_def word_less_nat_alt sum64 unat_gt_0)
  also have "\<dots> \<longleftrightarrow> {unat a ..< unat a + unat an} \<inter> {unat b ..< unat b + unat bn} \<noteq> {}"
  proof
    assume "0 < unat an \<and> 0 < unat bn \<and> unat a < unat b + unat bn \<and> unat b < unat a + unat an"
    then have "max (unat a) (unat b) \<in> {unat a ..< unat a + unat an} \<inter> {unat b ..< unat b + unat bn}" by auto
    then show "{unat a ..< unat a + unat an} \<inter> {unat b ..< unat b + unat bn} \<noteq> {}" by blast
  qed auto
  finally show ?thesis .
qed

lemma sections_overlap_iff: "sections_overlap s t \<longleftrightarrow> \<not> separate s t"
  by (auto simp: sections_overlap_def overlaps_iff separate_def rva_range_def raw_range_def)

lemma parse_sections_defined:
  "table + (i + n) * 40 \<le> length b \<Longrightarrow> parse_sections b table n i l ex \<noteq> None"
proof (induction n arbitrary: i l ex)
  case (Suc n)
  have "\<exists>s. read_section b (table + i * 40) = Some s"
    by (rule read_section_in) (use Suc.prems in simp)
  then obtain s where s: "read_section b (table + i * 40) = Some s" by blast
  have "table + ((i + 1) + n) * 40 \<le> length b" using Suc.prems by simp
  note IH = Suc.IH[OF this, simplified]
  show ?case by (simp add: s Let_def IH)
qed simp

text \<open>The state of the loop before index \<open>i\<close>.\<close>

definition loop_inv :: "bytes \<Rightarrow> nat \<Rightarrow> pe_layout \<Rightarrow> nat \<Rightarrow> pe_layout \<Rightarrow> bool \<Rightarrow> bool" where
  "loop_inv b table l0 i l ex \<longleftrightarrow> same_header l0 l \<and> length (sections l) = max_sections
     \<and> (\<forall>j < i. read_section b (table + j * 40) = Some (sections l ! j) \<and> section_wf (length b) l0 (sections l ! j))
     \<and> drop i (sections l) = replicate (max_sections - i) no_section
     \<and> sorted_wrt separate (take i (sections l))
     \<and> (ex \<longleftrightarrow> (\<exists>j < i. holds_entry l0 (sections l ! j)))"

lemma same_header_simps:
  assumes "same_header l l'"
  shows "headers_size l' = headers_size l" "section_alignment l' = section_alignment l"
    "file_alignment l' = file_alignment l" "image_size l' = image_size l" "entry_rva l' = entry_rva l"
    "section_count l' = section_count l" "image_base l' = image_base l"
  using assms by (cases l; cases l'; simp add: same_header_def)+

lemma separate_sym: "separate s t \<longleftrightarrow> separate t s"
  by (auto simp: separate_def)

lemma loop_inv_step:
  assumes inv: "loop_inv b table l0 i l ex" and i: "i < max_sections"
    and s: "read_section b (table + i * 40) = Some s"
    and wf: "section_in_bounds (length b) l s"
    and sep: "\<not> list_ex (sections_overlap s) (take i (sections l))"
  shows "loop_inv b table l0 (i + 1) (l\<lparr>sections := (sections l)[i := s]\<rparr>) (ex \<or> holds_entry l s)"
proof -
  have h: "same_header l0 l" and len: "length (sections l) = max_sections"
    using inv by (auto simp: loop_inv_def)
  note eqs = same_header_simps[OF h]
  have wf0: "section_wf (length b) l0 s"
    using section_in_bounds_wf[OF wf] by (simp add: section_wf_def eqs)
  have ex0: "holds_entry l s = holds_entry l0 s" by (simp add: holds_entry_def eqs)
  have h': "same_header l0 (l\<lparr>sections := (sections l)[i := s]\<rparr>)" using h by (simp add: same_header_def)
  have tk: "take (i + 1) ((sections l)[i := s]) = take i (sections l) @ [s]"
    using i len by (simp add: take_Suc_conv_app_nth)
  have dr: "drop (i + 1) ((sections l)[i := s]) = drop 1 (drop i (sections l))" by simp
  have "drop i (sections l) = replicate (max_sections - i) no_section" using inv by (simp add: loop_inv_def)
  then have dr2: "drop (i + 1) ((sections l)[i := s]) = replicate (max_sections - (i + 1)) no_section"
    unfolding dr by simp
  have "\<forall>t \<in> set (take i (sections l)). separate t s"
    using sep by (auto simp: list_ex_iff sections_overlap_iff separate_sym)
  then have srt: "sorted_wrt separate (take i (sections l) @ [s])"
    using inv by (simp add: sorted_wrt_append loop_inv_def)
  have each: "\<forall>j < i + 1. read_section b (table + j * 40) = Some ((sections l)[i := s] ! j)
      \<and> section_wf (length b) l0 ((sections l)[i := s] ! j)"
    using inv s wf0 i len by (auto simp: loop_inv_def nth_list_update less_Suc_eq)
  have "(ex \<or> holds_entry l s) \<longleftrightarrow> (\<exists>j < i + 1. holds_entry l0 ((sections l)[i := s] ! j))"
    using inv i len by (auto simp: loop_inv_def ex0 nth_list_update less_Suc_eq)
  then show ?thesis
    using h' len each srt dr2 tk by (simp add: loop_inv_def)
qed

lemma parse_sections_inv:
  assumes "loop_inv b table l0 i l ex" and "i + n \<le> max_sections"
  shows "on_success (\<lambda>(l', ex'). loop_inv b table l0 (i + n) l' ex') (parse_sections b table n i l ex)"
  using assms
proof (induction n arbitrary: i l ex)
  case 0
  then show ?case by (simp add: on_success_def)
next
  case (Suc n)
  show ?case
  proof (cases "read_section b (table + i * 40)")
    case None
    then show ?thesis by (simp add: on_success_def)
  next
    case (Some s)
    show ?thesis
    proof (cases "section_in_bounds (length b) l s \<and> \<not> list_ex (sections_overlap s) (take i (sections l))")
      case False
      then show ?thesis by (auto simp: Some on_success_def Let_def)
    next
      case True
      have "loop_inv b table l0 (i + 1) (l\<lparr>sections := (sections l)[i := s]\<rparr>) (ex \<or> holds_entry l s)"
        by (rule loop_inv_step) (use Suc.prems Some True in auto)
      from Suc.IH[OF this] show ?thesis using True Suc.prems(2) by (simp add: Some Let_def)
    qed
  qed
qed

section \<open>Accepted layouts\<close>

definition used_sections :: "pe_layout \<Rightarrow> pe_section list" where
  "used_sections l = take (unat (section_count l)) (sections l)"

definition pe_wf :: "nat \<Rightarrow> pe_layout \<Rightarrow> bool" where
  "pe_wf len l \<longleftrightarrow> header_wf len l
     \<and> list_all (section_wf len l) (used_sections l)
     \<and> sorted_wrt separate (used_sections l)
     \<and> list_ex (holds_entry l) (used_sections l)
     \<and> drop (unat (section_count l)) (sections l) = replicate (max_sections - unat (section_count l)) no_section"

lemma header_wf_sections:
  "same_header l l' \<Longrightarrow> length (sections l') = max_sections \<Longrightarrow> header_wf len l \<Longrightarrow> header_wf len l'"
  by (cases l; cases l') (simp add: header_wf_def same_header_def)

lemma parse_pe32_accepted:
  assumes "parse_pe32 b = Some (PE_none, l)"
  shows "\<exists>table l0. parse_header b = Some (Inr (l0, table)) \<and> same_header l0 l \<and>
     loop_inv b table l0 (unat (section_count l)) l True \<and> pe_wf (length b) l"
proof -
  obtain l0 table where h: "parse_header b = Some (Inr (l0, table))"
    and r: "parse_sections b table (unat (section_count l0)) 0 l0 False = Some (Inr (l, True))"
  proof -
    have "parse_header b \<noteq> Some (Inl PE_none)"
      using on_success_Inl by (auto simp: parse_header_def Let_def split: if_splits Option.bind_splits)
    have "\<forall>i n l ex table. parse_sections b table n i l ex \<noteq> Some (Inl PE_none)"
    proof (intro allI)
      fix i n l ex table show "parse_sections b table n i l ex \<noteq> Some (Inl PE_none)"
        by (induction n arbitrary: i l ex) (auto simp: Let_def split: Option.bind_splits if_splits)
    qed
    with \<open>parse_header b \<noteq> Some (Inl PE_none)\<close> show ?thesis
      using assms that by (auto simp: parse_pe32_def split: Option.bind_splits sum.splits if_splits)
  qed
  have hw: "header_wf (length b) l0" "sections l0 = replicate 96 no_section"
    using parse_header_wf[of b] by (auto simp: h on_success_def)
  have cnt: "unat (section_count l0) \<le> max_sections" using hw(1) by (simp add: header_wf_def)
  have "loop_inv b table l0 0 l0 False"
    by (simp add: loop_inv_def same_header_def hw(2) max_sections_def)
  from parse_sections_inv[OF this, of "unat (section_count l0)"] cnt r
  have inv: "loop_inv b table l0 (unat (section_count l0)) l True" by (auto simp: on_success_def)
  then have sh: "same_header l0 l" and len: "length (sections l) = max_sections" by (auto simp: loop_inv_def)
  note eqs = same_header_simps[OF sh]
  have wfs: "section_wf (length b) l s" if "section_wf (length b) l0 s" for s
    using that by (simp add: section_wf_def eqs)
  have ent: "holds_entry l s = holds_entry l0 s" for s by (simp add: holds_entry_def eqs)
  have "header_wf (length b) l" by (rule header_wf_sections[OF sh len hw(1)])
  moreover have "list_all (section_wf (length b) l) (used_sections l)"
    using inv wfs len by (auto simp: loop_inv_def used_sections_def eqs list_all_length)
  moreover have "list_ex (holds_entry l) (used_sections l)"
    using inv len cnt by (auto simp: loop_inv_def used_sections_def eqs list_ex_length ent)
  ultimately have "pe_wf (length b) l"
    using inv by (simp add: pe_wf_def used_sections_def eqs loop_inv_def)
  then show ?thesis using h sh inv by (auto simp: eqs)
qed

lemma raw_offset_loop_Some: "raw_offset_loop rva n ss (Some r) = (if list_ex (section_holds rva n) ss then None else Some r)"
  by (induction ss) auto

lemma raw_offset_loop_find:
  assumes "sorted_wrt (\<lambda>s t. \<not> (section_holds rva n s \<and> section_holds rva n t)) ss"
  shows "raw_offset_loop rva n ss None =
    map_option (\<lambda>s. unat (sec_raw_offset s) + unat (rva - sec_rva s)) (find (section_holds rva n) ss)"
  using assms
  by (induction ss) (auto simp: raw_offset_loop_Some list_ex_iff)

lemma section_holds_iff:
  "section_holds rva n s \<longleftrightarrow> unat (sec_rva s) \<le> unat rva \<and> unat rva + n \<le> unat (sec_rva s) + unat (raw_size s)"
  by (auto simp: section_holds_def fits_iff word_le_nat_alt unat_sub)

lemma raw_size_le_extent: "unat (raw_size s) \<le> unat (extent s)"
  by (simp add: extent_def max_def word_le_nat_alt)

lemma holds_unique:
  assumes "separate s t" and "0 < n"
  shows "\<not> (section_holds rva n s \<and> section_holds rva n t)"
proof
  assume "section_holds rva n s \<and> section_holds rva n t"
  then have "unat rva \<in> rva_range s \<inter> rva_range t"
    using assms(2) raw_size_le_extent[of s] raw_size_le_extent[of t]
    by (auto simp: section_holds_iff rva_range_def)
  then show False using assms(1) by (auto simp: separate_def)
qed

lemma raw_offset_find:
  assumes "pe_wf len l" and "0 < n"
  shows "raw_offset l rva n = map_option (\<lambda>s. unat (sec_raw_offset s) + (unat rva - unat (sec_rva s)))
    (find (section_holds rva n) (used_sections l))"
proof -
  have "sorted_wrt (\<lambda>s t. \<not> (section_holds rva n s \<and> section_holds rva n t)) (used_sections l)"
    by (rule sorted_wrt_mono_rel[where P = separate]) (use assms holds_unique in \<open>auto simp: pe_wf_def\<close>)
  moreover have "unat (section_count l) \<le> max_sections" using assms(1) by (simp add: pe_wf_def header_wf_def)
  ultimately have "raw_offset l rva n = map_option (\<lambda>s. unat (sec_raw_offset s) + unat (rva - sec_rva s))
      (find (section_holds rva n) (used_sections l))"
    using assms(2) by (simp add: raw_offset_def raw_offset_loop_find flip: used_sections_def)
  also have "\<dots> = map_option (\<lambda>s. unat (sec_raw_offset s) + (unat rva - unat (sec_rva s)))
      (find (section_holds rva n) (used_sections l))"
    by (rule option.map_cong0)
       (auto simp: find_Some_iff section_holds_def unat_sub word_le_nat_alt dest!: set_mp[OF eq_refl, THEN iffD1[OF Option.elem_set]])
  finally show ?thesis .
qed

section \<open>Properties\<close>

text \<open>
  Claim C12. The parser is memory safe on every input, however malformed: it never reads past
  the end of the file, and a rejected file yields the empty layout.
\<close>

theorem parse_never_reads_out_of_bounds:
  "\<exists>e l. parse_pe32 b = Some (e, l) \<and> (e = PE_none \<or> l = empty_layout)"
proof -
  from parse_header_defined obtain h where h: "parse_header b = Some h" by blast
  show ?thesis
  proof (cases h)
    case (Inl e)
    then show ?thesis by (simp add: parse_pe32_def h)
  next
    case (Inr q)
    then obtain l table where q: "h = Inr (l, table)" by (cases q) auto
    have "table + unat (section_count l) * 40 \<le> length b"
      using parse_header_wf[of b] by (auto simp: h q on_success_def header_wf_def)
    then obtain r where r: "parse_sections b table (unat (section_count l)) 0 l False = Some r"
      using parse_sections_defined[of table 0 "unat (section_count l)" b l False] by auto
    show ?thesis
      by (cases r) (auto simp: parse_pe32_def h q r)
  qed
qed


definition sample_byte :: "nat \<Rightarrow> u8" where
  "sample_byte p = (case map_of [(0, 0x4d), (1, 0x5a), (60, 64), (64, 0x50), (65, 0x45), (68, 0x4c), (69, 1),
     (70, 1), (84, 96), (86, 2), (88, 0x0b), (89, 1), (105, 0x10), (118, 0x40), (121, 0x10), (125, 2),
     (145, 0x20), (149, 2), (192, 16), (197, 0x10), (201, 2), (205, 2), (220, 0x20), (223, 0x60)] p
     of Some x \<Rightarrow> x | None \<Rightarrow> 0)"

definition sample_image :: bytes where
  "sample_image = map sample_byte [0..<1024]"

definition sample_section :: pe_section where
  "sample_section = \<lparr>sec_name = replicate 8 0, virtual_size = 16, sec_rva = 4096, raw_size = 512,
     sec_raw_offset = 512, sec_characteristics = 0x60000020\<rparr>"

definition sample_layout :: pe_layout where
  "sample_layout = empty_layout\<lparr>image_base := 0x400000, entry_rva := 4096, image_size := 8192,
     headers_size := 512, section_alignment := 4096, file_alignment := 512, lay_characteristics := 2,
     section_count := 1, sections := sample_section # replicate 95 no_section\<rparr>"

lemma rd8_sample: "p < 1024 \<Longrightarrow> rd8 sample_image p = Some (sample_byte p)"
  by (simp add: rd8_def sample_image_def)

lemma length_sample: "length sample_image = 1024"
  by (simp add: sample_image_def)

lemma parse_sample_header:
  "parse_header sample_image = Some (Inr (sample_layout\<lparr>sections := replicate 96 no_section\<rparr>, 184))"
  unfolding parse_header_def rd32_def rd16_def length_sample
  by (simp add: rd8_sample sample_byte_def fits_def power2_def max_image_bytes_def max_sections_def
      sample_layout_def empty_layout_def Let_def)

lemma rd_name_take: "p + n \<le> length b \<Longrightarrow> rd_name b p n = Some (take n (drop p b))"
  by (induction n arbitrary: p) (auto simp: rd8_def Cons_nth_drop_Suc[symmetric])

lemma read_sample_section: "read_section sample_image 184 = Some sample_section"
proof -
  have "take 8 (drop 184 sample_image) = map sample_byte [184..<192]"
    by (simp add: sample_image_def take_map drop_map del: upt_rec_numeral)
  also have "\<dots> = map (\<lambda>_. 0) [184..<192]"
    by (rule map_cong[OF refl]) (auto simp: sample_byte_def simp del: upt_rec_numeral)
  also have "\<dots> = replicate 8 0" by (simp add: map_replicate_const del: upt_rec_numeral)
  finally have "rd_name sample_image 184 8 = Some (replicate 8 0)"
    by (simp add: rd_name_take length_sample)
  then show ?thesis
    unfolding read_section_def rd32_def rd16_def
    by (simp add: rd8_sample sample_byte_def sample_section_def)
qed

lemma parse_sample: "parse_pe32 sample_image = Some (PE_none, sample_layout)"
proof -
  have b: "section_in_bounds 1024 (sample_layout\<lparr>sections := replicate 96 no_section\<rparr>) sample_section"
    by (simp add: section_in_bounds_def sample_layout_def sample_section_def empty_layout_def extent_def fits_def)
  have e: "holds_entry (sample_layout\<lparr>sections := replicate 96 no_section\<rparr>) sample_section"
    by (simp add: holds_entry_def sample_layout_def sample_section_def empty_layout_def)
  have r: "(replicate 96 no_section)[0 := sample_section] = sample_section # replicate 95 no_section"
    by (simp add: numeral_eq_Suc)
  have "parse_sections sample_image 184 1 0 (sample_layout\<lparr>sections := replicate 96 no_section\<rparr>) False
      = Some (Inr (sample_layout, True))"
    using b e r by (simp add: read_sample_section length_sample Let_def) (simp add: sample_layout_def)
  moreover have "unat (section_count (sample_layout\<lparr>sections := replicate 96 no_section\<rparr>)) = 1"
    by (simp add: sample_layout_def)
  ultimately show ?thesis
    by (simp only: parse_pe32_def parse_sample_header Option.bind.bind_lunit sum.case prod.case
        not_True_eq_False if_False)
qed


text \<open>
  Claim C14. On an accepted layout \<open>raw_offset\<close> maps exactly the non-empty ranges that lie in the raw
  data of one section, to the offset of that data inside the file; it is never ambiguous, and
  different addresses get different offsets.
\<close>

theorem raw_offset_exact:
  assumes "pe_wf len l" and "0 < n"
  shows "(raw_offset l rva n = Some off) = list_ex (\<lambda>s. section_holds rva n s
       \<and> off = unat (sec_raw_offset s) + (unat rva - unat (sec_rva s)) \<and> off + n \<le> len) (used_sections l)
    \<and> (raw_offset l rva n = Some off \<longrightarrow> raw_offset l rva' n = Some off \<longrightarrow> rva' = rva)"
proof (intro conjI impI)
  note find = raw_offset_find[OF assms]
  let ?ss = "used_sections l"
  have srt: "sorted_wrt separate ?ss" and wf: "\<And>s. s \<in> set ?ss \<Longrightarrow> section_wf len l s"
    using assms(1) by (auto simp: pe_wf_def list_all_iff)
  have uniq: "s = t" if "s \<in> set ?ss" "t \<in> set ?ss" "section_holds a n s" "section_holds a n t" for s t a
  proof (rule ccontr)
    assume "s \<noteq> t"
    from that(1,2) obtain i j where "i < length ?ss" "j < length ?ss" "s = ?ss ! i" "t = ?ss ! j"
      by (metis in_set_conv_nth)
    then have "separate s t" using srt \<open>s \<noteq> t\<close> by (metis nat_neq_iff separate_sym sorted_wrt_iff_nth_less)
    then show False using holds_unique[OF _ assms(2)] that(3,4) by blast
  qed
  have exact: "raw_offset l a n = Some o' \<longleftrightarrow> (\<exists>s \<in> set ?ss. section_holds a n s
      \<and> o' = unat (sec_raw_offset s) + (unat a - unat (sec_rva s)))" for a o'
  proof
    assume "raw_offset l a n = Some o'"
    then show "\<exists>s \<in> set ?ss. section_holds a n s \<and> o' = unat (sec_raw_offset s) + (unat a - unat (sec_rva s))"
      by (auto simp: find find_Some_iff)
  next
    assume "\<exists>s \<in> set ?ss. section_holds a n s \<and> o' = unat (sec_raw_offset s) + (unat a - unat (sec_rva s))"
    then obtain s where s: "s \<in> set ?ss" "section_holds a n s" "o' = unat (sec_raw_offset s) + (unat a - unat (sec_rva s))"
      by blast
    then obtain t where t: "find (section_holds a n) ?ss = Some t" by (metis find_None_iff option.exhaust)
    then have "t \<in> set ?ss" "section_holds a n t" by (auto simp: find_Some_iff)
    with uniq s have "t = s" by blast
    then show "raw_offset l a n = Some o'" using t s(3) by (simp add: find)
  qed
  have inside: "unat (sec_raw_offset s) + (unat a - unat (sec_rva s)) + n \<le> unat (sec_raw_offset s) + unat (raw_size s)"
    if "section_holds a n s" for a s using that by (auto simp: section_holds_iff)
  show "(raw_offset l rva n = Some off) = list_ex (\<lambda>s. section_holds rva n s
       \<and> off = unat (sec_raw_offset s) + (unat rva - unat (sec_rva s)) \<and> off + n \<le> len) ?ss"
    unfolding exact list_ex_iff using inside wf by (fastforce simp: section_wf_def)
  assume "raw_offset l rva n = Some off" "raw_offset l rva' n = Some off"
  then obtain s t where s: "s \<in> set ?ss" "section_holds rva n s" "off = unat (sec_raw_offset s) + (unat rva - unat (sec_rva s))"
    and t: "t \<in> set ?ss" "section_holds rva' n t" "off = unat (sec_raw_offset t) + (unat rva' - unat (sec_rva t))"
    unfolding exact by blast
  have "off \<in> raw_range s \<inter> raw_range t"
    using inside[OF s(2)] inside[OF t(2)] s(3) t(3) assms(2) unfolding raw_range_def by fastforce
  then have "\<not> separate s t" by (auto simp: separate_def)
  then have "s = t" using s(1) t(1) srt by (metis in_set_conv_nth nat_neq_iff separate_sym sorted_wrt_iff_nth_less)
  then have "unat rva' = unat rva" using s(2,3) t(2,3) by (auto simp: section_holds_iff)
  then show "rva' = rva" by (simp add: word_unat_eq_iff)
qed

theorem raw_offset_exact_witness:
  "pe_wf 1024 sample_layout \<and> raw_offset sample_layout 4112 4 = Some 528"
proof -
  have wf: "pe_wf 1024 sample_layout" using parse_pe32_accepted[OF parse_sample] by (auto simp: length_sample)
  have u: "used_sections sample_layout = [sample_section]" by (simp add: used_sections_def sample_layout_def)
  have "list_ex (\<lambda>s. section_holds 4112 4 s \<and> 528 = unat (sec_raw_offset s) + (unat (4112::u32) - unat (sec_rva s))
      \<and> 528 + 4 \<le> (1024::nat)) (used_sections sample_layout)"
    by (simp add: u section_holds_iff sample_section_def)
  then show ?thesis using raw_offset_exact[OF wf, of 4 4112 528] wf by simp
qed

end
