(* ===== verification/Profile_Gate.thy ===== *)
theory Profile_Gate
  imports Pe_Image
begin

text \<open>
  \<open>profile_gate.hpp/.cpp\<close> under \<open>engine/bootstrap\<close>: comparing a file and a mapped image with the
  observed profile. The reader of the mapped image is an interface, a locale below; the current
  process (\<open>Windows_Image_Reader\<close>) and a suspended child (\<open>Suspended_Image\<close>) provide it.
\<close>

record image_anchor =
  anchor_id :: string
  anchor_rva :: u32
  section_index :: u16
  anchor_length :: u16
  anchor_bytes :: bytes

record observed_profile =
  profile_id :: string
  profile_file_bytes :: nat
  profile_sha256 :: bytes
  profile_layout :: pe_layout
  anchors :: "image_anchor list"

datatype profile_result = Matched_observation | Unknown_fingerprint | Layout_mismatch
  | Invalid_anchor | Anchor_mismatch | Unreadable_image

definition valid_anchor :: "image_anchor \<Rightarrow> pe_layout \<Rightarrow> bool" where
  "valid_anchor a l =
    (if section_count l = 0 \<or> unat (section_count l) > max_sections \<or> anchor_length a = 0
        \<or> unat (anchor_length a) > 16 \<or> section_index a \<ge> section_count l then False
     else let s = sections l ! unat (section_index a) in
       sec_characteristics s AND 0x20000000 \<noteq> 0 \<and> anchor_rva a \<ge> sec_rva s
       \<and> unat (anchor_rva a - sec_rva s) + unat (anchor_length a) \<le> unat (raw_size s))"

text \<open>The bytes the anchor pins.\<close>

definition pinned :: "image_anchor \<Rightarrow> bytes" where
  "pinned a = take (unat (anchor_length a)) (anchor_bytes a)"

fun match_anchors :: "bytes \<Rightarrow> pe_layout \<Rightarrow> image_anchor list \<Rightarrow> profile_result" where
  "match_anchors file l [] = Matched_observation"
| "match_anchors file l (a # as) =
    (case raw_offset l (anchor_rva a) (unat (anchor_length a)) of
       None \<Rightarrow> Invalid_anchor
     | Some off \<Rightarrow>
         if \<not> valid_anchor a l \<or> off > length file \<or> unat (anchor_length a) > length file - off
         then Invalid_anchor
         else if pinned a \<noteq> take (unat (anchor_length a)) (drop off file) then Anchor_mismatch
         else match_anchors file l as)"

definition match_file_observation :: "bytes \<Rightarrow> bytes \<Rightarrow> pe_layout \<Rightarrow> observed_profile \<Rightarrow> profile_result" where
  "match_file_observation file hash l p =
    (if length file \<noteq> profile_file_bytes p \<or> hash \<noteq> profile_sha256 p then Unknown_fingerprint
     else if l \<noteq> profile_layout p then Layout_mismatch
     else if anchors p = [] \<or> length (anchors p) > 32 then Invalid_anchor
     else match_anchors file l (anchors p))"

text \<open>
  The loop over the raw headers in chunks of the 1024-byte buffer: \<open>None\<close> when it runs to the end.
  The counter stays below \<open>headers_size\<close>, a 32-bit value.
\<close>

function check_headers :: "(u32 \<Rightarrow> nat \<Rightarrow> bytes option) \<Rightarrow> bytes \<Rightarrow> nat \<Rightarrow> nat \<Rightarrow> profile_result option" where
  "check_headers copy file headers at =
    (if at < headers then
       let count = min 1024 (headers - at) in
       case copy (word_of_nat at) count of
         None \<Rightarrow> Some Unreadable_image
       | Some chunk \<Rightarrow> if chunk \<noteq> take count (drop at file) then Some Layout_mismatch
           else check_headers copy file headers (at + count)
     else None)"
  by pat_completeness auto
termination by (relation "measure (\<lambda>(_, _, headers, at). headers - at)") auto

declare check_headers.simps [simp del]

fun check_anchors :: "(u32 \<Rightarrow> nat \<Rightarrow> bytes option) \<Rightarrow> pe_layout \<Rightarrow> image_anchor list \<Rightarrow> profile_result" where
  "check_anchors copy l [] = Matched_observation"
| "check_anchors copy l (a # as) =
    (if \<not> valid_anchor a l then Invalid_anchor
     else case copy (anchor_rva a) (unat (anchor_length a)) of
         None \<Rightarrow> Unreadable_image
       | Some chunk \<Rightarrow> if chunk \<noteq> pinned a then Anchor_mismatch else check_anchors copy l as)"

definition check_mapped_observation ::
    "(u32 \<Rightarrow> nat \<Rightarrow> bytes option) \<Rightarrow> bytes \<Rightarrow> pe_layout \<Rightarrow> observed_profile \<Rightarrow> profile_result" where
  "check_mapped_observation copy file l p =
    (if l \<noteq> profile_layout p \<or> unat (headers_size l) > length file then Layout_mismatch
     else case check_headers copy file (unat (headers_size l)) 0 of
         Some e \<Rightarrow> e
       | None \<Rightarrow> if anchors p = [] \<or> length (anchors p) > 32 then Invalid_anchor
                 else check_anchors copy l (anchors p))"

fun profile_result_name :: "profile_result \<Rightarrow> string" where
  "profile_result_name Matched_observation = ''observed_profile_runtime_unverified''"
| "profile_result_name Unknown_fingerprint = ''unknown_fingerprint''"
| "profile_result_name Layout_mismatch = ''profile_layout_mismatch''"
| "profile_result_name Invalid_anchor = ''invalid_anchor''"
| "profile_result_name Anchor_mismatch = ''anchor_mismatch''"
| "profile_result_name Unreadable_image = ''unreadable_image''"

lemma check_headers_None:
  assumes "check_headers copy file headers at = None" and "at \<le> headers" and "headers < 2 ^ 32"
  shows "at \<le> i \<Longrightarrow> i < headers \<Longrightarrow> \<exists>rva n out. copy rva n = Some out \<and> unat rva \<le> i \<and> i < unat rva + n
     \<and> out = take n (drop (unat rva) file) \<and> unat rva + n \<le> headers"
  using assms
proof (induction copy "file" headers at rule: check_headers.induct)
  case (1 cp fl headers at)
  define count where "count = min 1024 (headers - at)"
  have at: "at < headers" using 1 by simp
  from "1.prems"(3) at obtain chunk where c: "cp (word_of_nat at) count = Some chunk"
    "chunk = take count (drop at fl)" "check_headers cp fl headers (at + count) = None"
    by (subst (asm) check_headers.simps)
       (auto simp: Let_def count_def split: option.splits if_splits)
  have u: "unat (word_of_nat at :: u32) = at" by (rule unat_word_of_nat_32) (use at "1.prems"(5) in simp)
  have le: "at + count \<le> headers" using at by (simp add: count_def)
  show ?case
  proof (cases "i < at + count")
    case True
    show ?thesis
      by (intro exI[of _ "word_of_nat at"] exI[of _ count] exI[of _ chunk] conjI; (unfold u)?)
         (use c(1,2) le "1.prems"(1) True in simp_all)
  next
    case False
    show ?thesis
      by (rule "1.IH"[OF at count_def c(1)]) (use c False "1.prems" le in auto)
  qed
qed

lemma check_headers_never: "check_headers copy file headers at \<noteq> Some Matched_observation"
proof (induction copy "file" headers at rule: check_headers.induct)
  case (1 cp fl n at)
  then show ?case by (subst check_headers.simps) (auto simp: Let_def split: option.splits)
qed

lemma check_anchors_match:
  "check_anchors copy l as = Matched_observation \<Longrightarrow> a \<in> set as \<Longrightarrow>
     valid_anchor a l \<and> copy (anchor_rva a) (unat (anchor_length a)) = Some (pinned a)"
  by (induction as) (auto split: if_splits option.splits)

section \<open>The interface ImageReader\<close>

text \<open>
  \<open>copy rva n\<close> fills a buffer of \<open>n\<close> bytes or fails. A provider hands out full buffers only, and
  only of bytes inside the image.
\<close>

locale image_reader =
  fixes copy :: "u32 \<Rightarrow> nat \<Rightarrow> bytes option"
    and image_bytes :: nat
  assumes copy_full: "copy rva n = Some out \<Longrightarrow> length out = n"
    and copy_inside: "copy rva n = Some out \<Longrightarrow> 0 < n \<and> unat rva + n \<le> image_bytes"
begin

text \<open>A match reads every raw header byte and every pinned byte from inside the image.\<close>

lemma mapped_match:
  assumes "check_mapped_observation copy file l p = Matched_observation"
  shows "l = profile_layout p" and "unat (headers_size l) \<le> length file"
    and "i < unat (headers_size l) \<Longrightarrow> \<exists>rva n out. copy rva n = Some out \<and> unat rva \<le> i \<and> i < unat rva + n
          \<and> out = take n (drop (unat rva) file) \<and> i < image_bytes \<and> out ! (i - unat rva) = file ! i"
    and "anchors p \<noteq> []"
    and "a \<in> set (anchors p) \<Longrightarrow> valid_anchor a l \<and> copy (anchor_rva a) (unat (anchor_length a)) = Some (pinned a)
          \<and> unat (anchor_rva a) + unat (anchor_length a) \<le> image_bytes"
proof -
  show "l = profile_layout p" "unat (headers_size l) \<le> length file"
    using assms by (auto simp: check_mapped_observation_def split: if_splits)
  then have h: "check_headers copy file (unat (headers_size l)) 0 = None \<or>
      check_headers copy file (unat (headers_size l)) 0 = Some Matched_observation"
    using assms by (auto simp: check_mapped_observation_def split: option.splits)
  have none: "check_headers copy file (unat (headers_size l)) 0 = None" using h check_headers_never by blast
  show "\<exists>rva n out. copy rva n = Some out \<and> unat rva \<le> i \<and> i < unat rva + n
      \<and> out = take n (drop (unat rva) file) \<and> i < image_bytes \<and> out ! (i - unat rva) = file ! i"
    if i: "i < unat (headers_size l)"
  proof -
    from check_headers_None[OF none _ unat_less_32, of i] i obtain rva n out
      where c: "copy rva n = Some out" "unat rva \<le> i" "i < unat rva + n"
        "out = take n (drop (unat rva) file)" "unat rva + n \<le> unat (headers_size l)" by auto
    have "i < image_bytes" using copy_inside[OF c(1)] c(3) by linarith
    moreover have "out ! (i - unat rva) = file ! i"
      using c(2-5) \<open>unat (headers_size l) \<le> length file\<close> by simp
    ultimately show ?thesis using c by blast
  qed
  have a: "anchors p \<noteq> []" "check_anchors copy l (anchors p) = Matched_observation"
    using assms none by (auto simp: check_mapped_observation_def split: if_splits)
  show "anchors p \<noteq> []" by (rule a(1))
  show "valid_anchor a l \<and> copy (anchor_rva a) (unat (anchor_length a)) = Some (pinned a)
      \<and> unat (anchor_rva a) + unat (anchor_length a) \<le> image_bytes" if "a \<in> set (anchors p)"
    using check_anchors_match[OF a(2) that] copy_inside by blast
qed

end

end
