(* ===== verification/Windows_Image_Reader.thy ===== *)
theory Windows_Image_Reader
  imports Profile_Gate
begin

text \<open>
  \<open>windows_image_reader.hpp/.cpp\<close>: the reader of the current process's own image, an x86 module
  (\<open>uintptr_t\<close> and \<open>size_t\<close> have 32 bits). \<open>vq\<close> stands for \<open>VirtualQuery\<close> and \<open>rpm\<close> for
  \<open>ReadProcessMemory\<close>: whether it succeeds, how many bytes it reports and what it stores at each
  index of the caller's buffer.
\<close>

record region =
  base_address :: u32
  allocation_base :: u32
  region_size :: u32
  region_state :: u32
  region_type :: u32
  region_protect :: u32

definition MEM_COMMIT :: u32 where "MEM_COMMIT = 0x1000"
definition MEM_IMAGE :: u32 where "MEM_IMAGE = 0x1000000"
definition PAGE_GUARD :: u32 where "PAGE_GUARD = 0x100"

text \<open>
  \<open>PAGE_READONLY\<close>, \<open>PAGE_READWRITE\<close>, \<open>PAGE_WRITECOPY\<close>, \<open>PAGE_EXECUTE_READ\<close>,
  \<open>PAGE_EXECUTE_READWRITE\<close>, \<open>PAGE_EXECUTE_WRITECOPY\<close>
\<close>

definition readable_protections :: "u32 list" where
  "readable_protections = [0x02, 0x04, 0x08, 0x20, 0x40, 0x80]"

definition region_readable :: "u32 \<Rightarrow> region \<Rightarrow> bool" where
  "region_readable base r \<longleftrightarrow> region_state r = MEM_COMMIT \<and> region_type r = MEM_IMAGE
     \<and> allocation_base r = base \<and> region_protect r AND PAGE_GUARD = 0
     \<and> region_protect r AND 0xff \<in> set readable_protections"

text \<open>The region starts at or before the cursor, does not wrap, and ends after it.\<close>

definition region_advances :: "u32 \<Rightarrow> region \<Rightarrow> bool" where
  "region_advances cursor r \<longleftrightarrow> \<not> (base_address r > cursor \<or> region_size r > -1 - base_address r
     \<or> base_address r + region_size r \<le> cursor)"

function regions_readable :: "(u32 \<Rightarrow> region option) \<Rightarrow> u32 \<Rightarrow> u32 \<Rightarrow> u32 \<Rightarrow> bool" where
  "regions_readable vq base finish cursor =
    (if cursor < finish then
       (case vq cursor of
          None \<Rightarrow> False
        | Some r \<Rightarrow> if region_readable base r \<and> region_advances cursor r
            then regions_readable vq base finish (min finish (base_address r + region_size r))
            else False)
     else True)"
  by pat_completeness auto
termination
  by (relation "measure (\<lambda>(_, _, finish, cursor). unat finish - unat cursor)")
     (auto simp: region_advances_def not_le word_less_nat_alt min_def)

declare regions_readable.simps [simp del]

type_synonym read_memory = "u32 \<Rightarrow> nat \<Rightarrow> bool \<times> nat \<times> (nat \<Rightarrow> u8)"

definition windows_copy :: "(u32 \<Rightarrow> region option) \<Rightarrow> read_memory \<Rightarrow> u32 \<Rightarrow> u32 \<Rightarrow> u32 \<Rightarrow> nat \<Rightarrow> bytes option" where
  "windows_copy vq rpm base sz rva n =
    (if base = 0 \<or> sz = 0 \<or> unat sz > max_image_bytes \<or> n = 0 \<or> n > 1024
        \<or> rva > sz \<or> n > unat (sz - rva) \<or> sz > -1 - base then None
     else if \<not> regions_readable vq base (base + rva + word_of_nat n) (base + rva) then None
     else case rpm (base + rva) n of (ok, copied, buffer) \<Rightarrow>
       if ok \<and> copied = n then Some (map buffer [0..<n]) else None)"

lemma unat_minus_one_minus: "unat (-1 - (x::u32)) = 2 ^ 32 - 1 - unat x"
proof -
  have "x \<le> -1" by simp
  then have "unat (-1 - x) = unat (-1 :: u32) - unat x" by (rule unat_sub)
  then show ?thesis by (simp add: unsigned_minus_1_eq_mask mask_eq_exp_minus_1)
qed

lemma windows_copy_Some:
  assumes "windows_copy vq rpm base sz rva n = Some out"
  shows "0 < n" "n \<le> 1024" "unat rva + n \<le> unat sz" "unat base + unat sz < 2 ^ 32" "base \<noteq> 0"
    "regions_readable vq base (base + rva + word_of_nat n) (base + rva)" "length out = n"
    "fst (rpm (base + rva) n)" "fst (snd (rpm (base + rva) n)) = n"
    "out = map (snd (snd (rpm (base + rva) n))) [0..<n]"
proof -
  have g: "\<not> (base = 0 \<or> sz = 0 \<or> unat sz > max_image_bytes \<or> n = 0 \<or> n > 1024
        \<or> rva > sz \<or> n > unat (sz - rva) \<or> sz > -1 - base)"
    using assms by (auto simp: windows_copy_def split: if_splits)
  then show "0 < n" "n \<le> 1024" "base \<noteq> 0" by auto
  have "unat (sz - rva) = unat sz - unat rva" using g by (intro unat_sub) (simp add: not_less)
  then show "unat rva + n \<le> unat sz" using g by (auto simp: word_less_nat_alt not_less)
  show "unat base + unat sz < 2 ^ 32"
    using g unat_less_32[of base] by (auto simp: word_less_nat_alt not_less unat_minus_one_minus)
  show "regions_readable vq base (base + rva + word_of_nat n) (base + rva)" "length out = n"
    "fst (rpm (base + rva) n)" "fst (snd (rpm (base + rva) n)) = n"
    "out = map (snd (snd (rpm (base + rva) n))) [0..<n]"
    using assms g by (auto simp: windows_copy_def split: if_splits prod.splits)
qed

text \<open>The current process's reader provides the interface the profile gate uses.\<close>

interpretation windows_reader: image_reader "windows_copy vq rpm base sz" "unat sz" for vq rpm base sz
proof
  fix rva n out assume c: "windows_copy vq rpm base sz rva n = Some out"
  show "length out = n" by (rule windows_copy_Some(7)[OF c])
  show "0 < n \<and> unat rva + n \<le> unat sz" using windows_copy_Some(1,3)[OF c] by simp
qed

text \<open>An address is covered by a region of the image that some query returned.\<close>

definition image_covered :: "(u32 \<Rightarrow> region option) \<Rightarrow> u32 \<Rightarrow> nat \<Rightarrow> bool" where
  "image_covered vq base a \<longleftrightarrow> (\<exists>c r. vq c = Some r \<and> region_readable base r
     \<and> unat (base_address r) \<le> unat c \<and> unat c \<le> a \<and> a < unat (base_address r) + unat (region_size r))"

lemma region_advances_iff:
  "region_advances cursor r \<longleftrightarrow> unat (base_address r) \<le> unat cursor
     \<and> unat (base_address r) + unat (region_size r) < 2 ^ 32
     \<and> unat cursor < unat (base_address r) + unat (region_size r)"
proof (cases "region_size r \<le> -1 - base_address r")
  case True
  then have lt: "unat (base_address r) + unat (region_size r) < 2 ^ 32"
    using unat_less_32[of "base_address r"] by (simp add: word_le_nat_alt unat_minus_one_minus)
  then have "unat (base_address r + region_size r) = unat (base_address r) + unat (region_size r)"
    by (simp add: unat_word_ariths)
  then show ?thesis using True lt by (auto simp: region_advances_def word_le_nat_alt word_less_nat_alt)
next
  case False
  then show ?thesis by (auto simp: region_advances_def word_less_nat_alt not_le unat_minus_one_minus)
qed

lemma regions_readable_covered:
  "regions_readable vq base finish cursor \<Longrightarrow> unat cursor \<le> a \<Longrightarrow> a < unat finish \<Longrightarrow> image_covered vq base a"
proof (induction vq base finish cursor rule: regions_readable.induct)
  case (1 vq base finish cursor)
  have lt: "cursor < finish" using "1.prems"(2,3) by (simp add: word_less_nat_alt)
  from "1.prems"(1) lt obtain r where r: "vq cursor = Some r" "region_readable base r" "region_advances cursor r"
    "regions_readable vq base finish (min finish (base_address r + region_size r))"
    by (subst (asm) regions_readable.simps) (auto split: option.splits if_splits)
  have adv: "unat (base_address r) \<le> unat cursor" "unat (base_address r) + unat (region_size r) < 2 ^ 32"
    "unat cursor < unat (base_address r) + unat (region_size r)"
    using r(3) by (simp_all add: region_advances_iff)
  then have sum: "unat (base_address r + region_size r) = unat (base_address r) + unat (region_size r)"
    by (simp add: unat_word_ariths)
  show ?case
  proof (cases "a < unat (base_address r) + unat (region_size r)")
    case True
    then show ?thesis using r(1,2) adv(1) "1.prems"(2) unfolding image_covered_def by blast
  next
    case False
    have "unat (min finish (base_address r + region_size r)) \<le> a"
      using False sum by (auto simp: min_def word_le_nat_alt)
    then show ?thesis using "1.IH"[OF lt r(1) conjI[OF r(2,3)] r(4)] "1.prems"(3) by blast
  qed
qed

section \<open>Properties\<close>

text \<open>
  Claim C15. The reader of the current image hands out bytes only after it has found every
  address of the request inside a committed, readable, unguarded region of that very image:
  the range lies in the image, does not wrap around the address space, and a full buffer of
  what the operating system stored is returned.
\<close>

theorem windows_copy_reads_only_checked_image:
  assumes "windows_copy vq rpm base sz rva n = Some out"
  shows "unat rva + n \<le> unat sz \<and> 0 < n \<and> n \<le> 1024
     \<and> unat base + unat rva + n < 2 ^ 32
     \<and> (\<forall>a \<in> {unat base + unat rva ..< unat base + unat rva + n}. image_covered vq base a)
     \<and> rpm (base + rva) n = (True, n, snd (snd (rpm (base + rva) n)))
     \<and> out = map (snd (snd (rpm (base + rva) n))) [0..<n]"
proof -
  note c = windows_copy_Some[OF assms]
  have s1: "unat (base + rva) = unat base + unat rva"
    using c(3,4) by (simp add: unat_word_ariths)
  have n: "unat (word_of_nat n :: u32) = n" by (rule unat_word_of_nat_32) (use c(2) in simp)
  have s2: "unat (base + rva + word_of_nat n) = unat base + unat rva + n"
    using c(3,4) s1 n by (simp only: unat_word_ariths) simp
  have "image_covered vq base a" if "a \<in> {unat base + unat rva ..< unat base + unat rva + n}" for a
    by (rule regions_readable_covered[OF c(6)]) (use that s1 s2 in auto)
  moreover have "rpm (base + rva) n = (True, n, snd (snd (rpm (base + rva) n)))"
    using c(8,9) by (cases "rpm (base + rva) n") simp
  moreover have "unat base + unat rva + n < 2 ^ 32" using c(3,4) by linarith
  ultimately show ?thesis using c(1,2,3,10) by blast
qed

definition whole_image_region :: region where
  "whole_image_region = \<lparr>base_address = 0x400000, allocation_base = 0x400000, region_size = 0x2000,
     region_state = MEM_COMMIT, region_type = MEM_IMAGE, region_protect = 0x20\<rparr>"

definition reads_zeros :: read_memory where
  "reads_zeros a n = (True, n, \<lambda>_. 0)"

lemma whole_image_readable:
  "regions_readable (\<lambda>_. Some whole_image_region) 0x400000 0x401004 0x401000"
  by (subst regions_readable.simps, simp add: region_readable_def region_advances_def whole_image_region_def
      MEM_COMMIT_def MEM_IMAGE_def PAGE_GUARD_def readable_protections_def,
      subst regions_readable.simps, simp)

lemma windows_copy_zeros:
  "windows_copy (\<lambda>_. Some whole_image_region) reads_zeros 0x400000 0x2000 0x1000 4 = Some [0, 0, 0, 0]"
proof -
  have "map (\<lambda>_. 0 :: u8) [0..<4] = [0, 0, 0, 0]" by (simp add: map_replicate_const numeral_eq_Suc)
  then show ?thesis
    using whole_image_readable by (simp add: windows_copy_def max_image_bytes_def reads_zeros_def)
qed

theorem windows_copy_reads_only_checked_image_witness:
  "windows_copy (\<lambda>_. Some whole_image_region) reads_zeros 0x400000 0x2000 0x1000 4 = Some [0, 0, 0, 0]
   \<and> image_covered (\<lambda>_. Some whole_image_region) 0x400000 0x401002"
  using windows_copy_reads_only_checked_image[OF windows_copy_zeros] windows_copy_zeros by simp

end
