(* ===== verification/Suspended_Image.thy ===== *)
theory Suspended_Image
  imports Launch_Context Windows_Image_Reader
begin

text \<open>
  \<open>suspended_image.hpp/.cpp\<close>: the child process an observer owns. It is created under a debugger and in a job
  that kills it, is held at its first debug event, can be read, and is killed before the held event is ever released.

  The operating system is a record of answers. What it may answer differently on every call is indexed by the number
  of calls of that kind so far, which the state counts. Handles are numbers, 0 is the null handle. The
  state also keeps the list of the calls that open or close a handle, kill the child or let it run; the
  theorems are about that list.
\<close>

definition observer_exit_code :: u32 where "observer_exit_code = 0x53414558"
definition timeout_ms :: u64 where "timeout_ms = 5000"

definition EXCEPTION_DEBUG_EVENT :: u32 where "EXCEPTION_DEBUG_EVENT = 1"
definition CREATE_PROCESS_DEBUG_EVENT :: u32 where "CREATE_PROCESS_DEBUG_EVENT = 3"
definition EXIT_PROCESS_DEBUG_EVENT :: u32 where "EXIT_PROCESS_DEBUG_EVENT = 5"
definition LOAD_DLL_DEBUG_EVENT :: u32 where "LOAD_DLL_DEBUG_EVENT = 6"
definition DBG_CONTINUE :: u32 where "DBG_CONTINUE = 0x10002"
definition DBG_EXCEPTION_NOT_HANDLED :: u32 where "DBG_EXCEPTION_NOT_HANDLED = 0x80010001"

record debug_event =
  event_process :: u32
  event_thread :: u32
  event_code :: u32
  event_file :: nat
  event_image :: u32
  event_exception :: u32
  event_address :: u32
  event_first_chance :: bool

datatype wait_answer = Timed_out | Wait_failed | Delivered debug_event

text \<open>What the log of a child records: the exit code of a kill and whether it succeeded, the released event.\<close>

datatype os_call =
    Opened nat
  | Closed nat
  | Terminate_process u32 bool
  | Terminate_job u32 bool
  | Continue_event u32 u32 u32 bool

record observer_api =
  full_path :: "wide \<Rightarrow> wide"
  create_job :: nat
  limit_job :: bool
  create_process :: "wide \<Rightarrow> wide \<Rightarrow> wide option \<Rightarrow> wide option \<Rightarrow> (nat \<times> nat \<times> u32) option"
  assign_job :: bool
  last_error :: u32
  clock :: "nat \<Rightarrow> u64"
  wait_event :: "nat \<Rightarrow> u32 \<Rightarrow> wait_answer"
  continue_event :: "nat \<Rightarrow> bool"
  kill_process :: "nat \<Rightarrow> bool"
  kill_job :: "nat \<Rightarrow> bool"
  wait_exit :: "nat \<Rightarrow> u32 \<Rightarrow> bool"
  handle_identity :: "nat \<Rightarrow> (u64 \<times> bytes) option"
  query_region :: "u32 \<Rightarrow> region option"
  read_process :: read_memory

record suspended =
  child_error :: string
  child_system_error :: u32
  child_job :: nat
  child_process :: nat
  child_thread :: nat
  child_image_file :: nat
  child_owner_thread :: u32
  child_process_id :: u32
  child_pending_thread :: u32
  child_base :: u32
  child_image_bytes :: nat
  child_pending :: bool
  child_kill_requested :: bool
  child_exit_seen :: bool
  child_stopped :: bool
  child_loader_started :: bool
  child_clocks :: nat
  child_waits :: nat
  child_continues :: nat
  child_kills :: nat
  child_exit_waits :: nat
  child_calls :: "os_call list"

definition child_created :: "suspended \<Rightarrow> bool" where
  "child_created s \<longleftrightarrow> child_process s \<noteq> 0"

section \<open>Single calls\<close>

definition log_calls :: "os_call list \<Rightarrow> suspended \<Rightarrow> suspended" where
  "log_calls cs s = s\<lparr>child_calls := child_calls s @ cs\<rparr>"

definition opens :: "nat \<Rightarrow> os_call list" where
  "opens h = (if h = 0 then [] else [Opened h])"

definition closes :: "nat \<Rightarrow> os_call list" where
  "closes h = (if h = 0 then [] else [Closed h])"

definition event_has_file :: "debug_event \<Rightarrow> bool" where
  "event_has_file e \<longleftrightarrow> event_code e = CREATE_PROCESS_DEBUG_EVENT \<or> event_code e = LOAD_DLL_DEBUG_EVENT"

text \<open>Closes the file handle the event carries; the one of the first event is kept as the image file instead.\<close>

definition close_event_file :: "debug_event \<Rightarrow> suspended \<Rightarrow> suspended" where
  "close_event_file e s = (if event_has_file e then log_calls (closes (event_file e)) s else s)"

definition close_image_file :: "suspended \<Rightarrow> suspended" where
  "close_image_file s = log_calls (closes (child_image_file s)) s\<lparr>child_image_file := 0\<rparr>"

definition close_job :: "suspended \<Rightarrow> suspended" where
  "close_job s = log_calls (closes (child_job s)) s\<lparr>child_job := 0\<rparr>"

definition close_thread :: "suspended \<Rightarrow> suspended" where
  "close_thread s = log_calls (closes (child_thread s)) s\<lparr>child_thread := 0\<rparr>"

definition close_process :: "suspended \<Rightarrow> suspended" where
  "close_process s = log_calls (closes (child_process s)) s\<lparr>child_process := 0\<rparr>"

definition read_clock :: "observer_api \<Rightarrow> suspended \<Rightarrow> u64 \<times> suspended" where
  "read_clock os s = (clock os (child_clocks s), s\<lparr>child_clocks := child_clocks s + 1\<rparr>)"

text \<open>A delivered event hands its file handle to the debugger.\<close>

definition wait_debug_event :: "observer_api \<Rightarrow> u32 \<Rightarrow> suspended \<Rightarrow> wait_answer \<times> suspended" where
  "wait_debug_event os timeout s = (let answer = wait_event os (child_waits s) timeout in
     (answer, log_calls (case answer of Delivered e \<Rightarrow> if event_has_file e then opens (event_file e) else [] | _ \<Rightarrow> [])
        (s\<lparr>child_waits := child_waits s + 1\<rparr>)))"

definition continue_debug_event :: "observer_api \<Rightarrow> u32 \<Rightarrow> suspended \<Rightarrow> bool \<times> suspended" where
  "continue_debug_event os status s = (let ok = continue_event os (child_continues s) in
     (ok, log_calls [Continue_event (child_process_id s) (child_pending_thread s) status ok] (s\<lparr>child_continues := child_continues s + 1\<rparr>)))"

section \<open>Construction\<close>

definition fresh_child :: "u32 \<Rightarrow> nat \<Rightarrow> suspended" where
  "fresh_child me n = \<lparr>child_error = [], child_system_error = 0, child_job = 0, child_process = 0, child_thread = 0,
     child_image_file = 0, child_owner_thread = me, child_process_id = 0, child_pending_thread = 0, child_base = 0,
     child_image_bytes = n, child_pending = False, child_kill_requested = False, child_exit_seen = False,
     child_stopped = False, child_loader_started = False, child_clocks = 0, child_waits = 0, child_continues = 0, child_kills = 0,
     child_exit_waits = 0, child_calls = []\<rparr>"

definition rejected :: "string \<Rightarrow> suspended \<Rightarrow> suspended" where
  "rejected reason s = s\<lparr>child_error := reason\<rparr>"

definition failed :: "observer_api \<Rightarrow> string \<Rightarrow> suspended \<Rightarrow> suspended" where
  "failed os reason s = s\<lparr>child_error := reason, child_system_error := last_error os\<rparr>"

text \<open>The first debug event: it must be the creation of this very process, and its image must be described.\<close>

definition take_first_event :: "nat \<Rightarrow> debug_event \<Rightarrow> suspended \<Rightarrow> suspended" where
  "take_first_event n e s =
    (if event_process e \<noteq> child_process_id s then rejected ''observer_event_identity'' (close_event_file e s)
     else let s1 = s\<lparr>child_pending := True, child_pending_thread := event_thread e,
                     child_exit_seen := (event_code e = EXIT_PROCESS_DEBUG_EVENT)\<rparr> in
       if event_code e \<noteq> CREATE_PROCESS_DEBUG_EVENT then rejected ''observer_first_event'' (close_event_file e s1)
       else let s2 = s1\<lparr>child_image_file := event_file e, child_base := event_image e\<rparr> in
         if child_image_file s2 = 0 \<or> child_base s2 = 0 \<or> n > unat (- 1 - child_base s2)
         then rejected ''observer_image_metadata'' s2 else s2)"

definition start_child :: "observer_api \<Rightarrow> nat \<Rightarrow> wide \<Rightarrow> launch_context option \<Rightarrow> suspended \<Rightarrow> suspended" where
  "start_child os n path context s =
    (let command = [0x22] @ takeWhile (\<lambda>c. c \<noteq> 0) path @ [0x22] in
     if create_job os = 0 then failed os ''observer_job_failed'' s
     else let s1 = log_calls (opens (create_job os)) (s\<lparr>child_job := create_job os\<rparr>) in
       if \<not> limit_job os then failed os ''observer_job_limits_failed'' s1
       else (case create_process os path command (map_option environment context) (map_option directory context) of
          None \<Rightarrow> failed os ''observer_create_failed'' s1
        | Some (process, thread, pid) \<Rightarrow>
          let s2 = log_calls (opens process @ opens thread)
                (s1\<lparr>child_process := process, child_thread := thread, child_process_id := pid\<rparr>) in
          if \<not> assign_job os then failed os ''observer_job_assign_failed'' s2
          else (case wait_debug_event os (ucast timeout_ms) s2 of
               (Delivered e, s3) \<Rightarrow> take_first_event n e s3
             | (_, s3) \<Rightarrow> failed os ''observer_create_event_timeout'' s3)))"

text \<open>\<open>context\<close> is the pointer to a launch context, whose preparation may have failed.\<close>

definition create_suspended ::
  "observer_api \<Rightarrow> launch_api \<Rightarrow> u32 \<Rightarrow> wide \<Rightarrow> nat \<Rightarrow> (string + launch_context) option \<Rightarrow> suspended" where
  "create_suspended os la me executable n context =
    (let s = fresh_child me n in
     if executable = [] \<or> n = 0 \<or> n > max_image_bytes then rejected ''invalid_observer_input'' s
     else if (case context of Some (Inl _) \<Rightarrow> True | _ \<Rightarrow> False) then rejected ''observer_invalid_context'' s
     else if (case context of Some (Inr c) \<Rightarrow> \<not> directory_matches la c | _ \<Rightarrow> False) then rejected ''observer_context_directory_changed'' s
     else let path = full_path os executable in
       if path = [] \<or> length path > 32764 then failed os ''observer_path_failed'' s
       else start_child os n path (case context of Some (Inr c) \<Rightarrow> Some c | _ \<Rightarrow> None) s)"

section \<open>Reading\<close>

definition child_readable :: "u32 \<Rightarrow> suspended \<Rightarrow> bool" where
  "child_readable me s \<longleftrightarrow> child_error s = [] \<and> child_pending s \<and> \<not> child_kill_requested s \<and> me = child_owner_thread s"

definition child_same_file :: "observer_api \<Rightarrow> u32 \<Rightarrow> suspended \<Rightarrow> nat \<Rightarrow> bool" where
  "child_same_file os me s verified =
    (if \<not> child_readable me s \<or> verified = 0 then False
     else case (handle_identity os verified, handle_identity os (child_image_file s)) of
         (Some (v, i), Some (v', i')) \<Rightarrow> v = v' \<and> i = i'
       | _ \<Rightarrow> False)"

definition child_copy :: "observer_api \<Rightarrow> u32 \<Rightarrow> suspended \<Rightarrow> u32 \<Rightarrow> nat \<Rightarrow> bytes option" where
  "child_copy os me s rva n =
    (if \<not> child_readable me s \<or> n = 0 \<or> n > 1024 \<or> unat rva > child_image_bytes s \<or> n > child_image_bytes s - unat rva then None
     else let b = child_base s in
       if \<not> regions_readable (query_region os) b (b + rva + word_of_nat n) (b + rva) then None
       else case read_process os (b + rva) n of (ok, copied, buffer) \<Rightarrow>
         if ok \<and> copied = n then Some (map buffer [0..<n]) else None)"

text \<open>A held child provides the interface the profile gate reads through.\<close>

interpretation child_reader: image_reader "child_copy os me s" "child_image_bytes s" for os me s
  by unfold_locales (auto simp: child_copy_def Let_def split: if_splits prod.splits)

section \<open>Stopping\<close>

text \<open>
  The loop that drains the events of the killed child. It gives up at the deadline and after 64 events;
  a wait that times out is repeated and not counted, so it ends because the clock advances.
\<close>

partial_function (option) drain_events :: "observer_api \<Rightarrow> u64 \<Rightarrow> nat \<Rightarrow> suspended \<Rightarrow> (bool \<times> suspended) option" where
  "drain_events os deadline events s =
    (if child_exit_seen s \<or> \<not> events < 64 then Some (True, s)
     else case read_clock os s of (now, s1) \<Rightarrow>
       if now \<ge> deadline then Some (True, s1)
       else (case wait_debug_event os (ucast (min 250 (deadline - now))) s1 of
           (Timed_out, s2) \<Rightarrow> drain_events os deadline events s2
         | (Wait_failed, s2) \<Rightarrow> Some (False, s2)
         | (Delivered e, s2) \<Rightarrow>
           let s3 = close_event_file e s2 in
           if event_process e \<noteq> child_process_id s3 then Some (False, s3)
           else let s4 = s3\<lparr>child_exit_seen := (event_code e = EXIT_PROCESS_DEBUG_EVENT), child_pending := True,
                            child_pending_thread := event_thread e\<rparr> in
             (case continue_debug_event os (if event_code e = EXCEPTION_DEBUG_EVENT then DBG_EXCEPTION_NOT_HANDLED else DBG_CONTINUE) s4 of
                (ok, s5) \<Rightarrow> if \<not> ok then Some (False, s5)
                  else drain_events os deadline (events + 1) (s5\<lparr>child_pending := False\<rparr>))))"

text \<open>The kill: the process, and the job when that fails. A kill that was accepted before is not repeated.\<close>

definition request_kill :: "observer_api \<Rightarrow> suspended \<Rightarrow> suspended" where
  "request_kill os s =
    (if child_kill_requested s then s
     else let ok = kill_process os (child_kills s);
              s1 = log_calls [Terminate_process observer_exit_code ok] (s\<lparr>child_kill_requested := ok\<rparr>) in
       if ok then s1\<lparr>child_kills := child_kills s + 1\<rparr>
       else let ok' = kill_job os (child_kills s) in
         log_calls [Terminate_job observer_exit_code ok'] (s1\<lparr>child_kill_requested := ok', child_kills := child_kills s + 1\<rparr>))"

text \<open>The wait for the end of the process, with what is left of the time.\<close>

definition confirm_exit :: "observer_api \<Rightarrow> u64 \<Rightarrow> suspended \<Rightarrow> bool \<times> suspended" where
  "confirm_exit os deadline s =
    (if \<not> child_exit_seen s then (False, s)
     else case read_clock os s of (now, s1) \<Rightarrow>
       let remaining = (if now < deadline then ucast (deadline - now) else 0);
           ok = wait_exit os (child_exit_waits s1) remaining in
       (ok, s1\<lparr>child_exit_waits := child_exit_waits s1 + 1, child_stopped := ok\<rparr>))"

text \<open>The held event is released only when there is one.\<close>

definition release_pending :: "observer_api \<Rightarrow> suspended \<Rightarrow> bool \<times> suspended" where
  "release_pending os s =
    (if child_pending s
     then (case continue_debug_event os DBG_CONTINUE s of (ok, s1) \<Rightarrow> if ok then (True, s1\<lparr>child_pending := False\<rparr>) else (False, s1))
     else (True, s))"

definition stop_child :: "observer_api \<Rightarrow> u32 \<Rightarrow> suspended \<Rightarrow> (bool \<times> suspended) option" where
  "stop_child os me s =
    (if child_process s = 0 \<or> child_stopped s then Some (True, s)
     else if me \<noteq> child_owner_thread s then Some (False, s)
     else case read_clock os s of (start, s1) \<Rightarrow>
       let deadline = start + timeout_ms; s2 = request_kill os s1 in
       if \<not> child_kill_requested s2 then Some (False, s2)
       else case release_pending os (close_image_file s2) of (ok, s3) \<Rightarrow>
         if \<not> ok then Some (False, s3)
         else (case drain_events os deadline 0 s3 of
             None \<Rightarrow> None
           | Some (False, s4) \<Rightarrow> Some (False, s4)
           | Some (True, s4) \<Rightarrow> Some (confirm_exit os deadline s4)))"

definition destroy_child :: "observer_api \<Rightarrow> u32 \<Rightarrow> suspended \<Rightarrow> suspended option" where
  "destroy_child os me s =
    (case stop_child os me s of None \<Rightarrow> None
     | Some (_, s1) \<Rightarrow> Some (close_process (close_thread (close_job (close_image_file s1)))))"

text \<open>A whole life: construction, explicit stops by the threads given, destruction. Reads change nothing.\<close>

fun stop_each :: "observer_api \<Rightarrow> u32 list \<Rightarrow> suspended \<Rightarrow> suspended option" where
  "stop_each os [] s = Some s"
| "stop_each os (me # rest) s = (case stop_child os me s of None \<Rightarrow> None | Some (_, s1) \<Rightarrow> stop_each os rest s1)"

definition child_lifetime ::
  "observer_api \<Rightarrow> launch_api \<Rightarrow> u32 \<Rightarrow> wide \<Rightarrow> nat \<Rightarrow> (string + launch_context) option \<Rightarrow> u32 list \<Rightarrow> u32 \<Rightarrow> suspended option" where
  "child_lifetime os la me executable n context stoppers destroyer =
    (case stop_each os stoppers (create_suspended os la me executable n context) of None \<Rightarrow> None
     | Some s \<Rightarrow> destroy_child os destroyer s)"


section \<open>What the log of calls says\<close>

fun opened_handles :: "os_call list \<Rightarrow> nat multiset" where
  "opened_handles [] = {#}"
| "opened_handles (Opened h # cs) = add_mset h (opened_handles cs)"
| "opened_handles (_ # cs) = opened_handles cs"

fun closed_handles :: "os_call list \<Rightarrow> nat multiset" where
  "closed_handles [] = {#}"
| "closed_handles (Closed h # cs) = add_mset h (closed_handles cs)"
| "closed_handles (_ # cs) = closed_handles cs"

fun killed :: "os_call list \<Rightarrow> bool" where
  "killed [] \<longleftrightarrow> False"
| "killed (Terminate_process code ok # cs) \<longleftrightarrow> ok \<or> killed cs"
| "killed (Terminate_job code ok # cs) \<longleftrightarrow> ok \<or> killed cs"
| "killed (_ # cs) \<longleftrightarrow> killed cs"

text \<open>Every release is one of process \<open>pid\<close> and comes after a kill that succeeded (before the list when \<open>dead\<close>).\<close>

fun kill_before_release :: "u32 \<Rightarrow> bool \<Rightarrow> os_call list \<Rightarrow> bool" where
  "kill_before_release pid dead [] \<longleftrightarrow> True"
| "kill_before_release pid dead (Continue_event p t status ok # cs) \<longleftrightarrow> p = pid \<and> dead \<and> kill_before_release pid dead cs"
| "kill_before_release pid dead (Terminate_process code ok # cs) \<longleftrightarrow> kill_before_release pid (dead \<or> ok) cs"
| "kill_before_release pid dead (Terminate_job code ok # cs) \<longleftrightarrow> kill_before_release pid (dead \<or> ok) cs"
| "kill_before_release pid dead (_ # cs) \<longleftrightarrow> kill_before_release pid dead cs"

lemma handles_append [simp]:
  "opened_handles (xs @ ys) = opened_handles xs + opened_handles ys"
  "closed_handles (xs @ ys) = closed_handles xs + closed_handles ys"
  by (induction xs rule: opened_handles.induct) simp_all

lemma killed_append [simp]: "killed (xs @ ys) \<longleftrightarrow> killed xs \<or> killed ys"
  by (induction xs rule: killed.induct) auto

lemma kill_before_release_append [simp]:
  "kill_before_release pid dead (xs @ ys) \<longleftrightarrow> kill_before_release pid dead xs \<and> kill_before_release pid (dead \<or> killed xs) ys"
  by (induction pid dead xs rule: kill_before_release.induct) (auto simp: disj_assoc)

lemma log_simps [simp]:
  "opened_handles (opens h) = mset (filter ((\<noteq>) 0) [h])" "closed_handles (opens h) = {#}"
  "opened_handles (closes h) = {#}" "closed_handles (closes h) = mset (filter ((\<noteq>) 0) [h])"
  "\<not> killed (opens h)" "\<not> killed (closes h)"
  "kill_before_release pid dead (opens h)" "kill_before_release pid dead (closes h)"
  by (simp_all add: opens_def closes_def)

definition held_handles :: "suspended \<Rightarrow> nat multiset" where
  "held_handles s = mset (filter ((\<noteq>) 0) [child_job s, child_process s, child_thread s, child_image_file s])"

lemma held_handles_simps [simp]:
  "held_handles (s\<lparr>child_calls := cs\<rparr>) = held_handles s"
  "held_handles (s\<lparr>child_clocks := n\<rparr>) = held_handles s"
  "held_handles (s\<lparr>child_waits := n\<rparr>) = held_handles s"
  "held_handles (s\<lparr>child_continues := n\<rparr>) = held_handles s"
  "held_handles (s\<lparr>child_kills := n\<rparr>) = held_handles s"
  "held_handles (s\<lparr>child_exit_waits := n\<rparr>) = held_handles s"
  "held_handles (s\<lparr>child_pending := p\<rparr>) = held_handles s"
  "held_handles (s\<lparr>child_pending_thread := t\<rparr>) = held_handles s"
  "held_handles (s\<lparr>child_exit_seen := p\<rparr>) = held_handles s"
  "held_handles (s\<lparr>child_stopped := p\<rparr>) = held_handles s"
  "held_handles (s\<lparr>child_kill_requested := p\<rparr>) = held_handles s"
  "held_handles (s\<lparr>child_base := b\<rparr>) = held_handles s"
  "held_handles (s\<lparr>child_error := r\<rparr>) = held_handles s"
  "held_handles (s\<lparr>child_system_error := d\<rparr>) = held_handles s"
  by (simp_all add: held_handles_def)

text \<open>
  The invariant: the handles opened are those closed and those held, a requested kill has succeeded,
  and no process but this child was released, before the kill only if \<open>free\<close>, that is, if a loader run let it go on.
\<close>

definition account :: "bool \<Rightarrow> suspended \<Rightarrow> bool" where
  "account free s \<longleftrightarrow> opened_handles (child_calls s) = closed_handles (child_calls s) + held_handles s
     \<and> (child_kill_requested s \<longrightarrow> killed (child_calls s)) \<and> kill_before_release (child_process_id s) free (child_calls s)"

abbreviation accounted :: "suspended \<Rightarrow> bool" where
  "accounted \<equiv> account False"

lemmas call_defs = log_calls_def close_image_file_def close_job_def close_thread_def close_process_def read_clock_def
  wait_debug_event_def continue_debug_event_def close_event_file_def

lemma accounted_close [simp]:
  assumes "account free s"
  shows "account free (close_image_file s)" "account free (close_job s)" "account free (close_thread s)" "account free (close_process s)"
  using assms by (simp_all add: account_def call_defs held_handles_def)

lemma accounted_read_clock: "read_clock os s = (now, s') \<Longrightarrow> account free s' = account free s \<and> child_kill_requested s' = child_kill_requested s"
  by (auto simp: call_defs account_def)

text \<open>Waiting and closing the file of the event leaves the account as it was.\<close>

lemma accounted_wait:
  "wait_debug_event os timeout s = (answer, s') \<Longrightarrow> account free s \<Longrightarrow>
     child_kill_requested s' = child_kill_requested s
     \<and> (case answer of Delivered e \<Rightarrow> account free (close_event_file e s') | _ \<Rightarrow> account free s')"
  by (auto simp: call_defs account_def Let_def split: wait_answer.splits)

lemma accounted_continue:
  "continue_debug_event os status s = (ok, s') \<Longrightarrow> account free s \<Longrightarrow> child_kill_requested s \<Longrightarrow>
     account free s' \<and> child_kill_requested s'"
  by (auto simp: call_defs account_def Let_def)

lemma accounted_flags [simp]:
  "account free (s\<lparr>child_pending := p\<rparr>) = account free s"
  "account free (s\<lparr>child_pending_thread := t\<rparr>) = account free s"
  "account free (s\<lparr>child_exit_seen := x\<rparr>) = account free s"
  "account free (s\<lparr>child_stopped := x\<rparr>) = account free s"
  "account free (s\<lparr>child_exit_waits := w\<rparr>) = account free s"
  "account free (s\<lparr>child_base := b\<rparr>) = account free s"
  "account free (s\<lparr>child_error := r\<rparr>) = account free s"
  "account free (s\<lparr>child_system_error := d\<rparr>) = account free s"
  by (simp_all add: account_def)


text \<open>Construction: every way out of the constructor leaves the handles account free for.\<close>

lemma accounted_fresh: "account free (fresh_child me n)"
  by (simp add: account_def fresh_child_def held_handles_def)

lemma accounted_rejected [simp]: "account free (rejected reason s) = account free s" "account free (failed os reason s) = account free s"
  by (simp_all add: rejected_def failed_def)

lemma accounted_take_first_event:
  assumes "account free (close_event_file e s)" "child_image_file s = 0" "\<not> child_kill_requested s"
  shows "account free (take_first_event n e s)"
proof (cases "event_code e = CREATE_PROCESS_DEBUG_EVENT")
  case True
  have held: "held_handles (s\<lparr>child_image_file := h\<rparr>) = held_handles s + mset (filter ((\<noteq>) 0) [h])" for h
    using assms(2) by (simp add: held_handles_def)
  have "account free (s\<lparr>child_image_file := event_file e\<rparr>)"
    using assms(1,3) True by (simp add: account_def close_event_file_def event_has_file_def log_calls_def held add.assoc)
  then have "account free (s\<lparr>child_pending := p, child_pending_thread := t, child_exit_seen := x, child_image_file := event_file e,
      child_base := b\<rparr>)" for p t x b
    by (simp add: account_def held_handles_def)
  then show ?thesis using assms(1) True by (simp add: take_first_event_def Let_def)
next
  case False
  moreover have "close_event_file e (s\<lparr>child_pending := p, child_pending_thread := t, child_exit_seen := x\<rparr>)
      = close_event_file e s\<lparr>child_pending := p, child_pending_thread := t, child_exit_seen := x\<rparr>" for p t x
    by (simp add: call_defs)
  ultimately show ?thesis using assms(1) by (simp add: take_first_event_def Let_def)
qed

lemma accounted_start_child: "account free (start_child os n path context (fresh_child me n))"
proof -
  let ?s1 = "log_calls (opens (create_job os)) (fresh_child me n\<lparr>child_job := create_job os\<rparr>)"
  have s1: "account free ?s1" by (simp add: account_def fresh_child_def held_handles_def log_calls_def)
  let ?s2 = "\<lambda>process thread pid. log_calls (opens process @ opens thread)
      (?s1\<lparr>child_process := process, child_thread := thread, child_process_id := pid\<rparr>)"
  have s2: "account free (?s2 process thread pid)" for process thread pid
    by (simp add: account_def fresh_child_def held_handles_def log_calls_def)
  have s3: "account free (take_first_event n e s3)"
    if "wait_debug_event os t (?s2 process thread pid) = (Delivered e, s3)" for process thread pid t e s3
  proof (rule accounted_take_first_event)
    show "account free (close_event_file e s3)" using accounted_wait[OF that s2] by simp
  qed (use that in \<open>auto simp: call_defs fresh_child_def Let_def\<close>)
  have s3': "account free s3"
    if "wait_debug_event os t (?s2 process thread pid) = (a, s3)" "\<forall>e. a \<noteq> Delivered e" for process thread pid t a s3
    using accounted_wait[OF that(1) s2] that(2) by (cases a) auto
  show ?thesis unfolding start_child_def Let_def
    using s1 s2 s3 s3' accounted_fresh by (auto split: option.splits prod.splits wait_answer.splits)
qed

lemma accounted_create: "account free (create_suspended os la me executable n context)"
  using accounted_fresh accounted_start_child by (simp add: create_suspended_def Let_def)

lemma accounted_request_kill:
  "account free s \<Longrightarrow> account free (request_kill os s)"
  by (simp add: request_kill_def account_def log_calls_def Let_def)

lemma accounted_release_pending:
  "release_pending os s = (ok, s') \<Longrightarrow> account free s \<Longrightarrow> child_kill_requested s \<Longrightarrow> account free s' \<and> child_kill_requested s'"
  by (auto simp: release_pending_def split: if_splits prod.splits dest: accounted_continue)


text \<open>One round of the drain, split into what it answers.\<close>

lemma accounted_drain:
  assumes "drain_events os deadline events s = Some r"
  shows "account free s \<longrightarrow> child_kill_requested s \<longrightarrow> account free (snd r)"
proof (rule drain_events.raw_induct[where P = "\<lambda>os deadline events s r. account free s \<longrightarrow> child_kill_requested s \<longrightarrow> account free (snd r)",
      OF _ assms], goal_cases)
  case (1 recurse os deadline events s r)
  show ?case
  proof (intro impI)
    assume a: "account free s" and k: "child_kill_requested s"
    obtain now s1 where clock: "read_clock os s = (now, s1)" by fastforce
    note c = accounted_read_clock[OF clock]
    obtain answer s2 where wait: "wait_debug_event os (ucast (min 250 (deadline - now))) s1 = (answer, s2)" by fastforce
    have w: "child_kill_requested s2" "case answer of Delivered e \<Rightarrow> account free (close_event_file e s2) | _ \<Rightarrow> account free s2"
      using accounted_wait[OF wait] a k c by auto
    show "account free (snd r)"
    proof (cases "child_exit_seen s \<or> \<not> events < 64 \<or> now \<ge> deadline")
      case True
      then show ?thesis using 1(2) a c clock by (auto split: if_splits)
    next
      case False
      note r = 1(2)[simplified clock wait prod.case Let_def] False
      show ?thesis
      proof (cases answer)
        case Timed_out
        then have "recurse os deadline events s2 = Some r" using r by simp
        from 1(1)[OF this] show ?thesis using Timed_out w by simp
      next
        case Wait_failed
        then show ?thesis using r w by auto
      next
        case (Delivered e)
        let ?s4 = "close_event_file e s2\<lparr>child_exit_seen := (event_code e = EXIT_PROCESS_DEBUG_EVENT), child_pending := True,
            child_pending_thread := event_thread e\<rparr>"
        let ?status = "if event_code e = EXCEPTION_DEBUG_EVENT then DBG_EXCEPTION_NOT_HANDLED else DBG_CONTINUE"
        have s4: "account free ?s4" "child_kill_requested ?s4" using w Delivered by (auto simp: close_event_file_def log_calls_def)
        obtain ok s5 where go: "continue_debug_event os ?status ?s4 = (ok, s5)" by fastforce
        have "account free s5" "child_kill_requested s5" using accounted_continue[OF go s4] by auto
        moreover have "r = (False, close_event_file e s2) \<or> r = (False, s5)
            \<or> recurse os deadline (events + 1) (s5\<lparr>child_pending := False\<rparr>) = Some r"
          using r Delivered go by (auto split: if_splits)
        ultimately show ?thesis using w Delivered 1(1) by fastforce
      qed
    qed
  qed
qed

text \<open>The loop returns: every round reads the clock, which reaches the deadline.\<close>

lemma drain_events_returns:
  "child_clocks s \<le> j \<Longrightarrow> deadline \<le> clock os j \<Longrightarrow> \<exists>r. drain_events os deadline events s = Some r"
proof (induction "j - child_clocks s" arbitrary: s events rule: less_induct)
  case less
  obtain now s1 where clock: "read_clock os s = (now, s1)" by fastforce
  then have s1: "child_clocks s1 = child_clocks s + 1" "now = clock os (child_clocks s)" by (auto simp: read_clock_def)
  show ?case
  proof (cases "child_exit_seen s \<or> \<not> events < 64 \<or> now \<ge> deadline")
    case True
    then show ?thesis using clock by (subst drain_events.simps) auto
  next
    case False
    then have "child_clocks s \<noteq> j" using less.prems(2) s1(2) by auto
    then have again: "\<exists>r. drain_events os deadline n t = Some r" if "child_clocks t = child_clocks s1" for n t
      using less.hyps[of t n] less.prems s1(1) that by simp
    obtain answer s2 where wait: "wait_debug_event os (ucast (min 250 (deadline - now))) s1 = (answer, s2)" by fastforce
    then have s2: "child_clocks s2 = child_clocks s1" by (auto simp: wait_debug_event_def log_calls_def Let_def)
    show ?thesis using False clock wait s2 again
      by (subst drain_events.simps)
        (auto simp: Let_def close_event_file_def log_calls_def continue_debug_event_def split: wait_answer.splits)
  qed
qed

lemma stop_child_returns:
  assumes "\<forall>i. \<exists>j>i. clock os i + timeout_ms \<le> clock os j"
  shows "\<exists>r. stop_child os me s = Some r"
proof -
  obtain j where j: "child_clocks s < j" "clock os (child_clocks s) + timeout_ms \<le> clock os j" using assms by blast
  let ?s1 = "s\<lparr>child_clocks := child_clocks s + 1\<rparr>"
  obtain released s3 where release: "release_pending os (close_image_file (request_kill os ?s1)) = (released, s3)" by fastforce
  then have "child_clocks s3 = child_clocks s + 1"
    by (auto simp: release_pending_def request_kill_def call_defs Let_def split: if_splits)
  then have "\<exists>r. drain_events os (clock os (child_clocks s) + timeout_ms) 0 s3 = Some r"
    using drain_events_returns[of s3 j] j by simp
  then show ?thesis using release by (auto simp: stop_child_def read_clock_def Let_def split: bool.splits)
qed

lemma accounted_stop:
  assumes "stop_child os me s = Some (ok, s')" and "account free s"
  shows "account free s'"
proof (cases "child_process s = 0 \<or> child_stopped s \<or> me \<noteq> child_owner_thread s")
  case True
  then show ?thesis using assms by (auto simp: stop_child_def split: if_splits)
next
  case False
  obtain start s1 where clock: "read_clock os s = (start, s1)" by fastforce
  let ?s2 = "request_kill os s1"
  have s2: "account free ?s2" using accounted_read_clock[OF clock] accounted_request_kill assms(2) by simp
  obtain released s3 where release: "release_pending os (close_image_file ?s2) = (released, s3)" by fastforce
  have s3: "account free s3" "child_kill_requested s3" if "child_kill_requested ?s2"
    using accounted_release_pending[OF release accounted_close(1)[OF s2]] that by (simp_all add: close_image_file_def log_calls_def)
  have "account free s4" if "child_kill_requested ?s2" "drain_events os d 0 s3 = Some (b, s4)" for d b s4
    using accounted_drain[OF that(2)] s3[OF that(1)] by simp
  moreover have "account free (snd (confirm_exit os d s4))" if "account free s4" for d s4
    using that accounted_read_clock by (auto simp: confirm_exit_def Let_def split: prod.splits)
  ultimately show ?thesis using assms(1) False clock release s2 s3(1)
    by (auto simp: stop_child_def Let_def split: if_splits option.splits bool.splits) (metis snd_conv)+
qed

lemma accounted_stop_each: "stop_each os ms s = Some s' \<Longrightarrow> account free s \<Longrightarrow> account free s'"
  by (induction ms arbitrary: s) (auto split: option.splits dest: accounted_stop)

lemma stop_each_returns:
  assumes "\<forall>i. \<exists>j>i. clock os i + timeout_ms \<le> clock os j"
  shows "\<exists>s'. stop_each os ms s = Some s'"
proof (induction ms arbitrary: s)
  case (Cons me ms)
  then show ?case using stop_child_returns[OF assms, of me s] by auto
qed simp

lemma kill_before_release_at:
  "kill_before_release pid dead (before @ Continue_event p t status ok # after) \<Longrightarrow> p = pid \<and> (dead \<or> killed before)"
  by simp

lemma destroyed_holds_nothing:
  "held_handles (close_process (close_thread (close_job (close_image_file s)))) = {#}"
  by (simp add: held_handles_def call_defs)

text \<open>
  Claim C39. The life of an owned child ends: provided the clock advances by the time limit again and again, the
  constructor, any explicit stops by any threads, and the destructor all return. Then every handle the operating system
  handed out (job, process, threads, image file, the file of every debug event) has been closed, each exactly as often as it was
  opened, on every error path of the constructor and of \<open>stop\<close>; and the debuggee was only ever let run (by releasing
  a debug event) as the process this object created, and after a kill of it or of its job had succeeded.
\<close>

theorem suspended_image_lifetime:
  assumes "\<forall>i. \<exists>j>i. clock os i + timeout_ms \<le> clock os j"
  shows "\<exists>s. child_lifetime os la me executable n context stoppers destroyer = Some s
     \<and> opened_handles (child_calls s) = closed_handles (child_calls s)
     \<and> (\<forall>before p t status ok after. child_calls s = before @ Continue_event p t status ok # after \<longrightarrow>
          p = child_process_id s \<and> killed before)"
proof -
  let ?s0 = "create_suspended os la me executable n context"
  obtain s1 where s1: "stop_each os stoppers ?s0 = Some s1" using stop_each_returns[OF assms] by blast
  obtain ok s2 where s2: "stop_child os destroyer s1 = Some (ok, s2)" using stop_child_returns[OF assms] by fastforce
  let ?s = "close_process (close_thread (close_job (close_image_file s2)))"
  have "accounted ?s" using accounted_stop[OF s2] accounted_stop_each[OF s1] accounted_create by simp
  moreover have "child_lifetime os la me executable n context stoppers destroyer = Some ?s"
    using s1 s2 by (simp add: child_lifetime_def destroy_child_def)
  ultimately show ?thesis
    using destroyed_holds_nothing[of s2] kill_before_release_at[where dead = False] by (auto simp: account_def)
qed


text \<open>A child that loads one module and ends after its kill; the clock advances by a second per reading.\<close>

definition demo_debug_event :: "u32 \<Rightarrow> nat \<Rightarrow> debug_event" where
  "demo_debug_event code f = \<lparr>event_process = 9, event_thread = 1, event_code = code, event_file = f, event_image = 0x400000,
     event_exception = 0, event_address = 0, event_first_chance = True\<rparr>"

definition demo_observer_api :: observer_api where
  "demo_observer_api = \<lparr>full_path = \<lambda>p. p, create_job = 1, limit_job = True, create_process = \<lambda>p c e d. Some (2, 3, 9),
     assign_job = True, last_error = 0, clock = \<lambda>i. 1000 * of_nat i,
     wait_event = \<lambda>i t. if i = 0 then Delivered (demo_debug_event CREATE_PROCESS_DEBUG_EVENT 4)
        else if i = 1 then Timed_out else if i = 2 then Delivered (demo_debug_event LOAD_DLL_DEBUG_EVENT 5)
        else Delivered (demo_debug_event EXIT_PROCESS_DEBUG_EVENT 0),
     continue_event = \<lambda>i. True, kill_process = \<lambda>i. False, kill_job = \<lambda>i. True, wait_exit = \<lambda>i t. True,
     handle_identity = \<lambda>h. Some (1, [2]), query_region = \<lambda>a. None, read_process = \<lambda>a n. (False, 0, \<lambda>i. 0)\<rparr>"

lemma demo_clock: "\<forall>i. \<exists>j>i. clock demo_observer_api i + timeout_ms \<le> clock demo_observer_api j"
proof
  fix i
  show "\<exists>j>i. clock demo_observer_api i + timeout_ms \<le> clock demo_observer_api j"
    by (rule exI[of _ "i + 5"]) (simp add: demo_observer_api_def timeout_ms_def algebra_simps)
qed

lemma demo_lifetime_calls:
  "map_option child_calls (child_lifetime demo_observer_api demo_launch_api 1 [0x43] 4096 None [] 1) =
     Some [Opened 1, Opened 2, Opened 3, Opened 4, Terminate_process observer_exit_code False, Terminate_job observer_exit_code True,
       Closed 4, Continue_event 9 1 DBG_CONTINUE True, Opened 5, Closed 5, Continue_event 9 1 DBG_CONTINUE True,
       Continue_event 9 1 DBG_CONTINUE True, Closed 1, Closed 3, Closed 2]"
  by (simp add: child_lifetime_def destroy_child_def create_suspended_def start_child_def fresh_child_def demo_observer_api_def
      max_image_bytes_def call_defs take_first_event_def demo_debug_event_def opens_def closes_def event_has_file_def Let_def
      stop_child_def request_kill_def release_pending_def confirm_exit_def drain_events.simps timeout_ms_def
      CREATE_PROCESS_DEBUG_EVENT_def LOAD_DLL_DEBUG_EVENT_def EXIT_PROCESS_DEBUG_EVENT_def EXCEPTION_DEBUG_EVENT_def)

theorem suspended_image_lifetime_witness:
  "(\<forall>i. \<exists>j>i. clock demo_observer_api i + timeout_ms \<le> clock demo_observer_api j)
   \<and> (\<exists>s. child_lifetime demo_observer_api demo_launch_api 1 [0x43] 4096 None [] 1 = Some s
        \<and> opened_handles (child_calls s) = closed_handles (child_calls s)
        \<and> killed (take 6 (child_calls s)) \<and> length (child_calls s) = 15)"
proof -
  obtain s where s: "child_lifetime demo_observer_api demo_launch_api 1 [0x43] 4096 None [] 1 = Some s"
    and h: "opened_handles (child_calls s) = closed_handles (child_calls s)"
    and k: "\<forall>before p t status ok after. child_calls s = before @ Continue_event p t status ok # after \<longrightarrow>
          p = child_process_id s \<and> killed before"
    using suspended_image_lifetime[OF demo_clock, of demo_launch_api 1 "[0x43]" 4096 None "[]" 1] by blast
  have "killed (take 6 (child_calls s))" "length (child_calls s) = 15" using demo_lifetime_calls s by simp_all
  then show ?thesis using demo_clock s h by blast
qed

end
