(* ===== verification/Loader_Policy.thy ===== *)
theory Loader_Policy
  imports Suspended_Image
begin

text \<open>
  The pinned files of a loader experiment: \<open>inspect_loader_file\<close> and \<open>LoaderFile\<close> of
  \<open>loader_observation.cpp\<close> (identity, bounded size, lower-case base name and SHA-256 of an open file), and
  \<open>PreparedLoaderPolicy\<close> of \<open>loader_policy.hpp/.cpp\<close>, which checks a whole recipe before it
  opens the first file.

  The file system and the hash provider are a record of answers; an incremental hash is the bytes it has been
  fed. \<open>INVALID_HANDLE_VALUE\<close> and the null handle are both 0. Paths are 16-bit units, names
  are ASCII strings. The guard against an origin outside the enumeration has no counterpart in the datatype.
\<close>

definition max_loader_file_bytes :: u64 where "max_loader_file_bytes = 64 * 1024 * 1024"
definition max_policy_bytes :: u64 where "max_policy_bytes = 256 * 1024 * 1024"

record loader_identity =
  id_volume :: u64
  id_bytes :: u64
  id_file :: bytes
  id_sha256 :: bytes
  id_name :: string

record file_api =
  open_file :: "wide \<Rightarrow> nat"
  file_key :: "nat \<Rightarrow> (u64 \<times> bytes) option"
  file_length :: "nat \<Rightarrow> int option"
  file_path :: "nat \<Rightarrow> wide option"
  rewind_file :: "nat \<Rightarrow> bool"
  read_block :: "nat \<Rightarrow> nat \<Rightarrow> nat \<Rightarrow> bytes option"
  hash_open :: bool
  hash_update :: "bytes \<Rightarrow> bytes \<Rightarrow> bool"
  hash_finish :: "bytes \<Rightarrow> bytes option"

section \<open>Inspecting an open file\<close>

text \<open>What follows the last separator, in lower case.\<close>

definition base_name :: "wide \<Rightarrow> wide" where
  "base_name path = rev (takeWhile (\<lambda>c. c \<noteq> 0x5c \<and> c \<noteq> 0x2f) (rev path))"

definition lower_unit :: "u16 \<Rightarrow> u16" where
  "lower_unit c = (if c \<ge> 0x41 \<and> c \<le> 0x5a then c + 0x20 else c)"

definition name_unit :: "u16 \<Rightarrow> bool" where
  "name_unit c \<longleftrightarrow> (c \<ge> 0x61 \<and> c \<le> 0x7a) \<or> (c \<ge> 0x30 \<and> c \<le> 0x39) \<or> c = 0x2e \<or> c = 0x5f \<or> c = 0x2d \<or> c = 0x20"

definition unit_char :: "u16 \<Rightarrow> char" where
  "unit_char c = char_of (unat c)"

text \<open>The loop that reads and hashes the remaining bytes in blocks: it ends because a read that returns nothing fails.\<close>

function hash_contents :: "file_api \<Rightarrow> nat \<Rightarrow> bytes \<Rightarrow> nat \<Rightarrow> bytes option" where
  "hash_contents os handle fed remaining =
    (if remaining = 0 then Some fed
     else let requested = min remaining 65536 in
       (case read_block os handle (length fed) requested of None \<Rightarrow> None
        | Some bs \<Rightarrow> if bs = [] \<or> length bs > requested \<or> \<not> hash_update os fed bs then None
            else hash_contents os handle (fed @ bs) (remaining - length bs)))"
  by pat_completeness auto
termination by (relation "measure (\<lambda>(_, _, _, remaining). remaining)") auto

declare hash_contents.simps [simp del]

definition inspect_loader_file :: "file_api \<Rightarrow> nat \<Rightarrow> u64 \<Rightarrow> loader_identity option" where
  "inspect_loader_file os handle byte_budget =
    (if handle = 0 then None
     else case (file_key os handle, file_length os handle) of
       (Some (volume, key), Some n) \<Rightarrow>
         if n \<le> 0 \<or> nat n > unat (min byte_budget max_loader_file_bytes) then None
         else (case file_path os handle of None \<Rightarrow> None
           | Some path \<Rightarrow>
             let name = map lower_unit (base_name path) in
             if path = [] \<or> length path \<ge> 32768 \<or> name = [] \<or> length name \<ge> 128 \<or> \<not> list_all name_unit name then None
             else if \<not> rewind_file os handle \<or> \<not> hash_open os then None
             else (case hash_contents os handle [] (nat n) of None \<Rightarrow> None
               | Some fed \<Rightarrow> (case hash_finish os fed of None \<Rightarrow> None
                   | Some digest \<Rightarrow> Some \<lparr>id_volume = volume, id_bytes = word_of_int n, id_file = key, id_sha256 = digest,
                       id_name = map unit_char name\<rparr>)))
     | _ \<Rightarrow> None)"

text \<open>A pinned file keeps its handle until it is destroyed; it is valid when the inspection succeeded.\<close>

record loader_file =
  pin_handle :: nat
  pin_identity :: "loader_identity option"

definition loader_file_valid :: "loader_file \<Rightarrow> bool" where
  "loader_file_valid f \<longleftrightarrow> pin_identity f \<noteq> None"

definition open_loader_file :: "file_api \<Rightarrow> wide \<Rightarrow> u64 \<Rightarrow> loader_file" where
  "open_loader_file os path byte_budget =
    (if path = [] \<or> open_file os path = 0 then \<lparr>pin_handle = 0, pin_identity = None\<rparr>
     else \<lparr>pin_handle = open_file os path, pin_identity = inspect_loader_file os (open_file os path) byte_budget\<rparr>)"

section \<open>The policy\<close>

datatype loader_origin = System_x86 | Game_root

record loader_pin_spec =
  pin_origin :: loader_origin
  pin_name :: string
  pin_bytes :: u64
  pin_sha256 :: bytes

definition policy_char :: "char \<Rightarrow> bool" where
  "policy_char c \<longleftrightarrow> (let k = (of_char c :: nat) in (97 \<le> k \<and> k \<le> 122) \<or> (48 \<le> k \<and> k \<le> 57) \<or> k = 95 \<or> k = 45 \<or> k = 46)"

definition valid_name :: "string \<Rightarrow> bool" where
  "valid_name name \<longleftrightarrow>
     \<not> (length name < 5 \<or> length name > 127 \<or> drop (length name - 4) name \<noteq> ''.dll''
        \<or> list_ex (\<lambda>i. take 2 (drop i name) = ''..'') [0..<length name])
     \<and> list_all policy_char name"

definition spec_valid :: "bool \<Rightarrow> loader_pin_spec \<Rightarrow> bool" where
  "spec_valid allow_bootstrap_asi spec \<longleftrightarrow>
     (let bootstrap_name = (allow_bootstrap_asi \<and> pin_origin spec = Game_root \<and> pin_name spec = ''saex_bootstrap.asi'') in
      \<not> ((\<not> valid_name (pin_name spec) \<and> \<not> bootstrap_name) \<or> pin_bytes spec = 0 \<or> pin_bytes spec > max_loader_file_bytes
         \<or> list_all (\<lambda>b. b = 0) (pin_sha256 spec)))"

text \<open>The first loop: \<open>prior\<close> are the specs before, \<open>charged\<close> their bytes; the empty string is no error.\<close>

fun check_recipe :: "bool \<Rightarrow> loader_pin_spec list \<Rightarrow> u64 \<Rightarrow> loader_pin_spec list \<Rightarrow> string" where
  "check_recipe allow prior charged [] = []"
| "check_recipe allow prior charged (spec # specs) =
    (if \<not> spec_valid allow spec then ''loader_policy_spec''
     else if list_ex (\<lambda>p. pin_name p = pin_name spec) prior then ''loader_policy_duplicate''
     else if charged + pin_bytes spec > max_policy_bytes then ''loader_policy_byte_limit''
     else check_recipe allow (prior @ [spec]) (charged + pin_bytes spec) specs)"

definition pin_path :: "wide \<Rightarrow> wide \<Rightarrow> loader_pin_spec \<Rightarrow> wide" where
  "pin_path game_directory system_directory spec =
     (case pin_origin spec of System_x86 \<Rightarrow> system_directory | Game_root \<Rightarrow> game_directory)
     @ [0x5c] @ map (\<lambda>c. of_char c) (pin_name spec)"

text \<open>The policy, with the paths it has opened.\<close>

record loader_policy =
  policy_error :: string
  policy_failed :: string
  policy_files :: "loader_file list"
  policy_opened :: "wide list"

fun open_pins :: "file_api \<Rightarrow> wide \<Rightarrow> wide \<Rightarrow> u64 \<Rightarrow> loader_pin_spec list \<Rightarrow> loader_policy \<Rightarrow> loader_policy" where
  "open_pins os game sys charged [] p = p"
| "open_pins os game sys charged (spec # specs) p =
    (let path = pin_path game sys spec;
         file_pin = open_loader_file os path (max_policy_bytes - charged);
         p1 = p\<lparr>policy_opened := policy_opened p @ [path]\<rparr> in
     case pin_identity file_pin of
       None \<Rightarrow> p1\<lparr>policy_error := ''loader_policy_file_unavailable'', policy_failed := pin_name spec\<rparr>
     | Some actual \<Rightarrow>
         if pin_name spec \<noteq> id_name actual \<or> pin_bytes spec \<noteq> id_bytes actual \<or> pin_sha256 spec \<noteq> id_sha256 actual
         then p1\<lparr>policy_error := ''loader_policy_file_mismatch'', policy_failed := pin_name spec\<rparr>
         else open_pins os game sys (charged + id_bytes actual) specs (p1\<lparr>policy_files := policy_files p1 @ [file_pin]\<rparr>))"

definition policy_refused :: "string \<Rightarrow> loader_policy" where
  "policy_refused reason = \<lparr>policy_error = reason, policy_failed = [], policy_files = [], policy_opened = []\<rparr>"

definition prepare_policy ::
  "file_api \<Rightarrow> loader_pin_spec list \<Rightarrow> bytes \<Rightarrow> bytes \<Rightarrow> wide \<Rightarrow> wide \<Rightarrow> bool \<Rightarrow> loader_policy" where
  "prepare_policy os specs expected_engine actual_engine game sys allow =
    (if expected_engine \<noteq> actual_engine \<or> list_all (\<lambda>b. b = 0) expected_engine then policy_refused ''loader_policy_engine_mismatch''
     else if specs = [] \<or> length specs > 64 \<or> game = [] \<or> sys = [] then policy_refused ''loader_policy_input''
     else let reason = check_recipe allow [] 0 specs in
       if reason \<noteq> [] then policy_refused reason else open_pins os game sys 0 specs (policy_refused []))"

definition policy_pins :: "loader_policy \<Rightarrow> loader_file list" where
  "policy_pins p = (if policy_error p = [] then policy_files p else [])"


section \<open>What an accepted policy holds\<close>

text \<open>The hash is the one of exactly as many bytes as the file has, read from its start.\<close>

lemma hash_contents_Some:
  "hash_contents os handle fed remaining = Some content \<Longrightarrow> length content = length fed + remaining \<and> take (length fed) content = fed"
proof (induction os handle fed remaining arbitrary: content rule: hash_contents.induct)
  case (1 os handle fed remaining)
  show ?case
  proof (cases "remaining = 0")
    case True
    then show ?thesis using "1.prems" by (simp add: hash_contents.simps)
  next
    case False
    define r where "r = min remaining 65536"
    have body: "(case read_block os handle (length fed) r of None \<Rightarrow> None
        | Some bs \<Rightarrow> if bs = [] \<or> length bs > r \<or> \<not> hash_update os fed bs then None
            else hash_contents os handle (fed @ bs) (remaining - length bs)) = Some content"
      unfolding r_def using "1.prems" False by (simp add: hash_contents.simps[of os handle fed remaining] Let_def)
    obtain bs where read: "read_block os handle (length fed) r = Some bs"
      using body by (cases "read_block os handle (length fed) r") auto
    have accepted: "\<not> (bs = [] \<or> length bs > r \<or> \<not> hash_update os fed bs)"
      using body unfolding read option.case by (rule contrapos_pn) simp
    then have bs: "bs \<noteq> []" "length bs \<le> r" "hash_contents os handle (fed @ bs) (remaining - length bs) = Some content"
      using body unfolding read option.case by simp_all
    then have ih: "length content = length (fed @ bs) + (remaining - length bs)" "take (length (fed @ bs)) content = fed @ bs"
      using "1.IH"[OF False r_def read accepted bs(3)] by simp_all
    have "take (length fed) content = take (length fed) (take (length (fed @ bs)) content)" by (simp add: min_def)
    also have "\<dots> = fed" using ih(2) by simp
    finally show ?thesis using ih(1) bs(2) by (simp add: r_def)
  qed
qed

text \<open>The file behind a pin: opened at the path of its spec, with the pinned name, size and hash.\<close>

definition pin_holds :: "file_api \<Rightarrow> wide \<Rightarrow> wide \<Rightarrow> loader_pin_spec \<Rightarrow> loader_file \<Rightarrow> bool" where
  "pin_holds os game sys spec f \<longleftrightarrow> pin_handle f = open_file os (pin_path game sys spec) \<and> pin_handle f \<noteq> 0
     \<and> (\<exists>i content. pin_identity f = Some i \<and> id_name i = pin_name spec \<and> id_bytes i = pin_bytes spec
          \<and> file_length os (pin_handle f) = Some (uint (pin_bytes spec))
          \<and> hash_contents os (pin_handle f) [] (unat (pin_bytes spec)) = Some content
          \<and> length content = unat (pin_bytes spec) \<and> hash_finish os content = Some (pin_sha256 spec))"

lemma inspect_loader_file_Some:
  assumes "inspect_loader_file os h budget = Some i"
  obtains content where "h \<noteq> 0" "file_length os h = Some (uint (id_bytes i))" "hash_contents os h [] (unat (id_bytes i)) = Some content"
    "length content = unat (id_bytes i)" "hash_finish os content = Some (id_sha256 i)"
proof -
  obtain n content where h: "h \<noteq> 0" and n: "file_length os h = Some n" "0 < n" "nat n \<le> unat (min budget max_loader_file_bytes)"
    and c: "hash_contents os h [] (nat n) = Some content" "hash_finish os content = Some (id_sha256 i)" and b: "id_bytes i = word_of_int n"
    using assms by (auto simp: inspect_loader_file_def Let_def split: if_splits option.splits)
  have "unat (min budget max_loader_file_bytes) \<le> 64 * 1024 * 1024" by (simp add: min_def max_loader_file_bytes_def word_le_nat_alt)
  then have "n < 2 ^ 64" using n(2,3) by simp
  then have u: "uint (id_bytes i) = n" using n(2) b by (simp add: uint_word_of_int)
  then have "unat (id_bytes i) = nat n" by (simp add: unat_eq_nat_uint)
  then show thesis using that[OF h] n(1) c u hash_contents_Some[OF c(1)] by simp
qed

lemma open_loader_file_pinned:
  assumes "pin_identity (open_loader_file os (pin_path game sys spec) budget) = Some i"
    and "pin_name spec = id_name i" "pin_bytes spec = id_bytes i" "pin_sha256 spec = id_sha256 i"
  shows "pin_holds os game sys spec (open_loader_file os (pin_path game sys spec) budget)"
proof -
  let ?h = "open_file os (pin_path game sys spec)"
  have f: "open_loader_file os (pin_path game sys spec) budget = \<lparr>pin_handle = ?h, pin_identity = Some i\<rparr>"
    and "inspect_loader_file os ?h budget = Some i"
    using assms(1) by (auto simp: open_loader_file_def split: if_splits)
  from inspect_loader_file_Some[OF this(2)] obtain content where "?h \<noteq> 0" "file_length os ?h = Some (uint (id_bytes i))"
    "hash_contents os ?h [] (unat (id_bytes i)) = Some content" "length content = unat (id_bytes i)"
    "hash_finish os content = Some (id_sha256 i)" by metis
  then show ?thesis using f assms(2-4) by (simp add: pin_holds_def)
qed

lemma open_pins_accepts:
  "policy_error (open_pins os game sys charged specs p) = [] \<Longrightarrow>
     \<exists>files. policy_files (open_pins os game sys charged specs p) = policy_files p @ files
       \<and> list_all2 (pin_holds os game sys) specs files
       \<and> policy_opened (open_pins os game sys charged specs p) = policy_opened p @ map (pin_path game sys) specs"
proof (induction specs arbitrary: charged p)
  case (Cons spec specs)
  let ?f = "open_loader_file os (pin_path game sys spec) (max_policy_bytes - charged)"
  obtain i where i: "pin_identity ?f = Some i" "pin_name spec = id_name i" "pin_bytes spec = id_bytes i" "pin_sha256 spec = id_sha256 i"
    using Cons.prems by (auto simp: Let_def split: option.splits if_splits)
  from open_loader_file_pinned[OF i] Cons.IH i Cons.prems show ?case
    by (fastforce simp: Let_def intro: exI[of _ "?f # _"])
qed auto

lemma check_recipe_accepts:
  "check_recipe allow prior charged specs = [] \<Longrightarrow> unat charged \<le> 268435456 \<Longrightarrow>
     list_all (spec_valid allow) specs \<and> distinct (map pin_name specs) \<and> set (map pin_name prior) \<inter> set (map pin_name specs) = {}
     \<and> unat charged + (\<Sum>s\<leftarrow>specs. unat (pin_bytes s)) \<le> 268435456"
proof (induction specs arbitrary: prior charged)
  case (Cons spec specs)
  then have s: "spec_valid allow spec" "\<not> list_ex (\<lambda>p. pin_name p = pin_name spec) prior" "charged + pin_bytes spec \<le> max_policy_bytes"
    and rest: "check_recipe allow (prior @ [spec]) (charged + pin_bytes spec) specs = []"
    by (auto simp: not_less split: if_splits)
  have "pin_bytes spec \<le> max_loader_file_bytes" using s(1) by (auto simp: spec_valid_def Let_def not_less)
  then have "unat (pin_bytes spec) \<le> 67108864" by (simp add: word_le_nat_alt max_loader_file_bytes_def)
  then have "unat (charged + pin_bytes spec) = unat charged + unat (pin_bytes spec)" using Cons.prems(2) by (simp add: unat_plus_if')
  moreover have "unat (charged + pin_bytes spec) \<le> 268435456" using s(3) by (simp add: word_le_nat_alt max_policy_bytes_def)
  ultimately show ?case using Cons.IH[OF rest] s(1,2) by (auto simp: list_ex_iff)
qed simp

text \<open>
  Claim C20. A loader policy is all or nothing. No file is opened unless the engine hash is the expected, nonzero one
  and the whole recipe is valid: every spec has an acceptable name, size and hash, no name occurs twice, and the sizes together stay within 256 MiB.
  And the policy hands out pins only when it hands out one for every spec, in the order of the recipe, where each pin is the file
  opened at that spec's path, has exactly the pinned name and size, and the pinned hash is the hash of the whole content of that file.
\<close>

theorem policy_pins_whole_recipe:
  assumes "p = prepare_policy os specs expected actual game sys allow"
  shows "(policy_opened p \<noteq> [] \<longrightarrow> expected = actual \<and> \<not> list_all (\<lambda>b. b = 0) expected \<and> list_all (spec_valid allow) specs
            \<and> distinct (map pin_name specs) \<and> (\<Sum>s\<leftarrow>specs. unat (pin_bytes s)) \<le> 256 * 1024 * 1024)
       \<and> (policy_pins p \<noteq> [] \<longrightarrow> list_all2 (pin_holds os game sys) specs (policy_pins p)
            \<and> policy_opened p = map (pin_path game sys) specs)"
proof (cases "expected = actual \<and> \<not> list_all (\<lambda>b. b = 0) expected \<and> check_recipe allow [] 0 specs = []
    \<and> \<not> (specs = [] \<or> length specs > 64 \<or> game = [] \<or> sys = [])")
  case True
  then have "p = open_pins os game sys 0 specs (policy_refused [])" using assms by (auto simp: prepare_policy_def)
  then show ?thesis using check_recipe_accepts[of allow "[]" 0 specs] True open_pins_accepts[of os game sys 0 specs "policy_refused []"]
    by (auto simp: policy_pins_def policy_refused_def)
next
  case False
  then have "policy_opened p = [] \<and> policy_files p = []"
    using assms by (auto simp: prepare_policy_def policy_refused_def Let_def)
  then show ?thesis by (simp add: policy_pins_def)
qed


text \<open>Two pins of the same two-byte content, one in each directory.\<close>

definition demo_file_api :: file_api where
  "demo_file_api = \<lparr>open_file = \<lambda>path. if take 1 path = [0x73] then 7 else 8, file_key = \<lambda>h. Some (1, [of_nat h]), file_length = \<lambda>h. Some 2,
     file_path = \<lambda>h. Some (if h = 7 then [0x5c, 0x41, 0x2e, 0x64, 0x6c, 0x6c] else [0x5c, 0x62, 0x63, 0x2e, 0x44, 0x6c, 0x6c]),
     rewind_file = \<lambda>h. True, read_block = \<lambda>h pos n. Some [of_nat pos], hash_open = True, hash_update = \<lambda>fed bs. True,
     hash_finish = \<lambda>fed. Some (rev fed)\<rparr>"

definition demo_pins :: "loader_pin_spec list" where
  "demo_pins = [\<lparr>pin_origin = System_x86, pin_name = ''a.dll'', pin_bytes = 2, pin_sha256 = [1, 0]\<rparr>,
     \<lparr>pin_origin = Game_root, pin_name = ''bc.dll'', pin_bytes = 2, pin_sha256 = [1, 0]\<rparr>]"

definition demo_policy :: loader_policy where
  "demo_policy = prepare_policy demo_file_api demo_pins [1] [1] [0x67] [0x73] False"

lemma demo_chars:
  "char_of (97 :: nat) = CHR ''a''" "char_of (98 :: nat) = CHR ''b''" "char_of (99 :: nat) = CHR ''c''"
  "char_of (100 :: nat) = CHR ''d''" "char_of (108 :: nat) = CHR ''l''" "char_of (46 :: nat) = CHR ''.''"
  by code_simp+

lemma demo_inspect:
  assumes "2 \<le> unat budget"
  shows "inspect_loader_file demo_file_api 7 budget = Some \<lparr>id_volume = 1, id_bytes = 2, id_file = [7], id_sha256 = [1, 0], id_name = ''a.dll''\<rparr>"
    and "inspect_loader_file demo_file_api 8 budget = Some \<lparr>id_volume = 1, id_bytes = 2, id_file = [8], id_sha256 = [1, 0], id_name = ''bc.dll''\<rparr>"
proof -
  have "hash_contents demo_file_api h [] 2 = Some [0, 1]" for h by (simp add: demo_file_api_def hash_contents.simps)
  moreover have "\<not> unat (min budget max_loader_file_bytes) < 2" using assms by (simp add: max_loader_file_bytes_def min_def)
  ultimately show "inspect_loader_file demo_file_api 7 budget = Some \<lparr>id_volume = 1, id_bytes = 2, id_file = [7], id_sha256 = [1, 0], id_name = ''a.dll''\<rparr>"
    "inspect_loader_file demo_file_api 8 budget = Some \<lparr>id_volume = 1, id_bytes = 2, id_file = [8], id_sha256 = [1, 0], id_name = ''bc.dll''\<rparr>"
    by (simp_all add: inspect_loader_file_def demo_file_api_def base_name_def lower_unit_def name_unit_def unit_char_def demo_chars)
qed

lemma demo_recipe: "check_recipe False [] 0 demo_pins = []"
proof -
  have "valid_name ''a.dll''" "valid_name ''bc.dll''" by (simp_all add: valid_name_def policy_char_def upt_rec)
  then show ?thesis by (simp add: demo_pins_def spec_valid_def max_loader_file_bytes_def max_policy_bytes_def)
qed

lemma demo_policy_pins: "length (policy_pins demo_policy) = 2" "length (policy_opened demo_policy) = 2"
proof -
  have o: "open_file demo_file_api p = (if take 1 p = [0x73] then 7 else 8)" for p by (simp add: demo_file_api_def)
  have eq: "demo_policy = open_pins demo_file_api [0x67] [0x73] 0 demo_pins (policy_refused [])"
    using demo_recipe by (simp add: demo_policy_def prepare_policy_def demo_pins_def)
  show "length (policy_pins demo_policy) = 2" "length (policy_opened demo_policy) = 2" unfolding eq
    by (simp_all add: demo_pins_def pin_path_def open_loader_file_def o demo_inspect max_policy_bytes_def policy_refused_def policy_pins_def)
qed

theorem policy_pins_whole_recipe_witness:
  "policy_opened demo_policy \<noteq> [] \<and> policy_pins demo_policy \<noteq> []
   \<and> distinct (map pin_name demo_pins) \<and> list_all2 (pin_holds demo_file_api [0x67] [0x73]) demo_pins (policy_pins demo_policy)"
proof -
  have "policy_opened demo_policy \<noteq> []" "policy_pins demo_policy \<noteq> []" using demo_policy_pins by auto
  then show ?thesis using policy_pins_whole_recipe[OF demo_policy_def] by blast
qed

end
