(* ===== verification/Bootstrap_Module.thy ===== *)
theory Bootstrap_Module
  imports Bootstrap_Session Windows_Image_Reader
begin

text \<open>
  \<open>windows_file_observation.hpp/.cpp\<close>, \<open>observed_profile.generated.hpp\<close>, \<open>bootstrap_module.cpp\<close> and
  \<open>image_probe.cpp\<close>: reading and checking the executable file, and the inspection of the current
  process that answers the bootstrap session.

  The operating system is a record of functions: the size of the opened file, its reads, the
  SHA-256 of \<open>BCryptHash\<close>, the module path and base, \<open>VirtualQuery\<close> and
  \<open>ReadProcessMemory\<close>. \<open>raises\<close> says whether the file object's construction throws.
\<close>

section \<open>The observed profile\<close>

definition section_of :: "string \<Rightarrow> u32 \<Rightarrow> u32 \<Rightarrow> u32 \<Rightarrow> u32 \<Rightarrow> u32 \<Rightarrow> pe_section" where
  "section_of nm vs rva rs ro ch = \<lparr>sec_name = map of_char nm @ replicate (8 - length nm) 0,
     virtual_size = vs, sec_rva = rva, raw_size = rs, sec_raw_offset = ro, sec_characteristics = ch\<rparr>"

definition observed_layout :: pe_layout where
  "observed_layout = \<lparr>timestamp = 1114702282, image_base = 4194304, entry_rva = 4343152,
     image_size = 18313216, headers_size = 1024, section_alignment = 4096, file_alignment = 512,
     lay_characteristics = 303, dll_characteristics = 0, section_count = 11,
     sections = [
       section_of ''.text'' 4546560 4096 4546048 1024 1610612768,
       section_of ''_rwcseg'' 4096 4550656 1536 4547072 1610612768,
       section_of ''.rdata'' 311296 4554752 308224 4548608 1073741888,
       section_of ''.data'' 4169728 4866048 262144 4856832 3221225536,
       section_of ''_TEXT_HA'' 69632 9035776 68608 5118976 3221225536,
       section_of ''_rwdseg'' 4096 9105408 512 5187584 3221225536,
       section_of ''.rsrc'' 4096 9109504 1536 5188096 1073741888,
       section_of ''.text'' 6594560 9113600 6593536 5189632 3758096416,
       section_of ''.init'' 24576 15708160 23040 11783168 3758096416,
       section_of ''.data'' 2445312 15732736 2442240 11806208 3758096448,
       section_of ''.HOODLUM'' 135168 18178048 135168 14248448 3758096416] @ replicate 85 no_section\<rparr>"

definition anchor_of :: "string \<Rightarrow> u32 \<Rightarrow> bytes \<Rightarrow> image_anchor" where
  "anchor_of i rva bs = \<lparr>anchor_id = i, anchor_rva = rva, section_index = 0, anchor_length = 5,
     anchor_bytes = bs @ replicate (16 - length bs) 0\<rparr>"

definition observed_anchors :: "image_anchor list" where
  "observed_anchors = [
     anchor_of ''version-marker'' 4096 [0xe9, 0x7b, 0x19, 0x16, 0x01],
     anchor_of ''game-process-call'' 1304961 [0xe8, 0x5a, 0xd5, 0xff, 0xff],
     anchor_of ''init-game-call'' 3443963 [0xe8, 0x80, 0x58, 0xdf, 0xff],
     anchor_of ''shutdown-rw-call'' 1300752 [0xe8, 0x6b, 0xe2, 0xff, 0xff]]"

definition the_observed_profile :: observed_profile where
  "the_observed_profile = \<lparr>profile_id = observed_id, profile_file_bytes = 14383616,
     profile_sha256 = [0xf0, 0x1a, 0x00, 0xce, 0x95, 0x0f, 0xa4, 0x0c, 0xa1, 0xed, 0x59, 0xdf, 0x0e, 0x78,
       0x98, 0x48, 0xc6, 0xed, 0xcf, 0x64, 0x05, 0x45, 0x62, 0x74, 0x96, 0x58, 0x85, 0xd0, 0x92, 0x93, 0x43, 0xac],
     profile_layout = observed_layout, anchors = observed_anchors\<rparr>"

section \<open>WindowsFileObservation\<close>

text \<open>
  \<open>fs_size\<close> is \<open>None\<close> when \<open>GetFileSizeEx\<close> fails; \<open>fs_read off n\<close> is the chunk \<open>ReadFile\<close> stores
  when asked for \<open>n\<close> bytes at the file position \<open>off\<close>, \<open>None\<close> when it fails.
\<close>

record file_system =
  fs_opens :: bool
  fs_size :: "int option"
  fs_read :: "nat \<Rightarrow> nat \<Rightarrow> bytes option"
  fs_hash :: "bytes \<Rightarrow> bytes option"
  fs_raises :: bool

record file_observation =
  fo_bytes :: bytes
  fo_layout :: pe_layout
  fo_hash :: bytes
  fo_error :: string

definition no_observation :: file_observation where
  "no_observation = \<lparr>fo_bytes = [], fo_layout = empty_layout, fo_hash = replicate 32 0, fo_error = []\<rparr>"

text \<open>The read loop: whether it filled the buffer, and what it stored so far.\<close>

function read_file :: "(nat \<Rightarrow> nat \<Rightarrow> bytes option) \<Rightarrow> nat \<Rightarrow> bytes \<Rightarrow> bool \<times> bytes" where
  "read_file rd sz acc =
    (if length acc < sz then
       (case rd (length acc) (min 65536 (sz - length acc)) of
          None \<Rightarrow> (False, acc)
        | Some got \<Rightarrow> if got = [] then (False, acc) else read_file rd sz (acc @ got))
     else (True, acc))"
  by pat_completeness auto
termination by (relation "measure (\<lambda>(_, sz, acc). sz - length acc)") (auto intro!: diff_less_mono2)

declare read_file.simps [simp del]

text \<open>The constructor; \<open>None\<close> is a thrown exception.\<close>

definition windows_file_observation :: "file_system \<Rightarrow> observed_profile \<Rightarrow> file_observation option" where
  "windows_file_observation fs profile =
    (if \<not> fs_opens fs then Some (no_observation\<lparr>fo_error := ''file_open_failed''\<rparr>)
     else if fs_raises fs then None
     else case fs_size fs of
       None \<Rightarrow> Some (no_observation\<lparr>fo_error := ''engine_file_size''\<rparr>)
     | Some len \<Rightarrow>
       if len < 64 \<or> len > int max_image_bytes then Some (no_observation\<lparr>fo_error := ''engine_file_size''\<rparr>)
       else case read_file (fs_read fs) (nat len) [] of
         (False, acc) \<Rightarrow> Some (no_observation\<lparr>fo_bytes := acc @ replicate (nat len - length acc) 0,
             fo_error := ''file_read_failed''\<rparr>)
       | (True, content) \<Rightarrow>
         (case parse_pe32 content of
            None \<Rightarrow> None
          | Some (e, layout) \<Rightarrow>
            if e \<noteq> PE_none then Some (no_observation\<lparr>fo_bytes := content, fo_error := pe_error_name e\<rparr>)
            else case fs_hash fs content of
              None \<Rightarrow> Some (no_observation\<lparr>fo_bytes := content, fo_layout := layout, fo_error := ''hash_failed''\<rparr>)
            | Some h \<Rightarrow>
              let result = match_file_observation content h layout profile in
              Some \<lparr>fo_bytes = content, fo_layout = layout, fo_hash = h,
                fo_error = (if result \<noteq> Matched_observation then profile_result_name result else [])\<rparr>))"

section \<open>CurrentProcessObservation\<close>

record process_api =
  module_path_length :: u32
  module_base :: u32
  process_files :: file_system
  virtual_query :: "u32 \<Rightarrow> region option"
  read_memory :: read_memory

text \<open>The session's observation object: the process and the number of inspections so far.\<close>

definition inspect_process_for :: "observed_profile \<Rightarrow> process_api \<Rightarrow> u32" where
  "inspect_process_for profile api =
    (if module_path_length api = 0 \<or> module_path_length api \<ge> 32768 then BOOTSTRAP_HOST_PATH
     else case windows_file_observation (process_files api) profile of
       None \<Rightarrow> BOOTSTRAP_INTERNAL_ERROR
     | Some obs \<Rightarrow>
         if fo_error obs \<noteq> [] then BOOTSTRAP_FILE_REJECTED
         else if module_base api \<noteq> image_base (fo_layout obs) then BOOTSTRAP_IMAGE_BASE
         else if check_mapped_observation
             (windows_copy (virtual_query api) (read_memory api) (module_base api) (image_size (fo_layout obs)))
             (fo_bytes obs) (fo_layout obs) profile \<noteq> Matched_observation
         then BOOTSTRAP_IMAGE_REJECTED
         else BOOTSTRAP_RUNTIME_UNVERIFIED)"

definition inspect_process :: "process_api \<Rightarrow> u32" where
  "inspect_process = inspect_process_for the_observed_profile"

definition current_process_inspect :: "process_api \<times> nat \<Rightarrow> u32 \<times> process_api \<times> nat" where
  "current_process_inspect ob = (inspect_process (fst ob), fst ob, Suc (snd ob))"

interpretation current_process: bootstrap_observation current_process_inspect snd
  by unfold_locales
     (auto simp: current_process_inspect_def inspect_process_def inspect_process_for_def bootstrap_constants split: option.splits)

text \<open>\<open>SaexBootstrapInitialize\<close>, \<open>SaexBootstrapQuery\<close>, \<open>SaexBootstrapStop\<close>\<close>

definition SaexBootstrapInitialize where
  "SaexBootstrapInitialize = bootstrap_invoke current_process_inspect Op_initialize"
definition SaexBootstrapQuery where
  "SaexBootstrapQuery = bootstrap_invoke current_process_inspect Op_query"
definition SaexBootstrapStop where
  "SaexBootstrapStop = bootstrap_invoke current_process_inspect Op_stop"

section \<open>image_probe\<close>

text \<open>The report of the probe and its exit code; a mapping that fails has no view base.\<close>

definition image_probe :: "file_system \<Rightarrow> bool \<Rightarrow> u32 option \<Rightarrow> (u32 \<Rightarrow> region option) \<Rightarrow> read_memory
    \<Rightarrow> string \<times> int" where
  "image_probe fs maps view vq rpm =
    (case windows_file_observation fs the_observed_profile of
       None \<Rightarrow> (''inspection_failed'', 1)
     | Some obs \<Rightarrow>
         if fo_error obs \<noteq> [] then (fo_error obs, 1)
         else if \<not> maps then (''non_executing_mapping_failed'', 1)
         else case view of None \<Rightarrow> (''image_view_failed'', 1)
         | Some base \<Rightarrow>
             let mapped = check_mapped_observation (windows_copy vq rpm base (image_size (fo_layout obs)))
                  (fo_bytes obs) (fo_layout obs) the_observed_profile in
             if mapped \<noteq> Matched_observation then (profile_result_name mapped, 1)
             else (''observed_profile_runtime_unverified'', 3))"

lemma windows_file_observation_accepted:
  assumes "windows_file_observation fs profile = Some obs" and "fo_error obs = []"
  shows "parse_pe32 (fo_bytes obs) = Some (PE_none, fo_layout obs)"
    and "fs_hash fs (fo_bytes obs) = Some (fo_hash obs)"
    and "match_file_observation (fo_bytes obs) (fo_hash obs) (fo_layout obs) profile = Matched_observation"
    and "\<exists>len. fs_size fs = Some len \<and> read_file (fs_read fs) (nat len) [] = (True, fo_bytes obs)"
proof -
  have ne: "pe_error_name e \<noteq> []" "profile_result_name r \<noteq> []" for e r
    by (cases e; simp) (cases r; simp)
  from assms show "parse_pe32 (fo_bytes obs) = Some (PE_none, fo_layout obs)"
    and "fs_hash fs (fo_bytes obs) = Some (fo_hash obs)"
    and "match_file_observation (fo_bytes obs) (fo_hash obs) (fo_layout obs) profile = Matched_observation"
    and "\<exists>len. fs_size fs = Some len \<and> read_file (fs_read fs) (nat len) [] = (True, fo_bytes obs)"
    by (auto simp: windows_file_observation_def Let_def ne split: if_splits option.splits prod.splits bool.splits)
qed

section \<open>Properties\<close>


text \<open>A process whose executable is the sample image of \<open>Pe_Image\<close>, pinned by a profile of its own.\<close>

definition sample_profile :: observed_profile where
  "sample_profile = \<lparr>profile_id = ''sample'', profile_file_bytes = 1024, profile_sha256 = replicate 32 7,
     profile_layout = sample_layout, anchors = [anchor_of ''entry'' 4096 [0, 0, 0, 0, 0]]\<rparr>"

definition sample_region :: region where
  "sample_region = \<lparr>base_address = 0x400000, allocation_base = 0x400000, region_size = 0x2000,
     region_state = MEM_COMMIT, region_type = MEM_IMAGE, region_protect = 0x20\<rparr>"

definition sample_process :: process_api where
  "sample_process = \<lparr>module_path_length = 20, module_base = 0x400000,
     process_files = \<lparr>fs_opens = True, fs_size = Some 1024,
       fs_read = \<lambda>off n. Some (take n (drop off sample_image)), fs_hash = \<lambda>_. Some (replicate 32 7), fs_raises = False\<rparr>,
     virtual_query = \<lambda>_. Some sample_region,
     read_memory = \<lambda>a n. (True, n, \<lambda>i. if a < 0x401000 then sample_byte (unat (a - 0x400000) + i) else 0)\<rparr>"

lemma read_sample_file: "read_file (\<lambda>off n. Some (take n (drop off sample_image))) 1024 [] = (True, sample_image)"
proof -
  have "sample_image \<noteq> []" using length_sample by auto
  then show ?thesis
    by (subst read_file.simps, simp add: length_sample, subst read_file.simps, simp add: length_sample)
qed

lemma sample_anchor_offset: "raw_offset sample_layout 4096 5 = Some 512"
  by (simp add: raw_offset_def sample_layout_def max_sections_def section_holds_def sample_section_def fits_def)

lemma sample_anchor_valid: "valid_anchor (anchor_of ''entry'' 4096 [0, 0, 0, 0, 0]) sample_layout"
  by (simp add: valid_anchor_def anchor_of_def sample_layout_def max_sections_def sample_section_def)

lemma pinned_sample: "pinned (anchor_of i rva [0, 0, 0, 0, 0]) = [0, 0, 0, 0, 0]"
  by (simp add: pinned_def anchor_of_def)

lemma sample_anchor_bytes: "take 5 (drop 512 sample_image) = [0, 0, 0, 0, 0]"
proof -
  have "take 5 (drop 512 sample_image) = map sample_byte [512..<517]"
    by (simp add: sample_image_def take_map drop_map del: upt_rec_numeral)
  also have "\<dots> = map (\<lambda>_. 0) [512..<517]"
    by (rule map_cong[OF refl]) (auto simp: sample_byte_def simp del: upt_rec_numeral)
  finally show ?thesis by simp
qed

lemma sample_file_matches: "match_file_observation sample_image (replicate 32 7) sample_layout sample_profile = Matched_observation"
proof -
  let ?a = "anchor_of ''entry'' 4096 [0, 0, 0, 0, 0]"
  have len: "unat (anchor_length ?a) = 5" "anchor_rva ?a = 4096" by (simp_all add: anchor_of_def)
  have "match_anchors sample_image sample_layout [?a] = Matched_observation"
    using sample_anchor_valid
    by (simp add: len sample_anchor_offset sample_anchor_bytes pinned_sample length_sample)
  then show ?thesis by (simp add: match_file_observation_def sample_profile_def length_sample)
qed

lemma sample_file_observation:
  "windows_file_observation (process_files sample_process) sample_profile =
     Some \<lparr>fo_bytes = sample_image, fo_layout = sample_layout, fo_hash = replicate 32 7, fo_error = []\<rparr>"
  using sample_file_matches
  by (simp add: windows_file_observation_def sample_process_def max_image_bytes_def read_sample_file parse_sample)

lemma sample_regions_readable:
  assumes "0x400000 \<le> c" and "c < f" and "f \<le> 0x402000"
  shows "regions_readable (\<lambda>_. Some sample_region) 0x400000 f c"
proof -
  have ok: "region_readable 0x400000 sample_region"
    by (simp add: region_readable_def sample_region_def MEM_COMMIT_def MEM_IMAGE_def PAGE_GUARD_def readable_protections_def)
  have adv: "region_advances c sample_region"
    using assms by (simp add: region_advances_iff sample_region_def word_le_nat_alt word_less_nat_alt)
  have "min f (base_address sample_region + region_size sample_region) = f"
    using assms(3) by (simp add: sample_region_def min_def)
  then show ?thesis
    using assms ok adv by (subst regions_readable.simps, simp, subst regions_readable.simps, simp)
qed

definition sample_copy where
  "sample_copy = windows_copy (virtual_query sample_process) (read_memory sample_process) 0x400000 0x2000"

lemma sample_copy_headers: "sample_copy 0 512 = Some (take 512 sample_image)"
proof -
  have "regions_readable (\<lambda>_. Some sample_region) 0x400000 0x400200 0x400000"
    by (rule sample_regions_readable) simp_all
  moreover have "take 512 sample_image = map sample_byte [0..<512]"
    by (simp add: sample_image_def take_map del: upt_rec_numeral)
  ultimately show ?thesis
    by (simp add: sample_copy_def windows_copy_def sample_process_def max_image_bytes_def del: upt_rec_numeral)
qed

lemma sample_copy_anchor: "sample_copy 4096 5 = Some [0, 0, 0, 0, 0]"
proof -
  have "regions_readable (\<lambda>_. Some sample_region) 0x400000 0x401005 0x401000"
    by (rule sample_regions_readable) simp_all
  moreover have "map (\<lambda>i. 0 :: u8) [0..<5] = [0, 0, 0, 0, 0]"
    by (simp add: map_replicate_const numeral_eq_Suc)
  ultimately show ?thesis
    by (simp add: sample_copy_def windows_copy_def sample_process_def max_image_bytes_def)
qed

lemma sample_mapped: "check_mapped_observation sample_copy sample_image sample_layout sample_profile = Matched_observation"
proof -
  have l: "unat (headers_size sample_layout) = 512" by (simp add: sample_layout_def)
  have h: "check_headers sample_copy sample_image 512 0 = None"
    by (subst check_headers.simps, simp add: sample_copy_headers, subst check_headers.simps, simp)
  have "check_anchors sample_copy sample_layout [anchor_of ''entry'' 4096 [0, 0, 0, 0, 0]] = Matched_observation"
    using sample_anchor_valid pinned_sample sample_copy_anchor by (simp add: anchor_of_def)
  then show ?thesis by (simp add: check_mapped_observation_def l h length_sample sample_profile_def)
qed

lemma sample_inspection: "inspect_process_for sample_profile sample_process = BOOTSTRAP_RUNTIME_UNVERIFIED"
  unfolding inspect_process_for_def sample_file_observation using sample_mapped
  by (simp add: sample_copy_def[symmetric] sample_process_def[THEN arg_cong[where f = module_path_length]]
      sample_process_def[THEN arg_cong[where f = module_base]])
     (simp add: sample_layout_def sample_copy_def)


end
