(* ===== verification/Bootstrap_Lifecycle.thy ===== *)
theory Bootstrap_Lifecycle
  imports Bootstrap_Module
begin

text \<open>
  \<open>bootstrap_lifecycle.hpp/.cpp\<close>: the observer's side of the bootstrap module. It relocates the
  audited prefixes of the three exports, and checks the status each call of the fixed sequence
  leaves in the observed process.
\<close>

record bootstrap_export_spec =
  export_rva :: u32
  audited_prefix :: bytes
  preferred_base :: u32
  highlow_mask :: u32

record bootstrap_lifecycle_spec =
  exports :: "bootstrap_export_spec list"
  spec_profile_id :: string
  spec_source_digest :: string

definition bootstrap_call_sequence :: "nat list" where
  "bootstrap_call_sequence = [1, 0, 1, 0, 2, 1, 0, 2]"

section \<open>Relocated export prefixes\<close>

text \<open>The loop over offsets \<open>0..16\<close>; \<open>covered\<close> marks the bytes of the fixups so far.\<close>

fun relocate_loop :: "u32 \<Rightarrow> u32 \<Rightarrow> nat list \<Rightarrow> u32 \<Rightarrow> bytes \<Rightarrow> bytes option" where
  "relocate_loop hl delta [] covered b = Some b"
| "relocate_loop hl delta (off # offs) covered b =
    (if hl AND push_bit off 1 = 0 then relocate_loop hl delta offs covered b
     else if covered AND push_bit off 15 \<noteq> 0 then None
     else relocate_loop hl delta offs (covered OR push_bit off 15)
            (put_word b off (get_word b off + delta)))"

definition bootstrap_export_prefix :: "bootstrap_export_spec \<Rightarrow> u32 \<Rightarrow> bytes option" where
  "bootstrap_export_prefix spec actual_base =
    (if highlow_mask spec AND NOT 0x1ffff \<noteq> 0
        \<or> (highlow_mask spec \<noteq> 0 \<and> (preferred_base spec = 0 \<or> preferred_base spec mod 65536 \<noteq> 0)) then None
     else relocate_loop (highlow_mask spec) (actual_base - preferred_base spec) [0..<17] 0 (audited_prefix spec))"

section \<open>The specification of an experiment\<close>

definition id_alphabet :: string where
  "id_alphabet = ''abcdefghijklmnopqrstuvwxyzABCDEFGHIJKLMNOPQRSTUVWXYZ0123456789._-''"

definition hex_alphabet :: string where
  "hex_alphabet = ''0123456789abcdef''"

text \<open>The loop over the exports; \<open>seen\<close> are the addresses of the earlier ones.\<close>

fun exports_ok :: "u32 list \<Rightarrow> bootstrap_export_spec list \<Rightarrow> bool" where
  "exports_ok seen [] = True"
| "exports_ok seen (e # es) =
    (bootstrap_export_prefix e (preferred_base e) \<noteq> None
     \<and> \<not> (export_rva e = 0 \<or> export_rva e > 16 * 1024 * 1024 - 20)
     \<and> list_all (\<lambda>r. \<not> (export_rva e < r + 20 \<and> r < export_rva e + 20)) seen
     \<and> exports_ok (seen @ [export_rva e]) es)"

definition valid_bootstrap_lifecycle_spec :: "bootstrap_lifecycle_spec \<Rightarrow> bool" where
  "valid_bootstrap_lifecycle_spec spec \<longleftrightarrow>
     \<not> (spec_profile_id spec = [] \<or> length (spec_profile_id spec) \<ge> 96 \<or> length (spec_source_digest spec) \<noteq> 64
        \<or> list_ex (\<lambda>c. c \<notin> set id_alphabet) (spec_profile_id spec)
        \<or> list_ex (\<lambda>c. c \<notin> set hex_alphabet) (spec_source_digest spec))
     \<and> exports_ok [] (exports spec)"

section \<open>The status of each call\<close>

definition zero_status :: bootstrap_status where
  "zero_status = \<lparr>abi_major = 0, struct_bytes = 0, bs_state = 0, bs_reason = 0, observation_attempts = 0,
     can_attach = 0, bindings_loaded = 0, bs_reserved = 0, observed_profile_id = replicate 96 (CHR 0x00),
     profile_source_digest = replicate 64 (CHR 0x00)\<rparr>"

definition valid_bootstrap_status :: "bootstrap_lifecycle_spec \<Rightarrow> nat \<Rightarrow> bootstrap_status
    \<Rightarrow> bootstrap_status option \<Rightarrow> bool" where
  "valid_bootstrap_status spec index status initialized =
    (if index \<ge> length bootstrap_call_sequence \<or> abi_major status \<noteq> SAEX_BOOTSTRAP_ABI_MAJOR
        \<or> struct_bytes status \<noteq> status_bytes \<or> can_attach status \<noteq> 0 \<or> bindings_loaded status \<noteq> 0
        \<or> bs_reserved status \<noteq> 0 \<or> profile_source_digest status \<noteq> spec_source_digest spec then False
     else let expected = zero_status\<lparr>abi_major := SAEX_BOOTSTRAP_ABI_MAJOR, struct_bytes := status_bytes,
            profile_source_digest := copy_into (spec_source_digest spec) (profile_source_digest zero_status)\<rparr> in
       if index = 1 then
         (let e1 = expected\<lparr>observation_attempts := 1\<rparr> in
          if bs_state status = BOOTSTRAP_OBSERVED_UNVERIFIED \<and> bs_reason status = BOOTSTRAP_RUNTIME_UNVERIFIED
          then e1\<lparr>bs_state := bs_state status, bs_reason := bs_reason status,
                 observed_profile_id := copy_into (spec_profile_id spec) (observed_profile_id e1)\<rparr> = status
          else if bs_state status = BOOTSTRAP_REJECTED \<and> bs_reason status \<ge> BOOTSTRAP_HOST_PATH
             \<and> bs_reason status \<le> BOOTSTRAP_INTERNAL_ERROR \<and> bs_reason status \<noteq> BOOTSTRAP_RUNTIME_UNVERIFIED
          then e1\<lparr>bs_state := bs_state status, bs_reason := bs_reason status\<rparr> = status
          else False)
       else if index > 1 then
         (case initialized of None \<Rightarrow> False
          | Some i \<Rightarrow> (if index \<ge> 4 then i\<lparr>bs_state := BOOTSTRAP_STOPPED\<rparr> else i) = status)
       else expected = status)"

section \<open>Relocation\<close>

definition fix_word :: "u32 \<Rightarrow> nat \<Rightarrow> bytes \<Rightarrow> bytes" where
  "fix_word d off b = put_word b off (get_word b off + d)"

text \<open>The offsets of the fixups of a mask, in order.\<close>

definition fixups :: "u32 \<Rightarrow> nat list" where
  "fixups hl = filter (\<lambda>off. hl AND push_bit off 1 \<noteq> 0) [0..<17]"

definition windows_apart :: "nat list \<Rightarrow> bool" where
  "windows_apart offs = sorted_wrt (\<lambda>x y. x + 4 \<le> y) offs"

lemma bit_fifteen: "bit (push_bit off (15::u32)) k \<longleftrightarrow> k < 32 \<and> off \<le> k \<and> k < off + 4"
proof -
  have "(15::u32) = mask 4" by (simp add: mask_eq_exp_minus_1)
  then show ?thesis unfolding \<open>15 = mask 4\<close> by (auto simp: bit_push_bit_iff bit_mask_iff simp del: mask_numeral)
qed

lemma relocate_loop_spec:
  assumes "sorted_wrt (<) offs" and "\<forall>o' \<in> set offs. o' < 17"
    and "\<forall>s \<in> set seen. \<forall>k. s \<le> k \<and> k < s + 4 \<longrightarrow> bit covered k" and "\<forall>s \<in> set seen. \<forall>o' \<in> set offs. s < o'"
    and "relocate_loop hl d offs covered b = Some b'"
  shows "b' = fold (fix_word d) (filter (\<lambda>off. hl AND push_bit off 1 \<noteq> 0) offs) b
    \<and> (\<forall>s \<in> set seen. \<forall>o' \<in> set (filter (\<lambda>off. hl AND push_bit off 1 \<noteq> 0) offs). s + 4 \<le> o')
    \<and> windows_apart (filter (\<lambda>off. hl AND push_bit off 1 \<noteq> 0) offs)"
  using assms
proof (induction offs arbitrary: seen covered b)
  case Nil
  then show ?case by (simp add: windows_apart_def)
next
  case (Cons off offs)
  show ?case
  proof (cases "hl AND push_bit off 1 = 0")
    case True
    then show ?thesis using Cons.IH[of seen covered b] Cons.prems by simp
  next
    case False
    have clear: "covered AND push_bit off 15 = 0"
      and run: "relocate_loop hl d offs (covered OR push_bit off 15) (fix_word d off b) = Some b'"
      using Cons.prems(5) False by (auto simp: fix_word_def split: if_splits)
    have apart: "s + 4 \<le> off" if s: "s \<in> set seen" for s
    proof (rule ccontr)
      assume "\<not> s + 4 \<le> off"
      moreover have "s < off" using Cons.prems(4) s by simp
      ultimately have "bit covered off" using Cons.prems(3) s by auto
      then have "bit (covered AND push_bit off 15) off"
        using Cons.prems(2) by (simp add: bit_and_iff bit_fifteen)
      then show False by (simp add: clear)
    qed
    have "\<forall>s \<in> set (off # seen). \<forall>k. s \<le> k \<and> k < s + 4 \<longrightarrow> bit (covered OR push_bit off 15) k"
      using Cons.prems(2,3) by (auto simp: bit_or_iff bit_fifteen)
    then have "b' = fold (fix_word d) (filter (\<lambda>off. hl AND push_bit off 1 \<noteq> 0) offs) (fix_word d off b)
      \<and> (\<forall>s \<in> set (off # seen). \<forall>o' \<in> set (filter (\<lambda>off. hl AND push_bit off 1 \<noteq> 0) offs). s + 4 \<le> o')
      \<and> windows_apart (filter (\<lambda>off. hl AND push_bit off 1 \<noteq> 0) offs)"
      by (intro Cons.IH[OF _ _ _ _ run]) (use Cons.prems in auto)
    then show ?thesis using False apart by (auto simp: windows_apart_def)
  qed
qed

text \<open>Whether the loop succeeds depends on the mask alone.\<close>

lemma relocate_loop_defined:
  "(relocate_loop hl d offs covered b = None) = (relocate_loop hl d' offs covered b' = None)"
  by (induction offs arbitrary: covered b b') auto

lemma length_fold_fix [simp]: "length (fold (fix_word d) offs b) = length b"
  by (induction offs arbitrary: b) (auto simp: fix_word_def)

lemma fold_fix_outside:
  "\<forall>o' \<in> set offs. k < o' \<or> o' + 4 \<le> k \<Longrightarrow> fold (fix_word d) offs b ! k = b ! k"
  by (induction offs arbitrary: b) (auto simp: fix_word_def nth_put_word_outside)

lemma fold_fix_word_outside:
  "\<forall>o' \<in> set offs. j + 4 \<le> o' \<or> o' + 4 \<le> j \<Longrightarrow> get_word (fold (fix_word d) offs b) j = get_word b j"
  by (induction offs arbitrary: b) (auto simp: fix_word_def get_put_word_other)

lemma fold_fix_inside:
  assumes "windows_apart offs" and "\<forall>o' \<in> set offs. o' + 4 \<le> length b" and "j \<in> set offs"
  shows "get_word (fold (fix_word d) offs b) j = get_word b j + d"
  using assms
proof (induction offs arbitrary: b)
  case (Cons off offs)
  have ap: "\<forall>o' \<in> set offs. off + 4 \<le> o'" "windows_apart offs" using Cons.prems(1) by (auto simp: windows_apart_def)
  show ?case
  proof (cases "j = off")
    case True
    then show ?thesis using ap Cons.prems(2)
      by (simp add: fold_fix_word_outside) (simp add: fix_word_def)
  next
    case False
    then have j: "j \<in> set offs" using Cons.prems(3) by simp
    have "get_word (fold (fix_word d) offs (fix_word d off b)) j = get_word (fix_word d off b) j + d"
      by (rule Cons.IH[OF ap(2) _ j]) (use Cons.prems(2) in \<open>auto simp: fix_word_def\<close>)
    also have "get_word (fix_word d off b) j = get_word b j"
      unfolding fix_word_def by (rule get_put_word_other) (use ap j in blast)
    finally show ?thesis by simp
  qed
qed simp

lemma get_word_byte:
  assumes "get_word b i = get_word c i" and "j < 4"
  shows "b ! (i + j) = c ! (i + j)"
proof (rule bit_word_eqI)
  fix k assume "k < LENGTH(8)"
  then show "bit (b ! (i + j)) k = bit (c ! (i + j)) k"
    using get_word_bit_at[OF assms(2), of k b i] get_word_bit_at[OF assms(2), of k c i] assms(1) by simp
qed

lemma fold_fix_inverse:
  assumes "windows_apart offs" and "\<forall>o' \<in> set offs. o' + 4 \<le> length b"
  shows "fold (fix_word (- d)) offs (fold (fix_word d) offs b) = b"
proof (rule nth_equalityI)
  fix k assume "k < length (fold (fix_word (- d)) offs (fold (fix_word d) offs b))"
  show "fold (fix_word (- d)) offs (fold (fix_word d) offs b) ! k = b ! k"
  proof (cases "\<exists>o' \<in> set offs. o' \<le> k \<and> k < o' + 4")
    case False
    then have "\<forall>o' \<in> set offs. k < o' \<or> o' + 4 \<le> k" by (meson not_le)
    then show ?thesis by (simp add: fold_fix_outside)
  next
    case True
    then obtain o' where o: "o' \<in> set offs" "o' \<le> k" "k < o' + 4" by blast
    have "get_word (fold (fix_word (- d)) offs (fold (fix_word d) offs b)) o' = get_word b o'"
      using assms o(1) by (simp add: fold_fix_inside)
    from get_word_byte[OF this, of "k - o'"] o(2,3) show ?thesis by simp
  qed
qed simp

lemma prefix_accepted:
  assumes "bootstrap_export_prefix spec base = Some out"
  shows "out = fold (fix_word (base - preferred_base spec)) (fixups (highlow_mask spec)) (audited_prefix spec)"
    and "windows_apart (fixups (highlow_mask spec))"
  using relocate_loop_spec[of "[0..<17]" "[]" 0 "highlow_mask spec" "base - preferred_base spec" "audited_prefix spec" out]
    assms by (auto simp: bootstrap_export_prefix_def fixups_def split: if_splits simp del: upt_rec_numeral)

lemma fixups_bound: "o' \<in> set (fixups hl) \<Longrightarrow> o' \<le> 16"
  by (auto simp: fixups_def simp del: upt_rec_numeral)

section \<open>Properties\<close>

text \<open>
  Claim C17. Relocating an audited prefix is exact and reversible: an accepted relocation keeps the
  length, adds the load delta to every 32-bit fixup word, whose windows do not overlap, changes no
  other byte, and relocating the result back to the preferred base gives the audited bytes.
\<close>

theorem prefix_relocation_exact_and_reversible:
  assumes "bootstrap_export_prefix spec base = Some out" and "length (audited_prefix spec) = 20"
    and "base \<noteq> 0" and "base mod 65536 = 0"
  shows "length out = 20
    \<and> windows_apart (fixups (highlow_mask spec))
    \<and> list_all (\<lambda>o'. get_word out o' = get_word (audited_prefix spec) o' + (base - preferred_base spec))
         (fixups (highlow_mask spec))
    \<and> (\<forall>k. list_all (\<lambda>o'. k < o' \<or> o' + 4 \<le> k) (fixups (highlow_mask spec)) \<longrightarrow> out ! k = audited_prefix spec ! k)
    \<and> bootstrap_export_prefix (spec\<lparr>audited_prefix := out, preferred_base := base\<rparr>) (preferred_base spec)
        = Some (audited_prefix spec)"
proof -
  let ?f = "fixups (highlow_mask spec)"
  note out = prefix_accepted[OF assms(1)]
  have bnd: "\<forall>o' \<in> set ?f. o' + 4 \<le> length (audited_prefix spec)" using fixups_bound assms(2) by fastforce
  have words: "list_all (\<lambda>o'. get_word out o' = get_word (audited_prefix spec) o' + (base - preferred_base spec)) ?f"
    using fold_fix_inside[OF out(2) bnd] by (simp add: out(1) list_all_iff)
  have others: "\<forall>k. list_all (\<lambda>o'. k < o' \<or> o' + 4 \<le> k) ?f \<longrightarrow> out ! k = audited_prefix spec ! k"
    by (auto simp: out(1) list_all_iff fold_fix_outside)
  let ?undo = "spec\<lparr>audited_prefix := out, preferred_base := base\<rparr>"
  have "relocate_loop (highlow_mask spec) (base - preferred_base spec) [0..<17] 0 (audited_prefix spec) \<noteq> None"
    using assms(1) by (auto simp: bootstrap_export_prefix_def split: if_splits simp del: upt_rec_numeral)
  then have "relocate_loop (highlow_mask spec) (preferred_base spec - base) [0..<17] 0 out \<noteq> None"
    by (metis relocate_loop_defined)
  then obtain r where r: "bootstrap_export_prefix ?undo (preferred_base spec) = Some r"
    using assms(1,3,4) by (auto simp: bootstrap_export_prefix_def split: if_splits simp del: upt_rec_numeral)
  have "r = fold (fix_word (- (base - preferred_base spec))) ?f out" using prefix_accepted(1)[OF r] by simp
  then have "r = audited_prefix spec" by (simp only: out(1) fold_fix_inverse[OF out(2) bnd])
  with r have "bootstrap_export_prefix ?undo (preferred_base spec) = Some (audited_prefix spec)" by simp
  then show ?thesis using out(2) words others assms(2) by (simp add: out(1))
qed

definition sample_export :: bootstrap_export_spec where
  "sample_export = \<lparr>export_rva = 0x1000, audited_prefix = [0x55, 0x8b, 0xec, 0xa1, 0x10, 0x20, 0x00, 0x10,
     0xb9, 0x30, 0x40, 0x00, 0x10, 0x90, 0x90, 0x90, 0x90, 0x90, 0x90, 0xc3],
     preferred_base = 0x10000000, highlow_mask = 0x210\<rparr>"

lemma relocate_sample: "bootstrap_export_prefix sample_export 0x20000000 = Some
    [0x55, 0x8b, 0xec, 0xa1, 0x10, 0x20, 0x00, 0x20, 0xb9, 0x30, 0x40, 0x00, 0x20, 0x90, 0x90, 0x90, 0x90, 0x90, 0x90, 0xc3]"
  by (simp add: bootstrap_export_prefix_def sample_export_def put_word_def get_word_def upt_rec)

theorem prefix_relocation_exact_and_reversible_witness:
  "bootstrap_export_prefix (sample_export\<lparr>audited_prefix := the (bootstrap_export_prefix sample_export 0x20000000),
      preferred_base := 0x20000000\<rparr>) 0x10000000 = Some (audited_prefix sample_export)"
proof -
  have "length (audited_prefix sample_export) = 20" "preferred_base sample_export = 0x10000000"
    by (simp_all add: sample_export_def)
  then show ?thesis
    using prefix_relocation_exact_and_reversible[OF relocate_sample] by (simp add: relocate_sample)
qed

text \<open>
  Claim C18. In any interleaving of any number of callers at most one is inside the session, the process is
  inspected at most once, and every status handed out is well formed: never attachable, no binding
  loaded, the profile named only after a successful inspection. Later statuses follow earlier ones:
  a stopped session stays stopped and the outcome of the inspection never changes.
\<close>

theorem concurrent_bootstrap_is_safe:
  assumes "(boot_step current_process_inspect)\<^sup>*\<^sup>* (boot_start (api, 0)) w"
  shows "(\<forall>t u. inside w t \<noteq> None \<and> inside w u \<noteq> None \<longrightarrow> t = u)
    \<and> snd (world_observation w) \<le> 1
    \<and> list_all status_wf (published w) \<and> sorted_wrt status_le (published w)"
proof -
  have inv: "world_inv snd w" by (rule current_process.reachable_world_inv[OF assms]) simp
  then have "status_wf (session_status (world_session w))"
    and att: "snd (world_observation w) = unat (observation_attempts (session_status (world_session w)))"
    by (simp_all only: world_inv_def)
  then have "observation_attempts (session_status (world_session w)) \<le> 1" by (simp only: status_wf_def)
  then have "snd (world_observation w) \<le> 1" by (simp add: att word_le_nat_alt)
  moreover have "sorted_wrt status_le (published w)" using inv by (simp add: world_inv_def sorted_wrt_append)
  moreover have "\<forall>t u. inside w t \<noteq> None \<longrightarrow> inside w u \<noteq> None \<longrightarrow> t = u" "list_all status_wf (published w)"
    by (insert inv, unfold world_inv_def, (elim conjE; assumption)+)
  ultimately show ?thesis by blast
qed

text \<open>Thread 7 stops the session while thread 3 is turned away.\<close>

definition stopped_status :: bootstrap_status where
  "stopped_status = (session_status new_session)\<lparr>bs_state := BOOTSTRAP_STOPPED,
     profile_source_digest := observed_profile_source_digest\<rparr>"

definition contended_run_end :: "(process_api \<times> nat) boot_world" where
  "contended_run_end = \<lparr>world_session = \<lparr>busy = False, session_status = stopped_status\<rparr>,
     world_observation = (sample_process, 0), inside = (\<lambda>_. None)(7 := None),
     answers = [(3, BOOTSTRAP_BUSY, None), (7, BOOTSTRAP_OK, Some stopped_status)]\<rparr>"

lemma contended_run: "(boot_step current_process_inspect)\<^sup>*\<^sup>* (boot_start (sample_process, 0)) contended_run_end"
proof -
  define w0 :: "(process_api \<times> nat) boot_world" where "w0 = boot_start (sample_process, 0)"
  define w1 where "w1 = w0\<lparr>world_session := (world_session w0)\<lparr>busy := True\<rparr>, inside := (inside w0)(7 := Some Op_stop)\<rparr>"
  define w2 where "w2 = w1\<lparr>answers := answers w1 @ [(3, BOOTSTRAP_BUSY, None)]\<rparr>"
  define w3 where "w3 = w2\<lparr>world_session := \<lparr>busy = False, session_status = stopped_status\<rparr>,
     world_observation := (sample_process, 0), inside := (inside w2)(7 := None),
     answers := answers w2 @ [(7, BOOTSTRAP_OK, Some stopped_status)]\<rparr>"
  have arg: "argument_error 1 True 192 = None"
    by (simp add: argument_error_def status_bytes_def SAEX_BOOTSTRAP_ABI_MAJOR_def)
  have s1: "boot_step current_process_inspect w0 w1"
    unfolding w1_def by (rule boot_step.enter[OF _ arg]) (simp_all add: w0_def boot_start_def new_session_def)
  have s2: "boot_step current_process_inspect w1 w2"
    unfolding w2_def by (rule boot_step.is_busy[OF _ arg]) (simp_all add: w1_def w0_def boot_start_def)
  have b: "bootstrap_body current_process_inspect Op_stop (session_status new_session) (sample_process, 0) =
      (stopped_status, (sample_process, 0))"
    by (simp add: body_stop stopped_status_def digest_copied new_session_def)
  have s3: "boot_step current_process_inspect w2 w3"
    unfolding w3_def
    by (rule boot_step.leave[where op = Op_stop]) (use b in \<open>simp_all add: w2_def w1_def w0_def boot_start_def\<close>)
  have last: "w3 = contended_run_end"
    by (simp add: w3_def w2_def w1_def w0_def boot_start_def contended_run_end_def)
  have "(boot_step current_process_inspect)\<^sup>*\<^sup>* w0 w1" using s1 by (rule r_into_rtranclp)
  from this s2 have "(boot_step current_process_inspect)\<^sup>*\<^sup>* w0 w2" by (rule rtranclp.rtrancl_into_rtrancl)
  from this s3 have "(boot_step current_process_inspect)\<^sup>*\<^sup>* w0 w3" by (rule rtranclp.rtrancl_into_rtrancl)
  then show ?thesis by (simp only: last w0_def)
qed

theorem concurrent_bootstrap_is_safe_witness:
  "(boot_step current_process_inspect)\<^sup>*\<^sup>* (boot_start (sample_process, 0)) contended_run_end
   \<and> list_all status_wf (published contended_run_end) \<and> published contended_run_end = [stopped_status]"
proof -
  have p: "published contended_run_end = [stopped_status]"
    by (simp add: contended_run_end_def published_def map_filter_def)
  show ?thesis
    using concurrent_bootstrap_is_safe[OF contended_run] contended_run by (intro conjI p) blast+
qed

section \<open>The module and its observer agree\<close>

text \<open>The experiment: one call per entry of the sequence, an index into the three exports.\<close>

definition call_export :: "nat \<Rightarrow> bootstrap_session \<Rightarrow> process_api \<times> nat
    \<Rightarrow> u32 \<times> bootstrap_status option \<times> bootstrap_session \<times> process_api \<times> nat" where
  "call_export e = (if e = 0 then SaexBootstrapInitialize else if e = 1 then SaexBootstrapQuery else SaexBootstrapStop)
     SAEX_BOOTSTRAP_ABI_MAJOR True status_bytes"

fun run_experiment :: "nat list \<Rightarrow> bootstrap_session \<Rightarrow> process_api \<times> nat
    \<Rightarrow> (u32 \<times> bootstrap_status option) list \<times> process_api \<times> nat" where
  "run_experiment [] session ob = ([], ob)"
| "run_experiment (e # es) session ob =
    (case call_export e session ob of (code, out, session', ob') \<Rightarrow>
       case run_experiment es session' ob' of (rest, ob'') \<Rightarrow> ((code, out) # rest, ob''))"

lemma call_export_idle:
  assumes "\<not> busy session"
  shows "call_export e session ob =
    (case bootstrap_body current_process_inspect (if e = 0 then Op_initialize else if e = 1 then Op_query else Op_stop)
        (session_status session) ob of (st, ob') \<Rightarrow> (BOOTSTRAP_OK, Some st, \<lparr>busy = False, session_status = st\<rparr>, ob'))"
  using assms
  by (cases session) (simp add: call_export_def SaexBootstrapInitialize_def SaexBootstrapQuery_def SaexBootstrapStop_def
      bootstrap_invoke_def argument_error_def Let_def split: prod.splits)


definition sample_lifecycle_spec :: bootstrap_lifecycle_spec where
  "sample_lifecycle_spec = \<lparr>exports = [sample_export, sample_export\<lparr>export_rva := 0x1100\<rparr>, sample_export\<lparr>export_rva := 0x1200\<rparr>],
     spec_profile_id = observed_id, spec_source_digest = observed_profile_source_digest\<rparr>"


end
