(* ===== verification/Frame_Target.thy ===== *)
theory Frame_Target
  imports Bootstrap_Lifecycle
begin

text \<open>
  \<open>frame_target.hpp/.cpp\<close>, \<open>startup_return.hpp/.cpp\<close> and \<open>crt_startup.hpp/.cpp\<close>: the first recipes of the
  loader observation. A recipe names code of the observed image by relative addresses; its
  validity check is what keeps every later read and breakpoint inside the image.

  The loader is a 32-bit program: \<open>size_t\<close> has 32 bits, except for the element counts of the
  tables, which are naturals here and never above 2048.
\<close>

section \<open>FrameTargetSpec\<close>

record frame_target_spec =
  ft_image_base :: u32
  ft_image_size :: u32
  call_rva :: u32
  target_rva :: u32
  call_bytes :: bytes
  target_prefix :: bytes

record frame_target_sample =
  sample_call :: bytes
  sample_prefix :: bytes
  sample_thread :: u32
  sample_event :: u32
  attempted :: bool
  call_read :: bool
  target_read :: bool

definition UINT32_MAX :: u32 where "UINT32_MAX = -1"

text \<open>A relative operand as a signed number, written without a signed conversion.\<close>

definition rel32 :: "u32 \<Rightarrow> int" where
  "rel32 raw = (if raw \<le> 0x7fffffff then uint raw else uint raw - 0x100000000)"

definition valid_frame_target_spec :: "frame_target_spec \<Rightarrow> bool" where
  "valid_frame_target_spec s \<longleftrightarrow>
     \<not> (ft_image_base s = 0 \<or> ft_image_base s mod 65536 \<noteq> 0 \<or> ft_image_size s < 4096
        \<or> ft_image_size s > 256 * 1024 * 1024 \<or> ft_image_base s > UINT32_MAX - ft_image_size s
        \<or> call_rva s < 4096 \<or> target_rva s < 4096
        \<or> call_rva s > ft_image_size s - 5 \<or> target_rva s > ft_image_size s - 16
        \<or> (call_rva s < target_rva s + 16 \<and> target_rva s < call_rva s + 5)
        \<or> call_bytes s ! 0 \<noteq> 0xe8)
     \<and> uint (call_rva s) + 5 + rel32 (get_word (call_bytes s) 1) = uint (target_rva s)"

definition matches_frame_target :: "frame_target_spec \<Rightarrow> frame_target_sample \<Rightarrow> bool" where
  "matches_frame_target spec sample \<longleftrightarrow> valid_frame_target_spec spec \<and> attempted sample \<and> call_read sample
     \<and> target_read sample \<and> sample_call sample = call_bytes spec \<and> sample_prefix sample = target_prefix spec"

text \<open>What the processor does with the bytes of a near call at an address.\<close>

definition near_call_target :: "u32 \<Rightarrow> bytes \<Rightarrow> u32 option" where
  "near_call_target addr code = (if code ! 0 = 0xe8 then Some (addr + 5 + get_word code 1) else None)"

lemma unat_UINT32_MAX_minus: "unat (UINT32_MAX - x) = 2 ^ 32 - 1 - unat x"
  by (simp add: UINT32_MAX_def unat_minus_one_minus)

lemma rel32_word: "word_of_int (rel32 raw) = raw"
  by (simp add: rel32_def)

lemma frame_target_bounds:
  assumes "valid_frame_target_spec s"
  shows "4096 \<le> unat (call_rva s)" "unat (call_rva s) + 5 \<le> unat (ft_image_size s)"
    "4096 \<le> unat (target_rva s)" "unat (target_rva s) + 16 \<le> unat (ft_image_size s)"
    "4096 \<le> unat (ft_image_size s)" "unat (ft_image_size s) \<le> 256 * 1024 * 1024"
    "unat (ft_image_base s) + unat (ft_image_size s) < 2 ^ 32" "ft_image_base s \<noteq> 0"
    "\<not> span_clash (call_rva s, 5) (target_rva s, 16)"
proof -
  have sz: "4096 \<le> ft_image_size s" "ft_image_size s \<le> 256 * 1024 * 1024"
    and c: "4096 \<le> call_rva s" "call_rva s \<le> ft_image_size s - 5"
    and t: "4096 \<le> target_rva s" "target_rva s \<le> ft_image_size s - 16"
    and b: "ft_image_base s \<le> UINT32_MAX - ft_image_size s"
    and cl: "\<not> (call_rva s < target_rva s + 16 \<and> target_rva s < call_rva s + 5)"
    and z: "ft_image_base s \<noteq> 0"
    using assms by (auto simp: valid_frame_target_spec_def not_less)
  show s1: "4096 \<le> unat (ft_image_size s)" "unat (ft_image_size s) \<le> 256 * 1024 * 1024"
    using sz by (simp_all add: word_le_nat_alt)
  have "5 \<le> ft_image_size s" "16 \<le> ft_image_size s" using s1 by (simp_all add: word_le_nat_alt)
  then show "unat (call_rva s) + 5 \<le> unat (ft_image_size s)" "unat (target_rva s) + 16 \<le> unat (ft_image_size s)"
    using c(2) t(2) s1 by (simp_all add: word_le_nat_alt unat_sub)
  show "4096 \<le> unat (call_rva s)" "4096 \<le> unat (target_rva s)" using c(1) t(1) by (simp_all add: word_le_nat_alt)
  show "unat (ft_image_base s) + unat (ft_image_size s) < 2 ^ 32"
    using b s1 unat_less_32[of "ft_image_base s"] by (simp add: word_le_nat_alt unat_UINT32_MAX_minus)
  show "ft_image_base s \<noteq> 0" by (rule z)
  show "\<not> span_clash (call_rva s, 5) (target_rva s, 16)" using cl by simp
qed

lemma frame_target_resolves:
  assumes "valid_frame_target_spec s"
  shows "near_call_target (ft_image_base s + call_rva s) (call_bytes s) = Some (ft_image_base s + target_rva s)"
proof -
  have op: "call_bytes s ! 0 = 0xe8" and eq: "uint (call_rva s) + 5 + rel32 (get_word (call_bytes s) 1) = uint (target_rva s)"
    using assms by (auto simp: valid_frame_target_spec_def)
  have "call_rva s + 5 + get_word (call_bytes s) 1 = target_rva s"
    using arg_cong[OF eq, of "word_of_int :: int \<Rightarrow> u32"] by (simp add: rel32_word)
  then show ?thesis using op by (simp add: near_call_target_def add.assoc)
qed

lemma frame_target_layout:
  assumes "valid_frame_target_spec s"
  shows "span_layout (unat (ft_image_size s)) [(call_rva s, 5), (target_rva s, 16)]"
proof -
  have "spans_ok (ft_image_size s) [(call_rva s, 5), (target_rva s, 16)]"
    using assms by (auto simp: valid_frame_target_spec_def spans_ok_def not_less)
  moreover have "\<forall>t \<in> set [(call_rva s, 5), (target_rva s, 16)]. snd t \<le> ft_image_size s"
    using frame_target_bounds(5)[OF assms] by (auto simp: word_le_nat_alt)
  ultimately show ?thesis by (rule spans_ok_sound)
qed

section \<open>StartupReturnSpec\<close>

record startup_return_spec =
  protect_call_rva :: u32
  protect_slot_rva :: u32
  startup_slot_rva :: u32
  forward_rva :: u32
  protect_return_prefix :: bytes
  protect_function :: bootstrap_export_spec
  startup_function :: bootstrap_export_spec
  startup_frame :: frame_target_spec

definition startup_image_protections :: "u32 list" where
  "startup_image_protections = [0x40, 0x80]"

definition valid_startup_image_protection :: "u32 \<Rightarrow> bool" where
  "valid_startup_image_protection p \<longleftrightarrow> p = startup_image_protections ! 0 \<or> p = startup_image_protections ! 1"

definition startup_spans :: "startup_return_spec \<Rightarrow> span list" where
  "startup_spans s = [(protect_call_rva s, 22), (protect_slot_rva s, 4), (startup_slot_rva s, 4), (forward_rva s, 6)]"

definition module_limit :: u32 where "module_limit = 16 * 1024 * 1024"

definition valid_startup_return_spec :: "startup_return_spec \<Rightarrow> bool" where
  "valid_startup_return_spec s \<longleftrightarrow> valid_frame_target_spec (startup_frame s)
     \<and> list_all (\<lambda>(a, n). \<not> (a = 0 \<or> a > module_limit - n)) (startup_spans s)
     \<and> disjoint_from [] (startup_spans s)
     \<and> \<not> (protect_slot_rva s mod 4 \<noteq> 0 \<or> startup_slot_rva s mod 4 \<noteq> 0)
     \<and> list_all (\<lambda>f. \<not> (export_rva f = 0 \<or> export_rva f > module_limit - 20
          \<or> bootstrap_export_prefix f (preferred_base f) = None)) [protect_function s, startup_function s]
     \<and> (export_rva (protect_function s) + 20 \<le> export_rva (startup_function s)
        \<or> export_rva (startup_function s) + 20 \<le> export_rva (protect_function s))"

section \<open>CrtStartupSpec\<close>

record crt_initializer_table =
  table_rva :: u32
  table_targets :: "u32 list"

record crt_startup_spec =
  crt_io :: frame_target_spec
  crt_initialize :: frame_target_spec
  crt_application :: frame_target_spec
  io_return_prefix :: bytes
  io_return_stack_offset :: u32
  crt_tables :: "crt_initializer_table list"

definition crt_spans :: "crt_startup_spec \<Rightarrow> span list" where
  "crt_spans s = [(call_rva (crt_io s), 21), (target_rva (crt_io s), 16),
     (call_rva (crt_initialize s), 5), (target_rva (crt_initialize s), 16),
     (call_rva (crt_application s), 5), (target_rva (crt_application s), 16)]"

definition table_span :: "crt_initializer_table \<Rightarrow> span" where
  "table_span t = (table_rva t, word_of_nat (length (table_targets t) * 4))"

text \<open>The loop over the tables: \<open>sofar\<close> entries and the spans \<open>seen\<close> come before.\<close>

fun crt_tables_ok :: "u32 \<Rightarrow> nat \<Rightarrow> span list \<Rightarrow> crt_initializer_table list \<Rightarrow> bool" where
  "crt_tables_ok sz sofar seen [] = True"
| "crt_tables_ok sz sofar seen (t # ts) =
    (\<not> (table_targets t = [] \<or> length (table_targets t) > 2048 - sofar \<or> table_rva t < 4096
        \<or> table_rva t mod 4 \<noteq> 0 \<or> table_rva t > sz
        \<or> length (table_targets t) > unat (sz - table_rva t) div 4)
     \<and> list_all (\<lambda>x. \<not> (x \<noteq> 0 \<and> (x < 4096 \<or> x \<ge> sz))) (table_targets t)
     \<and> list_all (\<lambda>u. \<not> span_clash (table_span t) u) seen
     \<and> crt_tables_ok sz (sofar + length (table_targets t)) (seen @ [table_span t]) ts)"

definition valid_crt_startup_spec :: "crt_startup_spec \<Rightarrow> bool" where
  "valid_crt_startup_spec s \<longleftrightarrow>
     \<not> (\<not> valid_frame_target_spec (crt_io s) \<or> \<not> valid_frame_target_spec (crt_initialize s)
        \<or> \<not> valid_frame_target_spec (crt_application s)
        \<or> ft_image_base (crt_io s) \<noteq> ft_image_base (crt_initialize s)
        \<or> ft_image_base (crt_io s) \<noteq> ft_image_base (crt_application s)
        \<or> ft_image_size (crt_io s) \<noteq> ft_image_size (crt_initialize s)
        \<or> ft_image_size (crt_io s) \<noteq> ft_image_size (crt_application s)
        \<or> call_rva (crt_io s) > ft_image_size (crt_io s) - 21
        \<or> io_return_stack_offset s < 16 \<or> io_return_stack_offset s > 4096 \<or> io_return_stack_offset s mod 4 \<noteq> 0
        \<or> crt_tables s = [] \<or> length (crt_tables s) > 3)
     \<and> disjoint_from [] (crt_spans s)
     \<and> crt_tables_ok (ft_image_size (crt_io s)) 0 (crt_spans s) (crt_tables s)"

lemma crt_tables_in_image:
  assumes "crt_tables_ok sz sofar seen ts" and "unat sz \<le> 256 * 1024 * 1024" and "t \<in> set ts"
  shows "4096 \<le> unat (table_rva t) \<and> unat (table_rva t) + 4 * length (table_targets t) \<le> unat sz
     \<and> unat (snd (table_span t)) = 4 * length (table_targets t)
     \<and> (\<forall>x \<in> set (table_targets t). x = 0 \<or> 4096 \<le> unat x \<and> unat x < unat sz)"
  using assms
proof (induction ts arbitrary: sofar seen)
  case (Cons u us)
  show ?case
  proof (cases "t = u")
    case False
    then show ?thesis using Cons by auto
  next
    case True
    have ok: "\<not> table_rva t < 4096" "\<not> table_rva t > sz" "\<not> length (table_targets t) > unat (sz - table_rva t) div 4"
      "list_all (\<lambda>x. \<not> (x \<noteq> 0 \<and> (x < 4096 \<or> x \<ge> sz))) (table_targets t)"
      using Cons.prems(1) True by auto
    have "unat (sz - table_rva t) = unat sz - unat (table_rva t)" using ok(2) by (intro unat_sub) simp
    then have fit: "unat (table_rva t) + 4 * length (table_targets t) \<le> unat sz"
      using ok(2,3) by (simp add: word_less_nat_alt not_less)
    have "unat (word_of_nat (length (table_targets t) * 4) :: u32) = length (table_targets t) * 4"
      by (rule unat_word_of_nat_32) (use fit Cons.prems(2) in simp)
    then show ?thesis using ok fit
      by (auto simp: table_span_def list_all_iff word_less_nat_alt word_le_nat_alt not_less not_le)
  qed
qed simp

lemma crt_tables_disjoint:
  "crt_tables_ok sz sofar seen ts \<Longrightarrow> disjoint_from seen (map table_span ts)"
  by (induction ts arbitrary: sofar seen) auto

lemma disjoint_from_append:
  "disjoint_from seen (xs @ ys) \<longleftrightarrow> disjoint_from seen xs \<and> disjoint_from (seen @ xs) ys"
  by (induction xs arbitrary: seen) auto

lemma crt_frames:
  assumes "valid_crt_startup_spec s"
  shows "valid_frame_target_spec (crt_io s)" "valid_frame_target_spec (crt_initialize s)"
    "valid_frame_target_spec (crt_application s)"
    "ft_image_size (crt_initialize s) = ft_image_size (crt_io s)" "ft_image_size (crt_application s) = ft_image_size (crt_io s)"
    "ft_image_base (crt_initialize s) = ft_image_base (crt_io s)" "ft_image_base (crt_application s) = ft_image_base (crt_io s)"
  using assms by (auto simp: valid_crt_startup_spec_def)

lemma crt_layout:
  assumes "valid_crt_startup_spec s"
  shows "span_layout (unat (ft_image_size (crt_io s))) (crt_spans s @ map table_span (crt_tables s))"
proof -
  let ?sz = "ft_image_size (crt_io s)"
  note fr = crt_frames[OF assms]
  note io = frame_target_bounds[OF fr(1)] and ini = frame_target_bounds[OF fr(2)] and app = frame_target_bounds[OF fr(3)]
  have tb: "crt_tables_ok ?sz 0 (crt_spans s) (crt_tables s)" and d0: "disjoint_from [] (crt_spans s)"
    and io21: "call_rva (crt_io s) \<le> ?sz - 21"
    using assms by (auto simp: valid_crt_startup_spec_def not_less)
  have "disjoint_from [] (crt_spans s @ map table_span (crt_tables s))"
    using d0 crt_tables_disjoint[OF tb] by (simp add: disjoint_from_append)
  moreover have "21 \<le> ?sz" using io(5) by (simp add: word_le_nat_alt)
  then have "unat (call_rva (crt_io s)) + 21 \<le> unat ?sz"
    using io21 io(5) by (simp add: word_le_nat_alt unat_sub)
  then have in_img: "4096 \<le> unat (fst t) \<and> unat (fst t) + unat (snd t) \<le> unat ?sz"
    if "t \<in> set (crt_spans s @ map table_span (crt_tables s))" for t
    using that io ini app fr(4,5) crt_tables_in_image[OF tb io(6)]
    by (auto simp: crt_spans_def table_span_def)
  ultimately have "sorted_wrt (\<lambda>s t. span_set s \<inter> span_set t = {}) ([] @ crt_spans s @ map table_span (crt_tables s))"
    using in_img by (intro disjoint_from_sound[of _ _ ?sz]) auto
  then show ?thesis using in_img by (simp add: span_layout_def)
qed

section \<open>Properties\<close>

text \<open>
  A valid frame recipe names a real call: executing the five recorded bytes at their address in
  the loaded image transfers control to the recorded target, call and target lie inside the image
  and do not overlap, and the image does not wrap around the address space.
\<close>

theorem frame_target_call_reaches_target:
  assumes "valid_frame_target_spec s"
  shows "near_call_target (ft_image_base s + call_rva s) (call_bytes s) = Some (ft_image_base s + target_rva s)
    \<and> unat (ft_image_base s) + unat (ft_image_size s) < 2 ^ 32
    \<and> span_layout (unat (ft_image_size s)) [(call_rva s, 5), (target_rva s, 16)]"
  using frame_target_resolves[OF assms] frame_target_bounds(7)[OF assms] frame_target_layout[OF assms] by blast

text \<open>The observed profile's \<open>game-process-call\<close>.\<close>

definition game_process_call :: frame_target_spec where
  "game_process_call = \<lparr>ft_image_base = 0x400000, ft_image_size = 18313216, call_rva = 1304961, target_rva = 1294048,
     call_bytes = [0xe8, 0x5a, 0xd5, 0xff, 0xff], target_prefix = replicate 16 0x90\<rparr>"

lemma game_process_call_valid: "valid_frame_target_spec game_process_call"
  by (simp add: valid_frame_target_spec_def game_process_call_def UINT32_MAX_def rel32_def get_word_def)

theorem frame_target_call_reaches_target_witness:
  "near_call_target (0x400000 + 1304961) [0xe8, 0x5a, 0xd5, 0xff, 0xff] = Some (0x400000 + 1294048)"
  using frame_target_call_reaches_target[OF game_process_call_valid] by (simp add: game_process_call_def)

text \<open>
  A valid CRT recipe lays out the image: the three call sites, their targets and every initializer
  table lie inside the one image and are pairwise disjoint, no table address or length wraps, and
  every listed initializer is zero or an address of the image.
\<close>

theorem crt_recipe_lays_out_image:
  assumes "valid_crt_startup_spec s"
  shows "span_layout (unat (ft_image_size (crt_io s))) (crt_spans s @ map table_span (crt_tables s))
    \<and> list_all (\<lambda>t. unat (snd (table_span t)) = 4 * length (table_targets t)
         \<and> list_all (\<lambda>x. x = 0 \<or> 4096 \<le> unat x \<and> unat x < unat (ft_image_size (crt_io s))) (table_targets t))
       (crt_tables s)"
proof -
  have tb: "crt_tables_ok (ft_image_size (crt_io s)) 0 (crt_spans s) (crt_tables s)"
    using assms unfolding valid_crt_startup_spec_def by blast
  show ?thesis
    using crt_layout[OF assms] crt_tables_in_image[OF tb frame_target_bounds(6)[OF crt_frames(1)[OF assms]]]
    by (simp add: list_all_iff)
qed

text \<open>A call from \<open>a\<close> forward to \<open>a + 256\<close>, in an image of 64 KiB.\<close>

definition sample_frame :: "u32 \<Rightarrow> frame_target_spec" where
  "sample_frame a = \<lparr>ft_image_base = 0x400000, ft_image_size = 0x10000, call_rva = a, target_rva = a + 256,
     call_bytes = [0xe8, 0xfb, 0, 0, 0], target_prefix = replicate 16 0x90\<rparr>"

definition sample_crt :: crt_startup_spec where
  "sample_crt = \<lparr>crt_io = sample_frame 0x1000, crt_initialize = sample_frame 0x2000, crt_application = sample_frame 0x3000,
     io_return_prefix = replicate 16 0x90, io_return_stack_offset = 16,
     crt_tables = [\<lparr>table_rva = 0x8000, table_targets = [0, 0x2100]\<rparr>, \<lparr>table_rva = 0x8008, table_targets = [0x3100]\<rparr>]\<rparr>"

lemma sample_crt_valid: "valid_crt_startup_spec sample_crt"
  by (simp add: valid_crt_startup_spec_def sample_crt_def sample_frame_def valid_frame_target_spec_def
      UINT32_MAX_def rel32_def get_word_def crt_spans_def table_span_def)

theorem crt_recipe_lays_out_image_witness:
  "valid_crt_startup_spec sample_crt
   \<and> span_layout 0x10000 (crt_spans sample_crt @ map table_span (crt_tables sample_crt))"
  using crt_recipe_lays_out_image[OF sample_crt_valid] sample_crt_valid
  by (simp add: sample_crt_def sample_frame_def)

end
