(* ===== verification/Application_Entry.thy ===== *)
theory Application_Entry
  imports Frame_Target
begin

text \<open>
  \<open>application_entry.hpp/.cpp\<close> and \<open>platform_startup.hpp/.cpp\<close>: the recipe for the re-entry stub of the
  startup module and for the prologue of the application up to its first system call.
\<close>

section \<open>ApplicationEntrySpec\<close>

record application_entry_spec =
  initializer_body :: bytes
  initializer_return :: bytes
  second_return :: bytes
  second_call_rva :: u32
  reentry_rva :: u32
  once_rva :: u32
  reentry_normalized :: bytes

definition reentry_shape :: "(nat \<times> u8) list" where
  "reentry_shape = [(0, 0x55), (1, 0x8b), (2, 0xec), (3, 0x80), (4, 0x3d), (9, 0), (10, 0x75), (11, 0x0c), (12, 0xe8),
     (17, 0xc6), (18, 0x05), (23, 1), (24, 0x5d), (25, 0xff), (26, 0x25)]"

definition application_reentry_prefix :: "application_entry_spec \<Rightarrow> u32 \<Rightarrow> u32 \<Rightarrow> bytes option" where
  "application_reentry_prefix s base slot =
    (if base = 0 \<or> base mod 65536 \<noteq> 0 \<or> slot = 0 \<or> slot > module_limit - 4 \<or> slot mod 4 \<noteq> 0
        \<or> once_rva s = 0 \<or> once_rva s \<ge> module_limit \<or> reentry_rva s = 0 \<or> reentry_rva s > module_limit - 31
        \<or> base > UINT32_MAX - module_limit
        \<or> (once_rva s \<ge> reentry_rva s \<and> once_rva s < reentry_rva s + 31) then None
     else let b = reentry_normalized s in
       if list_ex (\<lambda>(off, v). b ! off \<noteq> v) reentry_shape then None
       else if list_ex (\<lambda>at. list_ex (\<lambda>i. b ! (at + i) \<noteq> 0) [0, 1, 2, 3]) [5, 19, 27] then None
       else let target = uint (reentry_rva s) + 17 + rel32 (get_word b 13) in
         if target \<le> 0 \<or> target \<ge> 16 * 1024 * 1024
            \<or> (target \<ge> uint (reentry_rva s) \<and> target < uint (reentry_rva s) + 31) then None
         else Some (fold (\<lambda>at out. put_word out at (base + (if at = 27 then slot else once_rva s))) [5, 19, 27] b))"

definition entry_spans :: "application_entry_spec \<Rightarrow> crt_startup_spec \<Rightarrow> span list" where
  "entry_spans s crt = [(call_rva (crt_io crt), 21), (target_rva (crt_io crt), 16),
     (call_rva (crt_initialize crt), 21), (target_rva (crt_initialize crt), word_of_nat (length (initializer_body s))),
     (call_rva (crt_application crt), 5), (target_rva (crt_application crt), 16), (second_call_rva s, 22)]"

definition valid_application_entry_spec :: "application_entry_spec \<Rightarrow> crt_startup_spec \<Rightarrow> bool" where
  "valid_application_entry_spec s crt \<longleftrightarrow>
     \<not> (\<not> valid_crt_startup_spec crt \<or> length (initializer_body s) < 16 \<or> length (initializer_body s) > 256
        \<or> length (initializer_body s) > unat (ft_image_size (crt_io crt) - target_rva (crt_initialize crt))
        \<or> call_rva (crt_initialize crt) > ft_image_size (crt_io crt) - 21
        \<or> second_call_rva s < 4096 \<or> second_call_rva s > ft_image_size (crt_io crt) - 22)
     \<and> target_prefix (crt_initialize crt) = take (length (target_prefix (crt_initialize crt))) (initializer_body s)
     \<and> disjoint_from [] (entry_spans s crt)
     \<and> list_all (\<lambda>u. list_all (\<lambda>t. \<not> span_clash u (table_span t)) (crt_tables crt)) (entry_spans s crt)
     \<and> application_reentry_prefix s 0x10000000 0x1000 \<noteq> None"

section \<open>PlatformStartupSpec\<close>

record platform_startup_spec =
  prologue :: bytes
  platform_call_rva :: u32
  platform_iat_rva :: u32
  platform_stack_bytes :: u32
  platform_return_prefix :: bytes
  platform_function :: bootstrap_export_spec
  platform_module :: string

definition module_alphabet :: string where
  "module_alphabet = ''abcdefghijklmnopqrstuvwxyz0123456789_.-''"

definition valid_export_at :: "bootstrap_export_spec \<Rightarrow> bool" where
  "valid_export_at f \<longleftrightarrow> export_rva f \<noteq> 0 \<and> export_rva f < module_limit - 20 \<and> preferred_base f \<noteq> 0
     \<and> preferred_base f mod 65536 = 0 \<and> bootstrap_export_prefix f 0x10000000 \<noteq> None"

definition valid_platform_startup_spec :: "platform_startup_spec \<Rightarrow> crt_startup_spec \<Rightarrow> bool" where
  "valid_platform_startup_spec s crt \<longleftrightarrow>
     \<not> (platform_module s = [] \<or> length (platform_module s) > 127 \<or> \<not> list_all (\<lambda>c. c \<in> set module_alphabet) (platform_module s))
     \<and> \<not> (\<not> valid_crt_startup_spec crt \<or> platform_stack_bytes s \<noteq> 152 \<or> length (prologue s) < 16 \<or> length (prologue s) > 256
        \<or> length (prologue s) > unat (ft_image_size (crt_application crt) - target_rva (crt_application crt))
        \<or> platform_call_rva s \<noteq> target_rva (crt_application crt) + word_of_nat (length (prologue s))
        \<or> platform_call_rva s > ft_image_size (crt_application crt) - 22
        \<or> platform_iat_rva s < 4096 \<or> platform_iat_rva s mod 4 \<noteq> 0
        \<or> platform_iat_rva s > ft_image_size (crt_application crt) - 4
        \<or> target_prefix (crt_application crt) \<noteq> take (length (target_prefix (crt_application crt))) (prologue s))
     \<and> (let start = target_rva (crt_application crt); finish = platform_call_rva s + 22; iat = platform_iat_rva s in
        \<not> (iat < finish \<and> start < iat + 4)
        \<and> list_all (\<lambda>t. \<not> ((start < fst (table_span t) + snd (table_span t) \<and> fst (table_span t) < finish)
             \<or> (iat < fst (table_span t) + snd (table_span t) \<and> fst (table_span t) < iat + 4))) (crt_tables crt)
        \<and> list_all (\<lambda>(a, n). \<not> ((start < a + n \<and> a < finish) \<or> (iat < a + n \<and> a < iat + 4)))
            [(call_rva (crt_io crt), 21), (target_rva (crt_io crt), 16), (call_rva (crt_initialize crt), 21),
             (target_rva (crt_initialize crt), 16), (call_rva (crt_application crt), 5)])
     \<and> valid_export_at (platform_function s)"

section \<open>The re-entry stub\<close>

lemma reentry_accepted:
  assumes "application_reentry_prefix s base slot = Some out"
  shows "out = put_word (put_word (put_word (reentry_normalized s) 5 (base + once_rva s)) 19 (base + once_rva s)) 27 (base + slot)"
    and "list_all (\<lambda>(off, v). reentry_normalized s ! off = v) reentry_shape"
    and "0 < uint (reentry_rva s) + 17 + rel32 (get_word (reentry_normalized s) 13)"
    and "uint (reentry_rva s) + 17 + rel32 (get_word (reentry_normalized s) 13) < 16 * 1024 * 1024"
    and "\<not> (uint (reentry_rva s) \<le> uint (reentry_rva s) + 17 + rel32 (get_word (reentry_normalized s) 13)
       \<and> uint (reentry_rva s) + 17 + rel32 (get_word (reentry_normalized s) 13) < uint (reentry_rva s) + 31)"
  using assms by (auto simp: application_reentry_prefix_def Let_def list_all_iff list_ex_iff split: if_splits)

text \<open>
  The rebuilt re-entry stub touches exactly the recorded state: its compare and its store use the
  once-flag of the loaded module, its final jump goes through the startup slot, its call leaves for
  an address of the module outside the stub, and every other byte is the audited one.
\<close>

theorem reentry_stub_operands:
  assumes "application_reentry_prefix s base slot = Some out" and "length (reentry_normalized s) = 31"
  shows "length out = 31
    \<and> get_word out 5 = base + once_rva s \<and> get_word out 19 = base + once_rva s \<and> get_word out 27 = base + slot
    \<and> (\<exists>t. near_call_target (base + reentry_rva s + 12) (drop 12 out) = Some (base + word_of_int t)
         \<and> 0 < t \<and> t < 16 * 1024 * 1024 \<and> (t < uint (reentry_rva s) \<or> uint (reentry_rva s) + 31 \<le> t))
    \<and> list_all (\<lambda>(off, v). out ! off = v) reentry_shape
    \<and> (\<forall>k. \<not> (5 \<le> k \<and> k < 9 \<or> 19 \<le> k \<and> k < 23 \<or> 27 \<le> k \<and> k < 31) \<longrightarrow> out ! k = reentry_normalized s ! k)"
proof -
  note r = reentry_accepted[OF assms(1)]
  let ?b = "reentry_normalized s" and ?t = "uint (reentry_rva s) + 17 + rel32 (get_word (reentry_normalized s) 13)"
  have keep: "out ! k = ?b ! k" if "\<not> (5 \<le> k \<and> k < 9 \<or> 19 \<le> k \<and> k < 23 \<or> 27 \<le> k \<and> k < 31)" for k
  proof -
    have "k < 5 \<or> 5 + 4 \<le> k" "k < 19 \<or> 19 + 4 \<le> k" "k < 27 \<or> 27 + 4 \<le> k" using that by auto
    then show ?thesis by (simp only: r(1) nth_put_word_outside)
  qed
  have len: "length out = 31" by (simp add: r(1) assms(2))
  have ops: "get_word out 5 = base + once_rva s" "get_word out 19 = base + once_rva s" "get_word out 27 = base + slot"
    using assms(2) by (simp_all add: r(1) get_put_word_other)
  have raw: "get_word (drop 12 out) 1 = get_word ?b 13"
    using len by (simp add: get_word_def keep)
  have op: "drop 12 out ! 0 = 0xe8" using len r(2) by (simp add: reentry_shape_def keep)
  have "word_of_int ?t = reentry_rva s + 17 + get_word ?b 13" by (simp add: rel32_word)
  then have "near_call_target (base + reentry_rva s + 12) (drop 12 out) = Some (base + word_of_int ?t)"
    using op raw by (simp add: near_call_target_def add.assoc)
  then have call: "\<exists>t. near_call_target (base + reentry_rva s + 12) (drop 12 out) = Some (base + word_of_int t)
      \<and> 0 < t \<and> t < 16 * 1024 * 1024 \<and> (t < uint (reentry_rva s) \<or> uint (reentry_rva s) + 31 \<le> t)"
    using r(3-5) by (intro exI[of _ ?t]) auto
  have "list_all (\<lambda>(off, v). out ! off = v) reentry_shape"
    using r(2) by (simp add: reentry_shape_def keep)
  then show ?thesis using len ops call keep by blast
qed

definition sample_entry :: application_entry_spec where
  "sample_entry = \<lparr>initializer_body = replicate 16 0x90, initializer_return = replicate 16 0, second_return = replicate 16 0,
     second_call_rva = 0x5000, reentry_rva = 0x2000, once_rva = 0x3000,
     reentry_normalized = [0x55, 0x8b, 0xec, 0x80, 0x3d, 0, 0, 0, 0, 0, 0x75, 0x0c, 0xe8, 0x00, 0x01, 0, 0, 0xc6, 0x05,
       0, 0, 0, 0, 1, 0x5d, 0xff, 0x25, 0, 0, 0, 0]\<rparr>"

lemma sample_reentry: "application_reentry_prefix sample_entry 0x10000000 0x1000 =
    Some [0x55, 0x8b, 0xec, 0x80, 0x3d, 0, 0x30, 0, 0x10, 0, 0x75, 0x0c, 0xe8, 0x00, 0x01, 0, 0, 0xc6, 0x05,
       0, 0x30, 0, 0x10, 1, 0x5d, 0xff, 0x25, 0, 0x10, 0, 0x10]"
  by (simp add: application_reentry_prefix_def sample_entry_def module_limit_def UINT32_MAX_def reentry_shape_def
      rel32_def get_word_def put_word_def)

theorem reentry_stub_operands_witness:
  "get_word (the (application_reentry_prefix sample_entry 0x10000000 0x1000)) 19 = 0x10003000"
proof -
  have "length (reentry_normalized sample_entry) = 31" "once_rva sample_entry = 0x3000" by (simp_all add: sample_entry_def)
  then show ?thesis using reentry_stub_operands[OF sample_reentry] by (simp add: sample_reentry)
qed

section \<open>The executed prologue\<close>

text \<open>The code that may run: from the application's entry to the end of the checked return prefix.\<close>

definition prologue_window :: "platform_startup_spec \<Rightarrow> crt_startup_spec \<Rightarrow> span" where
  "prologue_window s crt = (target_rva (crt_application crt), word_of_nat (length (prologue s) + 22))"

definition platform_neighbours :: "crt_startup_spec \<Rightarrow> span list" where
  "platform_neighbours crt = [(call_rva (crt_io crt), 21), (target_rva (crt_io crt), 16), (call_rva (crt_initialize crt), 21),
     (target_rva (crt_initialize crt), 16), (call_rva (crt_application crt), 5)] @ map table_span (crt_tables crt)"

lemma platform_crt: "valid_platform_startup_spec s crt \<Longrightarrow> valid_crt_startup_spec crt"
  by (simp add: valid_platform_startup_spec_def)

lemma span_bounded: "span_layout sz ss \<Longrightarrow> t \<in> set ss \<Longrightarrow> 4096 \<le> unat (fst t) \<and> unat (fst t) + unat (snd t) \<le> sz"
  by (simp add: span_layout_def)

lemma platform_bounds:
  assumes "valid_platform_startup_spec s crt"
  shows "unat (fst (prologue_window s crt)) + unat (snd (prologue_window s crt)) \<le> unat (ft_image_size (crt_io crt))"
    and "fst (prologue_window s crt) + snd (prologue_window s crt) = platform_call_rva s + 22"
    and "4096 \<le> unat (platform_iat_rva s)" and "unat (platform_iat_rva s) + 4 \<le> unat (ft_image_size (crt_io crt))"
    and "platform_call_rva s = target_rva (crt_application crt) + word_of_nat (length (prologue s))"
    and "length (prologue s) \<le> 256"
    and "unat (platform_call_rva s) = unat (target_rva (crt_application crt)) + length (prologue s)"
proof -
  let ?sz = "ft_image_size (crt_io crt)" and ?n = "length (prologue s)" and ?t = "target_rva (crt_application crt)"
  note crt = platform_crt[OF assms]
  have same: "ft_image_size (crt_application crt) = ?sz" using crt_frames(5)[OF crt] .
  have g: "?n \<le> 256" "platform_call_rva s = ?t + word_of_nat ?n" "platform_call_rva s \<le> ?sz - 22"
    "4096 \<le> platform_iat_rva s" "platform_iat_rva s \<le> ?sz - 4" "?n \<le> unat (?sz - ?t)"
    using assms by (auto simp: valid_platform_startup_spec_def same not_less)
  note ap = frame_target_bounds[OF crt_frames(3)[OF crt], unfolded same]
  have sub: "unat (?sz - 22) = unat ?sz - 22" "unat (?sz - 4) = unat ?sz - 4"
    using ap(5) by (simp_all add: unat_sub word_le_nat_alt)
  have "unat (?sz - ?t) = unat ?sz - unat ?t" using ap(4) by (intro unat_sub) (simp add: word_le_nat_alt)
  then have fit: "unat ?t + ?n \<le> unat ?sz" using g(6) ap(4) by simp
  have n: "unat (word_of_nat ?n :: u32) = ?n" "unat (word_of_nat (?n + 22) :: u32) = ?n + 22"
    by (rule unat_word_of_nat_32; use g(1) in simp)+
  have "unat (platform_call_rva s) = unat ?t + ?n"
    unfolding g(2) using fit ap(6) by (simp only: unat_word_ariths n) simp
  moreover have "unat (snd (prologue_window s crt)) = ?n + 22"
    unfolding prologue_window_def snd_conv by (rule n(2))
  ultimately show "unat (fst (prologue_window s crt)) + unat (snd (prologue_window s crt)) \<le> unat ?sz"
    and "unat (platform_call_rva s) = unat ?t + ?n"
    using g(3) sub(1) ap(5) by (simp_all add: prologue_window_def word_le_nat_alt)
  show "fst (prologue_window s crt) + snd (prologue_window s crt) = platform_call_rva s + 22"
    by (simp add: prologue_window_def g(2))
  show "4096 \<le> unat (platform_iat_rva s)" "unat (platform_iat_rva s) + 4 \<le> unat ?sz"
    using g(4,5) sub(2) ap(5) by (simp_all add: word_le_nat_alt)
  show "platform_call_rva s = ?t + word_of_nat ?n" "?n \<le> 256" using g by blast+
qed

text \<open>
  A valid platform recipe isolates the code that may run: the prologue window and the import slot
  lie inside the image, do not overlap each other, and overlap no other call site, no called
  function and no initializer table; the call site follows the prologue.
\<close>

theorem platform_prologue_isolated:
  assumes "valid_platform_startup_spec s crt"
  shows "span_layout (unat (ft_image_size (crt_io crt))) [prologue_window s crt, (platform_iat_rva s, 4)]
    \<and> list_all (\<lambda>t. span_set (prologue_window s crt) \<inter> span_set t = {} \<and> span_set (platform_iat_rva s, 4) \<inter> span_set t = {})
         (platform_neighbours crt)
    \<and> unat (platform_call_rva s) = unat (target_rva (crt_application crt)) + length (prologue s)"
proof -
  let ?sz = "ft_image_size (crt_io crt)" and ?w = "prologue_window s crt" and ?i = "(platform_iat_rva s, 4 :: u32)"
  note crt = platform_crt[OF assms] and b = platform_bounds[OF assms]
  note lay = span_bounded[OF crt_layout[OF crt]]
  have w0: "4096 \<le> unat (fst ?w)"
    using frame_target_bounds(3)[OF crt_frames(3)[OF crt]] by (simp add: prologue_window_def)
  have start: "fst ?w = target_rva (crt_application crt)" by (simp add: prologue_window_def)
  let ?five = "[(call_rva (crt_io crt), 21), (target_rva (crt_io crt), 16), (call_rva (crt_initialize crt), 21),
     (target_rva (crt_initialize crt), 16), (call_rva (crt_application crt), 5 :: u32)]"
  have c: "\<not> (platform_iat_rva s < platform_call_rva s + 22 \<and> fst ?w < platform_iat_rva s + 4)"
    "list_all (\<lambda>t. \<not> ((fst ?w < fst (table_span t) + snd (table_span t) \<and> fst (table_span t) < platform_call_rva s + 22)
       \<or> (platform_iat_rva s < fst (table_span t) + snd (table_span t) \<and> fst (table_span t) < platform_iat_rva s + 4))) (crt_tables crt)"
    "list_all (\<lambda>(a, n). \<not> ((fst ?w < a + n \<and> a < platform_call_rva s + 22)
       \<or> (platform_iat_rva s < a + n \<and> a < platform_iat_rva s + 4))) ?five"
    using assms unfolding valid_platform_startup_spec_def Let_def start by blast+
  have cl0: "\<not> span_clash ?w ?i" using c(1) by (auto simp: span_clash_iff b(2))
  have cl: "\<not> span_clash ?w t \<and> \<not> span_clash ?i t" if "t \<in> set (platform_neighbours crt)" for t
  proof -
    from that consider u where "u \<in> set (crt_tables crt)" "t = table_span u" | "t \<in> set ?five"
      unfolding platform_neighbours_def by auto
    then show ?thesis
    proof cases
      case (1 u)
      then show ?thesis using c(2) by (simp add: list_all_iff span_clash_iff b(2))
    next
      case 2
      then have "(\<lambda>(a, n). \<not> ((fst ?w < a + n \<and> a < platform_call_rva s + 22)
       \<or> (platform_iat_rva s < a + n \<and> a < platform_iat_rva s + 4))) t" using c(3) by (simp only: list_all_iff)
      then show ?thesis by (simp add: span_clash_iff b(2) split: prod.splits)
    qed
  qed
  have small: "unat ?sz \<le> 256 * 1024 * 1024" by (rule frame_target_bounds(6)[OF crt_frames(1)[OF crt]])
  have mx: "unat UINT32_MAX = 2 ^ 32 - 1" using unat_UINT32_MAX_minus[of 0] by simp
  have iv: "unat (fst ?i) + unat (snd ?i) \<le> unat UINT32_MAX" using b(4) small mx by simp
  have wv: "unat (fst ?w) + unat (snd ?w) \<le> unat UINT32_MAX" using b(1) small mx by simp
  have nb: "unat (fst t) + unat (snd t) \<le> unat UINT32_MAX" if "t \<in> set (platform_neighbours crt)" for t
  proof (cases "t = (call_rva (crt_initialize crt), 21)")
    case True
    then show ?thesis
      using frame_target_bounds(2)[OF crt_frames(2)[OF crt]] crt_frames(4)[OF crt] small mx by simp
  next
    case False
    then have "t \<in> set (crt_spans crt @ map table_span (crt_tables crt))"
      using that by (auto simp: platform_neighbours_def crt_spans_def)
    from lay[OF this] show ?thesis using small mx by simp
  qed
  have apart: "span_set ?w \<inter> span_set ?i = {}" by (rule not_clash_disjoint[OF cl0 wv iv])
  have nbs: "list_all (\<lambda>t. span_set ?w \<inter> span_set t = {} \<and> span_set ?i \<inter> span_set t = {}) (platform_neighbours crt)"
    unfolding list_all_iff
    using not_clash_disjoint[OF conjunct1[OF cl] wv nb] not_clash_disjoint[OF conjunct2[OF cl] iv nb] by blast
  show ?thesis using w0 b(1,3,4) apart nbs b(7) by (simp add: span_layout_def)
qed

definition sample_platform :: platform_startup_spec where
  "sample_platform = \<lparr>prologue = replicate 16 0x90, platform_call_rva = 0x3110, platform_iat_rva = 0x9000,
     platform_stack_bytes = 152, platform_return_prefix = replicate 16 0x90, platform_function = sample_export,
     platform_module = ''user32.dll''\<rparr>"

lemma sample_platform_valid: "valid_platform_startup_spec sample_platform sample_crt"
proof -
  have e: "valid_export_at sample_export"
    by (simp add: valid_export_at_def sample_export_def module_limit_def bootstrap_export_prefix_def put_word_def get_word_def upt_rec)
  have m: "list_all (\<lambda>c. c \<in> set module_alphabet) ''user32.dll''" by (simp add: module_alphabet_def)
  show ?thesis
    using e m sample_crt_valid
    by (simp add: valid_platform_startup_spec_def sample_platform_def Let_def)
       (simp add: sample_crt_def sample_frame_def table_span_def)
qed

theorem platform_prologue_isolated_witness:
  "valid_platform_startup_spec sample_platform sample_crt
   \<and> span_layout 0x10000 [prologue_window sample_platform sample_crt, (0x9000, 4)]"
  using platform_prologue_isolated[OF sample_platform_valid] sample_platform_valid
  by (simp add: sample_crt_def sample_frame_def sample_platform_def)

end
