(* ===== verification/Platform_Suppression.thy ===== *)
theory Platform_Suppression
  imports Application_Entry
begin

text \<open>
  \<open>platform_suppression.hpp/.cpp\<close> and the \<open>WindowsSuppressionContext\<close> of \<open>loader_observation.cpp\<close>: the one
  transaction of the observer that writes to the observed thread. It skips a single reviewed call
  by rewriting the register context, verifies what it wrote, and restores on any doubt.

  A port is a state with \<open>read\<close> and \<open>write\<close>; the Windows port wraps \<open>GetThreadContext\<close> and
  \<open>SetThreadContext\<close>, which are parameters.
\<close>

record platform_suppression_spec =
  last_error_iat_rva :: u32
  last_error_function :: bootstrap_export_spec

text \<open>\<open>MOV EAX,FS:[34h]; RET\<close>\<close>

definition last_error_prefix :: bytes where
  "last_error_prefix = [0x64, 0xa1, 0x34, 0, 0, 0, 0xc3]"

definition valid_platform_suppression_spec :: "platform_suppression_spec \<Rightarrow> platform_startup_spec \<Rightarrow> crt_startup_spec \<Rightarrow> bool" where
  "valid_platform_suppression_spec s p crt \<longleftrightarrow>
     \<not> (\<not> valid_platform_startup_spec p crt \<or> last_error_iat_rva s < 4096 \<or> last_error_iat_rva s mod 4 \<noteq> 0
        \<or> last_error_iat_rva s > ft_image_size (crt_application crt) - 4
        \<or> last_error_iat_rva s = platform_iat_rva p
        \<or> (last_error_iat_rva s < platform_call_rva p + 22 \<and> target_rva (crt_application crt) < last_error_iat_rva s + 4))
     \<and> (let f = last_error_function s in
        export_rva f \<noteq> 0 \<and> export_rva f < module_limit - 20 \<and> preferred_base f \<noteq> 0 \<and> preferred_base f mod 65536 = 0
        \<and> highlow_mask f = 0 \<and> take 7 (audited_prefix f) = last_error_prefix)"

section \<open>The transaction\<close>

record suppression_registers =
  r_eip :: u32
  r_esp :: u32
  r_eax :: u32
  r_ebx :: u32
  r_ecx :: u32
  r_edx :: u32
  r_esi :: u32
  r_edi :: u32
  r_ebp :: u32
  r_flags :: u32
  r_segments :: "u32 list"
  r_debug :: "u32 list"

definition no_registers :: suppression_registers where
  "no_registers = \<lparr>r_eip = 0, r_esp = 0, r_eax = 0, r_ebx = 0, r_ecx = 0, r_edx = 0, r_esi = 0, r_edi = 0, r_ebp = 0,
     r_flags = 0, r_segments = replicate 6 0, r_debug = replicate 6 0\<rparr>"

record suppression_transaction =
  original :: suppression_registers
  replacement :: suppression_registers
  readback :: suppression_registers
  restore_readback :: suppression_registers
  failure :: string
  write_attempted :: bool
  applied :: bool
  restore_attempted :: bool
  restored :: bool

definition new_transaction :: suppression_transaction where
  "new_transaction = \<lparr>original = no_registers, replacement = no_registers, readback = no_registers,
     restore_readback = no_registers, failure = ''none'', write_attempted = False, applied = False,
     restore_attempted = False, restored = False\<rparr>"

text \<open>The operations of a port: \<open>read\<close> may fail, \<open>write\<close> reports success.\<close>

type_synonym 'p port_read = "'p \<Rightarrow> suppression_registers option \<times> 'p"
type_synonym 'p port_write = "suppression_registers \<Rightarrow> 'p \<Rightarrow> bool \<times> 'p"

definition suppression_restore :: "'p port_read \<Rightarrow> 'p port_write \<Rightarrow> suppression_transaction \<Rightarrow> 'p
    \<Rightarrow> bool \<times> suppression_transaction \<times> 'p" where
  "suppression_restore rd wr t p =
    (if \<not> write_attempted t \<or> restore_attempted t then (False, t, p)
     else let t1 = t\<lparr>restore_attempted := True\<rparr>;
              target = (original t)\<lparr>r_debug := (r_debug (original t))[4 := 0]\<rparr>;
              (wrote, p1) = wr target p in
       if \<not> wrote then (False, t1\<lparr>restored := False\<rparr>, p1)
       else case rd p1 of
           (None, p2) \<Rightarrow> (False, t1\<lparr>restored := False\<rparr>, p2)
         | (Some r, p2) \<Rightarrow> (r = target, t1\<lparr>restore_readback := r, restored := (r = target)\<rparr>, p2))"

definition suppression_precondition :: "suppression_registers \<Rightarrow> u32 \<Rightarrow> bool" where
  "suppression_precondition expected call_address \<longleftrightarrow>
     \<not> (call_address = 0 \<or> call_address > UINT32_MAX - 6 \<or> r_eip expected \<noteq> call_address
        \<or> r_esp expected < 4096 \<or> r_esp expected mod 4 \<noteq> 0 \<or> r_esp expected > UINT32_MAX - 16
        \<or> r_flags expected AND 0x500 \<noteq> 0 \<or> r_debug expected ! 0 \<noteq> call_address \<or> r_debug expected ! 4 \<noteq> 1
        \<or> r_debug expected ! 5 AND 0xffff20ff \<noteq> 0x00d00015)"

text \<open>The context after the skipped call: past its six bytes, its four arguments popped, result zero.\<close>

definition suppressed :: "suppression_registers \<Rightarrow> u32 \<Rightarrow> suppression_registers" where
  "suppressed r call_address = r\<lparr>r_eip := call_address + 6, r_esp := r_esp r + 16, r_eax := 0,
     r_flags := r_flags r AND NOT 0x10000, r_debug := (r_debug r)[0 := call_address + 6, 4 := 0]\<rparr>"

definition suppression_apply :: "'p port_read \<Rightarrow> 'p port_write \<Rightarrow> suppression_registers \<Rightarrow> u32
    \<Rightarrow> suppression_transaction \<Rightarrow> 'p \<Rightarrow> bool \<times> suppression_transaction \<times> 'p" where
  "suppression_apply rd wr expected call_address t p =
    (if write_attempted t \<or> restore_attempted t \<or> failure t \<noteq> ''none'' then (False, t, p)
     else if \<not> suppression_precondition expected call_address then (False, t\<lparr>failure := ''precondition''\<rparr>, p)
     else case rd p of
       (None, p1) \<Rightarrow> (False, t\<lparr>failure := ''initial_read''\<rparr>, p1)
     | (Some current, p1) \<Rightarrow>
         if current \<noteq> expected then (False, t\<lparr>failure := ''stale_context''\<rparr>, p1)
         else let t1 = t\<lparr>original := current, replacement := suppressed current call_address, write_attempted := True\<rparr>;
                  (wrote, p2) = wr (replacement t1) p1;
                  (t2, p3) = (if \<not> wrote then (t1\<lparr>failure := ''write''\<rparr>, p2)
                     else case rd p2 of
                         (None, p3) \<Rightarrow> (t1\<lparr>failure := ''readback''\<rparr>, p3)
                       | (Some r, p3) \<Rightarrow> if r \<noteq> replacement t1 then (t1\<lparr>readback := r, failure := ''readback_mismatch''\<rparr>, p3)
                           else (t1\<lparr>readback := r\<rparr>, p3)) in
              if failure t2 \<noteq> ''none'' then (case suppression_restore rd wr t2 p3 of (_, t3, p4) \<Rightarrow> (False, t3, p4))
              else (True, t2\<lparr>applied := True\<rparr>, p3))"

section \<open>The interface SuppressionContextPort\<close>

text \<open>
  Reading yields the registers the port holds and leaves them alone; a write that fails may have
  done anything. \<open>held\<close> is what a read would return.
\<close>

locale suppression_port =
  fixes rd :: "'p port_read" and wr :: "'p port_write" and held :: "'p \<Rightarrow> suppression_registers option"
  assumes read_law: "rd p = (held p, p)"
begin

lemma restore_result:
  assumes "suppression_restore rd wr t p = (ok, t', p')" and "write_attempted t" and "\<not> restore_attempted t"
  shows "restore_attempted t'" and "write_attempted t'" and "failure t' = failure t" and "applied t' = applied t"
    and "ok = restored t'" and "original t' = original t"
    and "restored t' \<Longrightarrow> held p' = Some ((original t)\<lparr>r_debug := (r_debug (original t))[4 := 0]\<rparr>)"
  using assms by (auto simp: suppression_restore_def Let_def read_law split: if_splits prod.splits option.splits)

lemma restore_once:
  "restore_attempted t \<or> \<not> write_attempted t \<Longrightarrow> suppression_restore rd wr t p = (False, t, p)"
  by (auto simp: suppression_restore_def)

lemma apply_result:
  assumes "suppression_apply rd wr expected call_address t p = (ok, t', p')"
    and "t = new_transaction"
  shows "ok \<Longrightarrow> held p = Some expected \<and> suppression_precondition expected call_address
           \<and> held p' = Some (suppressed expected call_address) \<and> original t' = expected
           \<and> applied t' \<and> write_attempted t' \<and> \<not> restore_attempted t' \<and> failure t' = ''none''"
    and "\<not> ok \<Longrightarrow> failure t' \<noteq> ''none'' \<and> \<not> applied t'
           \<and> (if write_attempted t' then restore_attempted t' \<and> original t' = expected
                \<and> (restored t' \<longrightarrow> held p' = Some (expected\<lparr>r_debug := (r_debug expected)[4 := 0]\<rparr>))
              else p' = p)"
  using assms(1) unfolding assms(2)
  by (auto simp: suppression_apply_def suppression_restore_def new_transaction_def Let_def read_law
      split: if_splits prod.splits option.splits)

lemma apply_once:
  "write_attempted t \<or> restore_attempted t \<or> failure t \<noteq> ''none'' \<Longrightarrow>
     suppression_apply rd wr expected call_address t p = (False, t, p)"
  by (auto simp: suppression_apply_def)

end

section \<open>WindowsSuppressionContext\<close>

record thread_context =
  c_eip :: u32
  c_esp :: u32
  c_eax :: u32
  c_ebx :: u32
  c_ecx :: u32
  c_edx :: u32
  c_esi :: u32
  c_edi :: u32
  c_ebp :: u32
  c_eflags :: u32
  c_cs :: u32
  c_ss :: u32
  c_ds :: u32
  c_es :: u32
  c_fs :: u32
  c_gs :: u32
  c_dr :: "u32 list"

text \<open>\<open>get\<close> is \<open>GetThreadContext\<close> on the thread, \<open>st\<close> its state.\<close>

definition windows_read :: "('c \<Rightarrow> thread_context option) \<Rightarrow> 'c port_read" where
  "windows_read get st = (case get st of None \<Rightarrow> (None, st) | Some c \<Rightarrow>
     (Some \<lparr>r_eip = c_eip c, r_esp = c_esp c, r_eax = c_eax c, r_ebx = c_ebx c, r_ecx = c_ecx c, r_edx = c_edx c,
        r_esi = c_esi c, r_edi = c_edi c, r_ebp = c_ebp c, r_flags = c_eflags c AND NOT 2,
        r_segments = [c_cs c, c_ss c, c_ds c, c_es c, c_fs c, c_gs c],
        r_debug = [c_dr c ! 0, c_dr c ! 1, c_dr c ! 2, c_dr c ! 3, c_dr c ! 4 AND 0xe00f, c_dr c ! 5]\<rparr>, st))"

text \<open>The structure is zeroed first, so the segment fields that are not set are zero.\<close>

definition windows_write :: "(thread_context \<Rightarrow> 'c \<Rightarrow> bool \<times> 'c) \<Rightarrow> 'c port_write" where
  "windows_write set_context r st = set_context
     \<lparr>c_eip = r_eip r, c_esp = r_esp r, c_eax = r_eax r, c_ebx = r_ebx r, c_ecx = r_ecx r, c_edx = r_edx r,
      c_esi = r_esi r, c_edi = r_edi r, c_ebp = r_ebp r, c_eflags = r_flags r OR 2,
      c_cs = r_segments r ! 0, c_ss = r_segments r ! 1, c_ds = 0, c_es = 0, c_fs = 0, c_gs = 0,
      c_dr = [r_debug r ! 0, r_debug r ! 1, r_debug r ! 2, r_debug r ! 3, r_debug r ! 4, r_debug r ! 5]\<rparr> st"

interpretation windows_port: suppression_port "windows_read get" "windows_write set_context" "\<lambda>st. fst (windows_read get st)"
  for get :: "'c \<Rightarrow> thread_context option" and set_context
  by unfold_locales (auto simp: windows_read_def split: option.splits)

section \<open>Properties\<close>

text \<open>
  Claim C24. The suppression transaction on the Windows thread context is safe whatever the system calls do. If it
  succeeds, the thread held exactly the expected context and now holds that context advanced past
  the call. If it fails before writing, nothing was touched; if it fails after writing, a restore
  was attempted, and a restore reported as done left the original context with the event bits
  cleared. A used transaction does nothing more.
\<close>

theorem suppression_is_all_or_restored:
  assumes "suppression_apply (windows_read get) (windows_write set_context) expected call_address new_transaction st = (ok, t, st')"
  shows "(if ok then fst (windows_read get st) = Some expected
          \<and> fst (windows_read get st') = Some (suppressed expected call_address) \<and> applied t \<and> failure t = ''none''
        else failure t \<noteq> ''none'' \<and> \<not> applied t
          \<and> (if write_attempted t then restore_attempted t
               \<and> (\<not> restored t \<or> fst (windows_read get st') = Some (expected\<lparr>r_debug := (r_debug expected)[4 := 0]\<rparr>))
             else st' = st))
     \<and> suppression_apply (windows_read get) (windows_write set_context) expected' call_address' t st' = (False, t, st')"
proof (cases ok)
  case True
  note a = windows_port.apply_result(1)[OF assms refl True]
  have "suppression_apply (windows_read get) (windows_write set_context) expected' call_address' t st' = (False, t, st')"
    by (rule windows_port.apply_once) (use a in blast)
  then show ?thesis using a True by simp
next
  case False
  note a = windows_port.apply_result(2)[OF assms refl False]
  have "suppression_apply (windows_read get) (windows_write set_context) expected' call_address' t st' = (False, t, st')"
    by (rule windows_port.apply_once) (use a in blast)
  then show ?thesis using a False by (auto split: if_splits)
qed

text \<open>A thread stopped by its execution breakpoint at the reviewed call.\<close>

definition stopped_thread :: thread_context where
  "stopped_thread = \<lparr>c_eip = 0x403110, c_esp = 0x19fe00, c_eax = 5, c_ebx = 0, c_ecx = 1, c_edx = 2, c_esi = 0, c_edi = 24,
     c_ebp = 0x19ff00, c_eflags = 0x10246, c_cs = 0x23, c_ss = 0x2b, c_ds = 0x2b, c_es = 0x2b, c_fs = 0x53, c_gs = 0x2b,
     c_dr = [0x403110, 0, 0, 0, 1, 0x00d00015]\<rparr>"

text \<open>A system call that stores the control, integer and debug groups and keeps the other segments.\<close>

definition store_context :: "thread_context \<Rightarrow> thread_context \<Rightarrow> bool \<times> thread_context" where
  "store_context new old = (True, new\<lparr>c_ds := c_ds old, c_es := c_es old, c_fs := c_fs old, c_gs := c_gs old\<rparr>)"

definition expected_stop :: suppression_registers where
  "expected_stop = the (fst (windows_read Some stopped_thread))"

lemma expected_stop_eq:
  "expected_stop = \<lparr>r_eip = 0x403110, r_esp = 0x19fe00, r_eax = 5, r_ebx = 0, r_ecx = 1, r_edx = 2, r_esi = 0, r_edi = 24,
     r_ebp = 0x19ff00, r_flags = 0x10244, r_segments = [0x23, 0x2b, 0x2b, 0x2b, 0x53, 0x2b],
     r_debug = [0x403110, 0, 0, 0, 1, 0x00d00015]\<rparr>"
  by (simp add: expected_stop_def windows_read_def stopped_thread_def)

lemma suppression_succeeds:
  "fst (suppression_apply (windows_read Some) (windows_write store_context) expected_stop 0x403110 new_transaction stopped_thread)"
  by (simp add: suppression_apply_def suppression_precondition_def suppressed_def expected_stop_eq new_transaction_def
      windows_read_def windows_write_def stopped_thread_def store_context_def UINT32_MAX_def Let_def)

theorem suppression_is_all_or_restored_witness:
  "\<exists>t st'. suppression_apply (windows_read Some) (windows_write store_context) expected_stop 0x403110 new_transaction stopped_thread
       = (True, t, st') \<and> fst (windows_read Some st') = Some (suppressed expected_stop 0x403110) \<and> applied t"
proof -
  obtain t st' where a: "suppression_apply (windows_read Some) (windows_write store_context) expected_stop 0x403110
      new_transaction stopped_thread = (True, t, st')"
    using suppression_succeeds by (metis (full_types) prod.collapse)
  show ?thesis using suppression_is_all_or_restored[OF a] a by auto
qed

end
