(* ===== verification/Instance_Startup.thy ===== *)
theory Instance_Startup
  imports Platform_Suppression
begin

text \<open>
  \<open>instance_startup.hpp/.cpp\<close>: the recipe of the single-instance check, a 91-byte function whose nine
  absolute operands are rebuilt at the base the image is loaded at.
\<close>

record instance_startup_spec =
  is_caller :: frame_target_spec
  normalized_body :: bytes
  body_address_rvas :: "u32 list"
  name_rva :: u32
  create_thunk_rva :: u32
  create_thunk_slot_rva :: u32
  is_name :: string
  create_function :: bootstrap_export_spec

definition instance_address_offsets :: "nat list" where
  "instance_address_offsets = [1, 14, 20, 33, 39, 47, 58, 69, 78]"

text \<open>The loop over the operands: each must be zero in the recipe and name an address of the image.\<close>

fun place_addresses :: "u32 \<Rightarrow> u32 \<Rightarrow> (nat \<times> u32) list \<Rightarrow> bytes \<Rightarrow> bytes option" where
  "place_addresses base sz [] b = Some b"
| "place_addresses base sz ((off, rva) # rest) b =
    (if rva < 4096 \<or> rva > sz - 4 then None
     else if list_ex (\<lambda>j. b ! (off + j) \<noteq> 0) [0, 1, 2, 3] then None
     else place_addresses base sz rest (put_word b off (base + rva)))"

definition instance_body :: "instance_startup_spec \<Rightarrow> u32 \<Rightarrow> bytes option" where
  "instance_body s base =
    (if ft_image_size (is_caller s) < 4096 \<or> base = 0 \<or> base mod 65536 \<noteq> 0
        \<or> base > UINT32_MAX - ft_image_size (is_caller s) then None
     else place_addresses base (ft_image_size (is_caller s)) (zip instance_address_offsets (body_address_rvas s)) (normalized_body s))"

definition instance_shape :: bytes where
  "instance_shape = [0xa1,0,0,0,0,0x50,0x6a,1,0x6a,0,0x6a,0,0xff,0x15,0,0,0,0,
     0xff,0x15,0,0,0,0,0x3d,0xb7,0,0,0,0x75,0x39,0x8b,0x0d,0,0,0,0,0x8b,0x15,0,0,0,0,0x51,0x52,
     0xff,0x15,0,0,0,0,0x85,0xc0,0x74,0x0d,0x50,0xff,0x15,0,0,0,0,0xb8,1,0,0,0,0xc3,
     0xa1,0,0,0,0,0x8b,8,0x51,0xff,0x15,0,0,0,0,0xb8,1,0,0,0,0xc3,0x33,0xc0,0xc3]"

definition valid_instance_startup_spec :: "instance_startup_spec \<Rightarrow> platform_startup_spec \<Rightarrow> crt_startup_spec
    \<Rightarrow> platform_suppression_spec \<Rightarrow> bool" where
  "valid_instance_startup_spec s p crt suppression \<longleftrightarrow>
     \<not> (\<not> valid_platform_suppression_spec suppression p crt \<or> \<not> valid_frame_target_spec (is_caller s)
        \<or> ft_image_base (is_caller s) \<noteq> ft_image_base (crt_application crt)
        \<or> ft_image_size (is_caller s) \<noteq> ft_image_size (crt_application crt)
        \<or> call_rva (is_caller s) \<noteq> platform_call_rva p + 6
        \<or> target_rva (is_caller s) > ft_image_size (is_caller s) - 91
        \<or> is_name s = [] \<or> length (is_name s) > 96 \<or> name_rva s < 4096
        \<or> name_rva s > ft_image_size (is_caller s) - word_of_nat (length (is_name s)) - 1
        \<or> \<not> list_all (\<lambda>c. of_char c \<ge> (32::int) \<and> of_char c \<le> (126::int)) (is_name s)
        \<or> body_address_rvas s ! 2 \<noteq> last_error_iat_rva suppression
        \<or> body_address_rvas s ! 0 \<noteq> body_address_rvas s ! 4
        \<or> body_address_rvas s ! 6 \<noteq> body_address_rvas s ! 8)
     \<and> list_all (\<lambda>v. v mod 4 = 0) (body_address_rvas s)
     \<and> (let first = target_rva (is_caller s); finish = target_rva (is_caller s) + 91 in
        \<not> (first < platform_call_rva p + 22 \<and> target_rva (crt_application crt) < finish)
        \<and> list_all (\<lambda>v. \<not> (v < finish \<and> first < v + 4)) (body_address_rvas s)
        \<and> \<not> (name_rva s < finish \<and> first < name_rva s + word_of_nat (length (is_name s)) + 1))
     \<and> \<not> (export_rva (create_function s) = 0 \<or> export_rva (create_function s) \<ge> module_limit - 20
        \<or> preferred_base (create_function s) = 0 \<or> preferred_base (create_function s) mod 65536 \<noteq> 0
        \<or> bootstrap_export_prefix (create_function s) 0x10000000 = None)
     \<and> \<not> (create_thunk_rva s < 4096 \<or> create_thunk_rva s > module_limit - 6
        \<or> create_thunk_slot_rva s < 4096 \<or> create_thunk_slot_rva s mod 4 \<noteq> 0 \<or> create_thunk_slot_rva s > module_limit - 4
        \<or> (create_thunk_rva s < create_thunk_slot_rva s + 4 \<and> create_thunk_slot_rva s < create_thunk_rva s + 6)
        \<or> highlow_mask (create_function s) \<noteq> 0)
     \<and> normalized_body s = instance_shape
     \<and> (case instance_body s (ft_image_base (is_caller s)) of None \<Rightarrow> False
        | Some expected \<Rightarrow> target_prefix (is_caller s) = take (length (target_prefix (is_caller s))) expected)"

section \<open>Operand placement\<close>

definition offsets_apart :: "nat list \<Rightarrow> bool" where
  "offsets_apart offs \<longleftrightarrow> sorted_wrt (\<lambda>x y. x + 4 \<le> y) offs"

lemma place_addresses_spec:
  assumes "place_addresses base sz ps b = Some out" and "offsets_apart (map fst ps)"
    and "\<forall>p \<in> set ps. fst p + 4 \<le> length b"
  shows "length out = length b
    \<and> (\<forall>k. (\<forall>p \<in> set ps. k < fst p \<or> fst p + 4 \<le> k) \<longrightarrow> out ! k = b ! k)
    \<and> (\<forall>p \<in> set ps. get_word out (fst p) = base + snd p \<and> 4096 \<le> snd p \<and> snd p \<le> sz - 4)
    \<and> (\<forall>j. (\<forall>p \<in> set ps. j + 4 \<le> fst p \<or> fst p + 4 \<le> j) \<longrightarrow> get_word out j = get_word b j)"
  using assms
proof (induction ps arbitrary: b)
  case (Cons p ps)
  obtain off rva where p: "p = (off, rva)" by fastforce
  have g: "4096 \<le> rva" "rva \<le> sz - 4" and run: "place_addresses base sz ps (put_word b off (base + rva)) = Some out"
    using Cons.prems(1) by (auto simp: p split: if_splits)
  have ap: "\<forall>q \<in> set ps. off + 4 \<le> fst q" "offsets_apart (map fst ps)"
    using Cons.prems(2) by (auto simp: p offsets_apart_def)
  have IH: "length out = length (put_word b off (base + rva))
    \<and> (\<forall>k. (\<forall>q \<in> set ps. k < fst q \<or> fst q + 4 \<le> k) \<longrightarrow> out ! k = put_word b off (base + rva) ! k)
    \<and> (\<forall>q \<in> set ps. get_word out (fst q) = base + snd q \<and> 4096 \<le> snd q \<and> snd q \<le> sz - 4)
    \<and> (\<forall>j. (\<forall>q \<in> set ps. j + 4 \<le> fst q \<or> fst q + 4 \<le> j) \<longrightarrow> get_word out j = get_word (put_word b off (base + rva)) j)"
    by (rule Cons.IH[OF run ap(2)]) (use Cons.prems(3) in simp)
  have here: "get_word out off = base + rva"
  proof -
    have "get_word out off = get_word (put_word b off (base + rva)) off" using IH ap(1) by auto
    then show ?thesis using Cons.prems(3) by (simp add: p)
  qed
  show ?case using IH here g by (auto simp: p nth_put_word_outside get_put_word_other)
qed simp

lemma instance_parents:
  assumes "valid_instance_startup_spec s p crt suppression"
  shows "valid_platform_suppression_spec suppression p crt" "valid_frame_target_spec (is_caller s)"
    "ft_image_size (is_caller s) = ft_image_size (crt_application crt)" "ft_image_base (is_caller s) = ft_image_base (crt_application crt)"
  using assms unfolding valid_instance_startup_spec_def by blast+

lemma suppression_platform: "valid_platform_suppression_spec s p crt \<Longrightarrow> valid_platform_startup_spec p crt"
  unfolding valid_platform_suppression_spec_def by blast

text \<open>
  Claim C25. At whatever base the image is loaded, the rebuilt instance check is the audited body with each of
  its nine operands replaced by the loaded address of its image location, which lies inside the
  image; no other byte of the code graph changes.
\<close>

theorem instance_body_relocates_operands:
  assumes "valid_instance_startup_spec s p crt suppression" and "instance_body s base = Some out"
    and "length (body_address_rvas s) = 9"
  shows "length out = 91
    \<and> (\<forall>i < 9. get_word out (instance_address_offsets ! i) = base + body_address_rvas s ! i
         \<and> 4096 \<le> unat (body_address_rvas s ! i)
         \<and> unat (body_address_rvas s ! i) + 4 \<le> unat (ft_image_size (is_caller s)))
    \<and> (\<forall>k. (\<forall>i < 9. k < instance_address_offsets ! i \<or> instance_address_offsets ! i + 4 \<le> k) \<longrightarrow> out ! k = instance_shape ! k)"
proof -
  let ?sz = "ft_image_size (is_caller s)" and ?ps = "zip instance_address_offsets (body_address_rvas s)"
  have body: "normalized_body s = instance_shape" using assms(1) unfolding valid_instance_startup_spec_def by blast
  have len: "length instance_shape = 91" by (simp add: instance_shape_def)
  have n9: "length instance_address_offsets = 9" by (simp add: instance_address_offsets_def)
  have run: "place_addresses base ?sz ?ps instance_shape = Some out"
    using assms(2) by (simp add: instance_body_def body split: if_splits)
  have fsts: "map fst ?ps = instance_address_offsets" using n9 assms(3) by simp
  have ap: "offsets_apart (map fst ?ps)" unfolding fsts by (simp add: offsets_apart_def instance_address_offsets_def)
  have "\<forall>q \<in> set instance_address_offsets. q + 4 \<le> 91" by (simp add: instance_address_offsets_def)
  then have bnd: "\<forall>q \<in> set ?ps. fst q + 4 \<le> length instance_shape" unfolding len by (auto dest: set_zip_leftD)
  note spec = place_addresses_spec[OF run ap bnd]
  have sub: "unat (?sz - 4) = unat ?sz - 4"
    using frame_target_bounds(5)[OF instance_parents(2)[OF assms(1)]] by (simp add: unat_sub word_le_nat_alt)
  have each: "get_word out (instance_address_offsets ! i) = base + body_address_rvas s ! i
         \<and> 4096 \<le> unat (body_address_rvas s ! i) \<and> unat (body_address_rvas s ! i) + 4 \<le> unat ?sz" if "i < 9" for i
  proof -
    have "(instance_address_offsets ! i, body_address_rvas s ! i) \<in> set ?ps"
      using that n9 assms(3) by (auto simp: set_zip)
    then have "get_word out (instance_address_offsets ! i) = base + body_address_rvas s ! i \<and> 4096 \<le> body_address_rvas s ! i
        \<and> body_address_rvas s ! i \<le> ?sz - 4" using spec by fastforce
    then have g: "get_word out (instance_address_offsets ! i) = base + body_address_rvas s ! i"
      and lo: "4096 \<le> unat (body_address_rvas s ! i)" and hi: "unat (body_address_rvas s ! i) \<le> unat ?sz - 4"
      unfolding word_le_nat_alt sub by simp_all
    from hi frame_target_bounds(5)[OF instance_parents(2)[OF assms(1)]]
    have "unat (body_address_rvas s ! i) + 4 \<le> unat ?sz" by linarith
    with g lo show ?thesis by blast
  qed
  have others: "out ! k = instance_shape ! k"
    if "\<forall>i < 9. k < instance_address_offsets ! i \<or> instance_address_offsets ! i + 4 \<le> k" for k
  proof -
    have "\<forall>q \<in> set ?ps. k < fst q \<or> fst q + 4 \<le> k" using that n9 assms(3) by (auto simp: set_zip)
    then show ?thesis using spec by blast
  qed
  show ?thesis using spec len each others by simp
qed

definition sample_suppression :: platform_suppression_spec where
  "sample_suppression = \<lparr>last_error_iat_rva = 0x9010, last_error_function = sample_export\<lparr>highlow_mask := 0,
     audited_prefix := last_error_prefix @ replicate 13 0x90\<rparr>\<rparr>"

lemma sample_suppression_valid: "valid_platform_suppression_spec sample_suppression sample_platform sample_crt"
  using sample_platform_valid
  by (simp add: valid_platform_suppression_spec_def sample_suppression_def sample_export_def module_limit_def last_error_prefix_def Let_def)
     (simp add: sample_crt_def sample_frame_def sample_platform_def)

definition sample_instance :: instance_startup_spec where
  "sample_instance = \<lparr>is_caller = \<lparr>ft_image_base = 0x400000, ft_image_size = 0x10000, call_rva = 0x3116, target_rva = 0x4000,
       call_bytes = [0xe8, 0xe5, 0x0e, 0, 0], target_prefix = [0xa1, 0, 0xa0, 0x40, 0, 0x50, 0x6a, 1, 0x6a, 0, 0x6a, 0, 0xff, 0x15, 4, 0xa0]\<rparr>,
     normalized_body = instance_shape,
     body_address_rvas = [0xa000, 0xa004, 0x9010, 0xa008, 0xa000, 0xa00c, 0xa010, 0xa014, 0xa010],
     name_rva = 0xb000, create_thunk_rva = 0x2000, create_thunk_slot_rva = 0x3000, is_name = ''instance'',
     create_function = sample_export\<lparr>highlow_mask := 0\<rparr>\<rparr>"

lemma sample_instance_body:
  "instance_body sample_instance 0x400000 = Some [0xa1, 0, 0xa0, 0x40, 0, 0x50, 0x6a, 1, 0x6a, 0, 0x6a, 0, 0xff, 0x15, 4, 0xa0, 0x40, 0,
     0xff, 0x15, 0x10, 0x90, 0x40, 0, 0x3d, 0xb7, 0, 0, 0, 0x75, 0x39, 0x8b, 0x0d, 8, 0xa0, 0x40, 0, 0x8b, 0x15, 0, 0xa0, 0x40, 0, 0x51, 0x52,
     0xff, 0x15, 0x0c, 0xa0, 0x40, 0, 0x85, 0xc0, 0x74, 0x0d, 0x50, 0xff, 0x15, 0x10, 0xa0, 0x40, 0, 0xb8, 1, 0, 0, 0, 0xc3,
     0xa1, 0x14, 0xa0, 0x40, 0, 0x8b, 8, 0x51, 0xff, 0x15, 0x10, 0xa0, 0x40, 0, 0xb8, 1, 0, 0, 0, 0xc3, 0x33, 0xc0, 0xc3]"
  by (simp add: instance_body_def sample_instance_def instance_address_offsets_def instance_shape_def put_word_def UINT32_MAX_def)

lemma sample_instance_valid: "valid_instance_startup_spec sample_instance sample_platform sample_crt sample_suppression"
proof -
  have f: "valid_frame_target_spec (is_caller sample_instance)"
    by (simp add: valid_frame_target_spec_def sample_instance_def UINT32_MAX_def rel32_def get_word_def)
  have e: "bootstrap_export_prefix (create_function sample_instance) 0x10000000 \<noteq> None"
    by (simp add: sample_instance_def sample_export_def bootstrap_export_prefix_def upt_rec)
  have b: "case instance_body sample_instance (ft_image_base (is_caller sample_instance)) of None \<Rightarrow> False
        | Some expected \<Rightarrow> target_prefix (is_caller sample_instance) = take (length (target_prefix (is_caller sample_instance))) expected"
  proof -
    have "ft_image_base (is_caller sample_instance) = 0x400000" by (simp add: sample_instance_def)
    then show ?thesis by (simp only: sample_instance_body option.case) (simp add: sample_instance_def)
  qed
  show ?thesis
    unfolding valid_instance_startup_spec_def
    using sample_suppression_valid f e b
    by (simp add: sample_instance_def sample_export_def module_limit_def Let_def sample_crt_def sample_frame_def sample_platform_def
        sample_suppression_def)
qed

theorem instance_body_relocates_operands_witness:
  "valid_instance_startup_spec sample_instance sample_platform sample_crt sample_suppression
   \<and> length (the (instance_body sample_instance 0x400000)) = 91"
proof -
  have "length (body_address_rvas sample_instance) = 9" by (simp add: sample_instance_def)
  from instance_body_relocates_operands[OF sample_instance_valid sample_instance_body this] show ?thesis
    using sample_instance_valid by (simp only: sample_instance_body option.sel)
qed

end
