(* ===== verification/X86_Reference.thy ===== *)
theory X86_Reference
  imports Prelude
begin

text \<open>
  An independent reference for the processor the recipes talk about: the status flags of 32-bit
  arithmetic and logic, and a decoder and step function for the instructions the audited code
  consists of. It models no file of the repository; the component theories run the audited bytes
  on it and compare the states it reaches with the frame predicates of the sources.

  Words and bytes of memory are kept in two maps: no audited sequence reads a byte it wrote as
  part of a word or the other way round. An unknown opcode is \<open>None\<close>. The undefined auxiliary
  carry of logic operations is a parameter, so a theorem holds for whatever the processor sets.
\<close>

section \<open>Status flags\<close>

definition even_parity :: "u32 \<Rightarrow> bool" where
  "even_parity v \<longleftrightarrow> even (length (filter (bit v) [0..<8]))"

text \<open>CF, PF, AF, ZF, SF, OF at bits 0, 2, 4, 6, 7, 11.\<close>

definition pack_flags :: "bool \<Rightarrow> bool \<Rightarrow> bool \<Rightarrow> bool \<Rightarrow> bool \<Rightarrow> bool \<Rightarrow> u32" where
  "pack_flags cf pf af zf sf ov = (if cf then 1 else 0) OR (if pf then 4 else 0) OR (if af then 16 else 0)
     OR (if zf then 64 else 0) OR (if sf then 128 else 0) OR (if ov then 0x800 else 0)"

definition sub_flags :: "u32 \<Rightarrow> u32 \<Rightarrow> u32" where
  "sub_flags a b = (let r = a - b in pack_flags (a < b) (even_parity r) (a mod 16 < b mod 16) (r = 0) (sint r < 0)
     (sint a - sint b \<noteq> sint r))"

definition add_flags :: "u32 \<Rightarrow> u32 \<Rightarrow> u32" where
  "add_flags a b = (let r = a + b in pack_flags (uint a + uint b \<ge> 2 ^ 32) (even_parity r) (uint a mod 16 + uint b mod 16 \<ge> 16)
     (r = 0) (sint r < 0) (sint a + sint b \<noteq> sint r))"

text \<open>Logic operations clear CF and OF; AF is undefined, here \<open>af\<close>.\<close>

definition logic_result_flags :: "bool \<Rightarrow> u32 \<Rightarrow> u32" where
  "logic_result_flags af r = pack_flags False (even_parity r) af (r = 0) (sint r < 0) False"

text \<open>\<open>std::popcount\<close> of a 32-bit value.\<close>

definition popcount :: "u32 \<Rightarrow> nat" where
  "popcount v = length (filter (bit v) [0..<32])"

lemma parity_popcount: "even (popcount (v AND 255)) \<longleftrightarrow> even_parity v"
proof -
  have "(255 :: u32) = mask 8" by (simp add: mask_eq_exp_minus_1)
  then have b: "bit (v AND 255) n \<longleftrightarrow> n < 8 \<and> bit v n" for n
    unfolding \<open>255 = mask 8\<close> by (auto simp: bit_and_iff bit_mask_iff simp del: mask_numeral)
  have "[0..<32] = [0..<8] @ [8..<32]" by (simp add: upt_rec)
  then have "filter (bit (v AND 255)) [0..<32] = filter (bit v) [0..<8]"
    by (auto simp: b filter_empty_conv intro: filter_cong simp del: upt_rec_numeral)
  then show ?thesis by (simp add: popcount_def even_parity_def del: upt_rec_numeral)
qed

section \<open>Bits of sums and differences\<close>

lemma bit_sub_int:
  "bit (a - b :: int) n \<longleftrightarrow> ((bit a n \<noteq> bit b n) \<noteq> (a mod 2 ^ n < b mod 2 ^ n))"
proof -
  let ?m = "2 ^ n :: int"
  have "a - b = (a div ?m - b div ?m) * ?m + (a mod ?m - b mod ?m)"
    by (simp add: left_diff_distrib minus_mod_eq_div_mult [symmetric])
  then have d: "(a - b) div ?m = a div ?m - b div ?m + (a mod ?m - b mod ?m) div ?m" by simp
  have r: "0 \<le> a mod ?m" "a mod ?m < ?m" "0 \<le> b mod ?m" "b mod ?m < ?m" by simp_all
  have "(a mod ?m - b mod ?m) div ?m = (if a mod ?m < b mod ?m then -1 else 0)"
  proof (cases "a mod ?m < b mod ?m")
    case True
    have "(a mod ?m - b mod ?m + ?m) div ?m = 0" by (rule div_pos_pos_trivial) (use True r in linarith)+
    moreover have "(a mod ?m - b mod ?m + ?m) div ?m = (a mod ?m - b mod ?m) div ?m + 1"
      using div_add_self2[of ?m "a mod ?m - b mod ?m"] by simp
    ultimately show ?thesis using True by simp
  next
    case False
    have "(a mod ?m - b mod ?m) div ?m = 0" by (rule div_pos_pos_trivial) (use False r in linarith)+
    then show ?thesis using False by simp
  qed
  then have d2: "(a - b) div ?m = a div ?m - b div ?m + (if a mod ?m < b mod ?m then -1 else 0)" using d by simp
  show ?thesis unfolding bit_iff_odd d2 by auto
qed

lemma bit_add_int:
  "bit (a + b :: int) n \<longleftrightarrow> ((bit a n \<noteq> bit b n) \<noteq> (a mod 2 ^ n + b mod 2 ^ n \<ge> 2 ^ n))"
proof -
  let ?m = "2 ^ n :: int"
  have d: "(a + b) div ?m = a div ?m + b div ?m + (a mod ?m + b mod ?m) div ?m"
    by (rule div_add1_eq)
  have r: "0 \<le> a mod ?m" "a mod ?m < ?m" "0 \<le> b mod ?m" "b mod ?m < ?m" by simp_all
  have "(a mod ?m + b mod ?m) div ?m = (if a mod ?m + b mod ?m \<ge> ?m then 1 else 0)"
  proof (cases "a mod ?m + b mod ?m \<ge> ?m")
    case True
    have "(a mod ?m + b mod ?m - ?m) div ?m = 0" by (rule div_pos_pos_trivial) (use True r in linarith)+
    then have "(a mod ?m + b mod ?m - ?m) div ?m + 1 = 1" by simp
    moreover have "(a mod ?m + b mod ?m) div ?m = (a mod ?m + b mod ?m - ?m) div ?m + 1"
      using div_add_self2[of ?m "a mod ?m + b mod ?m - ?m"] by simp
    ultimately show ?thesis using True by simp
  next
    case False
    then show ?thesis using r by (simp add: div_pos_pos_trivial)
  qed
  then show ?thesis unfolding bit_iff_odd d by auto
qed

lemma bit_word_uint: "n < 32 \<Longrightarrow> bit (w :: u32) n = bit (uint w) n"
  by (simp add: bit_uint_iff)

lemma bit_word_sub:
  assumes "n < 32"
  shows "bit (a - b :: u32) n \<longleftrightarrow> ((bit a n \<noteq> bit b n) \<noteq> (uint a mod 2 ^ n < uint b mod 2 ^ n))"
proof -
  have "uint (a - b) = take_bit 32 (uint a - uint b)" by (simp add: uint_word_ariths take_bit_eq_mod)
  then have "bit (uint (a - b)) n = bit (uint a - uint b) n" using assms by (simp add: bit_take_bit_iff)
  then show ?thesis using assms by (simp add: bit_sub_int bit_word_uint del: uint_minus_simple_iff)
qed

lemma bit_word_add:
  assumes "n < 32"
  shows "bit (a + b :: u32) n \<longleftrightarrow> ((bit a n \<noteq> bit b n) \<noteq> (uint a mod 2 ^ n + uint b mod 2 ^ n \<ge> 2 ^ n))"
proof -
  have "uint (a + b) = take_bit 32 (uint a + uint b)" by (simp add: uint_word_ariths take_bit_eq_mod)
  then have "bit (uint (a + b)) n = bit (uint a + uint b) n" using assms by (simp add: bit_take_bit_iff)
  then show ?thesis using assms by (simp add: bit_add_int bit_word_uint)
qed

lemma sint_uint: "sint (w :: u32) = uint w - (if bit w 31 then 2 ^ 32 else 0)"
proof -
  have "sint w = signed_take_bit 31 (uint w)" by (simp add: sint_uint)
  also have "\<dots> = uint w - (if bit (uint w) 31 then 2 ^ 32 else 0)"
  proof -
    have u: "0 \<le> uint w" "uint w < 2 ^ 32" using uint_lt2p[of w] by auto
    show ?thesis
      using u by (simp add: signed_take_bit_eq_take_bit_minus take_bit_int_eq_self)
  qed
  finally show ?thesis by (simp add: bit_word_uint)
qed

lemma sint_neg: "sint (w :: u32) < 0 \<longleftrightarrow> bit w 31"
  using uint_lt2p[of w] by (simp add: sint_uint)

lemma bit31_ge: "bit (w :: u32) 31 \<longleftrightarrow> uint w \<ge> 2 ^ 31"
proof -
  have u: "0 \<le> uint w" "uint w < 2 ^ 32" using uint_lt2p[of w] by auto
  have "bit w 31 = bit (uint w) 31" by (rule bit_word_uint) simp
  then have "bit w 31 \<longleftrightarrow> odd (uint w div 2 ^ 31)" by (simp only: bit_iff_odd)
  also have "\<dots> \<longleftrightarrow> uint w \<ge> 2 ^ 31"
  proof (cases "uint w \<ge> 2 ^ 31")
    case True
    have "uint w div 2 ^ 31 = 1" by (rule int_div_pos_eq[of _ _ _ "uint w - 2 ^ 31"]) (use True u in auto)
    then show ?thesis using True by simp
  next
    case False
    then show ?thesis using u by (simp add: div_pos_pos_trivial)
  qed
  finally show ?thesis .
qed

text \<open>Signed overflow, read off the sign bits.\<close>

lemma sub_overflow: "sint (a :: u32) - sint b \<noteq> sint (a - b) \<longleftrightarrow> bit a 31 \<noteq> bit b 31 \<and> bit (a - b) 31 \<noteq> bit a 31"
proof -
  have u: "0 \<le> uint a" "uint a < 2 ^ 32" "0 \<le> uint b" "uint b < 2 ^ 32" using uint_lt2p[of a] uint_lt2p[of b] by auto
  have "uint (a - b) = (if uint b \<le> uint a then uint a - uint b else uint a - uint b + 2 ^ 32)"
    by (simp add: uint_sub_if')
  then show ?thesis using u unfolding sint_uint bit31_ge by (auto split: if_splits; linarith)
qed

lemma add_overflow: "sint (a :: u32) + sint b \<noteq> sint (a + b) \<longleftrightarrow> bit a 31 = bit b 31 \<and> bit (a + b) 31 \<noteq> bit a 31"
proof -
  have u: "0 \<le> uint a" "uint a < 2 ^ 32" "0 \<le> uint b" "uint b < 2 ^ 32" using uint_lt2p[of a] uint_lt2p[of b] by auto
  have "uint (a + b) = (if uint a + uint b < 2 ^ 32 then uint a + uint b else uint a + uint b - 2 ^ 32)"
    by (simp add: uint_plus_if')
  then show ?thesis using u unfolding sint_uint bit31_ge by (auto split: if_splits; linarith)
qed

section \<open>The machine\<close>

datatype reg = EAX | ECX | EDX | EBX | ESP | EBP | ESI | EDI

record x86 =
  x_eip :: u32
  x_reg :: "reg \<Rightarrow> u32"
  x_flags :: u32
  x_fs0 :: u32
  x_word :: "u32 \<Rightarrow> u32"
  x_byte :: "u32 \<Rightarrow> u8"

datatype addr = At reg u32 | Abs u32 | Scaled reg u32 u32

datatype operand = R reg | M addr | I u32

datatype alu = Add | Sub | Cmp | And | Or | Xor | Test

datatype cond = Above | Zero | Not_zero | Less_equal

datatype instr = Push operand | Pop reg | Mov operand operand | Lea reg addr | Alu alu operand operand
  | Load_fs0 reg | Store_fs0 reg | Call u32 | Call_mem addr | Jmp u32 | Jmp_mem addr | Jcc cond u32 | Ret | Leave | Nop
  | Movzx_byte reg addr | Xor_al | Mov_byte addr u8 | Store_al addr | Inc reg | Dec reg

fun address :: "x86 \<Rightarrow> addr \<Rightarrow> u32" where
  "address c (At r d) = x_reg c r + d"
| "address c (Abs a) = a"
| "address c (Scaled r k d) = x_reg c r * k + d"

fun operand_value :: "x86 \<Rightarrow> operand \<Rightarrow> u32" where
  "operand_value c (R r) = x_reg c r"
| "operand_value c (M a) = x_word c (address c a)"
| "operand_value c (I v) = v"

fun put_operand :: "operand \<Rightarrow> u32 \<Rightarrow> x86 \<Rightarrow> x86" where
  "put_operand (R r) v c = c\<lparr>x_reg := (x_reg c)(r := v)\<rparr>"
| "put_operand (M a) v c = c\<lparr>x_word := (x_word c)(address c a := v)\<rparr>"
| "put_operand (I _) v c = c"

fun alu_result :: "alu \<Rightarrow> u32 \<Rightarrow> u32 \<Rightarrow> u32" where
  "alu_result Add a b = a + b"
| "alu_result Sub a b = a - b"
| "alu_result Cmp a b = a - b"
| "alu_result And a b = a AND b"
| "alu_result Or a b = a OR b"
| "alu_result Xor a b = a XOR b"
| "alu_result Test a b = a AND b"

fun compares :: "alu \<Rightarrow> bool" where
  "compares Cmp = True"
| "compares Test = True"
| "compares _ = False"

fun alu_flags :: "bool \<Rightarrow> alu \<Rightarrow> u32 \<Rightarrow> u32 \<Rightarrow> u32" where
  "alu_flags af Add a b = add_flags a b"
| "alu_flags af Sub a b = sub_flags a b"
| "alu_flags af Cmp a b = sub_flags a b"
| "alu_flags af And a b = logic_result_flags af (a AND b)"
| "alu_flags af Or a b = logic_result_flags af (a OR b)"
| "alu_flags af Xor a b = logic_result_flags af (a XOR b)"
| "alu_flags af Test a b = logic_result_flags af (a AND b)"

definition status_mask :: u32 where "status_mask = 0x8d5"

definition set_status :: "u32 \<Rightarrow> u32 \<Rightarrow> u32" where
  "set_status flags st = (flags AND NOT status_mask) OR st"

text \<open>Increment and decrement leave CF alone.\<close>

definition keep_carry :: "u32 \<Rightarrow> u32 \<Rightarrow> u32" where
  "keep_carry flags st = (st AND NOT 1) OR (flags AND 1)"

fun holds :: "cond \<Rightarrow> u32 \<Rightarrow> bool" where
  "holds Above f \<longleftrightarrow> \<not> bit f 0 \<and> \<not> bit f 6"
| "holds Zero f \<longleftrightarrow> bit f 6"
| "holds Not_zero f \<longleftrightarrow> \<not> bit f 6"
| "holds Less_equal f \<longleftrightarrow> bit f 6 \<or> bit f 7 \<noteq> bit f 11"

definition push_word :: "u32 \<Rightarrow> x86 \<Rightarrow> x86" where
  "push_word v c = c\<lparr>x_reg := (x_reg c)(ESP := x_reg c ESP - 4), x_word := (x_word c)(x_reg c ESP - 4 := v)\<rparr>"

definition pop_stack :: "x86 \<Rightarrow> x86" where
  "pop_stack c = c\<lparr>x_reg := (x_reg c)(ESP := x_reg c ESP + 4)\<rparr>"

text \<open>One instruction; \<open>nx\<close> is the address after it.\<close>

fun exec :: "bool \<Rightarrow> instr \<Rightarrow> u32 \<Rightarrow> x86 \<Rightarrow> x86" where
  "exec af (Push x) nx c = (push_word (operand_value c x) c)\<lparr>x_eip := nx\<rparr>"
| "exec af (Pop r) nx c = (let v = x_word c (x_reg c ESP); d = pop_stack c in d\<lparr>x_reg := (x_reg d)(r := v), x_eip := nx\<rparr>)"
| "exec af (Mov x y) nx c = (put_operand x (operand_value c y) c)\<lparr>x_eip := nx\<rparr>"
| "exec af (Lea r a) nx c = c\<lparr>x_reg := (x_reg c)(r := address c a), x_eip := nx\<rparr>"
| "exec af (Alu f x y) nx c = (let a = operand_value c x; b = operand_value c y in
     (if compares f then c else put_operand x (alu_result f a b) c)\<lparr>x_flags := set_status (x_flags c) (alu_flags af f a b), x_eip := nx\<rparr>)"
| "exec af (Load_fs0 r) nx c = c\<lparr>x_reg := (x_reg c)(r := x_fs0 c), x_eip := nx\<rparr>"
| "exec af (Store_fs0 r) nx c = c\<lparr>x_fs0 := x_reg c r, x_eip := nx\<rparr>"
| "exec af (Call d) nx c = (push_word nx c)\<lparr>x_eip := nx + d\<rparr>"
| "exec af (Call_mem a) nx c = (push_word nx c)\<lparr>x_eip := x_word c (address c a)\<rparr>"
| "exec af (Jmp d) nx c = c\<lparr>x_eip := nx + d\<rparr>"
| "exec af (Jmp_mem a) nx c = c\<lparr>x_eip := x_word c (address c a)\<rparr>"
| "exec af (Jcc k d) nx c = c\<lparr>x_eip := (if holds k (x_flags c) then nx + d else nx)\<rparr>"
| "exec af Ret nx c = (pop_stack c)\<lparr>x_eip := x_word c (x_reg c ESP)\<rparr>"
| "exec af Leave nx c = c\<lparr>x_reg := (x_reg c)(ESP := x_reg c EBP + 4, EBP := x_word c (x_reg c EBP)), x_eip := nx\<rparr>"
| "exec af Nop nx c = c\<lparr>x_eip := nx\<rparr>"
| "exec af (Movzx_byte r a) nx c = c\<lparr>x_reg := (x_reg c)(r := ucast (x_byte c (address c a))), x_eip := nx\<rparr>"
| "exec af Xor_al nx c = c\<lparr>x_reg := (x_reg c)(EAX := x_reg c EAX AND NOT 0xff),
     x_flags := set_status (x_flags c) (logic_result_flags af 0), x_eip := nx\<rparr>"
| "exec af (Mov_byte a v) nx c = c\<lparr>x_byte := (x_byte c)(address c a := v), x_eip := nx\<rparr>"
| "exec af (Store_al a) nx c = c\<lparr>x_byte := (x_byte c)(address c a := ucast (x_reg c EAX)), x_eip := nx\<rparr>"
| "exec af (Inc r) nx c = c\<lparr>x_reg := (x_reg c)(r := x_reg c r + 1),
     x_flags := set_status (x_flags c) (keep_carry (x_flags c) (add_flags (x_reg c r) 1)), x_eip := nx\<rparr>"
| "exec af (Dec r) nx c = c\<lparr>x_reg := (x_reg c)(r := x_reg c r - 1),
     x_flags := set_status (x_flags c) (keep_carry (x_flags c) (sub_flags (x_reg c r) 1)), x_eip := nx\<rparr>"

section \<open>The decoder\<close>

definition nth_reg :: "nat \<Rightarrow> reg" where
  "nth_reg n = [EAX, ECX, EDX, EBX, ESP, EBP, ESI, EDI] ! (n mod 8)"

definition sign8 :: "u8 \<Rightarrow> u32" where
  "sign8 b = (if b < 128 then ucast b else ucast b - 256)"

definition word_of_bytes :: "u8 \<Rightarrow> u8 \<Rightarrow> u8 \<Rightarrow> u8 \<Rightarrow> u32" where
  "word_of_bytes b0 b1 b2 b3 = ucast b0 OR push_bit 8 (ucast b1) OR push_bit 16 (ucast b2) OR push_bit 24 (ucast b3)"

definition imm8 :: "bytes \<Rightarrow> u32" where
  "imm8 b = sign8 (b ! 0)"

definition imm32 :: "bytes \<Rightarrow> u32" where
  "imm32 b = word_of_bytes (b ! 0) (b ! 1) (b ! 2) (b ! 3)"

text \<open>The operand of a ModRM byte and its displacement: register field, operand, length.\<close>

definition modrm :: "bytes \<Rightarrow> (nat \<times> operand \<times> nat) option" where
  "modrm b = (let m = unat (b ! 0); md = m div 64; rg = m div 8 mod 8; rm = m mod 8 in
     if md = 3 then Some (rg, R (nth_reg rm), 1)
     else if rm = 4 then
       (let s = unat (b ! 1) in
        if s = 0x24 \<and> md = 1 then Some (rg, M (At ESP (imm8 (drop 2 b))), 3)
        else if md = 0 \<and> s mod 8 = 5 then Some (rg, M (Scaled (nth_reg (s div 8)) (2 ^ (s div 64)) (imm32 (drop 2 b))), 6)
        else None)
     else if md = 0 then (if rm = 5 then Some (rg, M (Abs (imm32 (drop 1 b))), 5) else Some (rg, M (At (nth_reg rm) 0), 1))
     else if md = 1 then Some (rg, M (At (nth_reg rm) (imm8 (drop 1 b))), 2)
     else Some (rg, M (At (nth_reg rm) (imm32 (drop 1 b))), 5))"

fun memory_operand :: "operand \<Rightarrow> addr option" where
  "memory_operand (M a) = Some a"
| "memory_operand _ = None"

definition with_rm :: "bytes \<Rightarrow> (nat \<Rightarrow> operand \<Rightarrow> nat \<Rightarrow> (instr \<times> nat) option) \<Rightarrow> (instr \<times> nat) option" where
  "with_rm b f = (case modrm (drop 1 b) of None \<Rightarrow> None | Some (rg, x, n) \<Rightarrow> f rg x n)"

definition with_mem :: "operand \<Rightarrow> (addr \<Rightarrow> (instr \<times> nat) option) \<Rightarrow> (instr \<times> nat) option" where
  "with_mem x f = (case memory_operand x of None \<Rightarrow> None | Some a \<Rightarrow> f a)"

definition group1 :: "nat \<Rightarrow> alu option" where
  "group1 rg = (if rg = 0 then Some Add else if rg = 1 then Some Or else if rg = 4 then Some And
     else if rg = 5 then Some Sub else if rg = 6 then Some Xor else if rg = 7 then Some Cmp else None)"

definition decode_two :: "bytes \<Rightarrow> (instr \<times> nat) option" where
  "decode_two b = (let op = b ! 1 in
     if op = 0x87 then Some (Jcc Above (imm32 (drop 2 b)), 6)
     else if op = 0xb6 then with_rm (drop 1 b) (\<lambda>rg x n. with_mem x (\<lambda>a. Some (Movzx_byte (nth_reg rg) a, n + 2)))
     else None)"

definition decode :: "bytes \<Rightarrow> (instr \<times> nat) option" where
  "decode b =
    (let op = b ! 0 in
     if op = 0x0f then decode_two b
     else if 0x40 \<le> op \<and> op < 0x48 then Some (Inc (nth_reg (unat op)), 1)
     else if 0x48 \<le> op \<and> op < 0x50 then Some (Dec (nth_reg (unat op)), 1)
     else if 0x50 \<le> op \<and> op < 0x58 then Some (Push (R (nth_reg (unat op))), 1)
     else if 0x58 \<le> op \<and> op < 0x60 then Some (Pop (nth_reg (unat op)), 1)
     else if op = 0x6a then Some (Push (I (imm8 (drop 1 b))), 2)
     else if op = 0x68 then Some (Push (I (imm32 (drop 1 b))), 5)
     else if 0xb8 \<le> op \<and> op < 0xc0 then Some (Mov (R (nth_reg (unat op))) (I (imm32 (drop 1 b))), 5)
     else if op = 0x8b then with_rm b (\<lambda>rg x n. Some (Mov (R (nth_reg rg)) x, n + 1))
     else if op = 0x89 then with_rm b (\<lambda>rg x n. Some (Mov x (R (nth_reg rg)), n + 1))
     else if op = 0x8d then with_rm b (\<lambda>rg x n. with_mem x (\<lambda>a. Some (Lea (nth_reg rg) a, n + 1)))
     else if op = 0xa1 then Some (Mov (R EAX) (M (Abs (imm32 (drop 1 b)))), 5)
     else if op = 0xa3 then Some (Mov (M (Abs (imm32 (drop 1 b)))) (R EAX), 5)
     else if op = 0xa2 then Some (Store_al (Abs (imm32 (drop 1 b))), 5)
     else if op = 0xc7 then with_rm b (\<lambda>rg x n. Some (Mov x (I (imm32 (drop (n + 1) b))), n + 5))
     else if op = 0xc6 then with_rm b (\<lambda>rg x n. with_mem x (\<lambda>a. Some (Mov_byte a (b ! (n + 1)), n + 2)))
     else if op = 0x64 \<and> b ! 1 = 0xa1 \<and> imm32 (drop 2 b) = 0 then Some (Load_fs0 EAX, 6)
     else if op = 0x64 \<and> b ! 1 = 0xa3 \<and> imm32 (drop 2 b) = 0 then Some (Store_fs0 EAX, 6)
     else if op = 0x64 \<and> b ! 1 = 0x89 \<and> b ! 2 = 0x0d \<and> imm32 (drop 3 b) = 0 then Some (Store_fs0 ECX, 7)
     else if op = 0x32 \<and> b ! 1 = 0xc0 then Some (Xor_al, 2)
     else if op = 0x85 then with_rm b (\<lambda>rg x n. Some (Alu Test x (R (nth_reg rg)), n + 1))
     else if op = 0x03 then with_rm b (\<lambda>rg x n. Some (Alu Add (R (nth_reg rg)) x, n + 1))
     else if op = 0x23 then with_rm b (\<lambda>rg x n. Some (Alu And (R (nth_reg rg)) x, n + 1))
     else if op = 0x2b then with_rm b (\<lambda>rg x n. Some (Alu Sub (R (nth_reg rg)) x, n + 1))
     else if op = 0x33 then with_rm b (\<lambda>rg x n. Some (Alu Xor (R (nth_reg rg)) x, n + 1))
     else if op = 0x3b then with_rm b (\<lambda>rg x n. Some (Alu Cmp (R (nth_reg rg)) x, n + 1))
     else if op = 0x3d then Some (Alu Cmp (R EAX) (I (imm32 (drop 1 b))), 5)
     else if op = 0x0d then Some (Alu Or (R EAX) (I (imm32 (drop 1 b))), 5)
     else if op = 0x81 then with_rm b (\<lambda>rg x n. case group1 rg of None \<Rightarrow> None
       | Some f \<Rightarrow> Some (Alu f x (I (imm32 (drop (n + 1) b))), n + 5))
     else if op = 0x83 then with_rm b (\<lambda>rg x n. case group1 rg of None \<Rightarrow> None
       | Some f \<Rightarrow> Some (Alu f x (I (imm8 (drop (n + 1) b))), n + 2))
     else if op = 0xff then with_rm b (\<lambda>rg x n.
         if rg = 6 then Some (Push x, n + 1)
         else if rg = 2 then with_mem x (\<lambda>a. Some (Call_mem a, n + 1))
         else if rg = 4 then with_mem x (\<lambda>a. Some (Jmp_mem a, n + 1))
         else None)
     else if op = 0xe8 then Some (Call (imm32 (drop 1 b)), 5)
     else if op = 0xe9 then Some (Jmp (imm32 (drop 1 b)), 5)
     else if op = 0xeb then Some (Jmp (imm8 (drop 1 b)), 2)
     else if op = 0x74 then Some (Jcc Zero (imm8 (drop 1 b)), 2)
     else if op = 0x75 then Some (Jcc Not_zero (imm8 (drop 1 b)), 2)
     else if op = 0x77 then Some (Jcc Above (imm8 (drop 1 b)), 2)
     else if op = 0x7e then Some (Jcc Less_equal (imm8 (drop 1 b)), 2)
     else if op = 0xc3 then Some (Ret, 1)
     else if op = 0xc9 then Some (Leave, 1)
     else if op = 0x90 then Some (Nop, 1)
     else None)"

text \<open>A code region is its address and its bytes; a step runs the instruction at \<open>eip\<close>.\<close>

type_synonym region_code = "u32 \<times> bytes"

definition step_in :: "bool \<Rightarrow> region_code \<Rightarrow> x86 \<Rightarrow> x86 option" where
  "step_in af rc c =
    (let off = unat (x_eip c - fst rc) in
     if off < length (snd rc) then
       (case decode (drop off (snd rc)) of None \<Rightarrow> None
        | Some (i, len) \<Rightarrow> if off + len \<le> length (snd rc) then Some (exec af i (x_eip c + word_of_nat len) c) else None)
     else None)"

fun run_in :: "bool \<Rightarrow> region_code \<Rightarrow> nat \<Rightarrow> x86 \<Rightarrow> x86 option" where
  "run_in af rc 0 c = Some c"
| "run_in af rc (Suc n) c = (case step_in af rc c of None \<Rightarrow> None | Some c' \<Rightarrow> run_in af rc n c')"

text \<open>Running through several regions in turn: how many instructions in each.\<close>

fun run_through :: "bool \<Rightarrow> (region_code \<times> nat) list \<Rightarrow> x86 \<Rightarrow> x86 option" where
  "run_through af [] c = Some c"
| "run_through af ((rc, n) # legs) c = (case run_in af rc n c of None \<Rightarrow> None | Some c' \<Rightarrow> run_through af legs c')"

text \<open>The \<open>n\<close> words from an address upwards, as a debugger reads them.\<close>

definition words_at :: "x86 \<Rightarrow> u32 \<Rightarrow> nat \<Rightarrow> u32 list" where
  "words_at c a n = map (\<lambda>i. x_word c (a + 4 * word_of_nat i)) [0..<n]"

section \<open>Evaluation support\<close>

named_theorems x86_eval \<open>running audited bytes\<close>
named_theorems flag_eval \<open>status flags of a run\<close>

definition le_byte :: "nat \<Rightarrow> u32 \<Rightarrow> u8" where
  "le_byte j v = ucast (drop_bit (8 * j) v AND 255)"

lemma put_word_bytes [x86_eval]:
  "put_word b i v = b[i := le_byte 0 v, i + 1 := le_byte 1 v, i + 2 := le_byte 2 v, i + 3 := le_byte 3 v]"
  by (simp add: put_word_def le_byte_def)

lemma get_word_of_bytes: "get_word b i = word_of_bytes (b ! i) (b ! (i + 1)) (b ! (i + 2)) (b ! (i + 3))"
  by (simp add: get_word_def word_of_bytes_def)

lemma word_of_le_bytes [simp, x86_eval]: "word_of_bytes (le_byte 0 v) (le_byte (Suc 0) v) (le_byte 2 v) (le_byte 3 v) = v"
proof -
  have "get_word (put_word [0, 0, 0, 0] 0 v) 0 = v" by simp
  then show ?thesis by (simp add: get_word_of_bytes put_word_bytes)
qed

lemma imm32_take: "take 4 b = [b0, b1, b2, b3] \<Longrightarrow> imm32 b = word_of_bytes b0 b1 b2 b3"
  by (cases b; cases "tl b"; cases "tl (tl b)"; cases "tl (tl (tl b))") (auto simp: imm32_def numeral_eq_Suc)

lemma small_words [simp, x86_eval]:
  "word_of_bytes 0 0 0 0 = 0" "word_of_bytes 255 255 255 255 = -1"
  "word_of_bytes (numeral k) 0 0 0 = ucast (numeral k :: u8)"
  "word_of_bytes 4 1 0 0 = 0x104" "word_of_bytes 12 1 0 0 = 0x10c" "word_of_bytes 0 8 0 0 = 0x800"
  "word_of_bytes 0 0 0 32 = 0x20000000" "word_of_bytes 0 0 0 64 = 0x40000000"
  "word_of_bytes 0xf4 0xfe 0xff 0xff = -0x10c" "word_of_bytes 0x51 0xff 0xff 0xff = -175" "word_of_bytes 1 0 0 0 = 1"
  by (simp_all add: word_of_bytes_def)

lemmas decode_eval [x86_eval] = decode_def decode_two_def with_rm_def with_mem_def modrm_def group1_def nth_reg_def
  imm8_def imm32_def sign8_def Let_def

lemmas machine_eval [x86_eval] = push_word_def pop_stack_def

text \<open>Reading a flag back.\<close>

lemma bit_of_mask: "bit (w :: u32) n \<longleftrightarrow> n \<in> set (filter (bit w) [0..<32])"
  using bit_imp_le_length[of w n] by auto

lemma word_bits: "(a :: u32) = b \<longleftrightarrow> (\<forall>n < 32. bit a n = bit b n)"
  by (auto intro: bit_word_eqI)

lemma mask_bits:
  "bit (1 :: u32) n \<longleftrightarrow> n = 0" "bit (4 :: u32) n \<longleftrightarrow> n = 2" "bit (16 :: u32) n \<longleftrightarrow> n = 4" "bit (64 :: u32) n \<longleftrightarrow> n = 6"
  "bit (128 :: u32) n \<longleftrightarrow> n = 7" "bit (0x800 :: u32) n \<longleftrightarrow> n = 11"
  "bit (0x8d5 :: u32) n \<longleftrightarrow> n \<in> {0, 2, 4, 6, 7, 11}" "bit (0x500 :: u32) n \<longleftrightarrow> n \<in> {8, 10}"
  "bit (0x108d5 :: u32) n \<longleftrightarrow> n \<in> {0, 2, 4, 6, 7, 11, 16}" "bit (0x8c5 :: u32) n \<longleftrightarrow> n \<in> {0, 2, 6, 7, 11}"
  "bit (0xc5 :: u32) n \<longleftrightarrow> n \<in> {0, 2, 6, 7}" "bit (0x10000 :: u32) n \<longleftrightarrow> n = 16"
  "bit (0x10010 :: u32) n \<longleftrightarrow> n \<in> {4, 16}"
  by (subst bit_of_mask; simp add: upt_rec; fastforce?)+

lemma bit_if: "bit (if b then w else 0) n \<longleftrightarrow> b \<and> bit w n"
  by simp

lemma pack_flags_bit:
  "bit (pack_flags cf pf af zf sf ov) n \<longleftrightarrow> (n = 0 \<and> cf) \<or> (n = 2 \<and> pf) \<or> (n = 4 \<and> af) \<or> (n = 6 \<and> zf)
     \<or> (n = 7 \<and> sf) \<or> (n = 11 \<and> ov)"
  unfolding pack_flags_def bit_or_iff bit_if mask_bits by blast

lemma status_mask_bit: "bit status_mask n \<longleftrightarrow> n \<in> {0, 2, 4, 6, 7, 11}"
  unfolding status_mask_def mask_bits by (rule refl)

definition status_word :: "u32 \<Rightarrow> bool" where
  "status_word st \<longleftrightarrow> st AND NOT status_mask = 0"

lemma status_word_pack [simp]: "status_word (pack_flags cf pf af zf sf ov)"
  unfolding status_word_def
  by (rule bit_word_eqI) (auto simp: bit_and_iff bit_not_iff pack_flags_bit status_mask_bit)

lemma set_status_bit:
  "n < 32 \<Longrightarrow> bit (set_status f st) n \<longleftrightarrow> (bit f n \<and> n \<notin> {0, 2, 4, 6, 7, 11}) \<or> bit st n"
  by (auto simp: set_status_def bit_or_iff bit_and_iff bit_not_iff status_mask_bit)

lemma status_words [simp]:
  "status_word (sub_flags a b)" "status_word (add_flags a b)" "status_word (logic_result_flags af v)"
  by (simp_all add: sub_flags_def add_flags_def logic_result_flags_def Let_def)

lemma status_word_keep_carry [simp]: "status_word st \<Longrightarrow> status_word (keep_carry f st)"
  unfolding status_word_def keep_carry_def status_mask_def word_bits bit_and_iff bit_or_iff bit_not_iff mask_bits by auto

lemma status_word_bit: "status_word st \<Longrightarrow> bit st n \<Longrightarrow> n \<in> {0, 2, 4, 6, 7, 11}"
proof -
  assume "status_word st" and b: "bit st n"
  then have z: "bit (st AND NOT status_mask) n = False" by (simp add: status_word_def)
  have "n < 32" using bit_imp_le_length[OF b] by simp
  with z b show ?thesis by (simp add: bit_and_iff bit_not_iff status_mask_bit)
qed

lemma set_status_again [simp]: "status_word a \<Longrightarrow> set_status (set_status f a) b = set_status f b"
  by (rule bit_word_eqI) (auto simp: set_status_bit dest: status_word_bit)

lemma holds_set_status [simp]:
  "holds Above (set_status f (pack_flags cf pf af zf sf ov)) \<longleftrightarrow> \<not> cf \<and> \<not> zf"
  "holds Zero (set_status f (pack_flags cf pf af zf sf ov)) \<longleftrightarrow> zf"
  "holds Not_zero (set_status f (pack_flags cf pf af zf sf ov)) \<longleftrightarrow> \<not> zf"
  "holds Less_equal (set_status f (pack_flags cf pf af zf sf ov)) \<longleftrightarrow> zf \<or> sf \<noteq> ov"
  by (auto simp: set_status_bit pack_flags_bit)

text \<open>The masks of the frame predicates: the trap bits, the status bits, everything else but RF.\<close>

lemma set_status_trap [simp]: "status_word st \<Longrightarrow> set_status f st AND 0x500 = f AND 0x500"
  by (rule bit_word_eqI) (auto simp: bit_and_iff set_status_bit mask_bits dest: status_word_bit)

lemma set_status_masked: "set_status f st AND status_mask = st AND status_mask"
  by (rule bit_word_eqI) (auto simp: bit_and_iff set_status_bit status_mask_bit)

lemma status_word_masked: "status_word st \<Longrightarrow> st AND status_mask = st"
  by (rule bit_word_eqI) (auto simp: bit_and_iff status_mask_bit dest: status_word_bit)

lemma set_status_rest: "status_word st \<Longrightarrow> (set_status f st XOR f) AND NOT 0x108d5 = 0"
  by (rule bit_word_eqI) (auto simp: bit_and_iff bit_xor_iff bit_not_iff set_status_bit mask_bits dest: status_word_bit)

text \<open>
  What the flag tests of the frame predicates say about a state whose status was set to \<open>st\<close>:
  agreement of all flags but RF, or but RF and the undefined AF.
\<close>

lemma masks_bits_all:
  "(rf AND m = st AND m \<and> (rf XOR sf) AND NOT m' = 0) \<longleftrightarrow>
     (\<forall>n < 32. (bit m n \<longrightarrow> bit rf n = bit st n) \<and> (\<not> bit m' n \<longrightarrow> bit rf n = bit sf n))" for rf :: u32
  unfolding word_bits by (auto simp: bit_and_iff bit_xor_iff bit_not_iff)

lemma status_merge:
  assumes "\<And>n. n < 32 \<Longrightarrow> bit (st :: u32) n \<Longrightarrow> bit m' n"
    and "\<And>n. n < 32 \<Longrightarrow> bit m n \<Longrightarrow> n \<in> {0, 2, 4, 6, 7, 11}"
    and "\<And>n. n < 32 \<Longrightarrow> bit m' n \<longleftrightarrow> bit ig n \<or> bit m n"
    and "\<And>n. n < 32 \<Longrightarrow> n \<in> {0, 2, 4, 6, 7, 11} \<Longrightarrow> bit ig n \<or> bit m n"
    and "\<And>n. n < 32 \<Longrightarrow> bit ig n \<Longrightarrow> \<not> bit m n"
  shows "(rf AND m = st AND m \<and> (rf XOR sf) AND NOT m' = 0) \<longleftrightarrow> (rf XOR set_status sf st) AND NOT ig = 0"
proof -
  have r: "(rf XOR set_status sf st) AND NOT ig = 0 \<longleftrightarrow>
      (\<forall>n < 32. \<not> bit ig n \<longrightarrow> bit rf n = ((bit sf n \<and> n \<notin> {0, 2, 4, 6, 7, 11}) \<or> bit st n))"
    unfolding word_bits by (auto simp: bit_and_iff bit_xor_iff bit_not_iff set_status_bit)
  show ?thesis unfolding masks_bits_all r by (intro iff_allI imp_cong refl) (use assms in blast)
qed

lemma flags_agree:
  assumes "status_word st"
  shows "(rf AND 0x8d5 = st AND 0x8d5 \<and> (rf XOR sf) AND NOT 0x108d5 = 0) \<longleftrightarrow> (rf XOR set_status sf st) AND NOT 0x10000 = 0"
    "(rf AND 0x8c5 = st AND 0x8c5 \<and> (rf XOR sf) AND NOT 0x108d5 = 0) \<longleftrightarrow> (rf XOR set_status sf st) AND NOT 0x10010 = 0"
proof -
  note b = status_word_bit[OF assms]
  show "(rf AND 0x8d5 = st AND 0x8d5 \<and> (rf XOR sf) AND NOT 0x108d5 = 0) \<longleftrightarrow> (rf XOR set_status sf st) AND NOT 0x10000 = 0"
    by (rule status_merge; unfold mask_bits) (use b in auto)+
  show "(rf AND 0x8c5 = st AND 0x8c5 \<and> (rf XOR sf) AND NOT 0x108d5 = 0) \<longleftrightarrow> (rf XOR set_status sf st) AND NOT 0x10010 = 0"
    by (rule status_merge; unfold mask_bits) (use b in auto)+
qed

lemma agree_bit:
  assumes "(rf XOR f) AND NOT m = (0 :: u32)" and "\<not> bit m n" and "n < 32"
  shows "bit rf n = bit f n"
proof -
  have "bit ((rf XOR f) AND NOT m) n = False" using assms(1) by simp
  then show ?thesis using assms(2,3) unfolding bit_and_iff bit_xor_iff bit_not_iff by auto
qed

lemma trap_agree:
  assumes "(rf XOR f) AND NOT m = 0" and "f AND 0x500 = 0" and "m \<in> {0x10000, 0x10010, 0x108d5}"
  shows "(rf :: u32) AND 0x500 = 0"
proof -
  have m: "\<not> bit m 8" "\<not> bit m 10" using assms(3) by auto
  have "f AND 0x500 = rf AND 0x500"
  proof (rule bit_word_eqI)
    fix n assume n: "n < LENGTH(32)"
    have "bit f n = bit rf n" if "n = 8 \<or> n = 10"
      using that m agree_bit[OF assms(1)] by auto
    then show "bit (f AND 0x500) n = bit (rf AND 0x500) n"
      unfolding bit_and_iff mask_bits by blast
  qed
  then show ?thesis using assms(2) by simp
qed

declare holds.simps [simp del] run_in.simps(2) [simp del]

lemma words_at_numeral [x86_eval]:
  "words_at c a 0 = []" "words_at c a (Suc n) = x_word c a # words_at c (a + 4) n"
  "words_at c a (numeral k) = x_word c a # words_at c (a + 4) (pred_numeral k)"
proof -
  show z: "words_at c a 0 = []" by (simp add: words_at_def)
  show st: "words_at c a (Suc n) = x_word c a # words_at c (a + 4) n" for n
    unfolding words_at_def upt_conv_Cons[OF zero_less_Suc] map_Suc_upt[symmetric] by (simp add: algebra_simps comp_def)
  show "words_at c a (numeral k) = x_word c a # words_at c (a + 4) (pred_numeral k)"
    unfolding numeral_eq_Suc by (rule st)
qed

lemma nth_words_at: "i < n \<Longrightarrow> words_at c a n ! i = x_word c (a + 4 * word_of_nat i)"
  by (simp add: words_at_def)

definition bytes_at :: "x86 \<Rightarrow> u32 \<Rightarrow> nat \<Rightarrow> bytes" where
  "bytes_at c a n = map (\<lambda>i. x_byte c (a + word_of_nat i)) [0..<n]"

lemma nth_bytes_at: "i < n \<Longrightarrow> bytes_at c a n ! i = x_byte c (a + word_of_nat i)"
  by (simp add: bytes_at_def)

lemma bytes_at_numeral [x86_eval]:
  "bytes_at c a 0 = []" "bytes_at c a (Suc n) = x_byte c a # bytes_at c (a + 1) n"
  "bytes_at c a (numeral k) = x_byte c a # bytes_at c (a + 1) (pred_numeral k)"
proof -
  show z: "bytes_at c a 0 = []" by (simp add: bytes_at_def)
  show st: "bytes_at c a (Suc n) = x_byte c a # bytes_at c (a + 1) n" for n
    unfolding bytes_at_def upt_conv_Cons[OF zero_less_Suc] map_Suc_upt[symmetric] by (simp add: algebra_simps comp_def)
  show "bytes_at c a (numeral k) = x_byte c a # bytes_at c (a + 1) (pred_numeral k)"
    unfolding numeral_eq_Suc by (rule st)
qed

text \<open>One step of a run, as a conditional rewrite rule.\<close>

lemma run_rule:
  assumes "unat (x_eip c - a) = off" and "off < length code" and "decode (drop off code) = Some (i, len)"
    and "off + len \<le> length code"
  shows "run_in af (a, code) (Suc n) c = run_in af (a, code) n (exec af i (x_eip c + word_of_nat len) c)"
  using assms by (simp add: step_in_def Let_def run_in.simps(2))

lemma run_rule_numeral [x86_eval]:
  assumes "unat (x_eip c - a) = off" and "off < length code" and "decode (drop off code) = Some (i, len)"
    and "off + len \<le> length code"
  shows "run_in af (a, code) (numeral k) c = run_in af (a, code) (pred_numeral k) (exec af i (x_eip c + word_of_nat len) c)"
    "run_in af (a, code) (Suc 0) c = Some (exec af i (x_eip c + word_of_nat len) c)"
  using run_rule[OF assms] by (simp_all add: numeral_eq_Suc)

end
