(* ===== verification/Event_Dispatch.thy ===== *)
theory Event_Dispatch
  imports Instance_Startup X86_Reference
begin

text \<open>
  \<open>event_dispatch.hpp/.cpp\<close>: the dispatch of the initialising event after the instance check. The
  recipe names the call of the dispatcher and the call of the application handler inside it; the
  frame predicate says what registers and stack the stopped thread must show at three places.
  The property runs the audited bytes on the reference machine and compares.
\<close>

section \<open>EventDispatchSpec\<close>

definition event_dispatch_branch :: bytes where
  "event_dispatch_branch = [0x85, 0xc0, 0x75, 0x0f, 0x53, 0x6a, 0x18]"

definition event_dispatch_prologue :: bytes where
  "event_dispatch_prologue = [0x56, 0x8b, 0x74, 0x24, 0x0c, 0x57, 0x8b, 0x7c, 0x24, 0x0c, 0x56, 0x57]"

record event_dispatch_spec =
  dispatcher :: frame_target_spec
  ed_application :: frame_target_spec
  application_prefix :: bytes

text \<open>The call site of the dispatcher, its body, the handler and the body of the instance check.\<close>

definition dispatch_spans :: "event_dispatch_spec \<Rightarrow> instance_startup_spec \<Rightarrow> span list" where
  "dispatch_spans s parent = [(call_rva (dispatcher s) - 7, 12), (target_rva (dispatcher s), 17),
     (target_rva (ed_application s), 21), (target_rva (is_caller parent), 91)]"

definition valid_event_dispatch_spec :: "event_dispatch_spec \<Rightarrow> instance_startup_spec \<Rightarrow> bool" where
  "valid_event_dispatch_spec s parent \<longleftrightarrow>
     \<not> (\<not> valid_frame_target_spec (is_caller parent) \<or> \<not> valid_frame_target_spec (dispatcher s)
        \<or> \<not> valid_frame_target_spec (ed_application s))
     \<and> (let a = dispatcher s; b = ed_application s in
        \<not> (ft_image_base a \<noteq> ft_image_base (is_caller parent) \<or> ft_image_size a \<noteq> ft_image_size (is_caller parent)
           \<or> ft_image_base b \<noteq> ft_image_base a \<or> ft_image_size b \<noteq> ft_image_size a
           \<or> call_rva a \<noteq> call_rva (is_caller parent) + 12 \<or> target_rva a > ft_image_size a - 17
           \<or> call_rva b \<noteq> target_rva a + 12 \<or> target_rva b > ft_image_size a - 21
           \<or> event_dispatch_prologue \<noteq> take 12 (target_prefix a)
           \<or> take 4 (call_bytes b) \<noteq> take 4 (drop 12 (target_prefix a))
           \<or> target_prefix b \<noteq> take 16 (application_prefix s)))
     \<and> disjoint_from [] (dispatch_spans s parent)"

section \<open>EventDispatchRegisters\<close>

record event_dispatch_registers =
  d_esp :: u32
  d_eax :: u32
  d_ebx :: u32
  d_ecx :: u32
  d_edx :: u32
  d_esi :: u32
  d_edi :: u32
  d_ebp :: u32
  d_flags :: u32

definition event_dispatch_frame :: "event_dispatch_spec \<Rightarrow> u32 \<Rightarrow> event_dispatch_registers \<Rightarrow> event_dispatch_registers
    \<Rightarrow> u32 list \<Rightarrow> bool" where
  "event_dispatch_frame s stage saved r stack \<longleftrightarrow>
     \<not> (stage < 1 \<or> stage > 3 \<or> \<not> valid_frame_target_spec (dispatcher s) \<or> d_esp saved < 4096 \<or> d_esp saved mod 4 \<noteq> 0
        \<or> d_eax saved \<noteq> 0 \<or> d_ebx saved \<noteq> 0 \<or> d_flags saved AND 0x500 \<noteq> 0 \<or> d_flags r AND 0x500 \<noteq> 0
        \<or> d_eax r \<noteq> 0 \<or> d_ebx r \<noteq> 0 \<or> d_ecx r \<noteq> d_ecx saved \<or> d_edx r \<noteq> d_edx saved \<or> d_ebp r \<noteq> d_ebp saved)
     \<and> (let ret = ft_image_base (dispatcher s) + call_rva (dispatcher s) + 5 in
        if stage = 3 then
          (let expected = [24, 0, d_edi saved, d_esi saved, ret, 24, 0] in
           d_esp r = d_esp saved - 28 \<and> d_esi r = 0 \<and> d_edi r = 24 \<and> stack = expected)
        else if d_esi r \<noteq> d_esi saved \<or> d_edi r \<noteq> d_edi saved then False
        else if stage = 1 then d_esp r = d_esp saved - 8 \<and> length stack = 2 \<and> stack ! 0 = 24 \<and> stack ! 1 = 0
        else d_esp r = d_esp saved - 12 \<and> length stack = 3 \<and> stack ! 0 = ret \<and> stack ! 1 = 24 \<and> stack ! 2 = 0)"

section \<open>The machine's view\<close>

definition regs_of :: "x86 \<Rightarrow> event_dispatch_registers" where
  "regs_of c = \<lparr>d_esp = x_reg c ESP, d_eax = x_reg c EAX, d_ebx = x_reg c EBX, d_ecx = x_reg c ECX, d_edx = x_reg c EDX,
     d_esi = x_reg c ESI, d_edi = x_reg c EDI, d_ebp = x_reg c EBP, d_flags = x_flags c\<rparr>"

lemma regs_of_sel [simp, x86_eval]:
  "d_esp (regs_of c) = x_reg c ESP" "d_eax (regs_of c) = x_reg c EAX" "d_ebx (regs_of c) = x_reg c EBX"
  "d_ecx (regs_of c) = x_reg c ECX" "d_edx (regs_of c) = x_reg c EDX" "d_esi (regs_of c) = x_reg c ESI"
  "d_edi (regs_of c) = x_reg c EDI" "d_ebp (regs_of c) = x_reg c EBP" "d_flags (regs_of c) = x_flags c"
  by (simp_all add: regs_of_def)

text \<open>Two register sets that differ at most in the flags.\<close>

definition same_registers :: "event_dispatch_registers \<Rightarrow> event_dispatch_registers \<Rightarrow> bool" where
  "same_registers r q \<longleftrightarrow> r\<lparr>d_flags := d_flags q\<rparr> = q"

lemma same_registers_iff:
  "same_registers r q \<longleftrightarrow> d_esp r = d_esp q \<and> d_eax r = d_eax q \<and> d_ebx r = d_ebx q \<and> d_ecx r = d_ecx q \<and> d_edx r = d_edx q
     \<and> d_esi r = d_esi q \<and> d_edi r = d_edi q \<and> d_ebp r = d_ebp q"
  by (cases r; cases q) (auto simp: same_registers_def)

text \<open>A near call of a valid recipe, decoded at the end of a code window.\<close>

lemma call_operand:
  assumes "valid_frame_target_spec f"
  shows "call_bytes f ! 0 = 0xe8" "word_of_bytes (call_bytes f ! 1) (call_bytes f ! 2) (call_bytes f ! 3) (call_bytes f ! 4)
    = target_rva f - call_rva f - 5"
proof -
  have op: "call_bytes f ! 0 = 0xe8" and eq: "uint (call_rva f) + 5 + rel32 (get_word (call_bytes f) 1) = uint (target_rva f)"
    using assms by (auto simp: valid_frame_target_spec_def)
  have "call_rva f + 5 + get_word (call_bytes f) 1 = target_rva f"
    using arg_cong[OF eq, of "word_of_int :: int \<Rightarrow> u32"] by (simp add: rel32_word)
  then have "get_word (call_bytes f) 1 = target_rva f - call_rva f - 5" by (auto simp: algebra_simps)
  then show "word_of_bytes (call_bytes f ! 1) (call_bytes f ! 2) (call_bytes f ! 3) (call_bytes f ! 4) = target_rva f - call_rva f - 5"
    by (simp add: get_word_of_bytes eval_nat_numeral)
  show "call_bytes f ! 0 = 0xe8" by (rule op)
qed

lemma call_list:
  assumes "valid_frame_target_spec f" and "length (call_bytes f) = 5"
  obtains b1 b2 b3 b4 where "call_bytes f = [0xe8, b1, b2, b3, b4]" "word_of_bytes b1 b2 b3 b4 = target_rva f - call_rva f - 5"
proof -
  obtain b0 b1 b2 b3 b4 where b: "call_bytes f = [b0, b1, b2, b3, b4]"
    using assms(2) by (auto simp: numeral_eq_Suc length_Suc_conv)
  show thesis by (rule that[of b1 b2 b3 b4]) (use call_operand[OF assms(1)] b in simp_all)
qed

section \<open>Execution of the dispatch\<close>

lemma list_of_length:
  "length stack = 2 \<and> stack ! 0 = x \<and> stack ! 1 = y \<longleftrightarrow> stack = [x, y]"
  "length stack = 3 \<and> stack ! 0 = x \<and> stack ! 1 = y \<and> stack ! 2 = z \<longleftrightarrow> stack = [x, y, z]"
  by (auto simp: list_eq_iff_nth_eq less_Suc_eq numeral_eq_Suc)

text \<open>
  The predicate accepts exactly the registers and the stack of a machine state, whatever the
  flags that are not trap bits.
\<close>

definition accepts_exactly :: "(event_dispatch_registers \<Rightarrow> u32 list \<Rightarrow> bool) \<Rightarrow> x86 \<Rightarrow> nat \<Rightarrow> bool" where
  "accepts_exactly frame c n \<longleftrightarrow> d_flags (regs_of c) AND 0x500 = 0
     \<and> (\<forall>r stack. frame r stack = (same_registers r (regs_of c) \<and> d_flags r AND 0x500 = 0
          \<and> stack = words_at c (x_reg c ESP) n))"

definition dispatch_legs :: "event_dispatch_spec \<Rightarrow> (region_code \<times> nat) list" where
  "dispatch_legs s =
     (let base = ft_image_base (dispatcher s); a = dispatcher s; b = ed_application s;
          site = (base + call_rva a - 7, event_dispatch_branch @ call_bytes a);
          body = (base + target_rva a, event_dispatch_prologue @ call_bytes b) in
      [(site, 4), (site, 1), (body, 6)])"

text \<open>
  Claim C26. The dispatch frames are exactly the states the audited code reaches: running the branch after the
  instance check, the call and the dispatcher's prologue on the reference processor passes the
  three observed places in order, and at each the frame predicate accepts the registers and the
  stack words of that state and no others.
\<close>

theorem dispatch_frames_match_execution:
  assumes "valid_event_dispatch_spec s parent"
    and "length (call_bytes (dispatcher s)) = 5" "length (call_bytes (ed_application s)) = 5"
    and "x_eip c = ft_image_base (dispatcher s) + call_rva (dispatcher s) - 7"
    and "x_reg c EAX = 0" "x_reg c EBX = 0" "4096 \<le> x_reg c ESP" "x_reg c ESP mod 4 = 0" "x_flags c AND 0x500 = 0"
  shows "\<exists>c1 c2 c3. run_through af (take 1 (dispatch_legs s)) c = Some c1
     \<and> run_through af (take 2 (dispatch_legs s)) c = Some c2 \<and> run_through af (dispatch_legs s) c = Some c3
     \<and> x_eip c1 = ft_image_base (dispatcher s) + call_rva (dispatcher s)
     \<and> x_eip c2 = ft_image_base (dispatcher s) + target_rva (dispatcher s)
     \<and> x_eip c3 = ft_image_base (dispatcher s) + call_rva (ed_application s)
     \<and> accepts_exactly (event_dispatch_frame s 1 (regs_of c)) c1 2
     \<and> accepts_exactly (event_dispatch_frame s 2 (regs_of c)) c2 3
     \<and> accepts_exactly (event_dispatch_frame s 3 (regs_of c)) c3 7"
proof -
  let ?base = "ft_image_base (dispatcher s)"
  have v: "valid_frame_target_spec (dispatcher s)"
    and cb: "call_rva (ed_application s) = target_rva (dispatcher s) + 12"
    using assms(1) unfolding valid_event_dispatch_spec_def Let_def by blast+
  from call_list[OF v assms(2)] obtain b1 b2 b3 b4 where call: "call_bytes (dispatcher s) = [0xe8, b1, b2, b3, b4]"
    "word_of_bytes b1 b2 b3 b4 = target_rva (dispatcher s) - call_rva (dispatcher s) - 5" by blast
  obtain i g f h w b where c: "c = \<lparr>x_eip = i, x_reg = g, x_flags = f, x_fs0 = h, x_word = w, x_byte = b\<rparr>" by (cases c)
  show ?thesis
    using assms(4-9)
    by (simp add: c dispatch_legs_def Let_def call cb event_dispatch_branch_def event_dispatch_prologue_def x86_eval
          logic_result_flags_def even_parity_def)
       (unfold accepts_exactly_def event_dispatch_frame_def Let_def list_of_length same_registers_iff,
        auto simp: v x86_eval not_less)
qed

definition sample_dispatch :: event_dispatch_spec where
  "sample_dispatch = \<lparr>dispatcher = \<lparr>ft_image_base = 0x400000, ft_image_size = 0x10000, call_rva = 0x3122, target_rva = 0x5000,
       call_bytes = [0xe8, 0xd9, 0x1e, 0, 0], target_prefix = event_dispatch_prologue @ [0xe8, 0xef, 0x0f, 0]\<rparr>,
     ed_application = \<lparr>ft_image_base = 0x400000, ft_image_size = 0x10000, call_rva = 0x500c, target_rva = 0x6000,
       call_bytes = [0xe8, 0xef, 0x0f, 0, 0],
       target_prefix = [0x8b, 0x44, 0x24, 4, 0x83, 0xf8, 0x26, 0x0f, 0x87, 0xf3, 2, 0, 0, 0x90, 0x90, 0xe9]\<rparr>,
     application_prefix = [0x8b, 0x44, 0x24, 4, 0x83, 0xf8, 0x26, 0x0f, 0x87, 0xf3, 2, 0, 0, 0x90, 0x90, 0xe9, 0xec, 0x0f, 0, 0, 0xff]\<rparr>"

lemma sample_dispatch_valid: "valid_event_dispatch_spec sample_dispatch sample_instance"
  by (simp add: valid_event_dispatch_spec_def valid_frame_target_spec_def sample_dispatch_def sample_instance_def UINT32_MAX_def
      rel32_def get_word_def event_dispatch_prologue_def Let_def dispatch_spans_def)

text \<open>A processor at the branch, all registers but the stack pointer zero.\<close>

definition sample_machine :: "u32 \<Rightarrow> x86" where
  "sample_machine eip = \<lparr>x_eip = eip, x_reg = (\<lambda>_. 0)(ESP := 0x19f000), x_flags = 0x202, x_fs0 = -1, x_word = (\<lambda>_. 0), x_byte = (\<lambda>_. 0)\<rparr>"

theorem dispatch_frames_match_execution_witness:
  "valid_event_dispatch_spec sample_dispatch sample_instance
   \<and> (\<exists>c3. run_through True (dispatch_legs sample_dispatch) (sample_machine 0x40311b) = Some c3 \<and> x_eip c3 = 0x40500c)"
proof -
  have a: "length (call_bytes (dispatcher sample_dispatch)) = 5" "length (call_bytes (ed_application sample_dispatch)) = 5"
    "x_eip (sample_machine 0x40311b) = ft_image_base (dispatcher sample_dispatch) + call_rva (dispatcher sample_dispatch) - 7"
    "x_reg (sample_machine 0x40311b) EAX = 0" "x_reg (sample_machine 0x40311b) EBX = 0" "4096 \<le> x_reg (sample_machine 0x40311b) ESP"
    "x_reg (sample_machine 0x40311b) ESP mod 4 = 0" "x_flags (sample_machine 0x40311b) AND 0x500 = 0"
    "ft_image_base (dispatcher sample_dispatch) + call_rva (ed_application sample_dispatch) = 0x40500c"
    by (simp_all add: sample_dispatch_def sample_machine_def)
  show ?thesis
    using dispatch_frames_match_execution[OF sample_dispatch_valid a(1-8), of True] sample_dispatch_valid a(9) by auto
qed

end
