(* ===== verification/Application_Routing.thy ===== *)
theory Application_Routing
  imports Event_Dispatch
begin

text \<open>
  \<open>application_routing.hpp/.cpp\<close>: the routing of the event inside the application handler. The recipe
  holds the index and target tables of the handler's switch; the code windows are rebuilt from it at
  the image base. The property executes the rebuilt windows for event 24 on the reference machine.
\<close>

section \<open>ApplicationRoutingSpec\<close>

record application_routing_spec =
  initializer :: frame_target_spec
  detour_rva :: u32
  index_rva :: u32
  routing_table_rva :: u32
  indices :: bytes
  target_rvas :: "u32 list"

record routing_code =
  rc_entry :: bytes
  rc_detour :: bytes
  rc_indirect :: bytes
  rc_targets :: "u32 list"

definition routing_range :: "application_routing_spec \<Rightarrow> u32 \<Rightarrow> u32 \<Rightarrow> bool" where
  "routing_range s r n \<longleftrightarrow> r \<ge> 4096 \<and> n \<le> ft_image_size (initializer s) \<and> r \<le> ft_image_size (initializer s) - n"

definition routing_spans :: "application_routing_spec \<Rightarrow> event_dispatch_spec \<Rightarrow> span list" where
  "routing_spans s p = [(target_rva (ed_application p), 27), (detour_rva s, 12), (index_rva s, 39), (routing_table_rva s, 44),
     (call_rva (initializer s), 5), (target_rva (initializer s), 16),
     (target_rva (dispatcher p), 17), (call_rva (dispatcher p) - 7, 12)]"

definition routing_layout :: "application_routing_spec \<Rightarrow> event_dispatch_spec \<Rightarrow> bool" where
  "routing_layout s p \<longleftrightarrow>
     (let f = initializer s; a = ed_application p in
      \<not> (\<not> valid_frame_target_spec f \<or> \<not> valid_frame_target_spec a \<or> \<not> valid_frame_target_spec (dispatcher p)
         \<or> ft_image_base f \<noteq> ft_image_base a \<or> ft_image_size f \<noteq> ft_image_size a
         \<or> ft_image_base (dispatcher p) \<noteq> ft_image_base a \<or> ft_image_size (dispatcher p) \<noteq> ft_image_size a
         \<or> call_rva a \<noteq> target_rva (dispatcher p) + 12
         \<or> indices s ! 24 \<noteq> 5 \<or> target_rvas s ! 5 \<noteq> call_rva f))
     \<and> list_all (\<lambda>(r, n). routing_range s r n) (routing_spans s p) \<and> disjoint_from [] (routing_spans s p)
     \<and> list_all (\<lambda>v. \<not> unat v \<ge> length (target_rvas s)) (indices s)
     \<and> list_all (\<lambda>r. routing_range s r 1) (target_rvas s)"

definition application_routing_code :: "application_routing_spec \<Rightarrow> event_dispatch_spec \<Rightarrow> routing_code option" where
  "application_routing_code s p =
    (if \<not> routing_layout s p then None
     else let r = target_rva (ed_application p); base = ft_image_base (ed_application p) in
       Some \<lparr>rc_entry = put_word (put_word [0x8b, 0x44, 0x24, 0x04, 0x83, 0xf8, 0x26, 0x0f, 0x87, 0, 0, 0, 0, 0x90, 0x90, 0xe9, 0, 0, 0, 0, 0xff]
              9 (target_rvas s ! 10 - (r + 13))) 16 (detour_rva s - (r + 20)),
          rc_detour = put_word (put_word [0x0f, 0xb6, 0x80, 0, 0, 0, 0, 0xe9, 0, 0, 0, 0]
              3 (base + index_rva s)) 8 (r + 20 - (detour_rva s + 12)),
          rc_indirect = put_word [0xff, 0x24, 0x85, 0, 0, 0, 0] 3 (base + routing_table_rva s),
          rc_targets = map (\<lambda>t. base + t) (target_rvas s)\<rparr>)"

definition valid_application_routing_spec :: "application_routing_spec \<Rightarrow> event_dispatch_spec \<Rightarrow> bool" where
  "valid_application_routing_spec s p \<longleftrightarrow> (case application_routing_code s p of None \<Rightarrow> False
     | Some code \<Rightarrow> rc_entry code = application_prefix p
         \<and> target_prefix (ed_application p) = take (length (target_prefix (ed_application p))) (rc_entry code))"

definition application_routing_frame :: "application_routing_spec \<Rightarrow> event_dispatch_spec \<Rightarrow> u32 \<Rightarrow> event_dispatch_registers
    \<Rightarrow> event_dispatch_registers \<Rightarrow> u32 list \<Rightarrow> bool" where
  "application_routing_frame s p stage saved r stack \<longleftrightarrow>
     \<not> (stage < 1 \<or> stage > 4 \<or> \<not> valid_application_routing_spec s p \<or> d_esp saved < 4096 \<or> d_esp saved mod 4 \<noteq> 0
        \<or> d_eax saved \<noteq> 0 \<or> d_ebx saved \<noteq> 0 \<or> d_flags saved AND 0x500 \<noteq> 0 \<or> d_flags r AND 0x500 \<noteq> 0
        \<or> d_esp r \<noteq> d_esp saved - 32 \<or> d_ebx r \<noteq> 0 \<or> d_ecx r \<noteq> d_ecx saved \<or> d_edx r \<noteq> d_edx saved
        \<or> d_ebp r \<noteq> d_ebp saved \<or> d_esi r \<noteq> 0 \<or> d_edi r \<noteq> 24
        \<or> d_eax r \<noteq> (if stage = 1 then 0 else if stage = 2 then 24 else 5))
     \<and> stack = [ft_image_base (ed_application p) + call_rva (ed_application p) + 5, 24, 0, d_edi saved, d_esi saved,
          ft_image_base (dispatcher p) + call_rva (dispatcher p) + 5, 24, 0]"

section \<open>Execution of the switch\<close>

text \<open>The handler's window: the rebuilt entry up to the indirect jump.\<close>

lemma application_routing_code_result:
  assumes "application_routing_code s p = Some code"
  shows "code = \<lparr>rc_entry = put_word (put_word [0x8b, 0x44, 0x24, 0x04, 0x83, 0xf8, 0x26, 0x0f, 0x87, 0, 0, 0, 0, 0x90, 0x90, 0xe9, 0, 0, 0, 0, 0xff]
              9 (target_rvas s ! 10 - (target_rva (ed_application p) + 13))) 16 (detour_rva s - (target_rva (ed_application p) + 20)),
          rc_detour = put_word (put_word [0x0f, 0xb6, 0x80, 0, 0, 0, 0, 0xe9, 0, 0, 0, 0]
              3 (ft_image_base (ed_application p) + index_rva s)) 8 (target_rva (ed_application p) + 20 - (detour_rva s + 12)),
          rc_indirect = put_word [0xff, 0x24, 0x85, 0, 0, 0, 0] 3 (ft_image_base (ed_application p) + routing_table_rva s),
          rc_targets = map (\<lambda>t. ft_image_base (ed_application p) + t) (target_rvas s)\<rparr>"
    "indices s ! 24 = 5" "target_rvas s ! 5 = call_rva (initializer s)" "ft_image_base (initializer s) = ft_image_base (ed_application p)"
proof -
  have lay: "routing_layout s p" using assms by (simp add: application_routing_code_def split: if_splits)
  then show "code = \<lparr>rc_entry = put_word (put_word [0x8b, 0x44, 0x24, 0x04, 0x83, 0xf8, 0x26, 0x0f, 0x87, 0, 0, 0, 0, 0x90, 0x90, 0xe9, 0, 0, 0, 0, 0xff]
              9 (target_rvas s ! 10 - (target_rva (ed_application p) + 13))) 16 (detour_rva s - (target_rva (ed_application p) + 20)),
          rc_detour = put_word (put_word [0x0f, 0xb6, 0x80, 0, 0, 0, 0, 0xe9, 0, 0, 0, 0]
              3 (ft_image_base (ed_application p) + index_rva s)) 8 (target_rva (ed_application p) + 20 - (detour_rva s + 12)),
          rc_indirect = put_word [0xff, 0x24, 0x85, 0, 0, 0, 0] 3 (ft_image_base (ed_application p) + routing_table_rva s),
          rc_targets = map (\<lambda>t. ft_image_base (ed_application p) + t) (target_rvas s)\<rparr>"
    using assms by (simp add: application_routing_code_def Let_def)
  show "indices s ! 24 = 5" "target_rvas s ! 5 = call_rva (initializer s)" "ft_image_base (initializer s) = ft_image_base (ed_application p)"
    using lay unfolding routing_layout_def Let_def by blast+
qed

definition routing_legs :: "application_routing_spec \<Rightarrow> event_dispatch_spec \<Rightarrow> routing_code \<Rightarrow> (region_code \<times> nat) list" where
  "routing_legs s p code =
     (let base = ft_image_base (ed_application p);
          handler = (base + target_rva (ed_application p), take 20 (rc_entry code) @ rc_indirect code);
          detour = (base + detour_rva s, rc_detour code) in
      [(handler, 6), (detour, 2), (handler, 1)])"

text \<open>The loaded image holds the two tables of the switch.\<close>

definition tables_loaded :: "application_routing_spec \<Rightarrow> event_dispatch_spec \<Rightarrow> x86 \<Rightarrow> bool" where
  "tables_loaded s p c \<longleftrightarrow> (let base = ft_image_base (ed_application p) in
     bytes_at c (base + index_rva s) (length (indices s)) = indices s
     \<and> words_at c (base + routing_table_rva s) (length (target_rvas s)) = map (\<lambda>t. base + t) (target_rvas s))"

text \<open>
  Claim C27. Event 24 reaches the initializer and nothing else: in the image rebuilt from a valid recipe, running
  the handler from its entry goes through the detour, the index table and the jump table to the
  call site of the initializer, and at each of the three later places the frame predicate accepts
  exactly the registers and stack of that state.
\<close>

theorem event_24_reaches_initializer:
  assumes "valid_application_routing_spec s p" and "application_routing_code s p = Some code"
    and "length (indices s) = 39" "length (target_rvas s) = 11"
    and "x_eip c = ft_image_base (ed_application p) + target_rva (ed_application p)"
    and "application_routing_frame s p 1 saved (regs_of c) (words_at c (x_reg c ESP) 8)" and "tables_loaded s p c"
  shows "\<exists>c2 c3 c4. run_through af (take 1 (routing_legs s p code)) c = Some c2
     \<and> run_through af (take 2 (routing_legs s p code)) c = Some c3 \<and> run_through af (routing_legs s p code) c = Some c4
     \<and> x_eip c2 = ft_image_base (ed_application p) + detour_rva s
     \<and> x_eip c3 = ft_image_base (ed_application p) + target_rva (ed_application p) + 20
     \<and> x_eip c4 = ft_image_base (initializer s) + call_rva (initializer s)
     \<and> accepts_exactly (application_routing_frame s p 2 saved) c2 8
     \<and> accepts_exactly (application_routing_frame s p 3 saved) c3 8
     \<and> accepts_exactly (application_routing_frame s p 4 saved) c4 8"
proof -
  let ?base = "ft_image_base (ed_application p)"
  note code = application_routing_code_result(1)[OF assms(2)] and idx = application_routing_code_result(2)[OF assms(2)]
    and tgt = application_routing_code_result(3)[OF assms(2)] and fb = application_routing_code_result(4)[OF assms(2)]
  obtain i g f h w b where c: "c = \<lparr>x_eip = i, x_reg = g, x_flags = f, x_fs0 = h, x_word = w, x_byte = b\<rparr>" by (cases c)
  have tab: "b (24 + (?base + index_rva s)) = 5" "w (20 + (?base + routing_table_rva s)) = ?base + call_rva (initializer s)"
    using assms(3,4,7) nth_bytes_at[of 24 39 c "?base + index_rva s"] nth_words_at[of 5 11 c "?base + routing_table_rva s"]
    unfolding tables_loaded_def Let_def by (auto simp: idx tgt add.commute c)
  have stk: "words_at c (x_reg c ESP) 8 = [?base + call_rva (ed_application p) + 5, 24, 0, d_edi saved, d_esi saved,
      ft_image_base (dispatcher p) + call_rva (dispatcher p) + 5, 24, 0]"
    using assms(6) unfolding application_routing_frame_def by blast
  have eip: "i = ?base + target_rva (ed_application p)" using assms(5) by (simp add: c)
  have w4: "w (g ESP + 4) = 24" and w0: "w (g ESP) = ?base + call_rva (ed_application p) + 5"
    and rest: "w (8 + g ESP) = 0" "w (12 + g ESP) = d_edi saved" "w (16 + g ESP) = d_esi saved"
       "w (20 + g ESP) = ft_image_base (dispatcher p) + call_rva (dispatcher p) + 5" "w (24 + g ESP) = 24" "w (28 + g ESP) = 0"
    using stk by (simp_all add: c x86_eval)
  have regs: "d_esp saved = g ESP + 32" "g EAX = 0" "g EBX = 0" "g ESI = 0" "g EDI = 24" "g ECX = d_ecx saved" "g EDX = d_edx saved"
    "g EBP = d_ebp saved" "f AND 0x500 = 0" and sv: "\<not> d_esp saved < 4096" "d_esp saved mod 4 = 0" "d_eax saved = 0" "d_ebx saved = 0"
    "d_flags saved AND 0x500 = 0"
    using assms(6) unfolding application_routing_frame_def c regs_of_sel by auto
  show ?thesis
    by (simp add: c eip routing_legs_def Let_def code fb tab w4 x86_eval sub_flags_def)
       (simp add: accepts_exactly_def application_routing_frame_def assms(1) regs w0 w4 rest sv(3-5) sv(1,2)[unfolded regs(1)] tab same_registers_iff x86_eval, auto)
qed

definition sample_routing :: application_routing_spec where
  "sample_routing = \<lparr>initializer = \<lparr>ft_image_base = 0x400000, ft_image_size = 0x10000, call_rva = 0x6100, target_rva = 0x6200,
       call_bytes = [0xe8, 0xfb, 0, 0, 0],
       target_prefix = [0xe8, 0xfb, 1, 0, 0, 0xe8, 0xf6, 2, 0, 0, 0xe8, 0xf1, 3, 0, 0, 0x6a]\<rparr>,
     detour_rva = 0x7000, index_rva = 0x7100, routing_table_rva = 0x7200,
     
     indices = [10, 10, 10, 10, 10, 10, 10, 10, 10, 10, 10, 10, 10, 10, 10, 10, 10, 10, 10, 10, 10, 10, 10, 10, 5, 10, 10, 10, 10, 10, 10, 10, 10, 10, 10, 10, 10, 10, 10],
     target_rvas = [0x6300, 0x6300, 0x6300, 0x6300, 0x6300, 0x6100, 0x6300, 0x6300, 0x6300, 0x6300, 0x6300]\<rparr>"

text \<open>The processor at the handler's entry, the switch tables of the image in memory.\<close>

definition routing_machine :: x86 where
  "routing_machine = \<lparr>x_eip = 0x406000, x_reg = (\<lambda>_. 0)(ESP := 0x19f000, EDI := 24), x_flags = 0x202, x_fs0 = -1,
     x_word = (\<lambda>a. if 0x407200 \<le> a \<and> a < 0x40722c then (if a = 0x407214 then 0x406100 else 0x406300) else 0)
       (0x19f000 := 0x405011, 0x19f004 := 24, 0x19f014 := 0x403127, 0x19f018 := 24),
     x_byte = (\<lambda>a. if a = 0x407118 then 5 else 10)\<rparr>"

definition routing_caller :: event_dispatch_registers where
  "routing_caller = \<lparr>d_esp = 0x19f020, d_eax = 0, d_ebx = 0, d_ecx = 0, d_edx = 0, d_esi = 0, d_edi = 0, d_ebp = 0, d_flags = 0x202\<rparr>"

lemma sample_routing_valid: "valid_application_routing_spec sample_routing sample_dispatch"
  "application_routing_code sample_routing sample_dispatch \<noteq> None"
proof -
  have lay: "routing_layout sample_routing sample_dispatch"
    by (simp add: routing_layout_def Let_def sample_routing_def sample_dispatch_def valid_frame_target_spec_def UINT32_MAX_def rel32_def
        get_word_def routing_range_def routing_spans_def)
  then show "valid_application_routing_spec sample_routing sample_dispatch" "application_routing_code sample_routing sample_dispatch \<noteq> None"
    by (simp_all add: valid_application_routing_spec_def application_routing_code_def Let_def sample_routing_def sample_dispatch_def
        put_word_def)
qed

lemma routing_machine_ready:
  "application_routing_frame sample_routing sample_dispatch 1 routing_caller (regs_of routing_machine)
     (words_at routing_machine (x_reg routing_machine ESP) 8)" (is ?frame)
  "tables_loaded sample_routing sample_dispatch routing_machine" (is ?tables)
proof -
  show ?frame
    using sample_routing_valid(1)
    by (simp add: application_routing_frame_def routing_machine_def routing_caller_def words_at_numeral sample_dispatch_def)
  show ?tables
    by (simp add: tables_loaded_def Let_def routing_machine_def sample_dispatch_def sample_routing_def bytes_at_numeral words_at_numeral)
qed

theorem event_24_reaches_initializer_witness:
  "\<exists>code c4. run_through False (routing_legs sample_routing sample_dispatch code) routing_machine = Some c4 \<and> x_eip c4 = 0x406100"
proof -
  obtain code where code: "application_routing_code sample_routing sample_dispatch = Some code" using sample_routing_valid(2) by blast
  have a: "length (indices sample_routing) = 39" "length (target_rvas sample_routing) = 11"
    "x_eip routing_machine = ft_image_base (ed_application sample_dispatch) + target_rva (ed_application sample_dispatch)"
    "ft_image_base (initializer sample_routing) + call_rva (initializer sample_routing) = 0x406100"
    by (simp_all add: sample_routing_def sample_dispatch_def routing_machine_def)
  show ?thesis
    using event_24_reaches_initializer[OF sample_routing_valid(1) code a(1-3) routing_machine_ready, of False] a(4) by auto
qed

end
