(* ===== verification/Game_Prelude.thy ===== *)
theory Game_Prelude
  imports Application_Routing
begin

text \<open>
  \<open>game_prelude.hpp/.cpp\<close> and \<open>file_manager_entry.hpp/.cpp\<close>: the first calls of the initializer (an empty
  helper, then one that resets three flag bytes) and the entry of the file manager up to its
  request for the current directory. The properties run the audited windows on the reference
  machine.
\<close>

section \<open>GamePreludeSpec\<close>

record game_prelude_spec =
  gp_empty :: frame_target_spec
  localisation :: frame_target_spec
  flags_rva :: u32
  gp_stop_prefix :: bytes

definition game_prelude_body :: "game_prelude_spec \<Rightarrow> bytes option" where
  "game_prelude_body s =
    (let f = localisation s in
     if \<not> valid_frame_target_spec f \<or> flags_rva s < 4100 \<or> flags_rva s > ft_image_size f - 12 then None
     else let a = ft_image_base f + flags_rva s in
       Some (put_word (put_word (put_word [0x32, 0xc0, 0xc6, 0x05, 0, 0, 0, 0, 1, 0xa2, 0, 0, 0, 0, 0xa2, 0, 0, 0, 0, 0xc3]
         4 a) 10 (a + 1)) 15 (a + 2)))"

definition prelude_spans :: "game_prelude_spec \<Rightarrow> application_routing_spec \<Rightarrow> span list" where
  "prelude_spans s p = [(call_rva (initializer p), 5), (target_rva (initializer p), 26), (target_rva (gp_empty s), 16),
     (target_rva (localisation s), 20), (flags_rva s - 4, 16)]"

definition valid_game_prelude_spec :: "game_prelude_spec \<Rightarrow> application_routing_spec \<Rightarrow> bool" where
  "valid_game_prelude_spec s p \<longleftrightarrow>
     (let a = gp_empty s; b = localisation s; f = initializer p in
      \<not> (\<not> valid_frame_target_spec f \<or> \<not> valid_frame_target_spec a \<or> \<not> valid_frame_target_spec b
         \<or> ft_image_base a \<noteq> ft_image_base f \<or> ft_image_base b \<noteq> ft_image_base f
         \<or> ft_image_size a \<noteq> ft_image_size f \<or> ft_image_size b \<noteq> ft_image_size f
         \<or> call_rva a \<noteq> target_rva f \<or> call_rva b \<noteq> call_rva a + 5 \<or> target_prefix a ! 0 \<noteq> 0xc3
         \<or> \<not> list_all (\<lambda>v. v = 0x90) (tl (target_prefix a))
         \<or> call_bytes a \<noteq> take (length (call_bytes a)) (target_prefix f)
         \<or> call_bytes b \<noteq> take (length (call_bytes b)) (drop 5 (target_prefix f))
         \<or> take 6 (gp_stop_prefix s) \<noteq> take 6 (drop 10 (target_prefix f)))
      \<and> (case game_prelude_body s of None \<Rightarrow> False
         | Some body \<Rightarrow> target_prefix b = take (length (target_prefix b)) body)
      \<and> spans_ok (ft_image_size f) (prelude_spans s p))"

text \<open>
  1 initializer entry, 2 empty helper, 3 call of the localisation helper, 4 its entry, 5 the next
  call.
\<close>

definition game_prelude_frame :: "game_prelude_spec \<Rightarrow> application_routing_spec \<Rightarrow> u32 \<Rightarrow> event_dispatch_registers
    \<Rightarrow> event_dispatch_registers \<Rightarrow> u32 list \<Rightarrow> bool" where
  "game_prelude_frame s p stage saved r stack \<longleftrightarrow>
     \<not> (stage < 1 \<or> stage > 5 \<or> \<not> valid_game_prelude_spec s p \<or> d_esp saved < 4096 \<or> d_esp saved mod 4 \<noteq> 0 \<or> d_eax saved \<noteq> 5
        \<or> d_ebx saved \<noteq> 0 \<or> d_esi saved \<noteq> 0 \<or> d_edi saved \<noteq> 24 \<or> d_flags saved AND 0x500 \<noteq> 0 \<or> d_flags r AND 0x500 \<noteq> 0
        \<or> d_ebx r \<noteq> d_ebx saved \<or> d_ecx r \<noteq> d_ecx saved \<or> d_edx r \<noteq> d_edx saved \<or> d_esi r \<noteq> d_esi saved
        \<or> d_edi r \<noteq> d_edi saved \<or> d_ebp r \<noteq> d_ebp saved \<or> d_eax r \<noteq> (if stage = 5 then 0 else 5))
     \<and> \<not> (stage = 5 \<and> (d_flags r AND 0x8c5 \<noteq> 0x44 \<or> (d_flags r XOR d_flags saved) AND NOT 0x108d5 \<noteq> 0))
     \<and> \<not> (stage < 5 \<and> (d_flags r XOR d_flags saved) AND NOT 0x10000 \<noteq> 0)
     \<and> (let ret = ft_image_base (initializer p) + call_rva (initializer p) + 5 in
        if stage = 2 \<or> stage = 4 then
          (let child_ret = ft_image_base (initializer p)
             + (if stage = 2 then call_rva (gp_empty s) else call_rva (localisation s)) + 5 in
           d_esp r = d_esp saved - 8 \<and> stack = [child_ret, ret])
        else d_esp r = d_esp saved - 4 \<and> stack = [ret])"

definition game_prelude_flags :: "u32 \<Rightarrow> bytes \<Rightarrow> bytes \<Rightarrow> bool" where
  "game_prelude_flags stage before current \<longleftrightarrow> \<not> (stage < 1 \<or> stage > 5)
     \<and> current = (if stage = 5 then before[4 := 1, 5 := 0, 6 := 0] else before)"

section \<open>Execution of the prelude\<close>

text \<open>
  The predicate accepts exactly the registers, the stack and the flags of a machine state; the
  flag bits of \<open>ig\<close> are free.
\<close>

definition accepts_state :: "(event_dispatch_registers \<Rightarrow> u32 list \<Rightarrow> bool) \<Rightarrow> x86 \<Rightarrow> nat \<Rightarrow> u32 \<Rightarrow> bool" where
  "accepts_state frame c n ig \<longleftrightarrow> (\<forall>r stack. frame r stack = (same_registers r (regs_of c)
     \<and> (d_flags r XOR x_flags c) AND NOT ig = 0 \<and> stack = words_at c (x_reg c ESP) n))"

lemma trap_free:
  "(rf XOR f) AND - 65537 = 0 \<Longrightarrow> f AND 0x500 = 0 \<Longrightarrow> rf AND 0x500 = (0 :: u32)"
  "(rf XOR f) AND - 65553 = 0 \<Longrightarrow> f AND 0x500 = 0 \<Longrightarrow> rf AND 0x500 = (0 :: u32)"
  using trap_agree[of rf f "0x10000"] trap_agree[of rf f "0x10010"] by simp_all

lemma xor_status:
  "(rf AND 0x8c5 = 0x44 \<and> (rf XOR sf) AND - 67798 = 0) \<longleftrightarrow> (rf XOR set_status sf (logic_result_flags af 0)) AND - 65553 = 0"
proof -
  have "logic_result_flags af 0 AND 0x8c5 = 0x44"
    by (simp add: logic_result_flags_def even_parity_def pack_flags_def)
  then show ?thesis using flags_agree(2)[of "logic_result_flags af 0" rf sf] by simp
qed

lemma xor_status_parts:
  "rf AND 0x8c5 = 0x44 \<Longrightarrow> (rf XOR sf) AND - 67798 = 0 \<Longrightarrow> (rf XOR set_status sf (logic_result_flags af 0)) AND - 65553 = 0"
  "(rf XOR set_status sf (logic_result_flags af 0)) AND - 65553 = 0 \<Longrightarrow> rf AND 0x8c5 = 0x44"
  "(rf XOR set_status sf (logic_result_flags af 0)) AND - 65553 = 0 \<Longrightarrow> (rf XOR sf) AND - 67798 = 0"
  using xor_status[of rf sf af] by blast+

lemma game_prelude_body_result:
  assumes "game_prelude_body s = Some body"
  shows "body = put_word (put_word (put_word [0x32, 0xc0, 0xc6, 0x05, 0, 0, 0, 0, 1, 0xa2, 0, 0, 0, 0, 0xa2, 0, 0, 0, 0, 0xc3]
         4 (ft_image_base (localisation s) + flags_rva s)) 10 (ft_image_base (localisation s) + flags_rva s + 1)) 15 (ft_image_base (localisation s) + flags_rva s + 2)"
  using assms by (simp add: game_prelude_body_def Let_def split: if_splits)

definition prelude_legs :: "game_prelude_spec \<Rightarrow> application_routing_spec \<Rightarrow> bytes \<Rightarrow> (region_code \<times> nat) list" where
  "prelude_legs s p body =
     (let base = ft_image_base (initializer p);
          site = (base + call_rva (initializer p), call_bytes (initializer p));
          init = (base + target_rva (initializer p), call_bytes (gp_empty s) @ call_bytes (localisation s)) in
      [(site, 1), (init, 1), ((base + target_rva (gp_empty s), target_prefix (gp_empty s)), 1), (init, 1),
       ((base + target_rva (localisation s), body), 5)])"

text \<open>
  Claim C28. The prelude frames and the flag check are exactly what the audited code does: from the call of the
  initializer on, the reference processor passes the five observed places in order; at each the
  frame predicate accepts the registers, stack and flags of that state and no others, and at the
  last the flag window holds one, zero, zero between unchanged guard bytes, which the flag check
  accepts and nothing else.
\<close>

theorem prelude_frames_match_execution:
  assumes "valid_game_prelude_spec s p" and "game_prelude_body s = Some body"
    and "length (call_bytes (initializer p)) = 5" "length (call_bytes (gp_empty s)) = 5" "length (call_bytes (localisation s)) = 5"
      "length (target_prefix (gp_empty s)) = 16"
    and "x_eip c = ft_image_base (initializer p) + call_rva (initializer p)"
    and "x_reg c EAX = 5" "x_reg c EBX = 0" "x_reg c ESI = 0" "x_reg c EDI = 24" "4096 \<le> x_reg c ESP" "x_reg c ESP mod 4 = 0"
      "x_flags c AND 0x500 = 0"
  defines "window \<equiv> \<lambda>c. bytes_at c (ft_image_base (initializer p) + flags_rva s - 4) 16"
  shows "\<exists>c1 c2 c3 c4 c5. run_through af (take 1 (prelude_legs s p body)) c = Some c1
     \<and> run_through af (take 2 (prelude_legs s p body)) c = Some c2 \<and> run_through af (take 3 (prelude_legs s p body)) c = Some c3
     \<and> run_through af (take 4 (prelude_legs s p body)) c = Some c4 \<and> run_through af (prelude_legs s p body) c = Some c5
     \<and> x_eip c5 = ft_image_base (initializer p) + call_rva (localisation s) + 5
     \<and> accepts_state (game_prelude_frame s p 1 (regs_of c)) c1 1 0x10000
     \<and> accepts_state (game_prelude_frame s p 2 (regs_of c)) c2 2 0x10000
     \<and> accepts_state (game_prelude_frame s p 3 (regs_of c)) c3 1 0x10000
     \<and> accepts_state (game_prelude_frame s p 4 (regs_of c)) c4 2 0x10000
     \<and> accepts_state (game_prelude_frame s p 5 (regs_of c)) c5 1 0x10010
     \<and> (\<forall>current. game_prelude_flags 5 (window c) current = (current = window c5))"
proof -
  let ?base = "ft_image_base (initializer p)"
  have v: "valid_frame_target_spec (initializer p)" "valid_frame_target_spec (gp_empty s)" "valid_frame_target_spec (localisation s)"
    and at: "call_rva (gp_empty s) = target_rva (initializer p)" "call_rva (localisation s) = call_rva (gp_empty s) + 5"
      "ft_image_base (localisation s) = ?base" and op: "target_prefix (gp_empty s) ! 0 = 0xc3"
    using assms(1) unfolding valid_game_prelude_spec_def Let_def by blast+
  from call_list[OF v(1) assms(3)] obtain i1 i2 i3 i4 where i: "call_bytes (initializer p) = [0xe8, i1, i2, i3, i4]"
    "word_of_bytes i1 i2 i3 i4 = target_rva (initializer p) - call_rva (initializer p) - 5" by blast
  from call_list[OF v(2) assms(4)] obtain e1 e2 e3 e4 where e: "call_bytes (gp_empty s) = [0xe8, e1, e2, e3, e4]"
    "word_of_bytes e1 e2 e3 e4 = target_rva (gp_empty s) - call_rva (gp_empty s) - 5" by blast
  from call_list[OF v(3) assms(5)] obtain l1 l2 l3 l4 where l: "call_bytes (localisation s) = [0xe8, l1, l2, l3, l4]"
    "word_of_bytes l1 l2 l3 l4 = target_rva (localisation s) - call_rva (localisation s) - 5" by blast
  obtain rest where ret: "target_prefix (gp_empty s) = 0xc3 # rest"
    using op assms(6) by (cases "target_prefix (gp_empty s)") auto
  note body = game_prelude_body_result[OF assms(2), unfolded at(3)]
  obtain ip g f h w b where c: "c = \<lparr>x_eip = ip, x_reg = g, x_flags = f, x_fs0 = h, x_word = w, x_byte = b\<rparr>" by (cases c)
  show ?thesis
    using assms(7-14)
    by (simp add: c prelude_legs_def Let_def i e l at ret body x86_eval)
       (unfold accepts_state_def game_prelude_frame_def Let_def same_registers_iff game_prelude_flags_def window_def,
        auto simp: assms(1) x86_eval at not_less intro: xor_status_parts(1) dest: trap_free xor_status_parts(2,3))
qed

section \<open>FileManagerEntrySpec\<close>

record file_manager_entry_spec =
  manager :: frame_target_spec
  cwd_rva :: u32
  buffer_rva :: u32
  suffix_rva :: u32
  fm_return_prefix :: bytes

definition file_manager_shape :: bytes where
  "file_manager_shape = [0x57,0x68,0x80,0,0,0,0x68,0,0,0,0,0xe8,0,0,0,0,
     0xbf,0,0,0,0,0x83,0xc4,8,0x4f,0x8d,0xa4,0x24,0,0,0,0,
     0x8a,0x47,1,0x47,0x84,0xc0,0x75,0xf8,0x66,0xa1,0,0,0,0,0x66,0x89,7,0x5f,0xc3]"

definition file_manager_body :: "file_manager_entry_spec \<Rightarrow> bytes option" where
  "file_manager_body s =
    (let f = manager s in
     if \<not> valid_frame_target_spec f \<or> buffer_rva s < 4100 \<or> buffer_rva s > ft_image_size f - 132
        \<or> suffix_rva s < 4096 \<or> suffix_rva s > ft_image_size f - 2 \<or> cwd_rva s < 4096 \<or> cwd_rva s > ft_image_size f - 16
        \<or> target_rva f > ft_image_size f - 51 then None
     else let delta = uint (cwd_rva s) - uint (target_rva f) - 16 in
       if delta < - (2 ^ 31) \<or> delta > 2 ^ 31 - 1 then None
       else Some (put_word (put_word (put_word (put_word file_manager_shape
           7 (ft_image_base f + buffer_rva s)) 17 (ft_image_base f + buffer_rva s)) 42 (ft_image_base f + suffix_rva s))
           12 (word_of_int delta)))"

definition manager_spans :: "file_manager_entry_spec \<Rightarrow> game_prelude_spec \<Rightarrow> application_routing_spec \<Rightarrow> span list" where
  "manager_spans s p r = [(call_rva (initializer r), 5), (target_rva (initializer r), 31),
     (target_rva (gp_empty p), 16), (target_rva (localisation p), 20), (flags_rva p - 4, 16),
     (target_rva (manager s), 51), (cwd_rva s, 16), (buffer_rva s - 4, 136), (suffix_rva s, 2)]"

definition valid_file_manager_entry_spec :: "file_manager_entry_spec \<Rightarrow> game_prelude_spec \<Rightarrow> application_routing_spec \<Rightarrow> bool" where
  "valid_file_manager_entry_spec s p r \<longleftrightarrow>
     (let f = manager s; parent = initializer r in
      valid_game_prelude_spec p r
      \<and> (case file_manager_body s of None \<Rightarrow> False
         | Some body \<Rightarrow> \<not> (ft_image_base f \<noteq> ft_image_base parent \<or> ft_image_size f \<noteq> ft_image_size parent
             \<or> call_rva f \<noteq> call_rva (localisation p) + 5 \<or> call_bytes f \<noteq> take (length (call_bytes f)) (gp_stop_prefix p)
             \<or> take 11 (fm_return_prefix s) \<noteq> take 11 (drop 5 (gp_stop_prefix p))
             \<or> target_prefix f \<noteq> take (length (target_prefix f)) body))
      \<and> spans_ok (ft_image_size f) (manager_spans s p r))"

text \<open>1 manager entry, 2 before the request for the current directory.\<close>

definition file_manager_entry_frame :: "file_manager_entry_spec \<Rightarrow> game_prelude_spec \<Rightarrow> application_routing_spec \<Rightarrow> u32
    \<Rightarrow> event_dispatch_registers \<Rightarrow> event_dispatch_registers \<Rightarrow> u32 list \<Rightarrow> bool" where
  "file_manager_entry_frame s p parent stage saved r stack \<longleftrightarrow>
     \<not> (stage < 1 \<or> stage > 2 \<or> \<not> valid_file_manager_entry_spec s p parent \<or> d_esp saved < 4096 \<or> d_esp saved mod 4 \<noteq> 0
        \<or> d_eax saved \<noteq> 0 \<or> d_ebx saved \<noteq> 0 \<or> d_esi saved \<noteq> 0 \<or> d_edi saved \<noteq> 24
        \<or> d_flags saved AND 0x500 \<noteq> 0 \<or> d_flags r AND 0x500 \<noteq> 0
        \<or> (d_flags saved XOR d_flags r) AND NOT 0x10000 \<noteq> 0 \<or> d_eax r \<noteq> d_eax saved \<or> d_ebx r \<noteq> d_ebx saved
        \<or> d_ecx r \<noteq> d_ecx saved \<or> d_edx r \<noteq> d_edx saved \<or> d_esi r \<noteq> d_esi saved \<or> d_edi r \<noteq> d_edi saved \<or> d_ebp r \<noteq> d_ebp saved)
     \<and> (let base = ft_image_base (manager s); outer = base + call_rva (initializer parent) + 5; ret = base + call_rva (manager s) + 5 in
        if stage = 1 then d_esp r = d_esp saved - 4 \<and> stack = [ret, outer]
        else d_esp r = d_esp saved - 16 \<and> stack = [base + buffer_rva s, 128, d_edi saved, ret, outer])"

lemma valid_manager:
  assumes "valid_file_manager_entry_spec s p r"
  obtains body where "file_manager_body s = Some body" "ft_image_base (manager s) = ft_image_base (initializer r)"
    "ft_image_size (manager s) = ft_image_size (initializer r)" "call_rva (manager s) = call_rva (localisation p) + 5"
    "valid_frame_target_spec (manager s)"
  using assms unfolding valid_file_manager_entry_spec_def Let_def
  by (cases "file_manager_body s") (auto simp: file_manager_body_def Let_def split: if_splits)

lemma file_manager_body_result:
  assumes "file_manager_body s = Some body"
  shows "body = put_word (put_word (put_word (put_word file_manager_shape
      7 (ft_image_base (manager s) + buffer_rva s)) 17 (ft_image_base (manager s) + buffer_rva s)) 42 (ft_image_base (manager s) + suffix_rva s))
      12 (cwd_rva s - target_rva (manager s) - 16)"
    "valid_frame_target_spec (manager s)"
  using assms by (simp_all add: file_manager_body_def Let_def split: if_splits)

definition manager_legs :: "file_manager_entry_spec \<Rightarrow> bytes \<Rightarrow> (region_code \<times> nat) list" where
  "manager_legs s body =
     (let base = ft_image_base (manager s); code = (base + target_rva (manager s), body) in
      [((base + call_rva (manager s), call_bytes (manager s)), 1), (code, 3), (code, 1)])"

text \<open>
  Claim C29. The file manager asks for the current directory with the reviewed arguments: running the call and
  the rebuilt body reaches the manager's entry and then its first call with buffer address and
  length 128 on the stack, the frame predicate accepts exactly these two states, and the call leads
  to the directory routine named by the recipe.
\<close>

theorem file_manager_calls_directory_routine:
  assumes "valid_file_manager_entry_spec s p parent" and "file_manager_body s = Some body" and "length (call_bytes (manager s)) = 5"
    and "x_eip c = ft_image_base (manager s) + call_rva (manager s)"
    and "x_reg c EAX = 0" "x_reg c EBX = 0" "x_reg c ESI = 0" "x_reg c EDI = 24" "4096 \<le> x_reg c ESP" "x_reg c ESP mod 4 = 0"
      "x_flags c AND 0x500 = 0" "x_word c (x_reg c ESP) = ft_image_base (manager s) + call_rva (initializer parent) + 5"
  shows "\<exists>c1 c2 c3. run_through af (take 1 (manager_legs s body)) c = Some c1
     \<and> run_through af (take 2 (manager_legs s body)) c = Some c2 \<and> run_through af (manager_legs s body) c = Some c3
     \<and> x_eip c1 = ft_image_base (manager s) + target_rva (manager s) \<and> x_eip c3 = ft_image_base (manager s) + cwd_rva s
     \<and> accepts_state (file_manager_entry_frame s p parent 1 (regs_of c)) c1 2 0x10000
     \<and> accepts_state (file_manager_entry_frame s p parent 2 (regs_of c)) c2 5 0x10000"
proof -
  have v: "valid_frame_target_spec (manager s)" by (rule file_manager_body_result(2)[OF assms(2)])
  from call_list[OF v assms(3)] obtain i1 i2 i3 i4 where i: "call_bytes (manager s) = [0xe8, i1, i2, i3, i4]"
    "word_of_bytes i1 i2 i3 i4 = target_rva (manager s) - call_rva (manager s) - 5" by blast
  note body = file_manager_body_result(1)[OF assms(2)]
  obtain ip g f h w b where c: "c = \<lparr>x_eip = ip, x_reg = g, x_flags = f, x_fs0 = h, x_word = w, x_byte = b\<rparr>" by (cases c)
  have swap: "(f XOR r) AND - 65537 = 0 \<longleftrightarrow> (r XOR f) AND - 65537 = 0" for r by (simp add: xor.commute)
  show ?thesis
    using assms(4-12)
    by (simp add: c manager_legs_def Let_def i body file_manager_shape_def x86_eval)
       (unfold accepts_state_def file_manager_entry_frame_def Let_def same_registers_iff,
        auto simp: assms(1) swap x86_eval not_less dest: trap_free)
qed

section \<open>Sample recipes\<close>

definition sample_prelude :: game_prelude_spec where
  "sample_prelude = \<lparr>gp_empty = \<lparr>ft_image_base = 0x400000, ft_image_size = 0x10000, call_rva = 0x6200, target_rva = 0x6400,
       call_bytes = [0xe8, 0xfb, 1, 0, 0], target_prefix = [0xc3, 0x90, 0x90, 0x90, 0x90, 0x90, 0x90, 0x90, 0x90, 0x90, 0x90, 0x90, 0x90, 0x90, 0x90, 0x90]\<rparr>,
     localisation = \<lparr>ft_image_base = 0x400000, ft_image_size = 0x10000, call_rva = 0x6205, target_rva = 0x6500,
       call_bytes = [0xe8, 0xf6, 2, 0, 0],
       target_prefix = [0x32, 0xc0, 0xc6, 5, 4, 0xc0, 0x40, 0, 1, 0xa2, 5, 0xc0, 0x40, 0, 0xa2, 6]\<rparr>,
     flags_rva = 0xc004, gp_stop_prefix = [0xe8, 0xf1, 3, 0, 0, 0x6a, 5, 0xe8, 0xea, 0x1d, 0, 0, 0, 0, 0, 0]\<rparr>"

definition sample_manager :: file_manager_entry_spec where
  "sample_manager = \<lparr>manager = \<lparr>ft_image_base = 0x400000, ft_image_size = 0x10000, call_rva = 0x620a, target_rva = 0x6600,
       call_bytes = [0xe8, 0xf1, 3, 0, 0],
       target_prefix = [0x57, 0x68, 0x80, 0, 0, 0, 0x68, 4, 0xd0, 0x40, 0, 0xe8, 0xf0, 0, 0, 0]\<rparr>,
     cwd_rva = 0x6700, buffer_rva = 0xd004, suffix_rva = 0xe000,
     fm_return_prefix = [0x6a, 5, 0xe8, 0xea, 0x1d, 0, 0, 0, 0, 0, 0, 0, 0, 0, 0, 0]\<rparr>"

lemma sample_prelude_frames:
  "valid_frame_target_spec (initializer sample_routing)" "valid_frame_target_spec (gp_empty sample_prelude)"
  "valid_frame_target_spec (localisation sample_prelude)" "valid_frame_target_spec (manager sample_manager)"
  by (simp_all add: valid_frame_target_spec_def sample_prelude_def sample_routing_def sample_manager_def UINT32_MAX_def rel32_def get_word_def)

lemma sample_prelude_valid: "valid_game_prelude_spec sample_prelude sample_routing" "game_prelude_body sample_prelude \<noteq> None"
  using sample_prelude_frames
  by (simp_all add: valid_game_prelude_spec_def game_prelude_body_def Let_def spans_ok_def prelude_spans_def)
     (simp_all add: sample_prelude_def sample_routing_def put_word_def)

lemma sample_manager_valid: "valid_file_manager_entry_spec sample_manager sample_prelude sample_routing" "file_manager_body sample_manager \<noteq> None"
  using sample_prelude_frames sample_prelude_valid
  by (simp_all add: valid_file_manager_entry_spec_def file_manager_body_def Let_def spans_ok_def manager_spans_def)
     (simp_all add: sample_prelude_def sample_routing_def sample_manager_def put_word_def file_manager_shape_def)

definition prelude_machine :: x86 where
  "prelude_machine = \<lparr>x_eip = 0x406100, x_reg = (\<lambda>_. 0)(ESP := 0x19f000, EDI := 24, EAX := 5), x_flags = 0x202, x_fs0 = -1,
     x_word = \<lambda>_. 0, x_byte = \<lambda>_. 7\<rparr>"

theorem prelude_frames_match_execution_witness:
  "\<exists>body c5. run_through True (prelude_legs sample_prelude sample_routing body) prelude_machine = Some c5 \<and> x_eip c5 = 0x40620a"
proof -
  obtain body where b: "game_prelude_body sample_prelude = Some body" using sample_prelude_valid(2) by blast
  have a: "length (call_bytes (initializer sample_routing)) = 5" "length (call_bytes (gp_empty sample_prelude)) = 5"
    "length (call_bytes (localisation sample_prelude)) = 5" "length (target_prefix (gp_empty sample_prelude)) = 16"
    "x_eip prelude_machine = ft_image_base (initializer sample_routing) + call_rva (initializer sample_routing)"
    "x_reg prelude_machine EAX = 5" "x_reg prelude_machine EBX = 0" "x_reg prelude_machine ESI = 0" "x_reg prelude_machine EDI = 24"
    "4096 \<le> x_reg prelude_machine ESP" "x_reg prelude_machine ESP mod 4 = 0" "x_flags prelude_machine AND 0x500 = 0"
    "ft_image_base (initializer sample_routing) + call_rva (localisation sample_prelude) + 5 = 0x40620a"
    by (simp_all add: sample_routing_def sample_prelude_def prelude_machine_def)
  show ?thesis
    using prelude_frames_match_execution[OF sample_prelude_valid(1) b a(1-12), of True] a(13) by auto
qed

definition manager_machine :: x86 where
  "manager_machine = \<lparr>x_eip = 0x40620a, x_reg = (\<lambda>_. 0)(ESP := 0x19f000, EDI := 24), x_flags = 0x202, x_fs0 = -1,
     x_word = \<lambda>_. 0x406105, x_byte = \<lambda>_. 0\<rparr>"

theorem file_manager_calls_directory_routine_witness:
  "\<exists>body c3. run_through True (manager_legs sample_manager body) manager_machine = Some c3 \<and> x_eip c3 = 0x406700"
proof -
  obtain body where b: "file_manager_body sample_manager = Some body" using sample_manager_valid(2) by blast
  have a: "length (call_bytes (manager sample_manager)) = 5"
    "x_eip manager_machine = ft_image_base (manager sample_manager) + call_rva (manager sample_manager)"
    "x_reg manager_machine EAX = 0" "x_reg manager_machine EBX = 0" "x_reg manager_machine ESI = 0" "x_reg manager_machine EDI = 24"
    "4096 \<le> x_reg manager_machine ESP" "x_reg manager_machine ESP mod 4 = 0" "x_flags manager_machine AND 0x500 = 0"
    "x_word manager_machine (x_reg manager_machine ESP) = ft_image_base (manager sample_manager) + call_rva (initializer sample_routing) + 5"
    "ft_image_base (manager sample_manager) + cwd_rva sample_manager = 0x406700"
    by (simp_all add: sample_routing_def sample_manager_def manager_machine_def)
  show ?thesis
    using file_manager_calls_directory_routine[OF sample_manager_valid(1) b a(1-10), of True] a(11) by auto
qed

end
