(* ===== verification/Cwd_Entry.thy ===== *)
theory Cwd_Entry
  imports Game_Prelude
begin

text \<open>
  \<open>cwd_seh.hpp/.cpp\<close>: the entry of the directory routine, which installs an exception record. The observer
  knows the code, the frame and the written stack words of every stop; the property derives them by
  running the code. The selector of the lock and its acquisition follow in \<open>Cwd_Lock\<close>.
\<close>

section \<open>CwdSehSpec\<close>

record cwd_seh_spec =
  seh_wrapper :: frame_target_spec
  seh_prologue :: frame_target_spec
  scope_rva :: u32
  handler_rva :: u32
  cleanup_rva :: u32
  seh_stop_prefix :: bytes

definition seh_shape :: bytes where
  "seh_shape = [0x68,0,0,0,0,0x64,0xa1,0,0,0,0,0x50,0x8b,0x44,0x24,0x10,0x89,0x6c,0x24,0x10,
     0x8d,0x6c,0x24,0x10,0x2b,0xe0,0x53,0x56,0x57,0x8b,0x45,0xf8,0x89,0x65,0xe8,0x50,0x8b,0x45,0xfc,
     0xc7,0x45,0xfc,0xff,0xff,0xff,0xff,0x89,0x45,0xf8,0x8d,0x45,0xf0,0x64,0xa3,0,0,0,0,0xc3]"

text \<open>The wrapper, the prologue routine and the scope table: 16, 59 and 12 bytes.\<close>

definition cwd_seh_code :: "cwd_seh_spec \<Rightarrow> (bytes \<times> bytes \<times> bytes) option" where
  "cwd_seh_code s =
    (let f = seh_wrapper s; base = ft_image_base f in
     if \<not> valid_frame_target_spec f \<or> \<not> valid_frame_target_spec (seh_prologue s)
        \<or> scope_rva s < 4096 \<or> scope_rva s > ft_image_size f - 12 \<or> handler_rva s < 4096 \<or> handler_rva s > ft_image_size f - 16
        \<or> cleanup_rva s < 4096 \<or> cleanup_rva s > ft_image_size f - 16
        \<or> target_rva (seh_prologue s) > ft_image_size f - 59 \<or> target_rva f > ft_image_size f - 28 then None
     else Some (put_word [0x6a, 12, 0x68, 0, 0, 0, 0] 3 (base + scope_rva s) @ call_bytes (seh_prologue s) @ take 4 (seh_stop_prefix s),
       put_word seh_shape 1 (base + handler_rva s),
       put_word (put_word (replicate 12 0) 0 UINT32_MAX) 8 (base + cleanup_rva s)))"

definition seh_spans :: "cwd_seh_spec \<Rightarrow> file_manager_entry_spec \<Rightarrow> span list" where
  "seh_spans s p = [(call_rva (manager p), 21), (target_rva (manager p), 51), (buffer_rva p - 4, 136), (suffix_rva p, 2),
     (target_rva (seh_wrapper s), 28), (target_rva (seh_prologue s), 59), (scope_rva s, 12), (handler_rva s, 16), (cleanup_rva s, 16)]"

definition valid_cwd_seh_spec :: "cwd_seh_spec \<Rightarrow> file_manager_entry_spec \<Rightarrow> bool" where
  "valid_cwd_seh_spec s p \<longleftrightarrow>
     (let f = seh_wrapper s; h = seh_prologue s; m = manager p in
      (case (file_manager_body p, cwd_seh_code s) of
         (Some parent, Some (w, code, scope)) \<Rightarrow>
           \<not> (ft_image_base f \<noteq> ft_image_base m \<or> ft_image_base h \<noteq> ft_image_base m
              \<or> ft_image_size f \<noteq> ft_image_size m \<or> ft_image_size h \<noteq> ft_image_size m
              \<or> call_rva f \<noteq> target_rva m + 11 \<or> target_rva f \<noteq> cwd_rva p \<or> call_rva h \<noteq> target_rva f + 7
              \<or> call_bytes f \<noteq> take (length (call_bytes f)) (drop 11 parent) \<or> target_prefix f \<noteq> w
              \<or> target_prefix h \<noteq> take (length (target_prefix h)) code)
       | _ \<Rightarrow> False)
      \<and> spans_ok (ft_image_size f) (seh_spans s p))"

text \<open>The thread information block: exception head, stack base, stack limit, ..., self at index 6.\<close>

definition valid_cwd_seh_origin :: "event_dispatch_registers \<Rightarrow> u32 list \<Rightarrow> bool" where
  "valid_cwd_seh_origin saved t \<longleftrightarrow>
     \<not> (d_esp saved < 65596 \<or> d_esp saved > UINT32_MAX - 20 \<or> d_esp saved mod 4 \<noteq> 0 \<or> t ! 2 < 65536 \<or> t ! 1 \<le> t ! 2
        \<or> d_esp saved - 60 < t ! 2 \<or> d_esp saved + 20 > t ! 1 \<or> t ! 6 < 65536 \<or> t ! 6 > UINT32_MAX - 56)
     \<and> (t ! 0 = UINT32_MAX \<or> (t ! 0 mod 4 = 0 \<and> t ! 0 \<ge> d_esp saved + 20 \<and> t ! 0 \<le> t ! 1 - 8))"

text \<open>The flags of \<open>SUB ESP,12\<close> as the source computes them.\<close>

definition seh_flags :: "u32 \<Rightarrow> u32" where
  "seh_flags lhs = (let res = lhs - 12 in
     (if lhs < 12 then 1 else 0) OR (if popcount (res AND 255) mod 2 = 0 then 4 else 0) OR ((lhs XOR 12 XOR res) AND 16)
     OR (if res = 0 then 64 else 0) OR (drop_bit 24 res AND 128) OR (drop_bit 20 ((lhs XOR 12) AND (lhs XOR res)) AND 0x800))"

definition cwd_seh_frame :: "cwd_seh_spec \<Rightarrow> u32 \<Rightarrow> event_dispatch_registers \<Rightarrow> event_dispatch_registers \<Rightarrow> bool" where
  "cwd_seh_frame s stage saved r \<longleftrightarrow>
     \<not> (stage < 1 \<or> stage > 3 \<or> d_esp saved < 65596 \<or> d_esp saved > UINT32_MAX - 20 \<or> d_esp saved mod 4 \<noteq> 0
        \<or> d_eax saved \<noteq> 0 \<or> d_ebx saved \<noteq> 0 \<or> d_esi saved \<noteq> 0 \<or> d_edi saved \<noteq> 24
        \<or> d_flags saved AND 0x500 \<noteq> 0 \<or> d_flags r AND 0x500 \<noteq> 0
        \<or> d_ebx r \<noteq> d_ebx saved \<or> d_ecx r \<noteq> d_ecx saved \<or> d_edx r \<noteq> d_edx saved \<or> d_esi r \<noteq> d_esi saved \<or> d_edi r \<noteq> d_edi saved
        \<or> d_eax r \<noteq> (if stage = 3 then d_esp saved - 24 else d_eax saved)
        \<or> d_ebp r \<noteq> (if stage = 3 then d_esp saved - 8 else d_ebp saved)
        \<or> d_esp r \<noteq> d_esp saved - (if stage = 1 then 4 else if stage = 2 then 16 else 48)
        \<or> \<not> valid_frame_target_spec (seh_wrapper s))
     \<and> (if stage < 3 then (d_flags r XOR d_flags saved) AND NOT 0x10000 = 0
        else d_flags r AND 0x8d5 = seh_flags (d_esp saved - 24) \<and> (d_flags r XOR d_flags saved) AND NOT 0x108d5 = 0)"

text \<open>The 20 words from \<open>saved.esp - 60\<close> and the thread information block.\<close>

definition cwd_seh_memory :: "cwd_seh_spec \<Rightarrow> u32 \<Rightarrow> event_dispatch_registers \<Rightarrow> u32 list \<Rightarrow> u32 list \<Rightarrow> u32 list \<Rightarrow> u32 list \<Rightarrow> bool" where
  "cwd_seh_memory s stage saved before_tib now_tib before_stack now_stack \<longleftrightarrow>
     \<not> (stage < 1 \<or> stage > 3 \<or> \<not> valid_cwd_seh_origin saved before_tib \<or> \<not> valid_frame_target_spec (seh_wrapper s))
     \<and> (let base = ft_image_base (seh_wrapper s); ret = base + call_rva (seh_prologue s) + 5;
            st1 = before_stack[14 := base + call_rva (seh_wrapper s) + 5];
            st2 = (if stage = 2 then st1[13 := 12, 12 := base + scope_rva s, 11 := ret] else st1);
            st3 = (if stage = 3 then st2[2 := ret, 3 := d_edi saved, 4 := d_esi saved, 5 := d_ebx saved, 7 := d_esp saved - 48,
                     9 := before_tib ! 0, 10 := base + handler_rva s, 11 := base + scope_rva s, 12 := UINT32_MAX, 13 := d_ebp saved] else st2);
            tib = (if stage = 3 then before_tib[0 := d_esp saved - 24] else before_tib) in
        tib = now_tib \<and> st3 = now_stack)"

section \<open>Flag formulas\<close>

lemma and_of_bit: "bit (v :: u32) n \<longleftrightarrow> b \<Longrightarrow> v AND push_bit n 1 = (if b then push_bit n 1 else 0)"
  by (rule bit_word_eqI) (auto simp: bit_and_iff bit_push_bit_iff bit_1_iff simp del: push_bit_of_1)

lemma drop_bit_sign: "drop_bit 24 (r :: u32) AND 128 = (if sint r < 0 then 128 else 0)"
proof -
  have "bit (drop_bit 24 r) 7 \<longleftrightarrow> sint r < 0" by (simp add: bit_drop_bit_eq sint_neg)
  from and_of_bit[OF this] show ?thesis by simp
qed

lemma seh_flags_sub: "seh_flags lhs = sub_flags lhs 12"
proof -
  let ?r = "lhs - 12"
  have af: "(lhs XOR 12 XOR ?r) AND 16 = (if lhs mod 16 < 12 mod 16 then 16 else 0)"
  proof -
    have "bit ?r 4 \<longleftrightarrow> ((bit lhs 4 \<noteq> bit (12 :: u32) 4) \<noteq> (uint lhs mod 2 ^ 4 < uint (12 :: u32) mod 2 ^ 4))"
      by (rule bit_word_sub) simp
    moreover have "uint lhs mod 2 ^ 4 < uint (12 :: u32) mod 2 ^ 4 \<longleftrightarrow> lhs mod 16 < 12 mod 16"
      by (simp add: word_less_alt uint_mod)
    ultimately have "bit (lhs XOR 12 XOR ?r) 4 \<longleftrightarrow> lhs mod 16 < 12 mod 16" by (auto simp: bit_xor_iff)
    from and_of_bit[OF this] show ?thesis by simp
  qed
  have ov: "drop_bit 20 ((lhs XOR 12) AND (lhs XOR ?r)) AND 0x800 = (if sint lhs - sint (12 :: u32) \<noteq> sint ?r then 0x800 else 0)"
  proof -
    have "bit (drop_bit 20 ((lhs XOR 12) AND (lhs XOR ?r))) 11 \<longleftrightarrow> sint lhs - sint (12 :: u32) \<noteq> sint ?r"
      unfolding sub_overflow by (auto simp: bit_drop_bit_eq bit_and_iff bit_xor_iff)
    from and_of_bit[OF this] show ?thesis by simp
  qed
  show ?thesis
    unfolding seh_flags_def sub_flags_def pack_flags_def Let_def af ov drop_bit_sign
    by (simp add: parity_popcount[symmetric] even_iff_mod_2_eq_zero)
qed

lemma seh_flags_status:
  "rf AND 0x8d5 = seh_flags lhs \<Longrightarrow> (rf XOR f) AND - 67798 = 0 \<Longrightarrow> (rf XOR set_status f (sub_flags lhs 12)) AND - 65537 = 0"
  "(rf XOR set_status f (sub_flags lhs 12)) AND - 65537 = 0 \<Longrightarrow> rf AND 0x8d5 = seh_flags lhs"
  "(rf XOR set_status f (sub_flags lhs 12)) AND - 65537 = 0 \<Longrightarrow> (rf XOR f) AND - 67798 = 0"
  using flags_agree(1)[of "sub_flags lhs 12" rf f] status_word_masked[of "sub_flags lhs 12"]
  by (simp_all add: seh_flags_sub status_mask_def)

section \<open>Execution of the exception prologue\<close>

definition accepts_registers :: "(event_dispatch_registers \<Rightarrow> bool) \<Rightarrow> x86 \<Rightarrow> u32 \<Rightarrow> bool" where
  "accepts_registers frame c ig \<longleftrightarrow> (\<forall>r. frame r = (same_registers r (regs_of c) \<and> (d_flags r XOR x_flags c) AND NOT ig = 0))"

lemma cwd_seh_code_result:
  assumes "cwd_seh_code s = Some (w, code, scope)"
  shows "w = put_word [0x6a, 12, 0x68, 0, 0, 0, 0] 3 (ft_image_base (seh_wrapper s) + scope_rva s)
      @ call_bytes (seh_prologue s) @ take 4 (seh_stop_prefix s)"
    "code = put_word seh_shape 1 (ft_image_base (seh_wrapper s) + handler_rva s)"
    "valid_frame_target_spec (seh_wrapper s)" "valid_frame_target_spec (seh_prologue s)"
  using assms by (auto simp: cwd_seh_code_def Let_def split: if_splits)

lemma valid_seh:
  assumes "valid_cwd_seh_spec s p" and "cwd_seh_code s = Some (w, code, scope)"
  shows "call_rva (seh_prologue s) = target_rva (seh_wrapper s) + 7" "target_rva (seh_wrapper s) = cwd_rva p"
    "ft_image_base (seh_prologue s) = ft_image_base (seh_wrapper s)" "call_rva (seh_wrapper s) = target_rva (manager p) + 11"
    "ft_image_base (seh_wrapper s) = ft_image_base (manager p)"
  using assms unfolding valid_cwd_seh_spec_def Let_def by (auto split: option.splits)

definition seh_legs :: "cwd_seh_spec \<Rightarrow> bytes \<Rightarrow> bytes \<Rightarrow> (region_code \<times> nat) list" where
  "seh_legs s w code =
     (let base = ft_image_base (seh_wrapper s) in
      [((base + call_rva (seh_wrapper s), call_bytes (seh_wrapper s)), 1), ((base + target_rva (seh_wrapper s), w), 3),
       ((base + target_rva (seh_prologue s), code), 19)])"

text \<open>What the observer reads: the thread information block with its current head, and the stack window.\<close>

definition seh_words_exact :: "cwd_seh_spec \<Rightarrow> u32 \<Rightarrow> x86 \<Rightarrow> u32 list \<Rightarrow> x86 \<Rightarrow> bool" where
  "seh_words_exact s stage c tib c' \<longleftrightarrow> (\<forall>now_tib now_stack.
     cwd_seh_memory s stage (regs_of c) tib now_tib (words_at c (x_reg c ESP - 60) 20) now_stack
       = (now_tib = tib[0 := x_fs0 c'] \<and> now_stack = words_at c' (x_reg c ESP - 60) 20))"

text \<open>
  Claim C30. The exception record the observer expects is the one the code installs: running the call and the
  rebuilt wrapper and prologue passes the three observed places; at each the frame predicate
  accepts exactly the registers and flags of that state, and the memory predicate exactly the
  stack window and thread block of that state; the record is linked at \<open>esp - 24\<close> and control
  returns to the wrapper.
\<close>

theorem seh_prologue_matches_execution:
  assumes "valid_cwd_seh_spec s p" and "cwd_seh_code s = Some (w, code, scope)"
    and "length (call_bytes (seh_wrapper s)) = 5" "length (call_bytes (seh_prologue s)) = 5" "length (seh_stop_prefix s) = 16"
    and "x_eip c = ft_image_base (seh_wrapper s) + call_rva (seh_wrapper s)"
    and "x_reg c EAX = 0" "x_reg c EBX = 0" "x_reg c ESI = 0" "x_reg c EDI = 24" "x_flags c AND 0x500 = 0"
    and "valid_cwd_seh_origin (regs_of c) tib" "tib \<noteq> []" "tib ! 0 = x_fs0 c"
  shows "\<exists>c1 c2 c3. run_through af (take 1 (seh_legs s w code)) c = Some c1
     \<and> run_through af (take 2 (seh_legs s w code)) c = Some c2 \<and> run_through af (seh_legs s w code) c = Some c3
     \<and> x_eip c3 = ft_image_base (seh_wrapper s) + target_rva (seh_wrapper s) + 12 \<and> x_fs0 c3 = x_reg c ESP - 24
     \<and> accepts_registers (cwd_seh_frame s 1 (regs_of c)) c1 0x10000 \<and> seh_words_exact s 1 c tib c1
     \<and> accepts_registers (cwd_seh_frame s 2 (regs_of c)) c2 0x10000 \<and> seh_words_exact s 2 c tib c2
     \<and> accepts_registers (cwd_seh_frame s 3 (regs_of c)) c3 0x10000 \<and> seh_words_exact s 3 c tib c3"
proof -
  let ?base = "ft_image_base (seh_wrapper s)"
  note res = cwd_seh_code_result[OF assms(2)] and vs = valid_seh[OF assms(1,2)]
  from call_list[OF res(3) assms(3)] obtain i1 i2 i3 i4 where i: "call_bytes (seh_wrapper s) = [0xe8, i1, i2, i3, i4]"
    "word_of_bytes i1 i2 i3 i4 = target_rva (seh_wrapper s) - call_rva (seh_wrapper s) - 5" by blast
  from call_list[OF res(4) assms(4)] obtain e1 e2 e3 e4 where e: "call_bytes (seh_prologue s) = [0xe8, e1, e2, e3, e4]"
    "word_of_bytes e1 e2 e3 e4 = target_rva (seh_prologue s) - call_rva (seh_prologue s) - 5" by blast
  obtain ip g f h m b where c: "c = \<lparr>x_eip = ip, x_reg = g, x_flags = f, x_fs0 = h, x_word = m, x_byte = b\<rparr>" by (cases c)
  have org: "\<not> g ESP < 65596" "\<not> g ESP > UINT32_MAX - 20" "g ESP mod 4 = 0" "\<not> - 21 < g ESP"
    using assms(12) by (auto simp: valid_cwd_seh_origin_def c UINT32_MAX_def)
  note st = seh_flags_status[where lhs = "g ESP - 24" and f = f]
  have tib: "tib[0 := h] = tib" using assms(14) list_update_id[of tib 0] by (simp add: c)
  have org': "valid_cwd_seh_origin (regs_of \<lparr>x_eip = ?base + call_rva (seh_wrapper s), x_reg = g, x_flags = f, x_fs0 = h, x_word = m, x_byte = b\<rparr>) tib"
    using assms(6,12) by (simp add: c)
  have org: "\<not> g ESP < 65596" "\<not> g ESP > UINT32_MAX - 20" "g ESP mod 4 = 0" "\<not> - 21 < g ESP"
    using assms(12) by (auto simp: valid_cwd_seh_origin_def c UINT32_MAX_def)
  show ?thesis
    using assms(6-11,14)
    by (simp add: c seh_legs_def Let_def i e res(1,2) vs(1) seh_shape_def x86_eval assms(5), intro conjI;
        unfold accepts_registers_def cwd_seh_frame_def Let_def same_registers_iff seh_words_exact_def cwd_seh_memory_def;
        auto simp: res(3) x86_eval org org' tib UINT32_MAX_def vs(1) intro: st dest: trap_free)
qed

definition sample_seh :: cwd_seh_spec where
  "sample_seh = \<lparr>seh_wrapper = \<lparr>ft_image_base = 0x400000, ft_image_size = 0x10000, call_rva = 0x660b, target_rva = 0x6700,
       call_bytes = [0xe8, 0xf0, 0, 0, 0], target_prefix = [0x6a, 12, 0x68, 0, 0x69, 0x40, 0, 0xe8, 0xf4, 0, 0, 0, 0x6a, 7, 0xe8, 0xed]\<rparr>,
     seh_prologue = \<lparr>ft_image_base = 0x400000, ft_image_size = 0x10000, call_rva = 0x6707, target_rva = 0x6800,
       call_bytes = [0xe8, 0xf4, 0, 0, 0],
       target_prefix = [0x68, 0, 0x6a, 0x40, 0, 0x64, 0xa1, 0, 0, 0, 0, 0x50, 0x8b, 0x44, 0x24, 0x10]\<rparr>,
     scope_rva = 0x6900, handler_rva = 0x6a00, cleanup_rva = 0x6b00,
     seh_stop_prefix = [0x6a, 7, 0xe8, 0xed, 4, 0, 0, 0x59, 0x83, 0x65, 0xfc, 0, 0xff, 0x75, 0x0c, 0xff]\<rparr>"

definition seh_machine :: x86 where
  "seh_machine = \<lparr>x_eip = 0x40660b, x_reg = (\<lambda>_. 0)(ESP := 0x19f000, EDI := 24), x_flags = 0x202, x_fs0 = -1,
     x_word = \<lambda>_. 0, x_byte = \<lambda>_. 0\<rparr>"

definition sample_tib :: "u32 list" where
  "sample_tib = [-1, 0x1a0000, 0x190000, 0, 0, 0, 0x7ffde000]"

lemma sample_seh_valid: "valid_cwd_seh_spec sample_seh sample_manager" "cwd_seh_code sample_seh \<noteq> None"
proof -
  have f: "valid_frame_target_spec (seh_wrapper sample_seh)" "valid_frame_target_spec (seh_prologue sample_seh)"
    by (simp_all add: valid_frame_target_spec_def sample_seh_def UINT32_MAX_def rel32_def get_word_def)
  obtain body where b: "file_manager_body sample_manager = Some body" using sample_manager_valid(2) by blast
  show "cwd_seh_code sample_seh \<noteq> None"
    using f by (simp add: cwd_seh_code_def Let_def) (simp add: sample_seh_def)
  show "valid_cwd_seh_spec sample_seh sample_manager"
    using f by (simp add: valid_cwd_seh_spec_def cwd_seh_code_def Let_def spans_ok_def seh_spans_def b)
      (simp add: file_manager_body_result(1)[OF b] file_manager_shape_def sample_seh_def sample_manager_def put_word_def seh_shape_def)
qed

theorem seh_prologue_matches_execution_witness:
  "\<exists>w code c3. run_through True (seh_legs sample_seh w code) seh_machine = Some c3 \<and> x_eip c3 = 0x40670c \<and> x_fs0 c3 = 0x19efe8"
proof -
  obtain w code scope where s: "cwd_seh_code sample_seh = Some (w, code, scope)" using sample_seh_valid(2) by auto
  have a: "length (call_bytes (seh_wrapper sample_seh)) = 5" "length (call_bytes (seh_prologue sample_seh)) = 5"
    "length (seh_stop_prefix sample_seh) = 16"
    "x_eip seh_machine = ft_image_base (seh_wrapper sample_seh) + call_rva (seh_wrapper sample_seh)"
    "x_reg seh_machine EAX = 0" "x_reg seh_machine EBX = 0" "x_reg seh_machine ESI = 0" "x_reg seh_machine EDI = 24"
    "x_flags seh_machine AND 0x500 = 0" "valid_cwd_seh_origin (regs_of seh_machine) sample_tib" "sample_tib \<noteq> []"
    "sample_tib ! 0 = x_fs0 seh_machine"
    "ft_image_base (seh_wrapper sample_seh) + target_rva (seh_wrapper sample_seh) + 12 = 0x40670c" "x_reg seh_machine ESP - 24 = 0x19efe8"
    by (simp_all add: sample_seh_def seh_machine_def sample_tib_def valid_cwd_seh_origin_def UINT32_MAX_def)
  show ?thesis
    using seh_prologue_matches_execution[OF sample_seh_valid(1) s a(1-12), of True] a(13,14) by auto
qed

end
