(* ===== verification/Cwd_Lock.thy ===== *)
theory Cwd_Lock
  imports Cwd_Entry
begin

text \<open>
  \<open>cwd_lock.hpp/.cpp\<close> and \<open>cwd_acquire.hpp/.cpp\<close>: the selector that finds critical section 7 in the
  table of the C runtime, and the call that enters it.
\<close>

section \<open>CwdLockSpec\<close>

record cwd_lock_spec =
  selector :: frame_target_spec
  lock_table_rva :: u32
  lock_stop_prefix :: bytes

definition cwd_lock_code :: "cwd_lock_spec \<Rightarrow> bytes option" where
  "cwd_lock_code s =
    (let f = selector s in
     if \<not> valid_frame_target_spec f \<or> target_rva f > ft_image_size f - 33 \<or> lock_table_rva s < 4096
        \<or> lock_table_rva s mod 4 \<noteq> 0 \<or> lock_table_rva s > ft_image_size f - 68 then None
     else Some (put_word [0x55,0x8b,0xec,0x8b,0x45,0x08,0x56,0x8d,0x34,0xc5,0,0,0,0,0x83,0x3e,0]
       10 (ft_image_base f + lock_table_rva s)))"

definition lock_spans :: "cwd_lock_spec \<Rightarrow> cwd_seh_spec \<Rightarrow> span list" where
  "lock_spans s p = [(target_rva (seh_wrapper p), 28), (target_rva (seh_prologue p), 59), (scope_rva p, 12), (handler_rva p, 16),
     (cleanup_rva p, 16), (target_rva (selector s), 33), (lock_table_rva s + 52, 16)]"

definition valid_cwd_lock_spec :: "cwd_lock_spec \<Rightarrow> cwd_seh_spec \<Rightarrow> bool" where
  "valid_cwd_lock_spec s p \<longleftrightarrow>
     (let f = selector s in
      (case cwd_lock_code s of None \<Rightarrow> False
       | Some code \<Rightarrow>
           \<not> (\<not> valid_frame_target_spec (seh_prologue p) \<or> ft_image_base f \<noteq> ft_image_base (seh_wrapper p)
              \<or> ft_image_size f \<noteq> ft_image_size (seh_wrapper p) \<or> call_rva f \<noteq> call_rva (seh_prologue p) + 7
              \<or> seh_stop_prefix p ! 0 \<noteq> 0x6a \<or> seh_stop_prefix p ! 1 \<noteq> 7
              \<or> call_bytes f \<noteq> take (length (call_bytes f)) (drop 2 (seh_stop_prefix p))
              \<or> target_prefix f \<noteq> take (length (target_prefix f)) code
              \<or> lock_stop_prefix s ! 0 \<noteq> 0x75 \<or> lock_stop_prefix s ! 1 \<noteq> 0x13))
      \<and> list_all (\<lambda>(a, n). \<not> (a < 4096 \<or> n > ft_image_size f \<or> a > ft_image_size f - n)) (lock_spans s p)
      \<and> disjoint_from [] (lock_spans s p))"

definition valid_cwd_lock_origin :: "event_dispatch_registers \<Rightarrow> u32 list \<Rightarrow> bool" where
  "valid_cwd_lock_origin s tib \<longleftrightarrow> d_esp s \<ge> 65568 \<and> d_esp s \<le> UINT32_MAX - 68 \<and> d_esp s mod 4 = 0 \<and> d_eax s = d_esp s + 24
     \<and> d_ebp s = d_esp s + 40 \<and> d_ebx s = 0 \<and> d_esi s = 0 \<and> d_edi s = 24 \<and> \<not> d_flags s AND 0x500 \<noteq> 0 \<and> tib ! 0 = d_esp s + 24
     \<and> tib ! 2 \<ge> 65536 \<and> tib ! 2 \<le> d_esp s - 32 \<and> tib ! 1 \<ge> d_esp s + 68 \<and> tib ! 6 \<ge> 65536 \<and> tib ! 6 \<le> UINT32_MAX - 56"

text \<open>The flags of comparing the slot with zero.\<close>

definition test_flags :: "u32 \<Rightarrow> u32" where
  "test_flags v = (if popcount (v AND 255) mod 2 = 0 then 4 else 0) OR (if v = 0 then 64 else 0) OR (drop_bit 24 v AND 128)"

definition cwd_lock_frame :: "cwd_lock_spec \<Rightarrow> u32 \<Rightarrow> event_dispatch_registers \<Rightarrow> event_dispatch_registers \<Rightarrow> u32 \<Rightarrow> bool" where
  "cwd_lock_frame s stage saved r slot_value \<longleftrightarrow>
     \<not> (cwd_lock_code s = None \<or> stage < 1 \<or> stage > 2 \<or> d_esp saved < 65568 \<or> d_esp saved > UINT32_MAX - 68 \<or> d_esp saved mod 4 \<noteq> 0
        \<or> d_eax saved \<noteq> d_esp saved + 24 \<or> d_ebp saved \<noteq> d_esp saved + 40 \<or> d_ebx saved \<noteq> 0 \<or> d_esi saved \<noteq> 0 \<or> d_edi saved \<noteq> 24
        \<or> d_flags saved AND 0x500 \<noteq> 0 \<or> d_flags r AND 0x500 \<noteq> 0
        \<or> d_esp r \<noteq> d_esp saved - (if stage = 1 then 8 else 16) \<or> d_ebp r \<noteq> (if stage = 1 then d_ebp saved else d_esp saved - 12)
        \<or> d_eax r \<noteq> (if stage = 1 then d_eax saved else 7)
        \<or> d_esi r \<noteq> (if stage = 1 then d_esi saved else ft_image_base (selector s) + lock_table_rva s + 56)
        \<or> d_ebx r \<noteq> d_ebx saved \<or> d_ecx r \<noteq> d_ecx saved \<or> d_edx r \<noteq> d_edx saved \<or> d_edi r \<noteq> d_edi saved)
     \<and> (if stage = 1 then (d_flags r XOR d_flags saved) AND NOT 0x10000 = 0
        else d_flags r AND 0x8d5 = test_flags slot_value \<and> (d_flags r XOR d_flags saved) AND NOT 0x108d5 = 0)"

text \<open>The 25 words from \<open>saved.esp - 32\<close>.\<close>

definition cwd_lock_memory :: "cwd_lock_spec \<Rightarrow> u32 \<Rightarrow> event_dispatch_registers \<Rightarrow> u32 list \<Rightarrow> u32 list \<Rightarrow> bool" where
  "cwd_lock_memory s stage saved before now \<longleftrightarrow>
     \<not> (cwd_lock_code s = None \<or> stage < 1 \<or> stage > 2 \<or> d_esp saved < 65568 \<or> d_esp saved > UINT32_MAX - 68 \<or> d_esp saved mod 4 \<noteq> 0)
     \<and> (let e1 = before[7 := 7, 6 := ft_image_base (selector s) + call_rva (selector s) + 5];
            e2 = (if stage = 2 then e1[5 := d_ebp saved, 4 := d_esi saved] else e1) in
        e2 = now)"

section \<open>CwdAcquireSpec\<close>

record cwd_acquire_spec =
  acquire_iat_rva :: u32
  acquire_function :: bootstrap_export_spec
  acquire_return_prefix :: bytes

definition cwd_acquire_code :: "cwd_acquire_spec \<Rightarrow> cwd_lock_spec \<Rightarrow> bytes option" where
  "cwd_acquire_code s p =
    (let f = selector p in
     if \<not> valid_frame_target_spec f \<or> acquire_iat_rva s < 4096 \<or> acquire_iat_rva s mod 4 \<noteq> 0
        \<or> acquire_iat_rva s > ft_image_size f - 4 \<or> target_rva f > ft_image_size f - 49 \<or> call_rva f > ft_image_size f - 21 then None
     else Some (put_word [0xff, 0x36, 0xff, 0x15, 0, 0, 0, 0, 0x5e, 0x5d, 0xc3] 4 (ft_image_base f + acquire_iat_rva s)))"

definition acquire_spans :: "cwd_acquire_spec \<Rightarrow> cwd_lock_spec \<Rightarrow> span list" where
  "acquire_spans s p = [(target_rva (selector p), 49), (call_rva (selector p), 21), (lock_table_rva p + 52, 16), (acquire_iat_rva s, 4)]"

definition valid_cwd_acquire_spec :: "cwd_acquire_spec \<Rightarrow> cwd_lock_spec \<Rightarrow> bool" where
  "valid_cwd_acquire_spec s p \<longleftrightarrow>
     \<not> (cwd_acquire_code s p = None \<or> lock_stop_prefix p ! 0 \<noteq> 0x75 \<or> lock_stop_prefix p ! 1 \<noteq> 0x13
        \<or> export_rva (acquire_function s) < 4096 \<or> export_rva (acquire_function s) > module_limit - 20
        \<or> highlow_mask (acquire_function s) \<noteq> 0 \<or> preferred_base (acquire_function s) = 0
        \<or> preferred_base (acquire_function s) mod 65536 \<noteq> 0)
     \<and> spans_ok (ft_image_size (selector p)) (acquire_spans s p)"

text \<open>The six words of the critical section: an unowned one becomes owned by the thread.\<close>

definition cwd_acquire_object :: "u32 \<Rightarrow> u32 list \<Rightarrow> u32 list \<Rightarrow> u32 \<Rightarrow> bool \<Rightarrow> bool" where
  "cwd_acquire_object object_address before now thread_id acquired \<longleftrightarrow>
     \<not> (object_address < 65536 \<or> object_address > UINT32_MAX - 24 \<or> object_address mod 4 \<noteq> 0 \<or> thread_id = 0
        \<or> before ! 1 \<noteq> UINT32_MAX \<or> before ! 2 \<noteq> 0 \<or> before ! 3 \<noteq> 0 \<or> before ! 4 \<noteq> 0)
     \<and> now = (if acquired then before[1 := UINT32_MAX - 1, 2 := 1, 3 := thread_id] else before)"

definition cwd_acquire_frame :: "u32 \<Rightarrow> event_dispatch_registers \<Rightarrow> event_dispatch_registers \<Rightarrow> u32 \<Rightarrow> bool" where
  "cwd_acquire_frame stage saved r restored_ebp \<longleftrightarrow>
     \<not> (stage < 1 \<or> stage > 5 \<or> d_esp saved < 65544 \<or> d_esp saved > UINT32_MAX - 84 \<or> d_esp saved mod 4 \<noteq> 0 \<or> d_eax saved \<noteq> 7
        \<or> d_ebx saved \<noteq> 0 \<or> d_edi saved \<noteq> 24 \<or> d_ebp saved \<noteq> d_esp saved + 4 \<or> d_flags saved AND 0x540 \<noteq> 0 \<or> d_flags r AND 0x500 \<noteq> 0
        \<or> d_ebx r \<noteq> d_ebx saved \<or> d_edi r \<noteq> d_edi saved)
     \<and> \<not> (d_esp r \<noteq> (if stage = 1 then d_esp saved else if stage = 2 then d_esp saved - 4 else if stage = 3 then d_esp saved - 8
             else if stage = 4 then d_esp saved else d_esp saved + 12)
          \<or> d_esi r \<noteq> (if stage = 5 then 0 else d_esi saved) \<or> d_ebp r \<noteq> (if stage = 5 then restored_ebp else d_ebp saved))
     \<and> (if stage \<ge> 4 then (d_flags r XOR d_flags saved) AND NOT 0x108d5 = 0
        else d_eax r = d_eax saved \<and> d_ecx r = d_ecx saved \<and> d_edx r = d_edx saved \<and> (d_flags r XOR d_flags saved) AND NOT 0x10000 = 0)"

section \<open>Flags of the comparison\<close>

lemma test_flags_sub: "test_flags v = sub_flags v 0"
  unfolding test_flags_def sub_flags_def pack_flags_def Let_def drop_bit_sign
  by (simp add: parity_popcount[symmetric] even_iff_mod_2_eq_zero)

lemma test_flags_logic: "test_flags v = logic_result_flags False v"
  unfolding test_flags_def logic_result_flags_def pack_flags_def Let_def drop_bit_sign
  by (simp add: parity_popcount[symmetric] even_iff_mod_2_eq_zero)

lemma test_flags_status:
  "rf AND 0x8d5 = test_flags v \<Longrightarrow> (rf XOR f) AND - 67798 = 0 \<Longrightarrow> (rf XOR set_status f (sub_flags v 0)) AND - 65537 = 0"
  "(rf XOR set_status f (sub_flags v 0)) AND - 65537 = 0 \<Longrightarrow> rf AND 0x8d5 = test_flags v"
  "(rf XOR set_status f (sub_flags v 0)) AND - 65537 = 0 \<Longrightarrow> (rf XOR f) AND - 67798 = 0"
  using flags_agree(1)[of "sub_flags v 0" rf f] status_word_masked[of "sub_flags v 0"]
  by (simp_all add: test_flags_sub status_mask_def)

lemma nonzero_flags:
  assumes "f AND 0x500 = 0" and "v \<noteq> 0"
  shows "set_status f (sub_flags v 0) AND 0x540 = 0" "holds Not_zero (set_status f (sub_flags v 0))"
proof -
  have z: "\<not> bit (sub_flags v 0) 6" using assms(2) by (simp add: sub_flags_def Let_def pack_flags_bit)
  then show "holds Not_zero (set_status f (sub_flags v 0))" by (simp add: holds.simps set_status_bit)
  have t: "bit (set_status f (sub_flags v 0) AND 0x500) n = False" for n using assms(1) by simp
  have m: "bit (0x540 :: u32) n \<longleftrightarrow> n \<in> {6, 8, 10}" for n
    by (subst bit_of_mask; simp add: upt_rec; fastforce?)
  show "set_status f (sub_flags v 0) AND 0x540 = 0"
  proof (rule bit_word_eqI)
    fix n assume n: "n < LENGTH(32)"
    show "bit (set_status f (sub_flags v 0) AND 0x540) n = bit (0 :: u32) n"
      using t[of n] z n unfolding bit_and_iff m mask_bits by (auto simp: set_status_bit)
  qed
qed

section \<open>Execution of the selector\<close>

lemma cwd_lock_code_result:
  assumes "cwd_lock_code s = Some code"
  shows "code = put_word [0x55,0x8b,0xec,0x8b,0x45,0x08,0x56,0x8d,0x34,0xc5,0,0,0,0,0x83,0x3e,0]
       10 (ft_image_base (selector s) + lock_table_rva s)" "valid_frame_target_spec (selector s)"
  using assms by (auto simp: cwd_lock_code_def Let_def split: if_splits)

lemma cwd_acquire_code_result:
  assumes "cwd_acquire_code s p = Some code"
  shows "code = put_word [0xff, 0x36, 0xff, 0x15, 0, 0, 0, 0, 0x5e, 0x5d, 0xc3] 4 (ft_image_base (selector p) + acquire_iat_rva s)"
  using assms by (auto simp: cwd_acquire_code_def Let_def split: if_splits)

text \<open>An address the next six pushes do not write.\<close>

definition off_stack :: "x86 \<Rightarrow> u32 \<Rightarrow> bool" where
  "off_stack c a \<longleftrightarrow> list_all (\<lambda>d. a \<noteq> x_reg c ESP - d) [4, 8, 12, 16, 20, 24]"

definition lock_legs :: "cwd_lock_spec \<Rightarrow> bytes \<Rightarrow> bytes \<Rightarrow> (region_code \<times> nat) list" where
  "lock_legs s code acquire =
     (let base = ft_image_base (selector s); entry = (base + target_rva (selector s) + 38, acquire) in
      [((base + call_rva (selector s) - 2, [0x6a, 7] @ call_bytes (selector s)), 2),
       ((base + target_rva (selector s), code), 6),
       ((base + target_rva (selector s) + 17, [0x75, 0x13]), 1), (entry, 1), (entry, 1)])"

text \<open>
  Claim C31. The code behind the lock frames finds and enters the right critical section: from the completed
  prologue on, the machine selects slot 7 of the lock table, passes the two selector stops, takes
  the branch for a non-null slot and reaches the entry of the imported function with the slot's
  pointer as its argument; at the five stops the frame predicates accept exactly the registers and
  flags of the state, and the memory predicate exactly the stack window.
\<close>

theorem lock_selector_matches_execution:
  assumes "cwd_lock_code s = Some code" and "cwd_acquire_code a s = Some acquire" and "length (call_bytes (selector s)) = 5"
    and "x_eip c = ft_image_base (selector s) + call_rva (selector s) - 2" and "valid_cwd_lock_origin (regs_of c) tib"
    and "off_stack c (ft_image_base (selector s) + lock_table_rva s + 56)" "off_stack c (ft_image_base (selector s) + acquire_iat_rva a)"
    and "x_word c (ft_image_base (selector s) + lock_table_rva s + 56) = section_pointer" and "section_pointer \<noteq> 0"
  defines "window \<equiv> \<lambda>c'. words_at c' (x_reg c ESP - 32) 25"
  shows "\<exists>c1 c2 c3 c4 c5. run_through af (take 1 (lock_legs s code acquire)) c = Some c1
     \<and> run_through af (take 2 (lock_legs s code acquire)) c = Some c2 \<and> run_through af (take 3 (lock_legs s code acquire)) c = Some c3
     \<and> run_through af (take 4 (lock_legs s code acquire)) c = Some c4 \<and> run_through af (lock_legs s code acquire) c = Some c5
     \<and> x_eip c5 = x_word c (ft_image_base (selector s) + acquire_iat_rva a) \<and> x_word c5 (x_reg c5 ESP + 4) = section_pointer
     \<and> accepts_registers (\<lambda>r. cwd_lock_frame s 1 (regs_of c) r section_pointer) c1 0x10000
     \<and> (\<forall>now. cwd_lock_memory s 1 (regs_of c) (window c) now = (now = window c1))
     \<and> accepts_registers (\<lambda>r. cwd_lock_frame s 2 (regs_of c) r section_pointer) c2 0x10000
     \<and> (\<forall>now. cwd_lock_memory s 2 (regs_of c) (window c) now = (now = window c2))
     \<and> accepts_registers (\<lambda>r. cwd_acquire_frame 1 (regs_of c2) r ebp') c3 0x10000
     \<and> accepts_registers (\<lambda>r. cwd_acquire_frame 2 (regs_of c2) r ebp') c4 0x10000
     \<and> accepts_registers (\<lambda>r. cwd_acquire_frame 3 (regs_of c2) r ebp') c5 0x10000"
proof -
  let ?base = "ft_image_base (selector s)"
  note code = cwd_lock_code_result[OF assms(1)] and acq = cwd_acquire_code_result[OF assms(2)]
  from call_list[OF code(2) assms(3)] obtain i1 i2 i3 i4 where i: "call_bytes (selector s) = [0xe8, i1, i2, i3, i4]"
    "word_of_bytes i1 i2 i3 i4 = target_rva (selector s) - call_rva (selector s) - 5" by blast
  obtain ip g f h m b where c: "c = \<lparr>x_eip = ip, x_reg = g, x_flags = f, x_fs0 = h, x_word = m, x_byte = b\<rparr>" by (cases c)
  have org: "\<not> g ESP < 65568" "g ESP \<ge> 65568" "g ESP \<le> UINT32_MAX - 68" "g ESP mod 4 = 0" "g EAX = g ESP + 24" "g EBP = g ESP + 40" "g EBX = 0" "g ESI = 0"
    "g EDI = 24" "f AND 0x500 = 0"
    using assms(5) unfolding valid_cwd_lock_origin_def c regs_of_sel by auto
  have low: "65544 \<le> g ESP - 16" "g ESP - 16 \<le> UINT32_MAX - 84" "(g ESP - 16) mod 4 = 0" "g ESP \<le> - 69"
  proof -
    have n: "65568 \<le> unat (g ESP)" "unat (g ESP) \<le> 2 ^ 32 - 1 - 68" using org(2,3) by (simp_all add: word_le_nat_alt unat_UINT32_MAX_minus)
    have u: "unat (g ESP - 16) = unat (g ESP) - 16" using n(1) by (simp add: unat_sub word_le_nat_alt)
    show "65544 \<le> g ESP - 16" "g ESP - 16 \<le> UINT32_MAX - 84" "g ESP \<le> - 69"
      using n u org(3) by (simp_all add: word_le_nat_alt unat_UINT32_MAX_minus UINT32_MAX_def)
    have "unat (g ESP mod 4) = unat (0 :: u32)" using org(4) by simp
    then have "unat (g ESP) mod 4 = 0" by (simp add: unat_mod)
    then have "unat (g ESP - 16) mod 4 = 0" using u n(1) by presburger
    then show "(g ESP - 16) mod 4 = 0" by (simp add: word_unat_eq_iff unat_mod)
  qed
  have hi: "\<not> - 69 < g ESP" "\<not> - 85 < g ESP - 16" "\<not> g ESP - 16 < 65544"
    using low by (simp_all add: UINT32_MAX_def not_less)
  have one: "\<not> (4 :: u32) \<le> 1" by (simp add: word_le_nat_alt)
  note offs = assms(6,7)[unfolded off_stack_def c, simplified]
  note nz = nonzero_flags[OF org(10) assms(9)] and st = test_flags_status[where v = section_pointer and f = f]
  have slot: "m (56 + (?base + lock_table_rva s)) = section_pointer" using assms(8) by (simp add: c add.commute)
  show ?thesis
    using assms(4) offs
    by (simp add: c lock_legs_def Let_def i code acq x86_eval org slot nz, intro conjI;
        unfold accepts_registers_def cwd_lock_frame_def cwd_lock_memory_def cwd_acquire_frame_def Let_def same_registers_iff window_def c;
        auto simp: assms(1) x86_eval org low hi one nz UINT32_MAX_def intro: st dest: trap_free)
qed

definition sample_lock :: cwd_lock_spec where
  "sample_lock = \<lparr>selector = \<lparr>ft_image_base = 0x400000, ft_image_size = 0x10000, call_rva = 0x670e, target_rva = 0x6c00,
       call_bytes = [0xe8, 0xed, 4, 0, 0],
       target_prefix = [0x55, 0x8b, 0xec, 0x8b, 0x45, 8, 0x56, 0x8d, 0x34, 0xc5, 0, 0x91, 0x40, 0, 0x83, 0x3e]\<rparr>,
     lock_table_rva = 0x9100, lock_stop_prefix = [0x75, 0x13, 0, 0, 0, 0, 0, 0, 0, 0, 0, 0, 0, 0, 0, 0]\<rparr>"

definition sample_acquire :: cwd_acquire_spec where
  "sample_acquire = \<lparr>acquire_iat_rva = 0x9020, acquire_function = sample_export\<lparr>export_rva := 0x12000, highlow_mask := 0\<rparr>, acquire_return_prefix = []\<rparr>"

definition lock_machine :: x86 where
  "lock_machine = \<lparr>x_eip = 0x40670c, x_reg = (\<lambda>_. 0)(ESP := 0x19f000, EAX := 0x19f018, EBP := 0x19f028, EDI := 24), x_flags = 0x202,
     x_fs0 = 0x19f018, x_word = (\<lambda>_. 0)(0x409138 := 0x77001000, 0x409020 := 0x77aa0000), x_byte = \<lambda>_. 0\<rparr>"

lemma sample_lock_frame: "valid_frame_target_spec (selector sample_lock)"
  by (simp add: valid_frame_target_spec_def sample_lock_def UINT32_MAX_def rel32_def get_word_def)

lemma sample_lock_code: "cwd_lock_code sample_lock \<noteq> None" "cwd_acquire_code sample_acquire sample_lock \<noteq> None"
  using sample_lock_frame
  by (simp_all add: cwd_lock_code_def cwd_acquire_code_def Let_def) (simp_all add: sample_lock_def sample_acquire_def)

lemma sample_lock_valid: "valid_cwd_lock_spec sample_lock sample_seh"
proof -
  have f: "valid_frame_target_spec (seh_prologue sample_seh)"
    by (simp add: valid_frame_target_spec_def sample_seh_def UINT32_MAX_def rel32_def get_word_def)
  show ?thesis
    using f sample_lock_frame
    by (simp add: valid_cwd_lock_spec_def cwd_lock_code_def Let_def lock_spans_def)
       (simp add: sample_lock_def sample_seh_def put_word_def)
qed

theorem lock_selector_matches_execution_witness:
  "\<exists>code acquire c5. run_through True (lock_legs sample_lock code acquire) lock_machine = Some c5
     \<and> x_eip c5 = 0x77aa0000 \<and> x_word c5 (x_reg c5 ESP + 4) = 0x77001000"
proof -
  obtain code acquire where k: "cwd_lock_code sample_lock = Some code" "cwd_acquire_code sample_acquire sample_lock = Some acquire"
    using sample_lock_code by blast
  let ?tib = "[0x19f018, 0x1a0000, 0x190000, 0, 0, 0, 0x7ffde000]"
  have a: "length (call_bytes (selector sample_lock)) = 5"
    "x_eip lock_machine = ft_image_base (selector sample_lock) + call_rva (selector sample_lock) - 2"
    "valid_cwd_lock_origin (regs_of lock_machine) ?tib"
    "off_stack lock_machine (ft_image_base (selector sample_lock) + lock_table_rva sample_lock + 56)"
    "off_stack lock_machine (ft_image_base (selector sample_lock) + acquire_iat_rva sample_acquire)"
    "x_word lock_machine (ft_image_base (selector sample_lock) + lock_table_rva sample_lock + 56) = 0x77001000" "(0x77001000 :: u32) \<noteq> 0"
    "x_word lock_machine (ft_image_base (selector sample_lock) + acquire_iat_rva sample_acquire) = 0x77aa0000"
    by (simp_all add: sample_lock_def sample_acquire_def lock_machine_def valid_cwd_lock_origin_def UINT32_MAX_def off_stack_def)
  show ?thesis
    using lock_selector_matches_execution[OF k a(1-7), of True 0] a(8) by auto
qed

end
