(* ===== verification/Cwd_Query.thy ===== *)
theory Cwd_Query
  imports Cwd_Lock
begin

text \<open>
  \<open>cwd_query.hpp/.cpp\<close> and \<open>cwd_copy.hpp/.cpp\<close>: the helper of the C runtime that asks Windows for the
  current directory under the lock, the acceptance of the directory it returned, and the copy of
  the path into the file manager's buffer.
\<close>

section \<open>CwdQuerySpec\<close>

record cwd_query_spec =
  helper_rva :: u32
  cookie_rva :: u32
  query_iat_rva :: u32
  thunk_slot_rva :: u32
  query_function :: bootstrap_export_spec
  implementation :: bootstrap_export_spec
  query_return_prefix :: bytes
  expected_directory :: string

text \<open>The wrapper after the lock, the start of the helper, and the call of the query function.\<close>

definition cwd_query_code :: "cwd_query_spec \<Rightarrow> cwd_lock_spec \<Rightarrow> (bytes \<times> bytes \<times> bytes) option" where
  "cwd_query_code s p =
    (let f = selector p in
     if \<not> valid_frame_target_spec f \<or> ft_image_size f < 4096 + 157 \<or> call_rva f > ft_image_size f - 23
        \<or> helper_rva s < 4096 \<or> helper_rva s > ft_image_size f - 157
        \<or> cookie_rva s < 4096 \<or> cookie_rva s > ft_image_size f - 4 \<or> cookie_rva s mod 4 \<noteq> 0
        \<or> query_iat_rva s < 4096 \<or> query_iat_rva s > ft_image_size f - 4 \<or> query_iat_rva s mod 4 \<noteq> 0 then None
     else Some
       (put_word [0x59, 0x83, 0x65, 0xfc, 0, 0xff, 0x75, 0x0c, 0xff, 0x75, 8, 0x6a, 0, 0xe8, 0, 0, 0, 0] 14
          (helper_rva s - (call_rva f + 23)),
        put_word [0x55, 0x8b, 0xec, 0x81, 0xec, 0x0c, 1, 0, 0, 0xa1, 0, 0, 0, 0, 0x33, 0x45, 4, 0x53, 0x8b, 0x5d, 8,
          0x85, 0xdb, 0x89, 0x45, 0xfc, 0x74, 0x5f] 10 (ft_image_base f + cookie_rva s),
        put_word [0x8d, 0x85, 0xf4, 0xfe, 0xff, 0xff, 0x50, 0x68, 4, 1, 0, 0, 0xff, 0x15, 0, 0, 0, 0] 14
          (ft_image_base f + query_iat_rva s)))"

definition query_thunk :: bytes where
  "query_thunk = [0x8b, 0xff, 0x55, 0x8b, 0xec, 0x5d, 0xff, 0x25]"

definition query_spans :: "cwd_query_spec \<Rightarrow> cwd_lock_spec \<Rightarrow> span list" where
  "query_spans s p = [(call_rva (selector p), 23), (helper_rva s, 157), (cookie_rva s, 4), (query_iat_rva s, 4), (lock_table_rva p + 52, 16)]"

definition valid_cwd_query_spec :: "cwd_query_spec \<Rightarrow> cwd_lock_spec \<Rightarrow> bool" where
  "valid_cwd_query_spec s p \<longleftrightarrow>
     \<not> (cwd_query_code s p = None \<or> thunk_slot_rva s < 4096 \<or> thunk_slot_rva s mod 4 \<noteq> 0 \<or> thunk_slot_rva s > module_limit - 4)
     \<and> list_all (\<lambda>e. \<not> (export_rva e < 4096 \<or> export_rva e > module_limit - 20 \<or> preferred_base e = 0 \<or> preferred_base e mod 65536 \<noteq> 0
          \<or> bootstrap_export_prefix e (preferred_base e) = None)) [query_function s, implementation s]
     \<and> (let f = query_function s in
        \<not> (query_thunk \<noteq> take 8 (audited_prefix f) \<or> highlow_mask f \<noteq> push_bit 8 1 \<or> preferred_base f > UINT32_MAX - thunk_slot_rva s)
        \<and> put_word (audited_prefix f) 8 (preferred_base f + thunk_slot_rva s) = audited_prefix f)
     \<and> spans_ok (ft_image_size (selector p)) (query_spans s p)"

section \<open>The directory\<close>

text \<open>A character as the number the source compares.\<close>

definition code_of :: "char \<Rightarrow> nat" where
  "code_of c = of_char c"

text \<open>A local absolute path: a drive letter, printable characters, none that a path may not hold.\<close>

definition cwd_query_directory :: "string \<Rightarrow> bool" where
  "cwd_query_directory path \<longleftrightarrow>
     \<not> (length path < 3 \<or> length path \<ge> 260 \<or> 
          \<not> ((code_of (path ! 0) \<ge> 0x41 \<and> code_of (path ! 0) \<le> 0x5a) \<or> (code_of (path ! 0) \<ge> 0x61 \<and> code_of (path ! 0) \<le> 0x7a))
        \<or> path ! 1 \<noteq> CHR '':'' \<or> path ! 2 \<noteq> CHR 0x5c)
     \<and> list_all (\<lambda>i. let c = path ! i in
          \<not> (code_of c < 32 \<or> code_of c > 126 \<or> (i \<noteq> 1 \<and> c = CHR '':'') \<or> c = CHR ''/'' \<or> c = CHR 0x22 \<or> c = CHR ''<''
             \<or> c = CHR ''>'' \<or> c = CHR ''|'' \<or> c = CHR ''?'' \<or> c = CHR ''*'')) [0..<length path]"

text \<open>The bytes of a buffer as characters (\<open>reinterpret_cast<const char*>\<close>).\<close>

definition chars_of :: "bytes \<Rightarrow> string" where
  "chars_of = map (\<lambda>b. char_of (unat b))"

text \<open>The empty string is success; every other answer names the reason.\<close>

definition cwd_query_result :: "u32 \<Rightarrow> bytes \<Rightarrow> string \<Rightarrow> string" where
  "cwd_query_result len buffer expected =
    (if \<not> cwd_query_directory expected then ''cwd_query_expected_directory''
     else if len = 0 then ''cwd_query_directory_failed''
     else if unat len \<ge> length buffer then ''cwd_query_directory_truncated''
     else if buffer ! unat len \<noteq> 0 \<or> 0 \<in> set (take (unat len) buffer) then ''cwd_query_directory_termination''
     else let actual = chars_of (take (unat len) buffer) in
       if \<not> cwd_query_directory actual then ''cwd_query_directory_encoding''
       else if actual \<noteq> expected then ''cwd_query_directory_mismatch''
       else if len > 126 then ''cwd_query_suffix_capacity''
       else '''')"

section \<open>Frames of the query\<close>

definition cwd_query_frame :: "u32 \<Rightarrow> event_dispatch_registers \<Rightarrow> event_dispatch_registers \<Rightarrow> u32 \<Rightarrow> u32 \<Rightarrow> bool" where
  "cwd_query_frame stage s r cookie helper_return \<longleftrightarrow>
     \<not> (stage < 1 \<or> stage > 7 \<or> d_esp s < 65536 + 300 \<or> d_esp s > UINT32_MAX - 72 \<or> d_esp s mod 4 \<noteq> 0 \<or> d_ebp s \<noteq> d_esp s + 44
        \<or> d_ebx s \<noteq> 0 \<or> d_esi s \<noteq> 0 \<or> d_edi s \<noteq> 24 \<or> d_flags s AND 0x500 \<noteq> 0 \<or> d_flags r AND 0x500 \<noteq> 0
        \<or> (d_flags r XOR d_flags s) AND NOT 0x108d5 \<noteq> 0 \<or> d_ebx r \<noteq> 0 \<or> d_esi r \<noteq> 0 \<or> d_edi r \<noteq> 24)
     \<and> (let esp = (if stage = 1 then d_esp s - 8 else if stage = 2 then d_esp s - 12 else if stage = 5 then d_esp s - 296
                   else if stage = 6 then d_esp s - 300 else d_esp s - 288) in
        \<not> (d_esp r \<noteq> esp \<or> d_ebp r \<noteq> (if stage \<le> 2 then d_ebp s else d_esp s - 16))
        \<and> (if stage = 7 then True
           else if d_ecx r \<noteq> 7 \<or> d_edx r \<noteq> d_edx s then False
           else if stage \<le> 2 then d_eax r = d_eax s
           else if stage \<le> 4 then d_eax r = cookie XOR helper_return \<and> d_flags r AND 0xc5 = 0x44
           else d_eax r = d_esp s - 284))"

text \<open>The 21 words from \<open>esp - 12\<close>.\<close>

definition cwd_query_stack :: "u32 \<Rightarrow> u32 list \<Rightarrow> u32 list \<Rightarrow> u32 \<Rightarrow> u32 \<Rightarrow> bool" where
  "cwd_query_stack stage before now buffer helper_return \<longleftrightarrow>
     \<not> (stage < 1 \<or> stage > 7)
     \<and> (let e = before[1 := 0, 2 := buffer, 3 := 128, 13 := 0] in now = (if stage \<ge> 2 then e[0 := helper_return] else e))"

section \<open>CwdCopySpec\<close>

record cwd_copy_spec =
  copier_rva :: u32
  copy_return_prefix :: bytes

record copy_code =
  cc_checks :: bytes
  cc_capacity :: bytes
  cc_call :: bytes
  cc_entry :: bytes
  cc_body :: bytes

definition copy_spans :: "cwd_copy_spec \<Rightarrow> cwd_query_spec \<Rightarrow> cwd_lock_spec \<Rightarrow> span list" where
  "copy_spans s q lock = [(helper_rva q, 247), (copier_rva s, 248), (call_rva (selector lock), 23), (cookie_rva q, 4), (query_iat_rva q, 4),
     (lock_table_rva lock + 52, 16)]"

definition copy_checks :: bytes where
  "copy_checks = [0x85,0xc0,0x74,0xac,0x40,0x3d,0x04,0x01,0x00,0x00,0x77,0xa4,0x8b,0x4d,0x0c,0x85,0xc9,0x75,0x25]"

definition copy_body :: bytes where
  "copy_body = [0x8b,0x4c,0x24,0x0c,0xf7,0xc1,0x03,0x00,0x00,0x00,0x74,0x1d,0x8a,0x11,0x83,0xc1,0x01,0x84,0xd2,0x74,0x66,0x88,0x17,
     0x83,0xc7,0x01,0xf7,0xc1,0x03,0x00,0x00,0x00,0x75,0xea,0xeb,0x05,0x89,0x17,0x83,0xc7,0x04,0xba,0xff,0xfe,0xfe,0x7e,0x8b,0x01,
     0x03,0xd0,0x83,0xf0,0xff,0x33,0xc2,0x8b,0x11,0x83,0xc1,0x04,0xa9,0x00,0x01,0x01,0x81,0x74,0xe1,0x84,0xd2,0x74,0x34,0x84,0xf6,
     0x74,0x27,0xf7,0xc2,0x00,0x00,0xff,0x00,0x74,0x12,0xf7,0xc2,0x00,0x00,0x00,0xff,0x74,0x02,0xeb,0xc7,0x89,0x17,0x8b,0x44,0x24,
     0x08,0x5f,0xc3,0x66,0x89,0x17,0x8b,0x44,0x24,0x08,0xc6,0x47,0x02,0x00,0x5f,0xc3,0x66,0x89,0x17,0x8b,0x44,0x24,0x08,0x5f,0xc3,
     0x88,0x17,0x8b,0x44,0x24,0x08,0x5f,0xc3]"

text \<open>This loop tests no address range, only the overlaps.\<close>

definition cwd_copy_code :: "cwd_copy_spec \<Rightarrow> cwd_query_spec \<Rightarrow> cwd_lock_spec \<Rightarrow> copy_code option" where
  "cwd_copy_code s q lock =
    (let n = ft_image_size (selector lock) in
     if \<not> valid_cwd_query_spec q lock \<or> n < 4096 + 248 \<or> copier_rva s < 4096 \<or> copier_rva s > n - 248 \<or> helper_rva q > n - 247 then None
     else if \<not> disjoint_from [] (copy_spans s q lock) then None
     else if query_return_prefix q \<noteq> take (length (query_return_prefix q)) copy_checks then None
     else Some \<lparr>cc_checks = copy_checks, cc_capacity = [0x3b, 0x45, 0x10, 0x7e, 0x10],
       cc_call = put_word [0x8d, 0x85, 0xf4, 0xfe, 0xff, 0xff, 0x50, 0x51, 0xe8, 0, 0, 0, 0] 9 (copier_rva s - (helper_rva q + 231)),
       cc_entry = [0x57, 0x8b, 0x7c, 0x24, 0x08, 0xeb, 0x6e], cc_body = copy_body\<rparr>)"

definition parity :: "u32 \<Rightarrow> u32" where
  "parity v = (if length (filter (bit v) [0..<8]) mod 2 \<noteq> 0 then 0 else 4)"

definition cwd_copy_frame :: "u32 \<Rightarrow> event_dispatch_registers \<Rightarrow> event_dispatch_registers \<Rightarrow> event_dispatch_registers \<Rightarrow> u32 \<Rightarrow> u32 \<Rightarrow> u32 \<Rightarrow> bool" where
  "cwd_copy_frame stage h a r source destination len \<longleftrightarrow>
     \<not> (stage < 1 \<or> stage > 5 \<or> len < 3 \<or> len > 126 \<or> d_esp h < 65536 + 304 \<or> d_esp h > UINT32_MAX - 72 \<or> d_esp h mod 4 \<noteq> 0
        \<or> d_ebp h \<noteq> d_esp h + 44 \<or> source \<noteq> d_esp h - 284 \<or> destination = 0 \<or> destination > UINT32_MAX - 128
        \<or> (source < destination + 128 \<and> destination < source + 260)
        \<or> d_esp a \<noteq> d_esp h - 288 \<or> d_ebp a \<noteq> d_esp h - 16 \<or> d_eax a \<noteq> len
        \<or> d_ebx a \<noteq> 0 \<or> d_esi a \<noteq> 0 \<or> d_edi a \<noteq> 24 \<or> d_flags a AND 0x500 \<noteq> 0 \<or> d_flags r AND 0x500 \<noteq> 0
        \<or> (d_flags r XOR d_flags a) AND NOT 0x108d5 \<noteq> 0 \<or> d_ebp r \<noteq> d_ebp a \<or> d_ebx r \<noteq> 0 \<or> d_esi r \<noteq> 0 \<or> d_edi r \<noteq> 24)
     \<and> \<not> (d_esp r \<noteq> (if stage \<le> 2 then d_esp h - 288 else if stage = 4 then d_esp h - 300 else d_esp h - 296)
          \<or> d_eax r \<noteq> (if stage \<le> 2 then len + 1 else if stage = 5 then destination else source))
     \<and> (if stage = 5 then True
        else if d_ecx r \<noteq> destination \<or> d_edx r \<noteq> d_edx a then False
        else if stage = 1 then d_flags r AND 0x8c5 = parity destination OR (drop_bit 31 destination * 0x80)
        else d_flags r AND 0x8d5 = 0x81 OR parity (len + 1 - 128))"

text \<open>136 bytes of the destination, four guard bytes on each side of the 128.\<close>

definition cwd_copy_buffer :: "bytes \<Rightarrow> bytes \<Rightarrow> bytes \<Rightarrow> u32 \<Rightarrow> bool \<Rightarrow> bool" where
  "cwd_copy_buffer before now source len copied \<longleftrightarrow>
     \<not> (len < 3 \<or> len > 126 \<or> source ! unat len \<noteq> 0 \<or> 0 \<in> set (take (unat len) source))
     \<and> list_all (\<lambda>i. now ! i = (if copied \<and> i \<ge> 4 \<and> i - 4 \<le> unat len then source ! (i - 4) else before ! i)) [0..<length before]"

section \<open>Execution of the query\<close>

lemma cwd_query_code_result:
  assumes "cwd_query_code s p = Some (w, h, q)"
  shows "w = put_word [0x59, 0x83, 0x65, 0xfc, 0, 0xff, 0x75, 0x0c, 0xff, 0x75, 8, 0x6a, 0, 0xe8, 0, 0, 0, 0] 14
          (helper_rva s - (call_rva (selector p) + 23))"
    "h = put_word [0x55, 0x8b, 0xec, 0x81, 0xec, 0x0c, 1, 0, 0, 0xa1, 0, 0, 0, 0, 0x33, 0x45, 4, 0x53, 0x8b, 0x5d, 8,
          0x85, 0xdb, 0x89, 0x45, 0xfc, 0x74, 0x5f] 10 (ft_image_base (selector p) + cookie_rva s)"
    "q = put_word [0x8d, 0x85, 0xf4, 0xfe, 0xff, 0xff, 0x50, 0x68, 4, 1, 0, 0, 0xff, 0x15, 0, 0, 0, 0] 14
          (ft_image_base (selector p) + query_iat_rva s)"
  using assms by (auto simp: cwd_query_code_def Let_def split: if_splits)

text \<open>An address none of the listed stack slots is at.\<close>

definition clear_of :: "x86 \<Rightarrow> u32 list \<Rightarrow> u32 \<Rightarrow> bool" where
  "clear_of c ds a \<longleftrightarrow> list_all (\<lambda>d. a \<noteq> x_reg c ESP + d) ds"

definition query_slots :: "u32 list" where
  "query_slots = [40, 0, - 4, - 8, - 12, - 16, - 20, - 288, - 292, - 296, - 300]"

text \<open>What the frames of this part ask of the state they start from.\<close>

definition locked_frame :: "x86 \<Rightarrow> bool" where
  "locked_frame c \<longleftrightarrow> 65536 + 304 \<le> x_reg c ESP \<and> x_reg c ESP \<le> UINT32_MAX - 72 \<and> x_reg c ESP mod 4 = 0
     \<and> x_reg c EBP = x_reg c ESP + 44 \<and> x_reg c EBX = 0 \<and> x_reg c ESI = 0 \<and> x_reg c EDI = 24 \<and> x_flags c AND 0x500 = 0"

lemma locked_frame_words:
  assumes "locked_frame c"
  shows "\<not> x_reg c ESP < 65840" "\<not> x_reg c ESP < 65836" "\<not> x_reg c ESP > - 73"
  using assms by (auto simp: locked_frame_def UINT32_MAX_def not_less intro: order_trans[of 65836 "65840 :: u32"])

definition query_legs :: "cwd_query_spec \<Rightarrow> cwd_lock_spec \<Rightarrow> bytes \<Rightarrow> bytes \<Rightarrow> bytes \<Rightarrow> (region_code \<times> nat) list" where
  "query_legs s p w h q =
     (let base = ft_image_base (selector p); wr = (base + call_rva (selector p) + 5, w); hr = (base + helper_rva s, h);
          qr = (base + helper_rva s + 123, q) in
      [(wr, 5), (wr, 1), (hr, 9), (hr, 1), (qr, 3), (qr, 1)])"

lemma zero_result_status:
  "rf AND 0xc5 = 0x44 \<Longrightarrow> (rf XOR f) AND - 67798 = 0 \<Longrightarrow> (rf XOR set_status f (logic_result_flags af 0)) AND - 67601 = 0"
  "(rf XOR set_status f (logic_result_flags af 0)) AND - 67601 = 0 \<Longrightarrow> rf AND 0xc5 = 0x44"
  "(rf XOR set_status f (logic_result_flags af 0)) AND - 67601 = 0 \<Longrightarrow> (rf XOR f) AND - 67798 = 0"
proof -
  have z: "logic_result_flags af 0 = 0x44 OR (if af then 16 else 0)"
    by (simp add: logic_result_flags_def pack_flags_def even_parity_def)
  have m: "bit (0x44 :: u32) n \<longleftrightarrow> n \<in> {2, 6}" "bit (0x10810 :: u32) n \<longleftrightarrow> n \<in> {4, 11, 16}" for n
    by (subst bit_of_mask; simp add: upt_rec; fastforce?)+
  have "(rf AND 0xc5 = logic_result_flags af 0 AND 0xc5 \<and> (rf XOR f) AND NOT 0x108d5 = 0)
     \<longleftrightarrow> (rf XOR set_status f (logic_result_flags af 0)) AND NOT 0x10810 = 0"
    by (rule status_merge; unfold mask_bits z bit_or_iff bit_if m) auto
  moreover have "logic_result_flags af 0 AND 0xc5 = 0x44" unfolding z by auto
  ultimately show "rf AND 0xc5 = 0x44 \<Longrightarrow> (rf XOR f) AND - 67798 = 0 \<Longrightarrow> (rf XOR set_status f (logic_result_flags af 0)) AND - 67601 = 0"
    "(rf XOR set_status f (logic_result_flags af 0)) AND - 67601 = 0 \<Longrightarrow> rf AND 0xc5 = 0x44"
    "(rf XOR set_status f (logic_result_flags af 0)) AND - 67601 = 0 \<Longrightarrow> (rf XOR f) AND - 67798 = 0"
    by simp_all
qed

lemma any_status:
  "status_word st \<Longrightarrow> (rf XOR set_status f st) AND - 67798 = 0 \<longleftrightarrow> (rf XOR f) AND - 67798 = 0"
proof -
  assume "status_word st"
  note b = status_word_bit[OF this]
  have "(rf XOR set_status f st) AND NOT 0x108d5 = 0 \<longleftrightarrow> (rf XOR f) AND NOT 0x108d5 = 0"
    unfolding word_bits bit_and_iff bit_xor_iff bit_not_iff mask_bits
    by (intro iff_allI imp_cong refl) (use b in \<open>auto simp: set_status_bit\<close>)
  then show ?thesis by simp
qed

lemma trap_free_any:
  "(rf XOR f) AND - 67798 = 0 \<Longrightarrow> f AND 0x500 = 0 \<Longrightarrow> rf AND 0x500 = (0 :: u32)"
  using trap_agree[of rf f "0x108d5"] by simp

text \<open>
  Claim C32. Under the lock the C runtime asks for the current directory into the local buffer of the helper:
  from the return of the lock call on, the rebuilt wrapper, helper and query code pass the six
  observed places and enter the imported function with length 260 and the buffer at
  \<open>esp - 284\<close>; at each place the frame predicate accepts exactly the registers of the state
  (and the flags the step defines), and the stack predicate exactly the window of 21 words.
\<close>

theorem query_frames_match_execution:
  assumes "cwd_query_code s p = Some (w, h, q)" and "x_eip c = ft_image_base (selector p) + call_rva (selector p) + 5"
    and "locked_frame c" and "x_word c (x_reg c ESP) = 7" "x_word c (x_reg c ESP + 52) = buffer" "x_word c (x_reg c ESP + 56) = 128"
    and "clear_of c query_slots (ft_image_base (selector p) + cookie_rva s)" "clear_of c query_slots (ft_image_base (selector p) + query_iat_rva s)"
  defines "accepted \<equiv> \<lambda>stage ig c'. accepts_registers (\<lambda>r. cwd_query_frame stage (regs_of c) r (x_word c (ft_image_base (selector p) + cookie_rva s))
        (ft_image_base (selector p) + call_rva (selector p) + 23)) c' ig
      \<and> (\<forall>now. cwd_query_stack stage (words_at c (x_reg c ESP - 12) 21) now buffer (ft_image_base (selector p) + call_rva (selector p) + 23)
          = (now = words_at c' (x_reg c ESP - 12) 21))"
  shows "\<exists>c1 c2 c3 c4 c5 c6. run_through af (take 1 (query_legs s p w h q)) c = Some c1
     \<and> run_through af (take 2 (query_legs s p w h q)) c = Some c2 \<and> run_through af (take 3 (query_legs s p w h q)) c = Some c3
     \<and> run_through af (take 4 (query_legs s p w h q)) c = Some c4 \<and> run_through af (take 5 (query_legs s p w h q)) c = Some c5
     \<and> run_through af (query_legs s p w h q) c = Some c6
     \<and> x_eip c6 = x_word c (ft_image_base (selector p) + query_iat_rva s)
     \<and> x_word c6 (x_reg c6 ESP + 4) = 260 \<and> x_word c6 (x_reg c6 ESP + 8) = x_reg c ESP - 284
     \<and> accepted 1 0x108d5 c1 \<and> accepted 2 0x108d5 c2 \<and> accepted 3 0x10810 c3 \<and> accepted 4 0x10810 c4
     \<and> accepted 5 0x108d5 c5 \<and> accepted 6 0x108d5 c6"
proof -
  let ?base = "ft_image_base (selector p)"
  note code = cwd_query_code_result[OF assms(1)] and hi = locked_frame_words[OF assms(3)]
  obtain ip g f h' m b where c: "c = \<lparr>x_eip = ip, x_reg = g, x_flags = f, x_fs0 = h', x_word = m, x_byte = b\<rparr>" by (cases c)
  have org: "g ESP mod 4 = 0" "g EBP = g ESP + 44" "g EBX = 0" "g ESI = 0" "g EDI = 24" "f AND 0x500 = 0"
    using assms(3) unfolding locked_frame_def c by auto
  have z: "logic_result_flags af 0 = pack_flags False True af True False False"
    by (simp add: logic_result_flags_def even_parity_def)
  note slots = assms(4-8)[unfolded clear_of_def query_slots_def c, simplified, simplified add.commute[of "g ESP"]]
  have ret: "23 + (?base + call_rva (selector p)) = ?base + call_rva (selector p) + 23" by simp
  have one: "\<not> (2 :: u32) \<le> 1" "\<not> (3 :: u32) \<le> 1" "\<not> (4 :: u32) \<le> 1" by (simp_all add: word_le_nat_alt)
  note st = zero_result_status[where f = f and af = af, unfolded z] and an = any_status[where f = f, OF status_word_pack]
  show ?thesis
    using assms(2) slots
    by (simp add: c query_legs_def Let_def code x86_eval org z, intro conjI;
        unfold accepted_def accepts_registers_def cwd_query_frame_def cwd_query_stack_def Let_def same_registers_iff c;
        auto simp: x86_eval org hi[unfolded c, simplified] an one ret UINT32_MAX_def
          intro: st dest: trap_free_any[OF _ org(6)] trap_free_any[OF st(3) org(6)])
qed

definition sample_query :: cwd_query_spec where
  "sample_query = \<lparr>helper_rva = 0x7000, cookie_rva = 0xc100, query_iat_rva = 0x9024, thunk_slot_rva = 0x2000,
     query_function = \<lparr>export_rva = 0x1100, audited_prefix = query_thunk @ [0, 0x20, 0, 0x77, 0, 0, 0, 0, 0, 0, 0, 0],
       preferred_base = 0x77000000, highlow_mask = 0x100\<rparr>,
     implementation = \<lparr>export_rva = 0x1200, audited_prefix = [0, 0, 0, 0, 0, 0, 0, 0, 0, 0, 0, 0, 0, 0, 0, 0, 0, 0, 0, 0],
       preferred_base = 0x76000000, highlow_mask = 0\<rparr>,
     query_return_prefix = [0x85, 0xc0, 0x74, 0xac, 0x40, 0x3d, 4, 1, 0, 0, 0x77, 0xa4, 0x8b, 0x4d, 0x0c, 0x85],
     expected_directory = ''C:'' @ [CHR 0x5c] @ ''games''\<rparr>"

definition query_machine :: x86 where
  "query_machine = \<lparr>x_eip = 0x406713, x_reg = (\<lambda>_. 0)(ESP := 0x19f000, EBP := 0x19f02c, EDI := 24), x_flags = 0x202, x_fs0 = 0x19f01c,
     x_word = (\<lambda>_. 0)(0x19f000 := 7, 0x19f034 := 0x40d004, 0x19f038 := 128, 0x40c100 := 0xbb40e64e, 0x409024 := 0x77001100),
     x_byte = \<lambda>_. 0\<rparr>"

lemma sample_query_code: "cwd_query_code sample_query sample_lock \<noteq> None"
  using sample_lock_frame by (simp add: cwd_query_code_def Let_def) (simp add: sample_lock_def sample_query_def)

theorem query_frames_match_execution_witness:
  "\<exists>w h q c6. run_through True (query_legs sample_query sample_lock w h q) query_machine = Some c6
     \<and> x_eip c6 = 0x77001100 \<and> x_word c6 (x_reg c6 ESP + 4) = 260 \<and> x_word c6 (x_reg c6 ESP + 8) = 0x19eee4"
proof -
  obtain w h q where k: "cwd_query_code sample_query sample_lock = Some (w, h, q)" using sample_query_code by auto
  have a: "x_eip query_machine = ft_image_base (selector sample_lock) + call_rva (selector sample_lock) + 5" "locked_frame query_machine"
    "x_word query_machine (x_reg query_machine ESP) = 7" "x_word query_machine (x_reg query_machine ESP + 52) = 0x40d004"
    "x_word query_machine (x_reg query_machine ESP + 56) = 128"
    "clear_of query_machine query_slots (ft_image_base (selector sample_lock) + cookie_rva sample_query)"
    "clear_of query_machine query_slots (ft_image_base (selector sample_lock) + query_iat_rva sample_query)"
    "x_word query_machine (ft_image_base (selector sample_lock) + query_iat_rva sample_query) = 0x77001100"
    "x_reg query_machine ESP - 284 = 0x19eee4"
    by (simp_all add: sample_lock_def sample_query_def query_machine_def locked_frame_def UINT32_MAX_def clear_of_def query_slots_def)
  show ?thesis
    using query_frames_match_execution[OF k a(1-7), of True] a(8,9) by auto
qed

end
