(* ===== verification/Cwd_Return.thy ===== *)
theory Cwd_Return
  imports Cwd_Query
begin

text \<open>
  \<open>cwd_return.hpp/.cpp\<close> and \<open>file_manager_ready.hpp/.cpp\<close>: the return of the directory helper through
  the check of its stack cookie, and the return to the file manager, which appends the backslash.
  The execution of the copy stage of \<open>Cwd_Query\<close> and of the return stage is here, and what the
  buffer holds in the end.
\<close>

section \<open>CwdReturnSpec\<close>

record cwd_return_spec =
  checker_rva :: u32
  return_return_prefix :: bytes

record return_code =
  rc_cleanup :: bytes
  rc_epilogue :: bytes
  rc_checker :: bytes

definition return_spans :: "cwd_return_spec \<Rightarrow> cwd_copy_spec \<Rightarrow> cwd_query_spec \<Rightarrow> cwd_lock_spec \<Rightarrow> span list" where
  "return_spans s p q l = [(helper_rva q, 247), (copier_rva p, 248), (call_rva (selector l), 23), (call_rva (selector l) + 23, 16),
     (cookie_rva q, 4), (query_iat_rva q, 4), (lock_table_rva l + 52, 16), (checker_rva s, 9)]"

definition cwd_return_code :: "cwd_return_spec \<Rightarrow> cwd_copy_spec \<Rightarrow> cwd_query_spec \<Rightarrow> cwd_lock_spec \<Rightarrow> return_code option" where
  "cwd_return_code s p q l =
    (let f = selector l; cleanup = [0x59, 0x59, 0xe9, 0x51, 0xff, 0xff, 0xff] in
     if cwd_copy_code p q l = None \<or> checker_rva s < 4096 \<or> checker_rva s > ft_image_size f - 9 \<or> call_rva f > ft_image_size f - 39 then None
     else if \<not> disjoint_from [] (return_spans s p q l) then None
     else if ft_image_base f > UINT32_MAX - cookie_rva q then None
     else if cleanup \<noteq> take 7 (copy_return_prefix p) then None
     else Some \<lparr>rc_cleanup = cleanup,
       rc_epilogue = put_word [0x8b, 0x4d, 0xfc, 0x33, 0x4d, 4, 0x5b, 0xe8, 0, 0, 0, 0, 0xc9, 0xc3] 8 (checker_rva s - (helper_rva q + 75)),
       rc_checker = put_word [0x3b, 0x0d, 0, 0, 0, 0, 0x75, 1, 0xc3] 2 (ft_image_base f + cookie_rva q)\<rparr>)"

definition return_logic_flags :: "u32 \<Rightarrow> u32" where
  "return_logic_flags v = (if length (filter (bit v) [0..<8]) mod 2 \<noteq> 0 then 0 else 4) OR (if v \<noteq> 0 then 0 else 0x40) OR (drop_bit 31 v * 0x80)"

definition cwd_return_frame :: "u32 \<Rightarrow> event_dispatch_registers \<Rightarrow> event_dispatch_registers \<Rightarrow> event_dispatch_registers \<Rightarrow> u32 \<Rightarrow> u32 \<Rightarrow> bool" where
  "cwd_return_frame stage h c r cookie destination \<longleftrightarrow>
     \<not> (stage < 1 \<or> stage > 6 \<or> d_esp h < 65536 + 304 \<or> d_esp h > UINT32_MAX - 72 \<or> d_esp h mod 4 \<noteq> 0 \<or> d_ebp h \<noteq> d_esp h + 44
        \<or> destination = 0 \<or> destination > UINT32_MAX - 128 \<or> d_esp c \<noteq> d_esp h - 296 \<or> d_ebp c \<noteq> d_esp h - 16
        \<or> d_eax c \<noteq> destination \<or> d_ebx c \<noteq> 0 \<or> d_esi c \<noteq> 0 \<or> d_edi c \<noteq> 24 \<or> d_flags c AND 0x500 \<noteq> 0 \<or> d_flags r AND 0x500 \<noteq> 0
        \<or> (d_flags c XOR d_flags r) AND NOT 0x108d5 \<noteq> 0 \<or> d_eax r \<noteq> destination \<or> d_edx r \<noteq> d_edx c \<or> d_ebx r \<noteq> 0 \<or> d_esi r \<noteq> 0
        \<or> d_edi r \<noteq> 24 \<or> d_ebp r \<noteq> (if stage = 6 then d_ebp h else d_ebp c))
     \<and> \<not> (d_esp r \<noteq> (if stage = 6 then d_esp h - 8 else if stage = 2 \<or> stage = 5 then d_esp h - 284 else d_esp h - 288)
          \<or> d_ecx r \<noteq> (if stage = 1 then d_esp h - 284 else cookie))
     \<and> (if stage = 1 then (d_flags r XOR d_flags c) AND NOT 0x10000 = 0
        else if stage \<le> 3 then d_flags r AND 0x8c5 = return_logic_flags cookie
        else d_flags r AND 0x8d5 = 0x44)"

section \<open>FileManagerReadySpec\<close>

record file_manager_ready_spec =
  unlock_rva :: u32
  ready_iat_rva :: u32
  epilogue_rva :: u32
  ready_function :: bootstrap_export_spec

record ready_code =
  fr_wrapper :: bytes
  fr_cleanup :: bytes
  fr_unlock :: bytes
  fr_epilogue :: bytes

definition ready_spans :: "file_manager_ready_spec \<Rightarrow> cwd_lock_spec \<Rightarrow> cwd_seh_spec \<Rightarrow> file_manager_entry_spec \<Rightarrow> span list" where
  "ready_spans s l seh m = [(call_rva (selector l) + 23, 24), (cleanup_rva seh, 9), (unlock_rva s, 21), (epilogue_rva s, 17), (ready_iat_rva s, 4),
     (lock_table_rva l + 52, 16), (target_rva (manager m), 51), (call_rva (manager m), 21), (buffer_rva m - 4, 136), (suffix_rva m, 2)]"

definition file_manager_ready_code :: "file_manager_ready_spec \<Rightarrow> cwd_return_spec \<Rightarrow> cwd_lock_spec \<Rightarrow> cwd_seh_spec \<Rightarrow> file_manager_entry_spec
    \<Rightarrow> ready_code option" where
  "file_manager_ready_code s p l seh m =
    (let f = selector l; g = ready_function s;
         wrapper = put_word (put_word [0x83, 0xc4, 0x0c, 0x89, 0x45, 0xe4, 0x83, 0x4d, 0xfc, 0xff, 0xe8, 0, 0, 0, 0, 0x8b, 0x45, 0xe4, 0xe8, 0, 0, 0, 0, 0xc3]
           11 (cleanup_rva seh - (call_rva f + 38))) 19 (epilogue_rva s - (call_rva f + 46)) in
     if file_manager_body m = None \<or> \<not> valid_cwd_lock_spec l seh \<or> ft_image_base f \<noteq> ft_image_base (manager m)
        \<or> ft_image_size f \<noteq> ft_image_size (manager m) \<or> ready_iat_rva s mod 4 \<noteq> 0 \<or> export_rva g < 4096 \<or> export_rva g > module_limit - 20
        \<or> preferred_base g = 0 \<or> preferred_base g mod 65536 \<noteq> 0 \<or> highlow_mask g \<noteq> 0 then None
     else if \<not> spans_ok (ft_image_size f) (ready_spans s l seh m) then None
     else if return_return_prefix p \<noteq> take (length (return_return_prefix p)) wrapper then None
     else Some \<lparr>fr_wrapper = wrapper,
       fr_cleanup = put_word [0x6a, 7, 0xe8, 0, 0, 0, 0, 0x59, 0xc3] 3 (unlock_rva s - (cleanup_rva seh + 7)),
       fr_unlock = put_word (put_word [0x55, 0x8b, 0xec, 0x8b, 0x45, 8, 0xff, 0x34, 0xc5, 0, 0, 0, 0, 0xff, 0x15, 0, 0, 0, 0, 0x5d, 0xc3]
           9 (ft_image_base f + lock_table_rva l)) 15 (ft_image_base f + ready_iat_rva s),
       fr_epilogue = [0x8b, 0x4d, 0xf0, 0x64, 0x89, 0x0d, 0, 0, 0, 0, 0x59, 0x5f, 0x5e, 0x5b, 0xc9, 0x51, 0xc3]\<rparr>)"

definition file_manager_ready_frame :: "u32 \<Rightarrow> event_dispatch_registers \<Rightarrow> event_dispatch_registers \<Rightarrow> event_dispatch_registers \<Rightarrow> u32 \<Rightarrow> u32 \<Rightarrow> bool" where
  "file_manager_ready_frame stage h caller r destination len \<longleftrightarrow>
     \<not> (stage < 1 \<or> stage > 9 \<or> d_esp h < 65556 \<or> d_esp h > UINT32_MAX - 68 \<or> d_esp h mod 4 \<noteq> 0 \<or> d_ebp h \<noteq> d_esp h + 44
        \<or> d_esp caller \<noteq> d_esp h + 68 \<or> destination = 0 \<or> destination > UINT32_MAX - 128 \<or> len < 3 \<or> len > 126
        \<or> d_ebx caller \<noteq> 0 \<or> d_esi caller \<noteq> 0 \<or> d_edi caller \<noteq> 24 \<or> d_ebx r \<noteq> 0 \<or> d_esi r \<noteq> 0 \<or> d_flags r AND 0x500 \<noteq> 0
        \<or> (d_flags r XOR d_flags h) AND NOT 0x108d5 \<noteq> 0)
     \<and> (let t = d_esp h; stacks = [t - 16, t - 20, t - 12, t, t + 48, t + 52, t + 60, t + 60, t + 68] in
        \<not> (d_esp r \<noteq> stacks ! (unat stage - 1) \<or> d_ebp r \<noteq> (if stage \<le> 3 then t - 12 else if stage = 4 then d_ebp h else d_ebp caller)
           \<or> d_edi r \<noteq> (if stage = 7 \<or> stage = 8 then destination + len else d_edi caller))
        \<and> (if stage \<le> 2 then d_eax r = 7
           else if stage = 3 then True
           else if stage \<le> 6 then d_eax r = destination
           else d_eax r = (if stage = 7 then destination AND 0xffffff00 else (destination AND 0xffff0000) OR 0x5c)))"

definition file_manager_ready_buffer :: "bytes \<Rightarrow> bytes \<Rightarrow> u32 \<Rightarrow> bool \<Rightarrow> bool" where
  "file_manager_ready_buffer before now len written \<longleftrightarrow>
     \<not> (len < 3 \<or> len > 126 \<or> before ! (unat len + 4) \<noteq> 0)
     \<and> list_all (\<lambda>i. before ! (i + 4) \<noteq> 0) [0..<unat len]
     \<and> now = (if written then before[unat len + 4 := 0x5c, unat len + 5 := 0] else before)"

section \<open>Flags\<close>

lemma parity_even: "parity v = (if even_parity v then 4 else 0)"
  by (simp add: parity_def even_parity_def even_iff_mod_2_eq_zero)

lemma drop_sign: "drop_bit 31 (v :: u32) = (if sint v < 0 then 1 else 0)"
proof -
  have "bit (drop_bit 31 v) n = bit (if sint v < 0 then 1 else 0 :: u32) n" if "n < 32" for n
    using that bit_imp_le_length[of v "31 + n"] by (auto simp: bit_drop_bit_eq bit_1_iff sint_neg)
  then show ?thesis by (intro bit_word_eqI) simp
qed

lemma pack_without_carry: "pack_flags cf pf af zf sf ov AND 0x8c5 = pack_flags cf pf False zf sf ov"
  unfolding word_bits bit_and_iff pack_flags_bit mask_bits by auto

lemma return_logic_flags: "return_logic_flags v = logic_result_flags af v AND 0x8c5"
  unfolding logic_result_flags_def pack_without_carry return_logic_flags_def drop_sign pack_flags_def even_parity_def
  by (simp add: even_iff_mod_2_eq_zero)

lemma pointer_flags: "d \<noteq> 0 \<Longrightarrow> parity d OR (drop_bit 31 d * 0x80) = logic_result_flags af d AND 0x8c5"
  using return_logic_flags[of d af] by (simp add: return_logic_flags_def parity_def)

lemma logic_status:
  assumes "e = logic_result_flags af v AND 0x8c5"
  shows "rf AND 0x8c5 = e \<Longrightarrow> (rf XOR f) AND - 67798 = 0 \<Longrightarrow> (rf XOR set_status f (logic_result_flags af v)) AND - 65553 = 0"
    "(rf XOR set_status f (logic_result_flags af v)) AND - 65553 = 0 \<Longrightarrow> rf AND 0x8c5 = e"
    "(rf XOR set_status f (logic_result_flags af v)) AND - 65553 = 0 \<Longrightarrow> (rf XOR f) AND - 67798 = 0"
  using flags_agree(2)[of "logic_result_flags af v" rf f] assms by simp_all

lemma sub_status:
  assumes "e = sub_flags a b"
  shows "rf AND 0x8d5 = e \<Longrightarrow> (rf XOR f) AND - 67798 = 0 \<Longrightarrow> (rf XOR set_status f (sub_flags a b)) AND - 65537 = 0"
    "(rf XOR set_status f (sub_flags a b)) AND - 65537 = 0 \<Longrightarrow> rf AND 0x8d5 = e"
    "(rf XOR set_status f (sub_flags a b)) AND - 65537 = 0 \<Longrightarrow> (rf XOR f) AND - 67798 = 0"
  using flags_agree(1)[of "sub_flags a b" rf f] assms status_word_masked[of "sub_flags a b"]
  by (simp_all add: status_mask_def)

text \<open>The comparison of the two lengths, over the admitted range.\<close>

lemma capacity_flags:
  assumes "3 \<le> len" "len \<le> 126"
  shows "sub_flags (len + 1) 128 = 0x81 OR parity (len + 1 - 128)"
proof -
  have u: "uint (len + 1) = uint len + 1" "uint len \<le> 126" "3 \<le> uint len"
    using assms by (simp_all add: word_le_def uint_plus_if')
  have d: "uint (len + 1 - 128) = uint len + 1 - 128 + 2 ^ 32"
    using u by (simp add: uint_sub_if')
  have b: "\<not> bit (len + 1) 31" "bit (len + 1 - 128) 31" "\<not> bit (128 :: u32) 31"
    unfolding bit31_ge d using u by simp_all
  have m: "\<not> (len + 1) mod 16 < 128 mod 16" by simp
  have "uint (len + 1 - 128) \<noteq> uint (0 :: u32)" unfolding d using u by simp
  then have z: "len + 1 - 128 \<noteq> 0" by metis
  have lt: "len + 1 < 128" using u by (simp add: word_less_def)
  have ov: "sint (len + 1) - sint (128 :: u32) = sint (len + 1 - 128)"
    using sub_overflow[of "len + 1" 128] b by auto
  have "sub_flags (len + 1) 128 = pack_flags True (even_parity (len + 1 - 128)) False False True False"
    unfolding sub_flags_def Let_def using m z lt ov b(2) by (simp add: sint_neg)
  also have "\<dots> = 0x81 OR parity (len + 1 - 128)" by (simp add: pack_flags_def parity_even)
  finally show ?thesis .
qed

lemma equal_flags: "sub_flags v v = 0x44"
  by (simp add: sub_flags_def pack_flags_def even_parity_def)

lemma holds_results:
  "holds Zero (set_status f (logic_result_flags af v)) \<longleftrightarrow> v = 0"
  "holds Not_zero (set_status f (logic_result_flags af v)) \<longleftrightarrow> v \<noteq> 0"
  "holds Zero (set_status f (sub_flags a b)) \<longleftrightarrow> a = b"
  "holds Not_zero (set_status f (sub_flags a b)) \<longleftrightarrow> a \<noteq> b"
  "holds Above (set_status f (sub_flags a b)) \<longleftrightarrow> b < a"
  by (auto simp: logic_result_flags_def sub_flags_def Let_def)

lemma holds_less_equal: "holds Less_equal (set_status f (sub_flags a b)) \<longleftrightarrow> sint a \<le> sint b"
proof -
  have "holds Less_equal (set_status f (sub_flags a b)) \<longleftrightarrow> a - b = 0 \<or> (sint (a - b) < 0) \<noteq> (sint a - sint b \<noteq> sint (a - b))"
    by (simp add: sub_flags_def Let_def)
  moreover have "(a - b = 0) = (sint a = sint b)" by (auto intro: signed_word_eqI)
  moreover have "(sint (a - b) < 0) \<noteq> (sint a - sint b \<noteq> sint (a - b)) \<longleftrightarrow> sint a < sint b"
    unfolding sub_overflow unfolding sint_neg[symmetric] using sub_overflow[of a b] unfolding sint_neg[symmetric] by linarith
  ultimately show ?thesis by linarith
qed

section \<open>Execution of the copy\<close>

lemma cwd_copy_code_result:
  assumes "cwd_copy_code s q l = Some code"
  shows "cc_checks code = copy_checks" "cc_capacity code = [0x3b, 0x45, 0x10, 0x7e, 0x10]"
    "cc_call code = put_word [0x8d, 0x85, 0xf4, 0xfe, 0xff, 0xff, 0x50, 0x51, 0xe8, 0, 0, 0, 0] 9 (copier_rva s - (helper_rva q + 231))"
  using assms by (auto simp: cwd_copy_code_def Let_def split: if_splits)

definition copy_legs :: "cwd_query_spec \<Rightarrow> cwd_lock_spec \<Rightarrow> copy_code \<Rightarrow> (region_code \<times> nat) list" where
  "copy_legs q l code =
     (let base = ft_image_base (selector l) + helper_rva q; checks = (base + 141, cc_checks code);
          capacity = (base + 197, cc_capacity code); call = (base + 218, cc_call code) in
      [(checks, 7), (checks, 1), (capacity, 1), (capacity, 1), (call, 3), (call, 1)])"

text \<open>The frame \<open>h\<close> of the lock and the state after the query returned.\<close>

definition copy_origin :: "event_dispatch_registers \<Rightarrow> x86 \<Rightarrow> u32 \<Rightarrow> u32 \<Rightarrow> bool" where
  "copy_origin h c destination len \<longleftrightarrow> 65536 + 304 \<le> d_esp h \<and> d_esp h \<le> UINT32_MAX - 72 \<and> d_esp h mod 4 = 0 \<and> d_ebp h = d_esp h + 44
     \<and> x_reg c ESP = d_esp h - 288 \<and> x_reg c EBP = d_esp h - 16 \<and> x_reg c EAX = len \<and> x_reg c EBX = 0 \<and> x_reg c ESI = 0
     \<and> x_reg c EDI = 24 \<and> x_flags c AND 0x500 = 0 \<and> x_word c (d_esp h - 4) = destination \<and> x_word c (d_esp h) = 128
     \<and> destination \<noteq> 0 \<and> destination \<le> UINT32_MAX - 128
     \<and> \<not> (d_esp h - 284 < destination + 128 \<and> destination < d_esp h - 284 + 260)"

lemma admitted_length:
  assumes "(3 :: u32) \<le> len" "len \<le> 126"
  shows "len \<noteq> 0" "\<not> 0x104 < len + 1" "sint (len + 1) \<le> 128" "\<not> len < 3" "\<not> 126 < len"
proof -
  have u: "uint (len + 1) = uint len + 1" "uint len \<le> 126" "3 \<le> uint len"
    using assms by (simp_all add: word_le_def uint_plus_if')
  show "len \<noteq> 0" "\<not> 0x104 < len + 1" "\<not> len < 3" "\<not> 126 < len" using u by (auto simp: word_less_def)
  show "sint (len + 1) \<le> 128" unfolding sint_uint bit31_ge using u by simp
qed

text \<open>
  Claim C33. The runtime accepts the queried path and copies it from the local buffer into the file manager's:
  from the return of the query on, with a length in the admitted range, the rebuilt checks take
  the three reviewed branches and call the copier with the destination and the buffer at
  \<open>esp - 284\<close> as its arguments; at the four places on the way the frame predicate accepts exactly
  the registers and the defined flags of the state.
\<close>

theorem copy_frames_match_execution:
  assumes "cwd_copy_code s q l = Some code" and "x_eip c = ft_image_base (selector l) + helper_rva q + 141"
    and "copy_origin h c destination len" and "3 \<le> len" "len \<le> 126"
  defines "accepted \<equiv> \<lambda>stage ig c'.
    accepts_registers (\<lambda>r. cwd_copy_frame stage h (regs_of c) r (d_esp h - 284) destination len) c' ig"
  shows "\<exists>c1 c2 c3 c4. run_through af (take 1 (copy_legs q l code)) c = Some c1 \<and> run_through af (take 3 (copy_legs q l code)) c = Some c2
     \<and> run_through af (take 5 (copy_legs q l code)) c = Some c3 \<and> run_through af (copy_legs q l code) c = Some c4
     \<and> x_eip c4 = ft_image_base (selector l) + copier_rva s
     \<and> words_at c4 (x_reg c4 ESP) 3 = [ft_image_base (selector l) + helper_rva q + 231, destination, d_esp h - 284]
     \<and> accepted 1 0x10010 c1 \<and> accepted 2 0x10000 c2 \<and> accepted 3 0x10000 c3 \<and> accepted 4 0x10000 c4"
proof -
  note code = cwd_copy_code_result[OF assms(1)] and len = admitted_length[OF assms(4,5)]
  obtain ip g f h' m b where c: "c = \<lparr>x_eip = ip, x_reg = g, x_flags = f, x_fs0 = h', x_word = m, x_byte = b\<rparr>" by (cases c)
  have dest: "destination = m (d_esp h - 4)" using assms(3) by (simp add: copy_origin_def c)
  have org: "g ESP = d_esp h - 288" "g EBP = d_esp h - 16" "g EAX = len" "g EBX = 0" "g ESI = 0" "g EDI = 24" "f AND 0x500 = 0"
      "m (d_esp h) = 128" "m (d_esp h - 4) \<noteq> 0"
    using assms(3) unfolding copy_origin_def c by auto
  have hs: "\<not> d_esp h < 65840" "\<not> - 73 < d_esp h" "d_esp h mod 4 = 0" "d_ebp h = d_esp h + 44" "\<not> - 129 < m (d_esp h - 4)"
      "\<not> (d_esp h - 284 < m (d_esp h - 4) + 128 \<and> m (d_esp h - 4) < d_esp h - 24)"
    using assms(3) unfolding copy_origin_def dest by (auto simp: not_less UINT32_MAX_def)
  have one: "\<not> (4 :: u32) \<le> 1" by (simp add: word_le_nat_alt)
  have capacity: "0x81 OR parity (len - 127) = sub_flags (len + 1) 128" using capacity_flags[OF assms(4,5)] by simp
  note st = logic_status[OF pointer_flags[OF org(9), of af]] sub_status[OF capacity]
  show ?thesis
    using assms(2)
    by (simp add: c copy_legs_def Let_def code copy_checks_def x86_eval org holds_results holds_less_equal len dest, intro conjI;
        unfold accepted_def accepts_registers_def cwd_copy_frame_def Let_def same_registers_iff c dest;
        auto simp: x86_eval org hs len one UINT32_MAX_def intro: st dest: trap_free)
qed
definition sample_copy_spec :: cwd_copy_spec where
  "sample_copy_spec = \<lparr>copier_rva = 0x7200, copy_return_prefix = [0x59, 0x59, 0xe9, 0x51, 0xff, 0xff, 0xff, 0, 0, 0, 0, 0, 0, 0, 0, 0]\<rparr>"

definition copy_machine :: x86 where
  "copy_machine = \<lparr>x_eip = 0x40708d, x_reg = (\<lambda>_. 0)(ESP := 0x19eee0, EBP := 0x19eff0, EAX := 8, EDI := 24), x_flags = 0x202, x_fs0 = 0x19f01c,
     x_word = (\<lambda>_. 0)(0x19effc := 0x40d004, 0x19f000 := 128), x_byte = \<lambda>_. 0\<rparr>"

lemma sample_query_prefixes:
  "bootstrap_export_prefix (query_function sample_query) 0x77000000 \<noteq> None" "bootstrap_export_prefix (implementation sample_query) 0x76000000 \<noteq> None"
  by (simp_all add: bootstrap_export_prefix_def sample_query_def query_thunk_def upt_rec)

lemma sample_query_valid: "valid_cwd_query_spec sample_query sample_lock"
proof -
  have p: "preferred_base (query_function sample_query) = 0x77000000" "preferred_base (implementation sample_query) = 0x76000000"
    by (simp_all add: sample_query_def)
  have l: "spans_ok (ft_image_size (selector sample_lock)) (query_spans sample_query sample_lock)"
    by (simp add: spans_ok_def query_spans_def sample_query_def sample_lock_def)
  show ?thesis
    using sample_query_code sample_query_prefixes l
    by (simp add: valid_cwd_query_spec_def Let_def p) (simp add: sample_query_def module_limit_def UINT32_MAX_def query_thunk_def put_word_def)
qed

lemma sample_copy_code: "cwd_copy_code sample_copy_spec sample_query sample_lock \<noteq> None"
  using sample_query_valid
  by (simp add: cwd_copy_code_def Let_def copy_spans_def) (simp add: sample_copy_spec_def sample_query_def sample_lock_def copy_checks_def)

theorem copy_frames_match_execution_witness:
  "\<exists>code c4. run_through False (copy_legs sample_query sample_lock code) copy_machine = Some c4
     \<and> x_eip c4 = 0x407200 \<and> words_at c4 (x_reg c4 ESP) 3 = [0x4070e7, 0x40d004, 0x19eee4]"
proof -
  obtain code where k: "cwd_copy_code sample_copy_spec sample_query sample_lock = Some code" using sample_copy_code by auto
  have a: "x_eip copy_machine = ft_image_base (selector sample_lock) + helper_rva sample_query + 141"
    "copy_origin (regs_of query_machine) copy_machine 0x40d004 8" "(3 :: u32) \<le> 8" "(8 :: u32) \<le> 126"
    "ft_image_base (selector sample_lock) + copier_rva sample_copy_spec = 0x407200"
    "[ft_image_base (selector sample_lock) + helper_rva sample_query + 231, 0x40d004, d_esp (regs_of query_machine) - 284]
       = [0x4070e7, 0x40d004, 0x19eee4]"
    by (simp_all add: sample_lock_def sample_query_def sample_copy_spec_def copy_machine_def query_machine_def copy_origin_def UINT32_MAX_def)
  show ?thesis
    using copy_frames_match_execution[OF k a(1-4), of False] a(5,6) by metis
qed

section \<open>Execution of the return\<close>

lemma cwd_return_code_result:
  assumes "cwd_return_code s p q l = Some code"
  shows "rc_cleanup code = [0x59, 0x59, 0xe9, 0x51, 0xff, 0xff, 0xff]"
    "rc_epilogue code = put_word [0x8b, 0x4d, 0xfc, 0x33, 0x4d, 4, 0x5b, 0xe8, 0, 0, 0, 0, 0xc9, 0xc3] 8 (checker_rva s - (helper_rva q + 75))"
    "rc_checker code = put_word [0x3b, 0x0d, 0, 0, 0, 0, 0x75, 1, 0xc3] 2 (ft_image_base (selector l) + cookie_rva q)"
  using assms by (auto simp: cwd_return_code_def Let_def split: if_splits)

definition return_legs :: "cwd_return_spec \<Rightarrow> cwd_query_spec \<Rightarrow> cwd_lock_spec \<Rightarrow> return_code \<Rightarrow> (region_code \<times> nat) list" where
  "return_legs s q l code =
     (let base = ft_image_base (selector l); cleanup = (base + helper_rva q + 231, rc_cleanup code);
          epilogue = (base + helper_rva q + 63, rc_epilogue code); checker = (base + checker_rva s, rc_checker code) in
      [(cleanup, 3), (epilogue, 3), (epilogue, 1), (checker, 1), (checker, 2), (epilogue, 2)])"

text \<open>
  The frame \<open>h\<close> of the lock and the state after the copier returned: the cookie the helper stored
  is the one in memory, and its return address the one in its frame.
\<close>

definition return_origin :: "event_dispatch_registers \<Rightarrow> x86 \<Rightarrow> u32 \<Rightarrow> u32 \<Rightarrow> u32 \<Rightarrow> u32 \<Rightarrow> bool" where
  "return_origin h c destination cookie_at cookie ret \<longleftrightarrow> 65536 + 304 \<le> d_esp h \<and> d_esp h \<le> UINT32_MAX - 72 \<and> d_esp h mod 4 = 0
     \<and> d_ebp h = d_esp h + 44 \<and> destination \<noteq> 0 \<and> destination \<le> UINT32_MAX - 128
     \<and> x_reg c ESP = d_esp h - 296 \<and> x_reg c EBP = d_esp h - 16 \<and> x_reg c EAX = destination \<and> x_reg c EBX = 0 \<and> x_reg c ESI = 0
     \<and> x_reg c EDI = 24 \<and> x_flags c AND 0x500 = 0
     \<and> x_word c (d_esp h - 292) = d_esp h - 284 \<and> x_word c (d_esp h - 288) = 0 \<and> x_word c (d_esp h - 20) = cookie XOR ret
     \<and> x_word c (d_esp h - 16) = d_esp h + 44 \<and> x_word c (d_esp h - 12) = ret
     \<and> x_word c cookie_at = cookie \<and> cookie_at \<noteq> d_esp h - 288"

lemma xor_word_cancel: "(a XOR b) XOR b = (a :: u32)"
  by (simp add: xor.assoc)

lemma same_but_resume: "(f XOR r) AND - 65537 = 0 \<longleftrightarrow> (r XOR f) AND - 65537 = (0 :: u32)"
  "(f XOR r) AND - 67798 = 0 \<longleftrightarrow> (r XOR f) AND - 67798 = (0 :: u32)"
  by (simp_all add: xor.commute)

lemma flags_agree_weaken: "(r XOR f) AND - 65537 = (0 :: u32) \<Longrightarrow> (r XOR f) AND - 67798 = 0"
proof -
  assume a: "(r XOR f) AND - 65537 = 0"
  have "(r XOR f) AND NOT 0x108d5 = ((r XOR f) AND NOT 0x10000) AND NOT 0x108d5"
    unfolding word_bits bit_and_iff bit_not_iff mask_bits by auto
  then show ?thesis using a by simp
qed

text \<open>
  Claim C34. The helper returns only over an intact stack: from the return of the copier on, with the cookie in
  memory equal to the stored one, the rebuilt clean-up, epilogue and checker pop the arguments,
  take the equal branch of the comparison and return into the wrapper with the frame of the lock
  restored; at the six places the frame predicate accepts exactly the registers and the defined
  flags of the state.
\<close>

theorem return_frames_match_execution:
  assumes "cwd_return_code s p q l = Some code" and "x_eip c = ft_image_base (selector l) + helper_rva q + 231"
    and "return_origin h c destination (ft_image_base (selector l) + cookie_rva q) cookie ret"
  defines "accepted \<equiv> \<lambda>stage ig c'. accepts_registers (\<lambda>r. cwd_return_frame stage h (regs_of c) r cookie destination) c' ig"
  shows "\<exists>c1 c2 c3 c4 c5 c6. run_through af (take 1 (return_legs s q l code)) c = Some c1
     \<and> run_through af (take 2 (return_legs s q l code)) c = Some c2 \<and> run_through af (take 3 (return_legs s q l code)) c = Some c3
     \<and> run_through af (take 4 (return_legs s q l code)) c = Some c4 \<and> run_through af (take 5 (return_legs s q l code)) c = Some c5
     \<and> run_through af (return_legs s q l code) c = Some c6
     \<and> x_eip c6 = ret \<and> x_reg c6 ESP = d_esp h - 8 \<and> x_reg c6 EBP = d_ebp h \<and> x_reg c6 EAX = destination
     \<and> accepted 1 0x10000 c1 \<and> accepted 2 0x10010 c2 \<and> accepted 3 0x10010 c3 \<and> accepted 4 0x10000 c4
     \<and> accepted 5 0x10000 c5 \<and> accepted 6 0x10000 c6"
proof -
  note code = cwd_return_code_result[OF assms(1)]
  obtain ip g f h' m b where c: "c = \<lparr>x_eip = ip, x_reg = g, x_flags = f, x_fs0 = h', x_word = m, x_byte = b\<rparr>" by (cases c)
  let ?cookie = "m (ft_image_base (selector l) + cookie_rva q)"
  have names: "destination = g EAX" "cookie = ?cookie" using assms(3) by (simp_all add: return_origin_def c)
  have org: "g ESP = d_esp h - 296" "g EBP = d_esp h - 16" "g EBX = 0" "g ESI = 0" "g EDI = 24" "f AND 0x500 = 0"
      "m (d_esp h - 292) = d_esp h - 284" "m (d_esp h - 288) = 0" "m (d_esp h - 20) = ?cookie XOR ret" "m (d_esp h - 16) = d_esp h + 44"
      "m (d_esp h - 12) = ret" "ft_image_base (selector l) + cookie_rva q \<noteq> d_esp h - 288" "g EAX \<noteq> 0"
    using assms(3) unfolding return_origin_def c by auto
  have hs: "\<not> d_esp h < 65840" "\<not> - 73 < d_esp h" "d_esp h mod 4 = 0" "d_ebp h = d_esp h + 44" "\<not> - 129 < g EAX"
    using assms(3) unfolding return_origin_def names(1) by (auto simp: not_less UINT32_MAX_def)
  have one: "\<not> (6 :: u32) \<le> 3" "\<not> (5 :: u32) \<le> 3" by (simp_all add: word_le_nat_alt)
  note st = logic_status[OF return_logic_flags[of ?cookie af]] sub_status[OF equal_flags[symmetric], of _ _ ?cookie]
  show ?thesis
    using assms(2)
    by (simp add: c return_legs_def Let_def code x86_eval org holds_results xor_word_cancel names, intro conjI;
        unfold accepted_def accepts_registers_def cwd_return_frame_def Let_def same_registers_iff c names;
        auto simp: x86_eval org hs one same_but_resume[of f] UINT32_MAX_def intro: st flags_agree_weaken dest: trap_free)
qed

definition sample_return :: cwd_return_spec where
  "sample_return = \<lparr>checker_rva = 0x7300, return_return_prefix = [0x83, 0xc4, 0x0c, 0x89, 0x45, 0xe4, 0x83, 0x4d, 0xfc, 0xff, 0xe8, 0, 0, 0, 0, 0x8b]\<rparr>"

definition return_machine :: x86 where
  "return_machine = \<lparr>x_eip = 0x4070e7, x_reg = (\<lambda>_. 0)(ESP := 0x19eed8, EBP := 0x19eff0, EAX := 0x40d004, EDI := 24), x_flags = 0x202,
     x_fs0 = 0x19f01c, x_word = (\<lambda>_. 0)(0x19eedc := 0x19eee4, 0x19efec := 0xbb40e64e XOR 0x406725, 0x19eff0 := 0x19f02c, 0x19eff4 := 0x406725,
       0x40c100 := 0xbb40e64e), x_byte = \<lambda>_. 0\<rparr>"

lemma sample_return_code: "cwd_return_code sample_return sample_copy_spec sample_query sample_lock \<noteq> None"
  using sample_copy_code
  by (simp add: cwd_return_code_def Let_def return_spans_def)
     (simp add: sample_return_def sample_copy_spec_def sample_query_def sample_lock_def UINT32_MAX_def)

theorem return_frames_match_execution_witness:
  "\<exists>code c6. run_through True (return_legs sample_return sample_query sample_lock code) return_machine = Some c6
     \<and> x_eip c6 = 0x406725 \<and> x_reg c6 ESP = 0x19eff8 \<and> x_reg c6 EAX = 0x40d004"
proof -
  obtain code where k: "cwd_return_code sample_return sample_copy_spec sample_query sample_lock = Some code" using sample_return_code by auto
  have a: "x_eip return_machine = ft_image_base (selector sample_lock) + helper_rva sample_query + 231"
    "return_origin (regs_of query_machine) return_machine 0x40d004 (ft_image_base (selector sample_lock) + cookie_rva sample_query) 0xbb40e64e 0x406725"
    "d_esp (regs_of query_machine) - 8 = 0x19eff8"
    by (simp_all add: sample_lock_def sample_query_def return_machine_def query_machine_def return_origin_def UINT32_MAX_def)
  show ?thesis
    using return_frames_match_execution[OF k a(1,2), of True] a(3) by metis
qed

section \<open>The directory that reaches the file manager\<close>

lemma accepted_directory:
  assumes "cwd_query_result len buffer expected = ''''"
  shows "cwd_query_directory expected" "chars_of (take (unat len) buffer) = expected" "unat len = length expected"
    "3 \<le> unat len" "unat len \<le> 126" "buffer ! unat len = 0" "0 \<notin> set (take (unat len) buffer)" "unat len < length buffer"
proof -
  show d: "cwd_query_directory expected" and e: "chars_of (take (unat len) buffer) = expected" and l: "unat len < length buffer"
    and z: "buffer ! unat len = 0" "0 \<notin> set (take (unat len) buffer)" and m: "unat len \<le> 126"
    using assms by (auto simp: cwd_query_result_def Let_def not_less word_le_nat_alt split: if_splits)
  show u: "unat len = length expected" using e l by (auto simp: chars_of_def)
  show "3 \<le> unat len" using d u by (auto simp: cwd_query_directory_def)
qed

lemma copied_bytes:
  assumes "cwd_copy_buffer before copied source len True" and "i < length before"
  shows "copied ! i = (if 4 \<le> i \<and> i - 4 \<le> unat len then source ! (i - 4) else before ! i)"
  using assms by (auto simp: cwd_copy_buffer_def list_all_iff)

text \<open>
  Claim C35. What ends up in the file manager's buffer: when the query's result is accepted, the copy's buffer is
  accepted and the two agree in length, then exactly one buffer passes the last check, and it holds
  the expected directory followed by a backslash and a NUL, with the guard in front, every byte
  behind the NUL and so the guard at the end as they were before the copy.
\<close>

theorem directory_reaches_file_manager:
  assumes "cwd_query_result len source expected = ''''" and "cwd_copy_buffer before copied source len True"
    and "length before = 136" "length copied = 136"
  shows "\<exists>now. (\<forall>b. file_manager_ready_buffer copied b len True = (b = now)) \<and> length now = 136
     \<and> chars_of (take (length expected + 1) (drop 4 now)) = expected @ [CHR 0x5c] \<and> now ! (4 + length expected + 1) = 0
     \<and> take 4 now = take 4 before \<and> drop (4 + length expected + 2) now = drop (4 + length expected + 2) before
     \<and> 4 + length expected + 2 \<le> 132"
proof -
  note ok = accepted_directory[OF assms(1)]
  let ?n = "unat len" and ?now = "copied[unat len + 4 := 0x5c, unat len + 5 := 0]"
  have cp: "copied ! i = (if 4 \<le> i \<and> i - 4 \<le> ?n then source ! (i - 4) else before ! i)" if "i < 136" for i
    using copied_bytes[OF assms(2)] assms(3) that by simp
  have path: "source ! i \<noteq> 0" if "i < ?n" for i
    using ok(7,8) that by (auto simp: in_set_conv_nth)
  have unique: "file_manager_ready_buffer copied b len True = (b = ?now)" for b
    using ok(4-6) path cp by (auto simp: file_manager_ready_buffer_def list_all_iff word_less_nat_alt)
  have shown: "take (?n + 1) (drop 4 ?now) = take ?n source @ [0x5c]"
  proof (rule nth_equalityI)
    fix i assume "i < length (take (?n + 1) (drop 4 ?now))"
    then have i: "i \<le> ?n" by simp
    then show "take (?n + 1) (drop 4 ?now) ! i = (take ?n source @ [0x5c]) ! i"
      using ok(5,8) assms(4) cp[of "4 + i"] by (cases "i = ?n") (auto simp: nth_append nth_list_update)
  qed (use ok(5,8) assms(4) in simp)
  have front: "take 4 ?now = take 4 before"
    using assms(3,4) cp ok(4) by (intro nth_equalityI) auto
  have rest: "drop (?n + 6) ?now = drop (?n + 6) before"
    using assms(3,4) cp by (intro nth_equalityI) auto
  have backslash: "char_of (92 :: nat) = CHR 0x5c" by code_simp
  have "chars_of (take (?n + 1) (drop 4 ?now)) = expected @ [CHR 0x5c]"
    unfolding shown using ok(2) backslash by (simp add: chars_of_def)
  then show ?thesis
    using unique front rest ok(5) assms(4)
    by (intro exI[of _ ?now]) (simp add: ok(3)[symmetric] add.commute)
qed

definition sample_path :: bytes where
  "sample_path = [0x43, 0x3a, 0x5c, 0x67, 0x61, 0x6d, 0x65, 0x73]"

definition sample_source :: bytes where
  "sample_source = sample_path @ replicate 252 0"

definition sample_copied :: bytes where
  "sample_copied = replicate 4 0xcc @ sample_path @ [0] @ replicate 123 0xcc"

lemma sample_directory: "cwd_query_result 8 sample_source (expected_directory sample_query) = ''''"
proof -
  have p: "chars_of sample_path = expected_directory sample_query" "cwd_query_directory (expected_directory sample_query)"
    "take 8 sample_source = sample_path" "sample_source ! 8 = 0" "0 \<notin> set sample_path" "length sample_source = 260"
    by code_simp+
  show ?thesis by (simp add: cwd_query_result_def p Let_def)
qed

lemma sample_copy_buffer: "cwd_copy_buffer (replicate 136 0xcc) sample_copied sample_source 8 True"
proof -
  have "\<forall>i \<in> {13..<136}. sample_copied ! i = 0xcc"
    by (auto simp: sample_copied_def sample_path_def nth_append nth_Cons' )
  moreover have "\<forall>i \<in> {0..<13}. sample_copied ! i = (if 4 \<le> i then sample_source ! (i - 4) else 0xcc)"
    by (simp add: sample_copied_def sample_source_def sample_path_def atLeastLessThan_nat_numeral nth_append)
  ultimately show ?thesis
    by (auto simp: cwd_copy_buffer_def list_all_iff sample_source_def sample_path_def)
qed

theorem directory_reaches_file_manager_witness:
  "\<exists>now. file_manager_ready_buffer sample_copied now 8 True \<and> chars_of (take 9 (drop 4 now)) = ''C:'' @ [CHR 0x5c] @ ''games'' @ [CHR 0x5c]"
proof -
  have e: "expected_directory sample_query = ''C:'' @ [CHR 0x5c] @ ''games''" by (simp add: sample_query_def)
  have l: "length (replicate 136 (0xcc :: u8)) = 136" "length sample_copied = 136" by (simp_all add: sample_copied_def sample_path_def)
  show ?thesis
    using directory_reaches_file_manager[OF sample_directory sample_copy_buffer l] by (auto simp: e eval_nat_numeral)
qed

end
