(* ===== verification/Cd_Stream.thy ===== *)
theory Cd_Stream
  imports Cwd_Return
begin

text \<open>
  \<open>cd_stream_tables\<close>, \<open>cd_stream_disk\<close>, \<open>cd_stream_allocation\<close> and \<open>cd_stream_channels\<close> (\<open>.hpp/.cpp\<close>):
  the preparation of the streaming subsystem, observed after the file manager. The tables are
  cleared, the disk's geometry decides the open flags, an aligned buffer and a zeroed channel
  array are allocated and published.
\<close>

section \<open>CdStreamTablesSpec\<close>

record cd_stream_tables_spec =
  tables_target_rva :: u32
  handles_rva :: u32
  names_rva :: u32
  disk_iat_rva :: u32

record tables_code =
  ct_caller :: bytes
  ct_body :: bytes

definition cd_stream_table_bytes :: nat where
  "cd_stream_table_bytes = 2192"

definition tables_spans :: "cd_stream_tables_spec \<Rightarrow> file_manager_entry_spec \<Rightarrow> span list" where
  "tables_spans s m = [(call_rva (manager m) + 5, 7), (tables_target_rva s, 74), (handles_rva s - 4, of_nat cd_stream_table_bytes),
     (disk_iat_rva s, 4), (buffer_rva m - 4, 136)]"

definition tables_shape :: bytes where
  "tables_shape = [0x83,0xec,0x10,0x57,0xb9,0x20,0,0,0,0x33,0xc0,0xbf,0,0,0,0,
     0xba,0,0,0,0,0xf3,0xab,0xeb,7,0x8d,0xa4,0x24,0,0,0,0,0xc6,2,0,0x83,0xc2,0x40,
     0x81,0xfa,0,0,0,0,0x7c,0xf2,0x8d,0x44,0x24,8,0x50,0x8d,0x4c,0x24,0x10,0x51,
     0x8d,0x54,0x24,0x0c,0x52,0x8d,0x44,0x24,0x1c,0x50,0x6a,0,0xff,0x15,0,0,0,0]"

definition cd_stream_tables_code :: "cd_stream_tables_spec \<Rightarrow> file_manager_entry_spec \<Rightarrow> tables_code option" where
  "cd_stream_tables_code s m =
    (let base = ft_image_base (manager m); n = ft_image_size (manager m); caller = call_rva (manager m) + 5;
         code = \<lparr>ct_caller = put_word [0x6a, 5, 0xe8, 0, 0, 0, 0] 3 (tables_target_rva s - caller - 7),
           ct_body = put_word (put_word (put_word (put_word tables_shape 12 (base + handles_rva s)) 17 (base + names_rva s))
             40 (base + names_rva s + 2048)) 70 (base + disk_iat_rva s)\<rparr> in
     if n < 4096 \<or> base > UINT32_MAX - n \<or> handles_rva s < 4100 \<or> handles_rva s mod 4 \<noteq> 0
        \<or> handles_rva s > n - of_nat cd_stream_table_bytes \<or> names_rva s \<noteq> handles_rva s + 136 \<or> disk_iat_rva s mod 4 \<noteq> 0 then None
     else if \<not> spans_ok n (tables_spans s m) then None
     else if ct_caller code \<noteq> take 7 (fm_return_prefix m) then None
     else Some code)"

text \<open>32 handles of four bytes and 32 names of 64 bytes, between guards: the handles and the first byte of every name are cleared.\<close>

definition cd_stream_tables_memory :: "bytes \<Rightarrow> bytes \<Rightarrow> bool \<Rightarrow> bool" where
  "cd_stream_tables_memory before after initialized \<longleftrightarrow>
     list_all (\<lambda>i. let written = (i \<ge> 4 \<and> i < 132) \<or> (i \<ge> 140 \<and> i < 2188 \<and> (i - 140) mod 64 = 0) in
       after ! i = (if initialized \<and> written then 0 else before ! i)) [0..<length before]"

definition cd_stream_tables_frame :: "u32 \<Rightarrow> event_dispatch_registers \<Rightarrow> event_dispatch_registers \<Rightarrow> u32 \<Rightarrow> bool" where
  "cd_stream_tables_frame stage c r handles \<longleftrightarrow>
     \<not> (stage < 1 \<or> stage > 2 \<or> d_esp c < 65600 \<or> d_esp c mod 4 \<noteq> 0 \<or> handles > UINT32_MAX - 128
        \<or> d_flags c AND 0x500 \<noteq> 0 \<or> d_flags r AND 0x500 \<noteq> 0 \<or> d_ebx c \<noteq> d_ebx r \<or> d_esi c \<noteq> d_esi r \<or> d_ebp c \<noteq> d_ebp r)
     \<and> (if stage = 1 then d_esp r = d_esp c - 8 \<and> d_eax r = d_eax c \<and> d_ecx r = d_ecx c \<and> d_edx r = d_edx c \<and> d_edi r = d_edi c
          \<and> (d_flags r XOR d_flags c) AND NOT 0x10000 = 0
        else d_esp r = d_esp c - 48 \<and> d_eax r = d_esp c - 12 \<and> d_ecx r = d_esp c - 16 \<and> d_edx r = d_esp c - 24
          \<and> d_edi r = handles + 128 \<and> d_flags r AND 0x8c5 = 0x44 \<and> (d_flags r XOR d_flags c) AND NOT 0x108d5 = 0)"

section \<open>CdStreamDiskSpec\<close>

record cd_stream_disk_spec =
  disk_flags_rva :: u32
  allocator_rva :: u32
  disk_thunk_rva :: u32
  disk_thunk_slot_rva :: u32
  disk_implementation :: bootstrap_export_spec

record disk_geometry =
  sectors_per_cluster :: u32
  bytes_per_sector :: u32
  free_clusters :: u32
  total_clusters :: u32

datatype disk_query_result = Query_failed | Geometry_rejected | Query_accepted

definition disk_spans :: "cd_stream_disk_spec \<Rightarrow> cd_stream_tables_spec \<Rightarrow> file_manager_entry_spec \<Rightarrow> span list" where
  "disk_spans s t m = [(tables_target_rva t, 137), (disk_flags_rva s - 4, 20), (allocator_rva s, 1),
     (handles_rva t - 4, of_nat cd_stream_table_bytes), (buffer_rva m - 4, 136), (disk_iat_rva t, 4)]"

definition disk_shape :: bytes where
  "disk_shape = [0xff,0x15,0,0,0,0,0x8b,0x4c,0x24,4,0x33,0xc0,0x81,0xf9,0,8,0,0,
     0x77,5,0xb8,0,0,0,0x20,0x56,0x6a,0,0x51,0x0d,0,0,0,0x40,0x68,0,8,0,0,
     0xc7,5,0,0,0,0,1,0,0,0,0xa3,0,0,0,0,0xc7,5,0,0,0,0,0,0,0,0,0xe8,0,0,0,0]"

definition cd_stream_disk_code :: "cd_stream_disk_spec \<Rightarrow> cd_stream_tables_spec \<Rightarrow> file_manager_entry_spec \<Rightarrow> bytes option" where
  "cd_stream_disk_code s t m =
    (let base = ft_image_base (manager m); n = ft_image_size (manager m); i = disk_implementation s in
     if cd_stream_tables_code t m = None then None
     else if disk_flags_rva s < 4100 \<or> disk_flags_rva s mod 4 \<noteq> 0 \<or> disk_thunk_rva s < 4096 \<or> disk_thunk_rva s > module_limit - 6
        \<or> disk_thunk_slot_rva s < 4096 \<or> disk_thunk_slot_rva s > module_limit - 4 \<or> disk_thunk_slot_rva s mod 4 \<noteq> 0
        \<or> (disk_thunk_rva s < disk_thunk_slot_rva s + 4 \<and> disk_thunk_slot_rva s < disk_thunk_rva s + 6)
        \<or> export_rva i < 4096 \<or> export_rva i > module_limit - 20 then None
     else if bootstrap_export_prefix i (preferred_base i) = None then None
     else if \<not> spans_ok n (disk_spans s t m) then None
     else Some (put_word (put_word (put_word (put_word (put_word disk_shape 2 (base + disk_iat_rva t)) 41 (base + disk_flags_rva s + 8))
        50 (base + disk_flags_rva s)) 56 (base + disk_flags_rva s + 4)) 65 (allocator_rva s - tables_target_rva t - 137)))"

definition power_of_two :: "u32 \<Rightarrow> bool" where
  "power_of_two v \<longleftrightarrow> v AND (v - 1) = 0"

definition cd_stream_disk_geometry :: "disk_geometry \<Rightarrow> bool" where
  "cd_stream_disk_geometry g \<longleftrightarrow> bytes_per_sector g \<ge> 512 \<and> bytes_per_sector g \<le> 65536 \<and> power_of_two (bytes_per_sector g)
     \<and> sectors_per_cluster g \<noteq> 0 \<and> power_of_two (sectors_per_cluster g)
     \<and> sectors_per_cluster g \<le> UINT32_MAX div bytes_per_sector g \<and> total_clusters g \<noteq> 0 \<and> free_clusters g \<le> total_clusters g"

definition cd_stream_disk_query_result :: "u32 \<Rightarrow> u32 list \<Rightarrow> disk_query_result \<times> disk_geometry" where
  "cd_stream_disk_query_result result locals =
    (let g = \<lparr>sectors_per_cluster = locals ! 3, bytes_per_sector = locals ! 0, free_clusters = locals ! 2, total_clusters = locals ! 1\<rparr> in
     if result = 0 then (Query_failed, \<lparr>sectors_per_cluster = 0, bytes_per_sector = 0, free_clusters = 0, total_clusters = 0\<rparr>)
     else (if cd_stream_disk_geometry g then Query_accepted else Geometry_rejected, g))"

definition cd_stream_disk_flags :: "u32 \<Rightarrow> u32" where
  "cd_stream_disk_flags sector = (if sector \<le> 2048 then 0x60000000 else 0x40000000)"

definition cd_stream_disk_frame :: "u32 \<Rightarrow> event_dispatch_registers \<Rightarrow> event_dispatch_registers \<Rightarrow> u32 \<Rightarrow> disk_geometry
    \<Rightarrow> event_dispatch_registers option \<Rightarrow> bool" where
  "cd_stream_disk_frame stage c r handles g api_return \<longleftrightarrow>
     \<not> (stage < 1 \<or> stage > 4 \<or> d_esp c < 65600 \<or> d_esp c mod 4 \<noteq> 0 \<or> handles > UINT32_MAX - 128 \<or> d_flags c AND 0x500 \<noteq> 0
        \<or> d_flags r AND 0x500 \<noteq> 0 \<or> d_ebx r \<noteq> d_ebx c \<or> d_esi r \<noteq> d_esi c \<or> d_ebp r \<noteq> d_ebp c \<or> d_edi r \<noteq> handles + 128)
     \<and> (if stage \<le> 2 then d_esp r = d_esp c - 52 \<and> d_eax r = d_esp c - 12 \<and> d_ecx r = d_esp c - 16 \<and> d_edx r = d_esp c - 24
          \<and> d_flags r AND 0x8c5 = 0x44 \<and> (d_flags r XOR d_flags c) AND NOT 0x108d5 = 0
        else if stage = 3 then d_esp r = d_esp c - 28
        else (case api_return of None \<Rightarrow> False
          | Some a \<Rightarrow> d_edx r = d_edx a \<and> (d_flags r XOR d_flags a) AND NOT 0x108d5 = 0 \<and> cd_stream_disk_geometry g
              \<and> d_esp r = d_esp c - 44 \<and> d_ecx r = bytes_per_sector g \<and> d_eax r = cd_stream_disk_flags (bytes_per_sector g)
              \<and> d_flags r AND 0x8c5 = 4))"

text \<open>The five words from \<open>flags - 4\<close>.\<close>

definition cd_stream_disk_memory :: "u32 list \<Rightarrow> u32 list \<Rightarrow> u32 \<Rightarrow> bool \<Rightarrow> bool" where
  "cd_stream_disk_memory before after flags prepared \<longleftrightarrow>
     (if \<not> prepared then before = after else after = [before ! 0, flags, 0, 1, before ! 4])"

section \<open>Execution of the disk stage\<close>

lemma cd_stream_disk_code_result:
  assumes "cd_stream_disk_code s t m = Some code"
  shows "code = put_word (put_word (put_word (put_word (put_word disk_shape 2 (ft_image_base (manager m) + disk_iat_rva t))
      41 (ft_image_base (manager m) + disk_flags_rva s + 8)) 50 (ft_image_base (manager m) + disk_flags_rva s))
      56 (ft_image_base (manager m) + disk_flags_rva s + 4)) 65 (allocator_rva s - tables_target_rva t - 137)"
  using assms by (auto simp: cd_stream_disk_code_def Let_def split: if_splits)

text \<open>From the return of the query to the call of the allocator; a large sector skips one instruction.\<close>

definition disk_legs :: "cd_stream_tables_spec \<Rightarrow> file_manager_entry_spec \<Rightarrow> bytes \<Rightarrow> u32 \<Rightarrow> (region_code \<times> nat) list" where
  "disk_legs t m code sector =
     (let region = (ft_image_base (manager m) + tables_target_rva t + 68, code) in
      [(region, if sector \<le> 2048 then 13 else 12), (region, 1)])"

text \<open>The state in which the query returned, its caller's registers and the geometry in the locals.\<close>

definition disk_origin :: "event_dispatch_registers \<Rightarrow> x86 \<Rightarrow> u32 \<Rightarrow> disk_geometry \<Rightarrow> bool" where
  "disk_origin caller c handles g \<longleftrightarrow> 65600 \<le> d_esp caller \<and> d_esp caller mod 4 = 0 \<and> handles \<le> UINT32_MAX - 128
     \<and> d_flags caller AND 0x500 = 0 \<and> x_flags c AND 0x500 = 0 \<and> x_reg c ESP = d_esp caller - 28 \<and> x_reg c EBX = d_ebx caller
     \<and> x_reg c ESI = d_esi caller \<and> x_reg c EBP = d_ebp caller \<and> x_reg c EDI = handles + 128
     \<and> x_word c (d_esp caller - 24) = bytes_per_sector g \<and> cd_stream_disk_geometry g"

lemma open_flags_status:
  assumes "v = 0x60000000 \<or> v = (0x40000000 :: u32)"
  shows "(4 :: u32) = logic_result_flags af v AND 0x8c5"
proof -
  have "even_parity v" "v \<noteq> 0" "\<not> sint v < 0"
    using assms by (auto simp: even_parity_def sint_neg upt_rec)
  then show ?thesis by (simp add: logic_result_flags_def pack_without_carry pack_flags_def)
qed

text \<open>
  Claim C36. The open flags follow from the sector size the disk reported: from the return of the query on, for
  every admitted geometry, the rebuilt code takes the branch the size asks for, stores the flags,
  a zero and a one in the three globals and calls the allocator with the request of 2048 bytes
  aligned to a sector; the frame predicate accepts exactly the registers and defined flags before
  the call and the memory predicate exactly the five words around the globals.
\<close>

theorem disk_flags_match_execution:
  assumes "cd_stream_disk_code s t m = Some code" and "x_eip c = ft_image_base (manager m) + tables_target_rva t + 74"
    and "disk_origin caller c handles g"
    and "list_all (clear_of c [- 4, - 8, - 12, - 16]) (map ((+) (ft_image_base (manager m) + disk_flags_rva s)) [- 4, 0, 4, 8, 12])"
  defines "window \<equiv> \<lambda>c'. words_at c' (ft_image_base (manager m) + disk_flags_rva s - 4) 5"
  shows "\<exists>c4 c5. run_through af (take 1 (disk_legs t m code (bytes_per_sector g))) c = Some c4
     \<and> run_through af (disk_legs t m code (bytes_per_sector g)) c = Some c5
     \<and> accepts_registers (\<lambda>r. cd_stream_disk_frame 4 caller r handles g (Some (regs_of c))) c4 0x10010
     \<and> (\<forall>now. cd_stream_disk_memory (window c) now (cd_stream_disk_flags (bytes_per_sector g)) True = (now = window c4))
     \<and> x_eip c5 = ft_image_base (manager m) + allocator_rva s
     \<and> words_at c5 (x_reg c5 ESP + 4) 4 = [2048, bytes_per_sector g, 0, x_reg c ESI]"
proof -
  note code = cd_stream_disk_code_result[OF assms(1)]
  let ?flags = "ft_image_base (manager m) + disk_flags_rva s"
  obtain ip g' f h' w b where c: "c = \<lparr>x_eip = ip, x_reg = g', x_flags = f, x_fs0 = h', x_word = w, x_byte = b\<rparr>" by (cases c)
  have org: "g' ESP = d_esp caller - 28" "g' EBX = d_ebx caller" "g' ESI = d_esi caller" "g' EBP = d_ebp caller" "g' EDI = handles + 128"
      "f AND 0x500 = 0" "w (d_esp caller - 24) = bytes_per_sector g" "d_flags caller AND 0x500 = 0" "d_esp caller mod 4 = 0"
      "\<not> d_esp caller < 65600" "\<not> - 129 < handles" "cd_stream_disk_geometry g"
    using assms(3) unfolding disk_origin_def c by (auto simp: not_less UINT32_MAX_def)
  have big: "bytes_per_sector g \<le> 2048 \<longleftrightarrow> \<not> 2048 < bytes_per_sector g" by auto
  have apart: "\<forall>a \<in> {- 4, 0, 4, 8, 12}. \<forall>d \<in> {32, 36, 40, 44}. ?flags + a \<noteq> d_esp caller - d"
    using assms(4) by (simp add: clear_of_def c org)
  have apart': "\<forall>a \<in> {- 4, 0, 4, 8, 12}. \<forall>d \<in> {32, 36, 40, 44}. d_esp caller - d \<noteq> ?flags + a"
    using apart by metis
  have o: "(4 :: u32) = logic_result_flags af 0x60000000 AND 0x8c5" "(4 :: u32) = logic_result_flags af 0x40000000 AND 0x8c5"
    by (rule open_flags_status; simp)+
  note st = logic_status[OF o(1)] logic_status[OF o(2)]
  have four: "\<not> (4 :: u32) \<le> 2" "\<not> (4 :: u32) < 1" by (simp_all add: word_le_nat_alt word_less_nat_alt)
  show ?thesis
    using assms(2) apart[simplified] apart'[simplified]
    by (cases "2048 < bytes_per_sector g";
        simp add: c disk_legs_def Let_def code disk_shape_def x86_eval org holds_results big, intro conjI;
        unfold accepts_registers_def cd_stream_disk_frame_def cd_stream_disk_memory_def cd_stream_disk_flags_def same_registers_iff window_def c;
        auto simp: x86_eval org big four UINT32_MAX_def intro: st dest: trap_free)
qed

definition sample_tables :: cd_stream_tables_spec where
  "sample_tables = \<lparr>tables_target_rva = 0x8000, handles_rva = 0xa004, names_rva = 0xa08c, disk_iat_rva = 0x9030\<rparr>"

definition sample_disk :: cd_stream_disk_spec where
  "sample_disk = \<lparr>disk_flags_rva = 0xb004, allocator_rva = 0x8200, disk_thunk_rva = 0x3000, disk_thunk_slot_rva = 0x2000,
     disk_implementation = implementation sample_query\<rparr>"

definition sample_geometry :: disk_geometry where
  "sample_geometry = \<lparr>sectors_per_cluster = 8, bytes_per_sector = 512, free_clusters = 1000, total_clusters = 100000\<rparr>"

definition sample_caller :: event_dispatch_registers where
  "sample_caller = \<lparr>d_esp = 0x19f000, d_eax = 0x5c, d_ebx = 0, d_ecx = 0, d_edx = 0, d_esi = 0, d_edi = 24, d_ebp = 0x19f100, d_flags = 0x202\<rparr>"

definition disk_machine :: x86 where
  "disk_machine = \<lparr>x_eip = 0x40804a, x_reg = (\<lambda>_. 0)(ESP := 0x19efe4, EBP := 0x19f100, EAX := 1, EDI := 0x40a084), x_flags = 0x202,
     x_fs0 = 0, x_word = (\<lambda>_. 0)(0x19efe8 := 512), x_byte = \<lambda>_. 0\<rparr>"

lemma sample_tables_code: "cd_stream_tables_code sample_tables sample_manager \<noteq> None"
proof -
  have l: "spans_ok (ft_image_size (manager sample_manager)) (tables_spans sample_tables sample_manager)"
    by (simp add: spans_ok_def tables_spans_def sample_tables_def sample_manager_def cd_stream_table_bytes_def)
  then show ?thesis
    by (simp add: cd_stream_tables_code_def Let_def)
       (simp add: sample_tables_def sample_manager_def cd_stream_table_bytes_def UINT32_MAX_def put_word_def)
qed

lemma sample_disk_code: "cd_stream_disk_code sample_disk sample_tables sample_manager \<noteq> None"
proof -
  have l: "spans_ok (ft_image_size (manager sample_manager)) (disk_spans sample_disk sample_tables sample_manager)"
    by (simp add: spans_ok_def disk_spans_def sample_tables_def sample_disk_def sample_manager_def cd_stream_table_bytes_def)
  have p: "bootstrap_export_prefix (disk_implementation sample_disk) (preferred_base (disk_implementation sample_disk)) \<noteq> None"
    using sample_query_prefixes(2) by (simp add: sample_disk_def sample_query_def)
  show ?thesis
    using l p sample_tables_code
    by (simp add: cd_stream_disk_code_def Let_def) (simp add: sample_disk_def sample_query_def module_limit_def)
qed

theorem disk_flags_match_execution_witness:
  "\<exists>code c5. run_through True (disk_legs sample_tables sample_manager code 512) disk_machine = Some c5
     \<and> x_eip c5 = 0x408200 \<and> words_at c5 (x_reg c5 ESP + 4) 4 = [2048, 512, 0, 0]"
proof -
  obtain code where k: "cd_stream_disk_code sample_disk sample_tables sample_manager = Some code" using sample_disk_code by auto
  have a: "x_eip disk_machine = ft_image_base (manager sample_manager) + tables_target_rva sample_tables + 74"
    "disk_origin sample_caller disk_machine 0x40a004 sample_geometry"
    "list_all (clear_of disk_machine [- 4, - 8, - 12, - 16])
       (map ((+) (ft_image_base (manager sample_manager) + disk_flags_rva sample_disk)) [- 4, 0, 4, 8, 12])"
    "ft_image_base (manager sample_manager) + allocator_rva sample_disk = 0x408200" "bytes_per_sector sample_geometry = 512" "x_reg disk_machine ESI = 0"
    by (simp_all add: sample_manager_def sample_tables_def sample_disk_def disk_machine_def disk_origin_def sample_caller_def sample_geometry_def
        cd_stream_disk_geometry_def power_of_two_def UINT32_MAX_def clear_of_def)
  show ?thesis
    using disk_flags_match_execution[OF k a(1-3), of True] unfolding a(4-6) by blast
qed

section \<open>CdStreamAllocationSpec\<close>

record cd_stream_allocation_spec =
  malloc_rva :: u32
  nh_rva :: u32
  heap_rva :: u32
  al_scope_rva :: u32
  new_mode_rva :: u32
  threshold_rva :: u32
  heap_handle_rva :: u32
  heap_mode_rva :: u32
  heap_iat_rva :: u32
  scope_cleanup_rva :: u32
  heap_function :: bootstrap_export_spec

record allocation_code =
  al_aligned :: bytes
  al_malloc :: bytes
  al_nh :: bytes
  al_heap_entry :: bytes
  al_heap_tail :: bytes

record allocation_layout =
  raw_block :: u32
  aligned_block :: u32
  metadata_cell :: u32
  block_bytes :: u32

definition alignment_valid :: "u32 \<Rightarrow> bool" where
  "alignment_valid a \<longleftrightarrow> a \<ge> 512 \<and> a \<le> 65536 \<and> a AND (a - 1) = 0"

text \<open>The globals are the new-handler mode, the small-block threshold, the heap handle and the heap mode.\<close>

definition cd_stream_allocation_request :: "u32 \<Rightarrow> u32 list \<Rightarrow> bool" where
  "cd_stream_allocation_request a g \<longleftrightarrow> alignment_valid a \<and> g ! 0 = 0 \<and> g ! 2 \<ge> 65536 \<and> g ! 2 < 0xffff0000 \<and> g ! 2 mod 8 = 0
     \<and> (g ! 3 = 1 \<or> (g ! 3 = 3 \<and> g ! 1 < 2048 + a))"

definition cd_stream_allocation_layout :: "u32 \<Rightarrow> u32 \<Rightarrow> allocation_layout option" where
  "cd_stream_allocation_layout raw a =
    (if \<not> alignment_valid a \<or> raw < 65536 \<or> raw mod 8 \<noteq> 0 \<or> raw > UINT32_MAX - 2048 - a then None
     else let aligned = (raw + a) AND NOT (a - 1) in
       if aligned < raw + 4 \<or> aligned > raw + a then None
       else Some \<lparr>raw_block = raw, aligned_block = aligned, metadata_cell = aligned - 4, block_bytes = 2048 + a\<rparr>)"

definition allocation_deltas :: "u32 list" where
  "allocation_deltas = [0, 4, 36, 80, 80, 92, 96, 80, 12, 8, 0]"

definition cd_stream_allocation_frame :: "u32 \<Rightarrow> event_dispatch_registers \<Rightarrow> event_dispatch_registers \<Rightarrow> u32 \<Rightarrow> allocation_layout
    \<Rightarrow> event_dispatch_registers \<Rightarrow> bool" where
  "cd_stream_allocation_frame stage c r a b returned \<longleftrightarrow>
     \<not> (stage < 1 \<or> stage > 10 \<or> d_esp c < 65700 \<or> d_esp c mod 4 \<noteq> 0 \<or> \<not> alignment_valid a \<or> d_flags c AND 0x500 \<noteq> 0
        \<or> d_flags r AND 0x500 \<noteq> 0 \<or> d_ebx r \<noteq> d_ebx c \<or> d_edi r \<noteq> d_edi c)
     \<and> (let active = stage \<ge> 3 \<and> stage \<le> 7 in
        \<not> (d_ebp r \<noteq> (if active then d_esp c - 40 else d_ebp c)
           \<or> d_esi r \<noteq> (if active then 2048 + a else if stage = 9 then NOT (a - 1) else if stage \<ge> 2 \<and> stage \<le> 8 then a else d_esi c))
        \<and> d_esp r = d_esp c - allocation_deltas ! unat stage
        \<and> (if stage = 1 then d_eax r = d_eax c \<and> d_ecx r = d_ecx c \<and> d_edx r = d_edx c \<and> (d_flags r XOR d_flags c) AND NOT 0x10000 = 0
           else if stage = 2 then d_eax r = 2048 + a \<and> d_ecx r = d_ecx c \<and> d_edx r = d_edx c
           else if stage \<ge> 3 \<and> stage \<le> 6 then d_eax r = d_esp c - 56 \<and> d_ecx r = d_ecx c \<and> d_edx r = d_edx c
           else if stage = 7 then True
           else if raw_block b = 0 then False
           else if stage = 8 then d_eax r = raw_block b \<and> d_ecx r = 0 \<and> d_edx r = d_edx returned
             \<and> d_flags r AND 0x8c5 = test_flags (raw_block b)
           else d_eax r = aligned_block b \<and> d_ecx r = raw_block b \<and> d_edx r = d_edx returned
             \<and> d_flags r AND 0x8c5 = test_flags (aligned_block b) \<and> (d_flags r XOR d_flags returned) AND NOT 0x108d5 = 0))"

definition allocation_spans :: "cd_stream_allocation_spec \<Rightarrow> cd_stream_disk_spec \<Rightarrow> file_manager_entry_spec \<Rightarrow> cwd_seh_spec
    \<Rightarrow> file_manager_ready_spec \<Rightarrow> span list" where
  "allocation_spans s disk m seh ready = [(allocator_rva disk, 35), (malloc_rva s, 18), (nh_rva s, 44), (heap_rva s, 111), (al_scope_rva s, 12),
     (new_mode_rva s, 4), (threshold_rva s, 4), (heap_handle_rva s, 4), (heap_mode_rva s, 4), (heap_iat_rva s, 4),
     (target_rva (seh_prologue seh), 59), (epilogue_rva ready, 17), (buffer_rva m - 4, 136), (disk_flags_rva disk - 4, 20), (scope_cleanup_rva s, 1)]"

definition cd_stream_allocation_code :: "cd_stream_allocation_spec \<Rightarrow> cd_stream_disk_spec \<Rightarrow> file_manager_entry_spec \<Rightarrow> cwd_seh_spec
    \<Rightarrow> file_manager_ready_spec \<Rightarrow> allocation_code option" where
  "cd_stream_allocation_code s disk m seh ready =
    (let base = ft_image_base (manager m); n = ft_image_size (manager m); f = heap_function s; spans = allocation_spans s disk m seh ready in
     if n < 4096 \<or> base > UINT32_MAX - n \<or> export_rva f < 4096 \<or> export_rva f > module_limit - 20 then None
     else if bootstrap_export_prefix f (preferred_base f) = None then None
     else if \<not> spans_ok n spans \<or> \<not> list_all (\<lambda>i. fst (spans ! i) mod 4 = 0) [4..<10] then None
     else Some \<lparr>
       al_aligned = put_word [0x8b,0x44,0x24,0x04,0x56,0x8b,0x74,0x24,0x0c,0x03,0xc6,0x50,0xe8,0,0,0,0,0x8b,0xc8,0x8d,0x04,0x31,0x83,0xc4,0x04,
           0x4e,0xf7,0xd6,0x23,0xc6,0x89,0x48,0xfc,0x5e,0xc3] 13 (malloc_rva s - allocator_rva disk - 17),
       al_malloc = put_word (put_word [0xff,0x35,0,0,0,0,0xff,0x74,0x24,0x08,0xe8,0,0,0,0,0x59,0x59,0xc3]
           2 (base + new_mode_rva s)) 11 (nh_rva s - malloc_rva s - 15),
       al_nh = put_word [0x83,0x7c,0x24,0x04,0xe0,0x77,0x22,0xff,0x74,0x24,0x04,0xe8,0,0,0,0,0x85,0xc0,0x59,0x75,0x16] 12 (heap_rva s - nh_rva s - 16),
       al_heap_entry = put_word (put_word (put_word (put_word [0x6a,0x0c,0x68,0,0,0,0,0xe8,0,0,0,0,0x8b,0x75,0x08,0x83,0x3d,0,0,0,0,0x03,0x75,0x2e,
             0x3b,0x35,0,0,0,0,0x77,0x26] 3 (base + al_scope_rva s)) 8 (target_rva (seh_prologue seh) - heap_rva s - 12))
           17 (base + heap_mode_rva s)) 26 (base + threshold_rva s),
       al_heap_tail = put_word (put_word (put_word (put_word [0x85,0xf6,0x75,0x01,0x46,0x83,0x3d,0,0,0,0,0x01,0x74,0x06,0x83,0xc6,0x0f,0x83,0xe6,0xf0,
             0x56,0x6a,0x00,0xff,0x35,0,0,0,0,0xff,0x15,0,0,0,0,0xe8,0,0,0,0,0xc3] 7 (base + heap_mode_rva s)) 25 (base + heap_handle_rva s))
           31 (base + heap_iat_rva s)) 36 (epilogue_rva ready - (heap_rva s + 70) - 40)\<rparr>)"

section \<open>CdStreamChannelsSpec\<close>

record cd_stream_channels_spec =
  error_iat_rva :: u32
  local_iat_rva :: u32
  pointer_rva :: u32
  filename_rva :: u32
  open_rva :: u32
  error_thunk_slot_rva :: u32
  local_thunk_slot_rva :: u32
  error_thunk :: bootstrap_export_spec
  error_implementation :: bootstrap_export_spec
  local_thunk :: bootstrap_export_spec
  local_implementation :: bootstrap_export_spec

definition cd_stream_channel_bytes :: u32 where
  "cd_stream_channel_bytes = 240"

definition channels_spans :: "cd_stream_channels_spec \<Rightarrow> cd_stream_tables_spec \<Rightarrow> span list" where
  "channels_spans s t = [(tables_target_rva t + 137, 64), (error_iat_rva s, 4), (local_iat_rva s, 4), (pointer_rva s - 4, 12), (filename_rva s, 16),
     (open_rva s, 5), (names_rva t - 8, 8)]"

text \<open>An import thunk: a jump through a slot, in the local form after a frame prologue.\<close>

definition channels_thunk :: "bootstrap_export_spec \<Rightarrow> u32 \<Rightarrow> bool \<Rightarrow> bool" where
  "channels_thunk f slot_rva local \<longleftrightarrow>
     (let k = (if local then 8 else 2) in
      take k (audited_prefix f) = (if local then [0x8b, 0xff, 0x55, 0x8b, 0xec, 0x5d, 0xff, 0x25] else [0xff, 0x25])
      \<and> slot_rva \<le> UINT32_MAX - preferred_base f \<and> get_word (audited_prefix f) k = preferred_base f + slot_rva \<and> highlow_mask f = push_bit k 1)"

definition cd_stream_channels_code :: "cd_stream_channels_spec \<Rightarrow> cd_stream_tables_spec \<Rightarrow> file_manager_entry_spec \<Rightarrow> bytes option" where
  "cd_stream_channels_code s t m =
    (let base = ft_image_base (manager m); n = ft_image_size (manager m); spans = channels_spans s t in
     if n < 4096 \<or> base > UINT32_MAX - n \<or> tables_target_rva t > UINT32_MAX - 137 \<or> names_rva t < 8 \<or> pointer_rva s < 4 then None
     else if \<not> spans_ok n spans \<or> \<not> list_all (\<lambda>i. fst (spans ! i) mod 4 = 0) [1..<4] then None
     else if \<not> list_all (\<lambda>x. \<not> (x < 4096 \<or> x > module_limit - 4 \<or> x mod 4 \<noteq> 0)) [error_thunk_slot_rva s, local_thunk_slot_rva s] then None
     else if \<not> list_all (\<lambda>f. \<not> (export_rva f < 4096 \<or> export_rva f > module_limit - 20 \<or> bootstrap_export_prefix f (preferred_base f) = None))
         [error_thunk s, error_implementation s, local_thunk s, local_implementation s] then None
     else if \<not> channels_thunk (error_thunk s) (error_thunk_slot_rva s) False \<or> \<not> channels_thunk (local_thunk s) (local_thunk_slot_rva s) True then None
     else Some (put_word (put_word (put_word (put_word (put_word (put_word (put_word
       [0x83,0xc4,0x0c,0x6a,0x00,0x8b,0xf8,0xff,0x15,0,0,0,0,
        0x8b,0x44,0x24,0x1c,0x8d,0x0c,0x40,0xc1,0xe1,0x04,0x51,0x6a,0x40,0xc7,0x05,0,0,0,0,0,0,0,0,0xa3,0,0,0,0,0xff,0x15,0,0,0,0,0x6a,0,
        0x68,0,0,0,0,0xa3,0,0,0,0,0xe8,0,0,0,0] 9 (base + error_iat_rva s)) 28 (base + names_rva t - 4)) 37 (base + names_rva t - 8))
        43 (base + local_iat_rva s)) 50 (base + filename_rva s)) 55 (base + pointer_rva s)) 60 (open_rva s - (tables_target_rva t + 137) - 64)))"

definition channels_offsets :: "u32 list" where
  "channels_offsets = [0, 8, 4, 4, 12, 4, 0, 0, 12, 4]"

text \<open>The flags of adding 12 to the stack pointer.\<close>

definition channels_sum_flags :: "u32 \<Rightarrow> u32" where
  "channels_sum_flags esp = (let total = esp + 12 in
     (if popcount (total AND 255) mod 2 = 0 then 4 else 0) OR ((esp XOR 12 XOR total) AND 0x10)
     OR (if total AND 0x80000000 \<noteq> 0 then 0x80 else 0)
     OR (if (NOT (esp XOR 12) AND (esp XOR total)) AND 0x80000000 \<noteq> 0 then 0x800 else 0))"

definition cd_stream_channels_frame :: "u32 \<Rightarrow> event_dispatch_registers \<Rightarrow> event_dispatch_registers \<Rightarrow> event_dispatch_registers
    \<Rightarrow> event_dispatch_registers \<Rightarrow> bool" where
  "cd_stream_channels_frame stage c r e l \<longleftrightarrow>
     \<not> (stage < 1 \<or> stage > 9 \<or> d_esp c < 65536 \<or> d_esp c > UINT32_MAX - 44 \<or> d_esp c mod 4 \<noteq> 0 \<or> d_flags r AND 0x500 \<noteq> 0 \<or> d_flags c AND 0x500 \<noteq> 0
        \<or> d_ebx r \<noteq> d_ebx c \<or> d_esi r \<noteq> d_esi c \<or> d_edi r \<noteq> d_eax c \<or> d_ebp r \<noteq> d_ebp c)
     \<and> d_esp r = d_esp c + channels_offsets ! unat stage
     \<and> (if stage \<le> 3 then d_eax r = d_eax c \<and> d_ecx r = d_ecx c \<and> d_edx r = d_edx c \<and> d_flags r AND 0x8d5 = channels_sum_flags (d_esp c)
          \<and> (d_flags r XOR d_flags c) AND NOT 0x108d5 = 0
        else if stage = 4 \<or> stage = 8 then True
        else if stage \<le> 7 then d_eax r = 5 \<and> d_ecx r = 240 \<and> d_edx r = d_edx e \<and> d_flags r AND 0xc5 = 4
          \<and> (d_flags r XOR d_flags e) AND NOT 0x108d5 = 0
        else d_eax r = d_eax l \<and> d_ecx r = d_ecx l \<and> d_edx r = d_edx l \<and> (d_flags r XOR d_flags l) AND NOT 0x10000 = 0)"

definition cd_stream_channels_range :: "u32 \<Rightarrow> allocation_layout \<Rightarrow> bool" where
  "cd_stream_channels_range p b \<longleftrightarrow> p \<ge> 65536 \<and> p mod 4 = 0 \<and> p \<le> UINT32_MAX - cd_stream_channel_bytes \<and> raw_block b \<ge> 65536
     \<and> block_bytes b \<ge> 2560 \<and> block_bytes b \<le> 67584 \<and> raw_block b \<le> UINT32_MAX - block_bytes b
     \<and> \<not> (p < raw_block b + block_bytes b \<and> raw_block b < p + cd_stream_channel_bytes)"

definition cd_stream_channels_memory :: "bytes \<Rightarrow> bool" where
  "cd_stream_channels_memory b \<longleftrightarrow> length b = unat cd_stream_channel_bytes \<and> list_all (\<lambda>v. v = 0) b"

definition cd_stream_channels_tables :: "bytes \<Rightarrow> bytes \<Rightarrow> bool \<Rightarrow> bool" where
  "cd_stream_channels_tables before after prepared \<longleftrightarrow>
     list_all (\<lambda>i. after ! i = (if prepared \<and> i \<ge> 132 \<and> i < 140 then (if i = 132 then 5 else 0) else before ! i)) [0..<length before]"

section \<open>The layout of the aligned block\<close>

lemma power_of_two_cases:
  assumes "alignment_valid a"
  obtains k where "a = push_bit k 1" "9 \<le> k" "k \<le> 16" "unat a = 2 ^ k"
proof -
  have b: "512 \<le> unat a" "unat a \<le> 65536" and z: "a AND (a - 1) = 0"
    using assms by (simp_all add: alignment_valid_def word_le_nat_alt)
  obtain k where k: "2 ^ k \<le> unat a" "unat a < 2 ^ (k + 1)"
    using ex_power_ivl1[of 2 "unat a"] b by auto
  have lo: "9 \<le> k"
  proof (rule ccontr)
    assume "\<not> 9 \<le> k"
    then have "(2 :: nat) ^ (k + 1) \<le> 2 ^ 9" by (intro power_increasing) auto
    then show False using k b by simp
  qed
  have hi: "k \<le> 16"
  proof (rule ccontr)
    assume "\<not> k \<le> 16"
    then have "(2 :: nat) ^ 17 \<le> 2 ^ k" by (intro power_increasing) auto
    then show False using k b by simp
  qed
  have u: "unat a = 2 ^ k"
  proof (rule ccontr)
    assume "unat a \<noteq> 2 ^ k"
    then have m: "2 ^ k \<le> unat a - 1" "unat a - 1 < 2 ^ (k + 1)" using k by auto
    have w: "unat (a - 1) = unat a - 1" using b by (simp add: unat_sub word_le_nat_alt)
    have one: "bit n k" if "2 ^ k \<le> n" "n < 2 ^ (k + 1)" for n :: nat
    proof -
      have "n div 2 ^ k = 1" using that by (simp add: div_nat_eqI)
      then show ?thesis by (simp add: bit_iff_odd)
    qed
    have "bit a k" "bit (a - 1) k"
      using one[OF k] one[OF m, folded w] by (simp_all add: bit_unsigned_iff)
    then have "bit (a AND (a - 1)) k" by (simp add: bit_and_iff)
    then show False using z by simp
  qed
  have "k = 9 \<or> k = 10 \<or> k = 11 \<or> k = 12 \<or> k = 13 \<or> k = 14 \<or> k = 15 \<or> k = 16" using lo hi by linarith
  then have "unat (push_bit k (1 :: u32)) = 2 ^ k" by auto
  then have "a = push_bit k 1" using u by (simp add: word_unat_eq_iff)
  then show thesis using that lo hi u by blast
qed

lemma clear_low_bits: "(x :: u32) AND NOT (push_bit k 1 - 1) = push_bit k (drop_bit k x)"
proof -
  have "push_bit k (1 :: u32) - 1 = mask k" by (simp add: mask_eq_exp_minus_1)
  then show ?thesis
    by (intro bit_word_eqI) (auto simp: bit_and_iff bit_not_iff bit_mask_iff bit_push_bit_iff bit_drop_bit_eq simp del: push_bit_of_1)
qed

lemma unat_clear_low_bits:
  assumes "k < 32"
  shows "unat ((x :: u32) AND NOT (push_bit k 1 - 1)) = unat x div 2 ^ k * 2 ^ k"
proof -
  have "unat (push_bit k (drop_bit k x)) = take_bit 32 (push_bit k (drop_bit k (unat x)))"
    by (rule bit_eqI) (auto simp: bit_unsigned_iff bit_take_bit_iff bit_push_bit_iff bit_drop_bit_eq)
  also have "\<dots> = unat x div 2 ^ k * 2 ^ k"
  proof -
    have "unat x div 2 ^ k * 2 ^ k < 2 ^ 32" using div_times_less_eq_dividend[of "unat x" "2 ^ k"] unat_less_32[of x] by linarith
    then show ?thesis by (simp add: push_bit_eq_mult drop_bit_eq_div take_bit_nat_eq_self)
  qed
  finally show ?thesis unfolding clear_low_bits .
qed

lemma aligned_between:
  assumes "m = (2 :: nat) ^ k" "9 \<le> k" "raw mod 8 = 0"
  shows "raw + 8 \<le> (raw + m) div m * m" "(raw + m) div m * m \<le> raw + m"
proof -
  let ?x = "(raw + m) div m * m"
  have m: "0 < m" using assms(1) by simp
  show "?x \<le> raw + m" by (rule div_times_less_eq_dividend)
  have "raw + m < ?x + m" using dividend_less_div_times[OF m, of "raw + m"] by linarith
  then have gt: "raw < ?x" by linarith
  have "8 dvd m" using le_imp_power_dvd[of 3 k "2 :: nat"] assms(1,2) by simp
  then have "?x mod 8 = 0" by simp
  then show "raw + 8 \<le> ?x" using gt assms(3) by presburger
qed

text \<open>
  Claim C37. The aligned block always exists and is safe to use: for every admitted alignment and every block
  the heap returned (eight-aligned, with room for 2048 bytes and the alignment below the end of
  the address space) a layout is accepted; its buffer is aligned, the cell for the original pointer
  lies inside the block in front of it, 2048 bytes behind it are inside the block, and a channel
  array that the later stage accepts shares no byte with the block.
\<close>

theorem allocation_layout_sound:
  assumes "alignment_valid a" "65536 \<le> raw" "raw mod 8 = 0" "raw \<le> UINT32_MAX - 2048 - a"
  shows "\<exists>b. cd_stream_allocation_layout raw a = Some b \<and> raw_block b = raw
     \<and> unat (aligned_block b) mod unat a = 0 \<and> unat (metadata_cell b) + 4 = unat (aligned_block b) \<and> unat raw + 4 \<le> unat (metadata_cell b)
     \<and> unat (aligned_block b) + 2048 \<le> unat raw + unat (block_bytes b) \<and> unat raw + unat (block_bytes b) < 2 ^ 32
     \<and> (\<forall>p. cd_stream_channels_range p b = (65536 \<le> p \<and> p mod 4 = 0 \<and> p \<le> UINT32_MAX - cd_stream_channel_bytes
          \<and> {unat p ..< unat p + 240} \<inter> {unat raw ..< unat raw + unat (block_bytes b)} = {}))"
proof -
  obtain k where k: "a = push_bit k 1" "9 \<le> k" "k \<le> 16" "unat a = 2 ^ k" by (rule power_of_two_cases[OF assms(1)])
  have ab: "512 \<le> unat a" "unat a \<le> 65536" using assms(1) by (simp_all add: alignment_valid_def word_le_nat_alt)
  let ?al = "(raw + a) AND NOT (a - 1)"
  let ?b = "\<lparr>raw_block = raw, aligned_block = ?al, metadata_cell = ?al - 4, block_bytes = 2048 + a\<rparr>"
  have hi: "unat raw + 2048 + unat a < 2 ^ 32" "65536 \<le> unat raw"
  proof -
    have "unat (UINT32_MAX - 2048 - a) = 2 ^ 32 - 1 - 2048 - unat a"
      using ab by (simp add: UINT32_MAX_def unat_sub word_le_nat_alt)
    then show "unat raw + 2048 + unat a < 2 ^ 32" using assms(4) ab by (simp add: word_le_nat_alt)
    show "65536 \<le> unat raw" using assms(2) by (simp add: word_le_nat_alt)
  qed
  have sum: "unat (raw + a) = unat raw + unat a" "unat (raw + 4) = unat raw + 4" "unat (2048 + a) = 2048 + unat a"
    using hi by (simp_all add: unat_plus_if')
  have al: "unat ?al = (unat raw + 2 ^ k) div 2 ^ k * 2 ^ k"
    using unat_clear_low_bits[of k "raw + a"] k sum by simp
  have "unat (raw mod 8) = 0" using assms(3) by simp
  then have r8: "unat raw mod 8 = 0" by (simp add: unat_mod)
  note between = aligned_between[OF refl k(2) r8, folded al]
  have meta: "unat (?al - 4) = unat ?al - 4" using between(1) by (simp add: unat_sub word_le_nat_alt)
  have lay: "cd_stream_allocation_layout raw a = Some ?b"
    using assms assms(2,4)[unfolded word_le_nat_alt] between sum k(4) by (simp add: cd_stream_allocation_layout_def Let_def word_less_nat_alt not_less)
  have range: "cd_stream_channels_range p ?b
     = (65536 \<le> p \<and> p mod 4 = 0 \<and> p \<le> UINT32_MAX - cd_stream_channel_bytes \<and> {unat p ..< unat p + 240} \<inter> {unat raw ..< unat raw + (2048 + unat a)} = {})" for p
  proof (cases "p \<le> UINT32_MAX - cd_stream_channel_bytes")
    case True
    then have p: "unat p + 240 < 2 ^ 32"
      by (simp add: UINT32_MAX_def cd_stream_channel_bytes_def word_le_nat_alt unat_sub)
    have w: "unat (p + 240) = unat p + 240" "unat (raw + (2048 + a)) = unat raw + (2048 + unat a)"
      using p hi sum(3) by (simp_all add: unat_plus_if')
    have ub: "unat (UINT32_MAX - (2048 + a)) = 2 ^ 32 - 1 - (2048 + unat a)"
      using ab sum(3) by (simp add: UINT32_MAX_def unat_sub word_le_nat_alt)
    have d: "{unat p ..< unat p + 240} \<inter> {unat raw ..< unat raw + (2048 + unat a)} = {}
        \<longleftrightarrow> \<not> (unat p < unat raw + (2048 + unat a) \<and> unat raw < unat p + 240)" by (auto simp: disjoint_iff)
    obtain fits where fits: "(p mod 4 = 0) = fits" by simp
    show ?thesis
      using True assms(2) ab hi w ub sum(3) unfolding d cd_stream_channels_range_def fits
      by (auto simp: cd_stream_channel_bytes_def word_le_nat_alt word_less_nat_alt)
  qed (simp add: cd_stream_channels_range_def)
  have whole: "unat ?al mod unat a = 0" unfolding al k(4) by simp
  have sel: "raw_block ?b = raw" "aligned_block ?b = ?al" "metadata_cell ?b = ?al - 4" "block_bytes ?b = 2048 + a" by simp_all
  show ?thesis
    by (intro exI[of _ ?b] conjI allI, unfold sel sum(3))
       ((rule lay whole refl range)+ | (use between meta k(4) hi in linarith))+
qed

theorem allocation_layout_sound_witness:
  "\<exists>b. cd_stream_allocation_layout 0x150008 512 = Some b \<and> unat (aligned_block b) mod 512 = 0 \<and> unat (aligned_block b) + 2048 \<le> 0x150008 + unat (block_bytes b)"
proof -
  have "alignment_valid 512" "(65536 :: u32) \<le> 0x150008" "(0x150008 :: u32) mod 8 = 0" "(0x150008 :: u32) \<le> UINT32_MAX - 2048 - 512"
    by (simp_all add: alignment_valid_def UINT32_MAX_def)
  from allocation_layout_sound[OF this] show ?thesis by auto
qed

end
