(* ===== verification/Loader_Observation.thy ===== *)
theory Loader_Observation
  imports Loader_Policy Cd_Stream
begin

text \<open>
  \<open>LoaderObservation\<close> of \<open>loader_observation.hpp/.cpp\<close> up to the point where it first lets the child
  run: the entry points \<open>run_*\<close>, the admission of limits, pins, child and stage recipes in
  \<open>run_impl\<close>, the arming of the entry breakpoint and the first frame sample; and the two helpers that
  compare a child's event handle with a named event and hash a heap block of the child. The debug-event
  loop that follows is in \<open>Loader_Events\<close> and \<open>Loader_Run\<close>.

  The optional recipes of \<open>run_impl\<close> are pointers: an option each. Dereferencing is explicit, so a null
  dereference is a value of the model. Pinned files are pointers too, numbers looked up in a store.
\<close>

section \<open>Helpers on the child\<close>

text \<open>\<open>compare\<close> is \<open>CompareObjectHandles\<close>, \<open>None\<close> when the system does not export it; the result comes with the handles opened and closed.\<close>

definition same_named_event :: "(nat \<Rightarrow> nat \<Rightarrow> bool) option \<Rightarrow> (u32 \<Rightarrow> nat option) \<Rightarrow> (string \<Rightarrow> nat) \<Rightarrow> u32 \<Rightarrow> string \<Rightarrow> bool \<times> os_call list" where
  "same_named_event compare duplicate_handle open_event value name =
    (if value = 0 \<or> value \<ge> 0xfffffff0 \<or> name = [] \<or> length name > 96 then (False, [])
     else case compare of None \<Rightarrow> (False, [])
       | Some same \<Rightarrow> (case duplicate_handle value of None \<Rightarrow> (False, [])
         | Some duplicate \<Rightarrow>
           let named = open_event (takeWhile (\<lambda>c. c \<noteq> CHR 0x00) name) in
           (named \<noteq> 0 \<and> same duplicate named, opens duplicate @ opens named @ closes named @ closes duplicate)))"

lemma same_named_event_closes:
  "same_named_event compare dup open_event value name = (same, calls) \<Longrightarrow> opened_handles calls = closed_handles calls"
  by (auto simp: same_named_event_def Let_def split: if_splits option.splits)

definition MEM_PRIVATE :: u32 where "MEM_PRIVATE = 0x20000"
definition PAGE_READWRITE :: u32 where "PAGE_READWRITE = 4"

text \<open>The blocks of the admitted allocation, with the cell that points back to it masked.\<close>

definition masked_block :: "allocation_layout \<Rightarrow> u32 \<Rightarrow> nat \<Rightarrow> (nat \<Rightarrow> u8) \<Rightarrow> bytes" where
  "masked_block b start n buffer = map (\<lambda>i. let a = start + of_nat i in
     if a \<ge> metadata_cell b \<and> a < metadata_cell b + 4 then 0 else buffer i) [0..<n]"

function hash_block :: "observer_api \<Rightarrow> file_api \<Rightarrow> allocation_layout \<Rightarrow> nat \<Rightarrow> bytes \<Rightarrow> bytes option" where
  "hash_block os fa b offset fed =
    (if offset \<ge> unat (block_bytes b) then Some fed
     else let start = raw_block b + of_nat offset in
       (case query_region os start of None \<Rightarrow> None
        | Some r \<Rightarrow>
          if \<not> (region_state r = MEM_COMMIT \<and> region_type r = MEM_PRIVATE \<and> region_protect r = PAGE_READWRITE \<and> start \<ge> base_address r)
          then None
          else if start - base_address r \<ge> region_size r then None
          else let n = min 256 (min (unat (block_bytes b) - offset) (unat (region_size r - (start - base_address r)))) in
            (case read_process os start n of (ok, got, buffer) \<Rightarrow>
              if \<not> (ok \<and> got = n) then None
              else let bs = masked_block b start n buffer in
                if \<not> hash_update fa fed bs then None else hash_block os fa b (offset + n) (fed @ bs))))"
  by pat_completeness auto
termination
proof (relation "measure (\<lambda>(_, _, b, offset, _). unat (block_bytes b) - offset)")
  fix os :: observer_api and fa :: file_api and b offset fed start r n bs and got :: nat and x xa xb ok buffer
  assume a: "\<not> unat (block_bytes b) \<le> offset" "\<not> region_size r \<le> start - base_address r"
    and n: "n = min 256 (min (unat (block_bytes b) - offset) (unat (region_size r - (start - base_address r))))"
  have "region_size r - (start - base_address r) \<noteq> 0" using a(2) by auto
  then have "0 < unat (region_size r - (start - base_address r))" by (simp add: unat_gt_0)
  then have "0 < n" using a(1) n by simp
  then show "((os, fa, b, offset + n, fed @ bs), os, fa, b, offset, fed) \<in> measure (\<lambda>(_, _, b, offset, _). unat (block_bytes b) - offset)"
    using a(1) by simp
qed simp

declare hash_block.simps [simp del]

definition allocation_hash :: "observer_api \<Rightarrow> file_api \<Rightarrow> allocation_layout \<Rightarrow> bytes option" where
  "allocation_hash os fa b =
    (if block_bytes b = 0 \<or> block_bytes b > 67584 \<or> raw_block b > UINT32_MAX - block_bytes b
        \<or> metadata_cell b < raw_block b \<or> metadata_cell b > raw_block b + block_bytes b - 4 \<or> \<not> hash_open fa then None
     else Option.bind (hash_block os fa b 0 []) (hash_finish fa))"

section \<open>Recipes\<close>

record loader_limits =
  limit_events :: u32
  limit_modules :: u32
  limit_threads :: u32
  limit_milliseconds :: u32
  limit_bytes :: u64

record entry_stop_spec =
  stop_entry_rva :: u32
  entry_expected :: bytes

record proxy_stop_spec =
  proxy_module :: nat
  thunk_rva :: u32
  call_target_rva :: u32
  return_slot_rva :: u32
  iat_rva :: u32
  iat_target_rva :: u32

record startup_stop_spec =
  startup_anchors :: "image_anchor list"

record codec_stop_spec =
  sequence_rva :: u32
  codec_name_rva :: u32
  load_slot_rva :: u32
  requested_name :: string
  codec_modules :: "nat list"

record binding_slot_spec =
  slot_name :: string
  slot_rva :: u32
  slot_target_rva :: u32

record binding_stop_spec =
  stop_rva :: u32
  proc_slot_rva :: u32
  binding_expected_stop :: bytes
  binding_slots :: "binding_slot_spec list"

record asi_stop_spec =
  asi_module :: nat
  asi_call_rva :: u32
  asi_end_rva :: u32
  expected_return :: bytes
  expected_end :: bytes
  requested_path :: string

text \<open>The optional arguments of \<open>run_impl\<close>, in its order.\<close>

record stages =
  st_entry :: "entry_stop_spec option"
  st_proxy :: "proxy_stop_spec option"
  st_startup :: "startup_stop_spec option"
  st_codec :: "codec_stop_spec option"
  st_binding :: "binding_stop_spec option"
  st_asi :: "asi_stop_spec option"
  st_bootstrap :: "bootstrap_lifecycle_spec option"
  st_frame :: "frame_target_spec option"
  st_tail :: "startup_return_spec option"
  st_crt :: "crt_startup_spec option"
  st_application :: "application_entry_spec option"
  st_platform :: "platform_startup_spec option"
  st_suppression :: "platform_suppression_spec option"
  st_instance :: "instance_startup_spec option"
  st_dispatch :: "event_dispatch_spec option"
  st_routing :: "application_routing_spec option"
  st_prelude :: "game_prelude_spec option"
  st_manager :: "file_manager_entry_spec option"
  st_seh :: "cwd_seh_spec option"
  st_lock :: "cwd_lock_spec option"
  st_acquire :: "cwd_acquire_spec option"
  st_query :: "cwd_query_spec option"
  st_copy :: "cwd_copy_spec option"
  st_completion :: "cwd_return_spec option"
  st_ready :: "file_manager_ready_spec option"
  st_tables :: "cd_stream_tables_spec option"
  st_disk :: "cd_stream_disk_spec option"
  st_allocation :: "cd_stream_allocation_spec option"
  st_channels :: "cd_stream_channels_spec option"

definition no_stages :: stages where
  "no_stages = \<lparr>st_entry = None, st_proxy = None, st_startup = None, st_codec = None, st_binding = None, st_asi = None,
     st_bootstrap = None, st_frame = None, st_tail = None, st_crt = None, st_application = None, st_platform = None,
     st_suppression = None, st_instance = None, st_dispatch = None, st_routing = None, st_prelude = None, st_manager = None,
     st_seh = None, st_lock = None, st_acquire = None, st_query = None, st_copy = None, st_completion = None, st_ready = None,
     st_tables = None, st_disk = None, st_allocation = None, st_channels = None\<rparr>"


section \<open>Conditions over pointers\<close>

text \<open>
  A condition is \<open>None\<close> when evaluating it dereferences a null pointer. \<open>any_of\<close> is the
  short-circuit disjunction, \<open>when_set\<close> the test \<open>p && c\<close>, and \<open>refuse\<close> the value of
  \<open>if (c) return finish(reason)\<close>: the reason, or the empty string.
\<close>

definition absent :: "'a option \<Rightarrow> bool option" where
  "absent p = Some (p = None)"

definition deref :: "'a option \<Rightarrow> ('a \<Rightarrow> 'b option) \<Rightarrow> 'b option" where
  "deref p f = (case p of None \<Rightarrow> None | Some a \<Rightarrow> f a)"

fun any_of :: "bool option list \<Rightarrow> bool option" where
  "any_of [] = Some False"
| "any_of (c # cs) = (case c of None \<Rightarrow> None | Some b \<Rightarrow> if b then Some True else any_of cs)"

definition when_set :: "'a option \<Rightarrow> bool option \<Rightarrow> bool option" where
  "when_set p c = (if p = None then Some False else c)"

definition refuse :: "bool option \<Rightarrow> string \<Rightarrow> string option" where
  "refuse c reason = map_option (\<lambda>b. if b then reason else []) c"

datatype outcome = Null_pointer | Refused string | Admitted

fun first_refusal :: "string option list \<Rightarrow> outcome" where
  "first_refusal [] = Admitted"
| "first_refusal (c # cs) = (case c of None \<Rightarrow> Null_pointer | Some reason \<Rightarrow> if reason = [] then first_refusal cs else Refused reason)"

section \<open>Checks of one recipe\<close>

definition limits_bad :: "loader_limits \<Rightarrow> nat list \<Rightarrow> bool \<Rightarrow> bool" where
  "limits_bad l pins allocating \<longleftrightarrow>
     limit_events l = 0 \<or> limit_events l > (if allocating then 160 else 128) \<or> limit_modules l = 0 \<or> limit_modules l > 64
     \<or> limit_threads l = 0 \<or> limit_threads l > 16 \<or> limit_milliseconds l = 0 \<or> limit_milliseconds l > 5000
     \<or> limit_bytes l = 0 \<or> limit_bytes l > 256 * 1024 * 1024 \<or> length pins > 64"

definition asi_path_bad :: "string \<Rightarrow> bool" where
  "asi_path_bad path \<longleftrightarrow>
     (length path < 4 \<or> length path \<ge> 260
      \<or> \<not> ((code_of (path ! 0) \<ge> 0x41 \<and> code_of (path ! 0) \<le> 0x5a) \<or> (code_of (path ! 0) \<ge> 0x61 \<and> code_of (path ! 0) \<le> 0x7a))
      \<or> path ! 1 \<noteq> CHR '':'' \<or> path ! 2 \<noteq> CHR 0x5c)
     \<or> list_ex (\<lambda>i. code_of (path ! i) < 32 \<or> code_of (path ! i) > 126 \<or> (i \<noteq> 1 \<and> path ! i = CHR '':'')
          \<or> path ! i = CHR ''/'' \<or> path ! i = CHR 0x22) [0..<length path]"

definition asi_bad :: "(nat \<Rightarrow> loader_file) \<Rightarrow> nat list \<Rightarrow> asi_stop_spec \<Rightarrow> bool" where
  "asi_bad files pins a \<longleftrightarrow>
     asi_module a = 0 \<or> \<not> loader_file_valid (files (asi_module a)) \<or> asi_module a \<notin> set pins
     \<or> asi_call_rva a = 0 \<or> unat (asi_call_rva a) > max_image_bytes - 22
     \<or> asi_end_rva a = 0 \<or> unat (asi_end_rva a) > max_image_bytes - 16
     \<or> (asi_end_rva a \<ge> asi_call_rva a \<and> asi_end_rva a < asi_call_rva a + 22)"

definition binding_bad :: "binding_stop_spec \<Rightarrow> bool" where
  "binding_bad b \<longleftrightarrow>
     stop_rva b = 0 \<or> unat (stop_rva b) > max_image_bytes - 16
     \<or> proc_slot_rva b = 0 \<or> proc_slot_rva b mod 4 \<noteq> 0 \<or> unat (proc_slot_rva b) > max_image_bytes - 4
     \<or> binding_slots b = [] \<or> length (binding_slots b) > 8"

definition identifier_char :: "char \<Rightarrow> bool" where
  "identifier_char c \<longleftrightarrow> (code_of c \<ge> 97 \<and> code_of c \<le> 122) \<or> (code_of c \<ge> 65 \<and> code_of c \<le> 90)
     \<or> (code_of c \<ge> 48 \<and> code_of c \<le> 57) \<or> c = CHR ''_''"

fun binding_slots_refusal :: "binding_slot_spec list \<Rightarrow> binding_slot_spec list \<Rightarrow> string" where
  "binding_slots_refusal prior [] = []"
| "binding_slots_refusal prior (slot # slots) =
    (if slot_name slot = [] \<or> length (slot_name slot) \<ge> 32 \<or> \<not> list_all identifier_char (slot_name slot)
        \<or> slot_rva slot = 0 \<or> slot_rva slot mod 4 \<noteq> 0 \<or> unat (slot_rva slot) > max_image_bytes - 4
        \<or> slot_target_rva slot = 0 \<or> unat (slot_target_rva slot) > max_image_bytes - 16 then ''binding_invalid_slot''
     else if list_ex (\<lambda>p. slot_name p = slot_name slot \<or> slot_rva p = slot_rva slot) prior then ''binding_duplicate_slot''
     else binding_slots_refusal (prior @ [slot]) slots)"

definition codec_char :: "char \<Rightarrow> bool" where
  "codec_char c \<longleftrightarrow> (code_of c \<ge> 97 \<and> code_of c \<le> 122) \<or> (code_of c \<ge> 48 \<and> code_of c \<le> 57) \<or> c = CHR ''_'' \<or> c = CHR ''-''"

definition codec_bad :: "codec_stop_spec \<Rightarrow> bool" where
  "codec_bad c \<longleftrightarrow>
     codec_modules c = [] \<or> length (codec_modules c) > 3 \<or> requested_name c = [] \<or> length (requested_name c) > 15
     \<or> \<not> list_all codec_char (requested_name c)
     \<or> sequence_rva c = 0 \<or> unat (sequence_rva c) > max_image_bytes - 13
     \<or> codec_name_rva c = 0 \<or> unat (codec_name_rva c) > max_image_bytes - 16
     \<or> load_slot_rva c = 0 \<or> load_slot_rva c mod 4 \<noteq> 0 \<or> unat (load_slot_rva c) > max_image_bytes - 4"

text \<open>The identity the code compares: zero for a file that was not inspected.\<close>

definition module_key :: "loader_file \<Rightarrow> u64 \<times> bytes" where
  "module_key f = (case pin_identity f of None \<Rightarrow> (0, replicate 16 0) | Some i \<Rightarrow> (id_volume i, id_file i))"

fun codec_pins_refusal :: "(nat \<Rightarrow> loader_file) \<Rightarrow> nat list \<Rightarrow> nat \<Rightarrow> nat list \<Rightarrow> nat list \<Rightarrow> string" where
  "codec_pins_refusal files pins proxy prior [] = []"
| "codec_pins_refusal files pins proxy prior (m # ms) =
    (if m = 0 \<or> m \<notin> set pins \<or> m = proxy then ''codec_invalid_pin''
     else if list_ex (\<lambda>p. module_key (files m) = module_key (files p)) prior then ''codec_duplicate_pin''
     else codec_pins_refusal files pins proxy (prior @ [m]) ms)"

definition proxy_bad :: "nat list \<Rightarrow> suspended \<Rightarrow> proxy_stop_spec \<Rightarrow> bool" where
  "proxy_bad pins s p \<longleftrightarrow>
     proxy_module p = 0 \<or> proxy_module p \<notin> set pins
     \<or> thunk_rva p = 0 \<or> unat (thunk_rva p) > max_image_bytes - 11
     \<or> call_target_rva p = 0 \<or> unat (call_target_rva p) \<ge> max_image_bytes
     \<or> return_slot_rva p = 0 \<or> unat (return_slot_rva p) > max_image_bytes - 4
     \<or> iat_target_rva p = 0 \<or> unat (iat_target_rva p) \<ge> max_image_bytes
     \<or> iat_rva p = 0 \<or> unat (iat_rva p) > child_image_bytes s \<or> child_image_bytes s - unat (iat_rva p) < 4"

text \<open>The samples are checked in turn; the bytes at each are read from the child at once.\<close>

fun startup_samples_refusal :: "observer_api \<Rightarrow> u32 \<Rightarrow> suspended \<Rightarrow> image_anchor list \<Rightarrow> image_anchor list \<Rightarrow> string" where
  "startup_samples_refusal os me s prior [] = []"
| "startup_samples_refusal os me s prior (a # rest) =
    (let n = unat (anchor_length a) in
     if anchor_rva a = 0 \<or> n = 0 \<or> n > 16 then ''startup_invalid_sample''
     else if list_ex (\<lambda>p. unat (anchor_rva a) < unat (anchor_rva p) + unat (anchor_length p)
                        \<and> unat (anchor_rva p) < unat (anchor_rva a) + n) prior then ''startup_sample_overlap''
     else if child_copy os me s (anchor_rva a) n \<noteq> Some (take n (anchor_bytes a)) then ''startup_sample_precondition''
     else startup_samples_refusal os me s (prior @ [a]) rest)"

definition entry_refusal :: "observer_api \<Rightarrow> u32 \<Rightarrow> suspended \<Rightarrow> entry_stop_spec \<Rightarrow> string" where
  "entry_refusal os me s e =
    (let rva = stop_entry_rva e; start = child_base s + rva in
     if rva = 0 \<or> unat rva \<ge> child_image_bytes s \<or> 16 > child_image_bytes s - unat rva
        \<or> child_copy os me s rva 16 \<noteq> Some (entry_expected e) then ''entry_precondition_bytes''
     else (case query_region os start of None \<Rightarrow> ''entry_precondition_region''
       | Some r \<Rightarrow>
           if region_type r \<noteq> MEM_IMAGE \<or> region_state r \<noteq> MEM_COMMIT \<or> allocation_base r \<noteq> child_base s
              \<or> region_protect r AND PAGE_GUARD \<noteq> 0 \<or> region_protect r AND 0xf0 = 0 then ''entry_precondition_region'' else []))"


section \<open>Admission\<close>

text \<open>What \<open>run_impl\<close> needs of its surroundings: the system, the store of pinned files, the context of the main thread.\<close>

record 'c loader_host =
  host_os :: observer_api
  host_files :: "nat \<Rightarrow> loader_file"
  host_get :: "'c \<Rightarrow> thread_context option"
  host_set :: "thread_context \<Rightarrow> 'c \<Rightarrow> bool \<times> 'c"
  host_thread_id :: u32

text \<open>The refusals in the order of the code: limits, pins, the child, then the recipes from the last stages to the first.\<close>

definition general_checks :: "'c loader_host \<Rightarrow> u32 \<Rightarrow> suspended \<Rightarrow> nat \<Rightarrow> nat list \<Rightarrow> loader_limits \<Rightarrow> stages \<Rightarrow> string option list" where
  "general_checks host me s executable pins limits x =
   [refuse (Some (limits_bad limits pins (st_allocation x \<noteq> None))) ''loader_invalid_limits'',
    refuse (when_set (st_channels x) (any_of [absent (st_allocation x), absent (st_tables x), absent (st_manager x),
      deref (st_channels x) (\<lambda>c. deref (st_tables x) (\<lambda>t. deref (st_manager x) (\<lambda>m. Some (cd_stream_channels_code c t m = None))))]))
      ''cd_stream_channels_invalid_spec'',
    refuse (Some (list_ex (\<lambda>p. p = 0 \<or> \<not> loader_file_valid (host_files host p)) pins)) ''loader_invalid_pin'',
    refuse (Some (child_error s \<noteq> [] \<or> child_loader_started s \<or> \<not> child_same_file (host_os host) me s executable))
      ''loader_child_identity_or_state'']"

definition startup_checks :: "stages \<Rightarrow> string option list" where
  "startup_checks x =
   [refuse (when_set (st_platform x) (any_of [absent (st_application x), absent (st_crt x),
      deref (st_platform x) (\<lambda>p. deref (st_crt x) (\<lambda>c. Some (\<not> valid_platform_startup_spec p c)))])) ''platform_invalid_spec'',
    refuse (when_set (st_suppression x) (any_of [absent (st_platform x), absent (st_crt x),
      deref (st_suppression x) (\<lambda>u. deref (st_platform x) (\<lambda>p. deref (st_crt x) (\<lambda>c. Some (\<not> valid_platform_suppression_spec u p c))))]))
      ''suppression_invalid_spec'',
    refuse (when_set (st_instance x) (any_of [absent (st_suppression x), absent (st_platform x), absent (st_crt x),
      deref (st_instance x) (\<lambda>i. deref (st_platform x) (\<lambda>p. deref (st_crt x) (\<lambda>c. deref (st_suppression x) (\<lambda>u.
        Some (\<not> valid_instance_startup_spec i p c u)))))])) ''instance_invalid_spec'',
    refuse (when_set (st_dispatch x) (any_of [absent (st_instance x),
      deref (st_dispatch x) (\<lambda>d. deref (st_instance x) (\<lambda>i. Some (\<not> valid_event_dispatch_spec d i)))])) ''event_dispatch_invalid_spec'',
    refuse (when_set (st_routing x) (any_of [absent (st_dispatch x),
      deref (st_routing x) (\<lambda>r. deref (st_dispatch x) (\<lambda>d. Some (\<not> valid_application_routing_spec r d)))])) ''application_routing_invalid_spec'',
    refuse (when_set (st_prelude x) (any_of [absent (st_routing x),
      deref (st_prelude x) (\<lambda>g. deref (st_routing x) (\<lambda>r. Some (\<not> valid_game_prelude_spec g r)))])) ''game_prelude_invalid_spec'',
    refuse (when_set (st_manager x) (any_of [absent (st_prelude x),
      deref (st_manager x) (\<lambda>m. deref (st_prelude x) (\<lambda>g. deref (st_routing x) (\<lambda>r. Some (\<not> valid_file_manager_entry_spec m g r))))]))
      ''file_manager_invalid_spec'']"

definition directory_checks :: "stages \<Rightarrow> string option list" where
  "directory_checks x =
   [refuse (when_set (st_seh x) (any_of [absent (st_manager x),
      deref (st_seh x) (\<lambda>h. deref (st_manager x) (\<lambda>m. Some (\<not> valid_cwd_seh_spec h m)))])) ''cwd_seh_invalid_spec'',
    refuse (when_set (st_lock x) (any_of [absent (st_seh x),
      deref (st_lock x) (\<lambda>l. deref (st_seh x) (\<lambda>h. Some (\<not> valid_cwd_lock_spec l h)))])) ''cwd_lock_invalid_spec'',
    refuse (when_set (st_acquire x) (any_of [absent (st_lock x),
      deref (st_acquire x) (\<lambda>a. deref (st_lock x) (\<lambda>l. Some (\<not> valid_cwd_acquire_spec a l)))])) ''cwd_acquire_invalid_spec'',
    refuse (when_set (st_query x) (any_of [absent (st_acquire x),
      deref (st_query x) (\<lambda>q. deref (st_lock x) (\<lambda>l. Some (\<not> valid_cwd_query_spec q l))),
      deref (st_query x) (\<lambda>q. Some (\<not> cwd_query_directory (expected_directory q)))])) ''cwd_query_invalid_spec'',
    refuse (when_set (st_copy x) (any_of [absent (st_query x),
      deref (st_copy x) (\<lambda>c. deref (st_query x) (\<lambda>q. deref (st_lock x) (\<lambda>l. Some (cwd_copy_code c q l = None))))])) ''cwd_copy_invalid_spec'',
    refuse (when_set (st_ready x) (any_of [absent (st_completion x), absent (st_manager x), absent (st_seh x), absent (st_lock x),
      deref (st_ready x) (\<lambda>r. deref (st_completion x) (\<lambda>p. deref (st_lock x) (\<lambda>l. deref (st_seh x) (\<lambda>h. deref (st_manager x) (\<lambda>m.
        Some (file_manager_ready_code r p l h m = None))))))])) ''file_manager_ready_invalid_spec'']"

definition stream_checks :: "stages \<Rightarrow> string option list" where
  "stream_checks x =
   [refuse (when_set (st_tables x) (any_of [absent (st_ready x), absent (st_manager x),
      deref (st_tables x) (\<lambda>t. deref (st_manager x) (\<lambda>m. Some (cd_stream_tables_code t m = None)))])) ''cd_stream_tables_invalid_spec'',
    refuse (when_set (st_disk x) (any_of [absent (st_tables x),
      deref (st_disk x) (\<lambda>d. deref (st_tables x) (\<lambda>t. deref (st_manager x) (\<lambda>m. Some (cd_stream_disk_code d t m = None))))]))
      ''cd_stream_disk_invalid_spec'',
    refuse (when_set (st_allocation x) (any_of [absent (st_disk x),
      deref (st_allocation x) (\<lambda>a. deref (st_disk x) (\<lambda>d. deref (st_manager x) (\<lambda>m. deref (st_seh x) (\<lambda>h. deref (st_ready x) (\<lambda>r.
        Some (cd_stream_allocation_code a d m h r = None))))))])) ''cd_stream_allocation_invalid_spec'',
    refuse (when_set (st_completion x) (any_of [absent (st_copy x),
      deref (st_completion x) (\<lambda>p. deref (st_copy x) (\<lambda>c. deref (st_query x) (\<lambda>q. deref (st_lock x) (\<lambda>l.
        Some (cwd_return_code p c q l = None)))))])) ''cwd_return_invalid_spec'']"

definition frame_differs :: "suspended \<Rightarrow> frame_target_spec \<Rightarrow> bool" where
  "frame_differs s f \<longleftrightarrow> ft_image_base f \<noteq> child_base s \<or> unat (ft_image_size f) \<noteq> child_image_bytes s"

definition base_checks :: "'c loader_host \<Rightarrow> u32 \<Rightarrow> suspended \<Rightarrow> nat list \<Rightarrow> stages \<Rightarrow> string option list" where
  "base_checks host me s pins x =
   [refuse (when_set (st_application x) (any_of [absent (st_crt x), absent (st_proxy x),
      deref (st_application x) (\<lambda>a. deref (st_crt x) (\<lambda>c. Some (\<not> valid_application_entry_spec a c))),
      deref (st_application x) (\<lambda>a. deref (st_proxy x) (\<lambda>p. Some (reentry_rva a \<noteq> iat_target_rva p)))])) ''application_invalid_spec'',
    refuse (when_set (st_crt x) (any_of [absent (st_tail x),
      deref (st_crt x) (\<lambda>c. Some (\<not> valid_crt_startup_spec c \<or> frame_differs s (crt_io c)))])) ''crt_invalid_spec'',
    refuse (when_set (st_tail x) (any_of [absent (st_asi x), Some (st_bootstrap x \<noteq> None), Some (st_frame x \<noteq> None),
      deref (st_tail x) (\<lambda>t. Some (\<not> valid_startup_return_spec t \<or> frame_differs s (startup_frame t)))])) ''startup_return_invalid_spec'',
    refuse (when_set (st_frame x) (any_of [absent (st_bootstrap x),
      deref (st_frame x) (\<lambda>f. Some (\<not> valid_frame_target_spec f \<or> frame_differs s f))])) ''frame_invalid_spec'',
    refuse (when_set (st_bootstrap x) (any_of [absent (st_asi x),
      deref (st_bootstrap x) (\<lambda>b. Some (\<not> valid_bootstrap_lifecycle_spec b))])) ''bootstrap_invalid_spec'',
    refuse (when_set (st_asi x) (any_of [absent (st_binding x),
      deref (st_asi x) (\<lambda>a. Some (asi_bad (host_files host) pins a))])) ''asi_invalid_spec'',
    refuse (when_set (st_asi x) (deref (st_asi x) (\<lambda>a. Some (asi_path_bad (requested_path a))))) ''asi_invalid_path'',
    refuse (when_set (st_binding x) (any_of [absent (st_codec x), deref (st_binding x) (\<lambda>b. Some (binding_bad b))])) ''binding_invalid_spec'',
    (case st_binding x of None \<Rightarrow> Some [] | Some b \<Rightarrow> Some (binding_slots_refusal [] (binding_slots b))),
    refuse (when_set (st_codec x) (any_of [absent (st_startup x), absent (st_proxy x), deref (st_codec x) (\<lambda>c. Some (codec_bad c))]))
      ''codec_invalid_spec'',
    (case st_codec x of None \<Rightarrow> Some [] | Some c \<Rightarrow> deref (st_proxy x) (\<lambda>p.
       Some (codec_pins_refusal (host_files host) pins (proxy_module p) [] (codec_modules c)))),
    refuse (when_set (st_proxy x) (any_of [absent (st_entry x), deref (st_proxy x) (\<lambda>p. Some (proxy_bad pins s p))])) ''proxy_invalid_spec'',
    refuse (when_set (st_startup x) (any_of [absent (st_proxy x), deref (st_proxy x) (\<lambda>p. Some (iat_rva p mod 4 \<noteq> 0)),
      deref (st_startup x) (\<lambda>u. Some (startup_anchors u = [] \<or> length (startup_anchors u) > 4))])) ''startup_invalid_spec'',
    (case st_startup x of None \<Rightarrow> Some [] | Some u \<Rightarrow> Some (startup_samples_refusal (host_os host) me s [] (startup_anchors u))),
    (case st_entry x of None \<Rightarrow> Some [] | Some e \<Rightarrow> Some (entry_refusal (host_os host) me s e))]"

definition run_admission :: "'c loader_host \<Rightarrow> u32 \<Rightarrow> suspended \<Rightarrow> nat \<Rightarrow> nat list \<Rightarrow> loader_limits \<Rightarrow> stages \<Rightarrow> outcome" where
  "run_admission host me s executable pins limits x = first_refusal
     (general_checks host me s executable pins limits x @ startup_checks x @ directory_checks x @ stream_checks x
      @ base_checks host me s pins x)"


section \<open>Starting the observation\<close>

text \<open>The entry breakpoint: debug register 0 of the main thread, written only when no debug register is in use, and read back.\<close>

definition arm_entry :: "'c loader_host \<Rightarrow> u32 \<Rightarrow> suspended \<Rightarrow> entry_stop_spec \<Rightarrow> 'c \<Rightarrow> string \<times> 'c" where
  "arm_entry host me s e st =
    (case host_get host st of None \<Rightarrow> (''entry_context_read_failed'', st)
     | Some c \<Rightarrow>
       let start = child_base s + stop_entry_rva e; dr = c_dr c in
       if dr ! 0 \<noteq> 0 \<or> dr ! 1 \<noteq> 0 \<or> dr ! 2 \<noteq> 0 \<or> dr ! 3 \<noteq> 0 \<or> dr ! 5 AND 0xffff20ff \<noteq> 0 \<or> c_eflags c AND 0x100 \<noteq> 0
       then (''entry_debug_registers_busy'', st)
       else if child_copy (host_os host) me s (stop_entry_rva e) 16 \<noteq> Some (entry_expected e)
       then (''entry_preinitialization_drift'', st)
       else (case host_set host (c\<lparr>c_dr := dr[0 := start, 4 := 0, 5 := dr ! 5 OR 1]\<rparr>) st of (ok, st1) \<Rightarrow>
         if \<not> ok then (''entry_context_write_failed'', st1)
         else (case host_get host st1 of None \<Rightarrow> (''entry_breakpoint_arm_failed'', st1)
           | Some v \<Rightarrow> if c_dr v ! 0 \<noteq> start \<or> c_dr v ! 5 AND 0xffff20ff \<noteq> 1 then (''entry_breakpoint_arm_failed'', st1) else ([], st1))))"

text \<open>A read of at most 16 bytes inside one region of an image of the child.\<close>

definition read_image :: "observer_api \<Rightarrow> u32 \<Rightarrow> u32 \<Rightarrow> nat \<Rightarrow> bool \<Rightarrow> bytes option" where
  "read_image os base rva n code =
    (if base = 0 \<or> n = 0 \<or> n > 16 \<or> rva > UINT32_MAX - base \<or> n > unat (UINT32_MAX - (base + rva)) then None
     else let start = base + rva in
       (case query_region os start of None \<Rightarrow> None
        | Some r \<Rightarrow>
          if region_type r \<noteq> MEM_IMAGE \<or> region_state r \<noteq> MEM_COMMIT \<or> allocation_base r \<noteq> base
             \<or> region_protect r AND 0x101 \<noteq> 0 \<or> (code \<and> region_protect r AND 0xf0 = 0)
             \<or> start < base_address r \<or> start - base_address r \<ge> region_size r
             \<or> n > unat (region_size r - (start - base_address r)) then None
          else (case read_process os start n of (ok, got, buffer) \<Rightarrow> if ok \<and> got = n then Some (map buffer [0..<n]) else None)))"

text \<open>The first sample of the frame target. The match looks at the bytes of a read only when it succeeded; otherwise they are zero here.\<close>

definition sample_frame_target :: "'c loader_host \<Rightarrow> suspended \<Rightarrow> u32 \<Rightarrow> frame_target_spec \<Rightarrow> frame_target_sample" where
  "sample_frame_target host s event_index f =
    (let call = read_image (host_os host) (child_base s) (call_rva f) 5 True;
         target = read_image (host_os host) (child_base s) (target_rva f) 16 True in
     \<lparr>sample_call = (case call of None \<Rightarrow> replicate 5 0 | Some bs \<Rightarrow> bs),
      sample_prefix = (case target of None \<Rightarrow> replicate 16 0 | Some bs \<Rightarrow> bs),
      sample_thread = host_thread_id host, sample_event = event_index, attempted = True,
      call_read = (call \<noteq> None), target_read = (target \<noteq> None)\<rparr>)"

text \<open>
  How the start ends: with a reason and whether the end of the child was confirmed, or with the child ready to be
  advanced; \<open>Crashed\<close> is a null dereference. \<open>finish\<close> stops the child first.
\<close>

datatype 'c start = Stopped string bool 'c | Started 'c | Crashed

definition finish :: "observer_api \<Rightarrow> u32 \<Rightarrow> string \<Rightarrow> suspended \<Rightarrow> 'c \<Rightarrow> ('c start \<times> suspended) option" where
  "finish os me reason s st =
    (if \<not> child_created s then Some (Stopped reason False st, s)
     else case stop_child os me s of None \<Rightarrow> None
       | Some (ok, s1) \<Rightarrow> Some (Stopped (if ok then reason else ''loader_exit_unconfirmed'') ok st, s1))"

definition run_impl ::
  "'c loader_host \<Rightarrow> u32 \<Rightarrow> suspended \<Rightarrow> nat \<Rightarrow> nat list \<Rightarrow> loader_limits \<Rightarrow> stages \<Rightarrow> 'c \<Rightarrow> ('c start \<times> suspended) option" where
  "run_impl host me s executable pins limits x st =
    (if me \<noteq> child_owner_thread s then Some (Stopped ''loader_owner_thread'' False st, s)
     else case run_admission host me s executable pins limits x of
       Null_pointer \<Rightarrow> Some (Crashed, s)
     | Refused reason \<Rightarrow> finish (host_os host) me reason s st
     | Admitted \<Rightarrow>
       (case (case st_entry x of None \<Rightarrow> ([], st) | Some e \<Rightarrow> arm_entry host me s e st) of (reason, st1) \<Rightarrow>
         if reason \<noteq> [] then finish (host_os host) me reason s st1
         else if (case st_frame x of None \<Rightarrow> False | Some f \<Rightarrow> \<not> matches_frame_target f (sample_frame_target host s 0 f))
         then finish (host_os host) me ''frame_create_sample_rejected'' s st1
         else Some (Started st1, s\<lparr>child_loader_started := True\<rparr>)))"

section \<open>The entry points\<close>

definition run where
  "run host me s executable pins limits =
    run_impl host me s executable pins limits
      no_stages"

definition run_to_entry where
  "run_to_entry host me s executable pins limits entry_s =
    run_impl host me s executable pins limits
      (no_stages\<lparr>st_entry := Some entry_s\<rparr>)"

definition run_to_proxy_return where
  "run_to_proxy_return host me s executable pins limits entry_s proxy_s =
    run_impl host me s executable pins limits
      (no_stages\<lparr>st_entry := Some entry_s, st_proxy := Some proxy_s\<rparr>)"

definition run_to_startup_call where
  "run_to_startup_call host me s executable pins limits entry_s proxy_s startup_s =
    run_impl host me s executable pins limits
      (no_stages\<lparr>st_entry := Some entry_s, st_proxy := Some proxy_s, st_startup := Some startup_s\<rparr>)"

definition run_to_codec_return where
  "run_to_codec_return host me s executable pins limits entry_s proxy_s startup_s codec_s =
    run_impl host me s executable pins limits
      (no_stages\<lparr>st_entry := Some entry_s, st_proxy := Some proxy_s, st_startup := Some startup_s,
         st_codec := Some codec_s\<rparr>)"

definition run_to_codec_bindings where
  "run_to_codec_bindings host me s executable pins limits entry_s proxy_s startup_s codec_s binding_s =
    run_impl host me s executable pins limits
      (no_stages\<lparr>st_entry := Some entry_s, st_proxy := Some proxy_s, st_startup := Some startup_s,
         st_codec := Some codec_s, st_binding := Some binding_s\<rparr>)"

definition run_to_asi_return where
  "run_to_asi_return host me s executable pins limits entry_s proxy_s startup_s codec_s binding_s asi_s =
    run_impl host me s executable pins limits
      (no_stages\<lparr>st_entry := Some entry_s, st_proxy := Some proxy_s, st_startup := Some startup_s,
         st_codec := Some codec_s, st_binding := Some binding_s, st_asi := Some asi_s\<rparr>)"

definition run_bootstrap_lifecycle where
  "run_bootstrap_lifecycle host me s executable pins limits entry_s proxy_s startup_s codec_s binding_s asi_s
     bootstrap_s =
    run_impl host me s executable pins limits
      (no_stages\<lparr>st_entry := Some entry_s, st_proxy := Some proxy_s, st_startup := Some startup_s,
         st_codec := Some codec_s, st_binding := Some binding_s, st_asi := Some asi_s,
         st_bootstrap := Some bootstrap_s\<rparr>)"

definition run_frame_target_observation where
  "run_frame_target_observation host me s executable pins limits entry_s proxy_s startup_s codec_s binding_s asi_s
     bootstrap_s frame_s =
    run_impl host me s executable pins limits
      (no_stages\<lparr>st_entry := Some entry_s, st_proxy := Some proxy_s, st_startup := Some startup_s,
         st_codec := Some codec_s, st_binding := Some binding_s, st_asi := Some asi_s,
         st_bootstrap := Some bootstrap_s, st_frame := Some frame_s\<rparr>)"

definition run_to_startup_return where
  "run_to_startup_return host me s executable pins limits entry_s proxy_s startup_s codec_s binding_s asi_s tail_s
     =
    run_impl host me s executable pins limits
      (no_stages\<lparr>st_entry := Some entry_s, st_proxy := Some proxy_s, st_startup := Some startup_s,
         st_codec := Some codec_s, st_binding := Some binding_s, st_asi := Some asi_s,
         st_tail := Some tail_s\<rparr>)"

definition run_to_crt_startup where
  "run_to_crt_startup host me s executable pins limits entry_s proxy_s startup_s codec_s binding_s asi_s tail_s
     crt_s =
    run_impl host me s executable pins limits
      (no_stages\<lparr>st_entry := Some entry_s, st_proxy := Some proxy_s, st_startup := Some startup_s,
         st_codec := Some codec_s, st_binding := Some binding_s, st_asi := Some asi_s, st_tail := Some tail_s,
         st_crt := Some crt_s\<rparr>)"

definition run_to_application_entry where
  "run_to_application_entry host me s executable pins limits entry_s proxy_s startup_s codec_s binding_s asi_s
     tail_s crt_s application_s =
    run_impl host me s executable pins limits
      (no_stages\<lparr>st_entry := Some entry_s, st_proxy := Some proxy_s, st_startup := Some startup_s,
         st_codec := Some codec_s, st_binding := Some binding_s, st_asi := Some asi_s, st_tail := Some tail_s,
         st_crt := Some crt_s, st_application := Some application_s\<rparr>)"

definition run_to_platform_startup where
  "run_to_platform_startup host me s executable pins limits entry_s proxy_s startup_s codec_s binding_s asi_s
     tail_s crt_s application_s platform_s =
    run_impl host me s executable pins limits
      (no_stages\<lparr>st_entry := Some entry_s, st_proxy := Some proxy_s, st_startup := Some startup_s,
         st_codec := Some codec_s, st_binding := Some binding_s, st_asi := Some asi_s, st_tail := Some tail_s,
         st_crt := Some crt_s, st_application := Some application_s, st_platform := Some platform_s\<rparr>)"

definition run_platform_suppression where
  "run_platform_suppression host me s executable pins limits entry_s proxy_s startup_s codec_s binding_s asi_s
     tail_s crt_s application_s platform_s suppression_s =
    run_impl host me s executable pins limits
      (no_stages\<lparr>st_entry := Some entry_s, st_proxy := Some proxy_s, st_startup := Some startup_s,
         st_codec := Some codec_s, st_binding := Some binding_s, st_asi := Some asi_s, st_tail := Some tail_s,
         st_crt := Some crt_s, st_application := Some application_s, st_platform := Some platform_s,
         st_suppression := Some suppression_s\<rparr>)"

definition run_instance_startup where
  "run_instance_startup host me s executable pins limits entry_s proxy_s startup_s codec_s binding_s asi_s tail_s
     crt_s application_s platform_s suppression_s instance_s =
    run_impl host me s executable pins limits
      (no_stages\<lparr>st_entry := Some entry_s, st_proxy := Some proxy_s, st_startup := Some startup_s,
         st_codec := Some codec_s, st_binding := Some binding_s, st_asi := Some asi_s, st_tail := Some tail_s,
         st_crt := Some crt_s, st_application := Some application_s, st_platform := Some platform_s,
         st_suppression := Some suppression_s, st_instance := Some instance_s\<rparr>)"

definition run_event_dispatch where
  "run_event_dispatch host me s executable pins limits entry_s proxy_s startup_s codec_s binding_s asi_s tail_s
     crt_s application_s platform_s suppression_s instance_s dispatch_s =
    run_impl host me s executable pins limits
      (no_stages\<lparr>st_entry := Some entry_s, st_proxy := Some proxy_s, st_startup := Some startup_s,
         st_codec := Some codec_s, st_binding := Some binding_s, st_asi := Some asi_s, st_tail := Some tail_s,
         st_crt := Some crt_s, st_application := Some application_s, st_platform := Some platform_s,
         st_suppression := Some suppression_s, st_instance := Some instance_s,
         st_dispatch := Some dispatch_s\<rparr>)"

definition run_application_routing where
  "run_application_routing host me s executable pins limits entry_s proxy_s startup_s codec_s binding_s asi_s
     tail_s crt_s application_s platform_s suppression_s instance_s dispatch_s routing_s =
    run_impl host me s executable pins limits
      (no_stages\<lparr>st_entry := Some entry_s, st_proxy := Some proxy_s, st_startup := Some startup_s,
         st_codec := Some codec_s, st_binding := Some binding_s, st_asi := Some asi_s, st_tail := Some tail_s,
         st_crt := Some crt_s, st_application := Some application_s, st_platform := Some platform_s,
         st_suppression := Some suppression_s, st_instance := Some instance_s, st_dispatch := Some dispatch_s,
         st_routing := Some routing_s\<rparr>)"

definition run_game_prelude where
  "run_game_prelude host me s executable pins limits entry_s proxy_s startup_s codec_s binding_s asi_s tail_s
     crt_s application_s platform_s suppression_s instance_s dispatch_s routing_s prelude_s =
    run_impl host me s executable pins limits
      (no_stages\<lparr>st_entry := Some entry_s, st_proxy := Some proxy_s, st_startup := Some startup_s,
         st_codec := Some codec_s, st_binding := Some binding_s, st_asi := Some asi_s, st_tail := Some tail_s,
         st_crt := Some crt_s, st_application := Some application_s, st_platform := Some platform_s,
         st_suppression := Some suppression_s, st_instance := Some instance_s, st_dispatch := Some dispatch_s,
         st_routing := Some routing_s, st_prelude := Some prelude_s\<rparr>)"

definition run_file_manager_entry where
  "run_file_manager_entry host me s executable pins limits entry_s proxy_s startup_s codec_s binding_s asi_s
     tail_s crt_s application_s platform_s suppression_s instance_s dispatch_s routing_s prelude_s manager_s =
    run_impl host me s executable pins limits
      (no_stages\<lparr>st_entry := Some entry_s, st_proxy := Some proxy_s, st_startup := Some startup_s,
         st_codec := Some codec_s, st_binding := Some binding_s, st_asi := Some asi_s, st_tail := Some tail_s,
         st_crt := Some crt_s, st_application := Some application_s, st_platform := Some platform_s,
         st_suppression := Some suppression_s, st_instance := Some instance_s, st_dispatch := Some dispatch_s,
         st_routing := Some routing_s, st_prelude := Some prelude_s, st_manager := Some manager_s\<rparr>)"

definition run_cwd_seh where
  "run_cwd_seh host me s executable pins limits entry_s proxy_s startup_s codec_s binding_s asi_s tail_s crt_s
     application_s platform_s suppression_s instance_s dispatch_s routing_s prelude_s manager_s seh_s =
    run_impl host me s executable pins limits
      (no_stages\<lparr>st_entry := Some entry_s, st_proxy := Some proxy_s, st_startup := Some startup_s,
         st_codec := Some codec_s, st_binding := Some binding_s, st_asi := Some asi_s, st_tail := Some tail_s,
         st_crt := Some crt_s, st_application := Some application_s, st_platform := Some platform_s,
         st_suppression := Some suppression_s, st_instance := Some instance_s, st_dispatch := Some dispatch_s,
         st_routing := Some routing_s, st_prelude := Some prelude_s, st_manager := Some manager_s,
         st_seh := Some seh_s\<rparr>)"

definition run_cwd_lock where
  "run_cwd_lock host me s executable pins limits entry_s proxy_s startup_s codec_s binding_s asi_s tail_s crt_s
     application_s platform_s suppression_s instance_s dispatch_s routing_s prelude_s manager_s seh_s lock_s =
    run_impl host me s executable pins limits
      (no_stages\<lparr>st_entry := Some entry_s, st_proxy := Some proxy_s, st_startup := Some startup_s,
         st_codec := Some codec_s, st_binding := Some binding_s, st_asi := Some asi_s, st_tail := Some tail_s,
         st_crt := Some crt_s, st_application := Some application_s, st_platform := Some platform_s,
         st_suppression := Some suppression_s, st_instance := Some instance_s, st_dispatch := Some dispatch_s,
         st_routing := Some routing_s, st_prelude := Some prelude_s, st_manager := Some manager_s,
         st_seh := Some seh_s, st_lock := Some lock_s\<rparr>)"

definition run_cwd_acquire where
  "run_cwd_acquire host me s executable pins limits entry_s proxy_s startup_s codec_s binding_s asi_s tail_s crt_s
     application_s platform_s suppression_s instance_s dispatch_s routing_s prelude_s manager_s seh_s lock_s
     acquire_s =
    run_impl host me s executable pins limits
      (no_stages\<lparr>st_entry := Some entry_s, st_proxy := Some proxy_s, st_startup := Some startup_s,
         st_codec := Some codec_s, st_binding := Some binding_s, st_asi := Some asi_s, st_tail := Some tail_s,
         st_crt := Some crt_s, st_application := Some application_s, st_platform := Some platform_s,
         st_suppression := Some suppression_s, st_instance := Some instance_s, st_dispatch := Some dispatch_s,
         st_routing := Some routing_s, st_prelude := Some prelude_s, st_manager := Some manager_s,
         st_seh := Some seh_s, st_lock := Some lock_s, st_acquire := Some acquire_s\<rparr>)"

definition run_cwd_query where
  "run_cwd_query host me s executable pins limits entry_s proxy_s startup_s codec_s binding_s asi_s tail_s crt_s
     application_s platform_s suppression_s instance_s dispatch_s routing_s prelude_s manager_s seh_s lock_s
     acquire_s query_s =
    run_impl host me s executable pins limits
      (no_stages\<lparr>st_entry := Some entry_s, st_proxy := Some proxy_s, st_startup := Some startup_s,
         st_codec := Some codec_s, st_binding := Some binding_s, st_asi := Some asi_s, st_tail := Some tail_s,
         st_crt := Some crt_s, st_application := Some application_s, st_platform := Some platform_s,
         st_suppression := Some suppression_s, st_instance := Some instance_s, st_dispatch := Some dispatch_s,
         st_routing := Some routing_s, st_prelude := Some prelude_s, st_manager := Some manager_s,
         st_seh := Some seh_s, st_lock := Some lock_s, st_acquire := Some acquire_s,
         st_query := Some query_s\<rparr>)"

definition run_cwd_copy where
  "run_cwd_copy host me s executable pins limits entry_s proxy_s startup_s codec_s binding_s asi_s tail_s crt_s
     application_s platform_s suppression_s instance_s dispatch_s routing_s prelude_s manager_s seh_s lock_s
     acquire_s query_s copy_s =
    run_impl host me s executable pins limits
      (no_stages\<lparr>st_entry := Some entry_s, st_proxy := Some proxy_s, st_startup := Some startup_s,
         st_codec := Some codec_s, st_binding := Some binding_s, st_asi := Some asi_s, st_tail := Some tail_s,
         st_crt := Some crt_s, st_application := Some application_s, st_platform := Some platform_s,
         st_suppression := Some suppression_s, st_instance := Some instance_s, st_dispatch := Some dispatch_s,
         st_routing := Some routing_s, st_prelude := Some prelude_s, st_manager := Some manager_s,
         st_seh := Some seh_s, st_lock := Some lock_s, st_acquire := Some acquire_s, st_query := Some query_s,
         st_copy := Some copy_s\<rparr>)"

definition run_cwd_return where
  "run_cwd_return host me s executable pins limits entry_s proxy_s startup_s codec_s binding_s asi_s tail_s crt_s
     application_s platform_s suppression_s instance_s dispatch_s routing_s prelude_s manager_s seh_s lock_s
     acquire_s query_s copy_s completion_s =
    run_impl host me s executable pins limits
      (no_stages\<lparr>st_entry := Some entry_s, st_proxy := Some proxy_s, st_startup := Some startup_s,
         st_codec := Some codec_s, st_binding := Some binding_s, st_asi := Some asi_s, st_tail := Some tail_s,
         st_crt := Some crt_s, st_application := Some application_s, st_platform := Some platform_s,
         st_suppression := Some suppression_s, st_instance := Some instance_s, st_dispatch := Some dispatch_s,
         st_routing := Some routing_s, st_prelude := Some prelude_s, st_manager := Some manager_s,
         st_seh := Some seh_s, st_lock := Some lock_s, st_acquire := Some acquire_s, st_query := Some query_s,
         st_copy := Some copy_s, st_completion := Some completion_s\<rparr>)"

definition run_file_manager_ready where
  "run_file_manager_ready host me s executable pins limits entry_s proxy_s startup_s codec_s binding_s asi_s
     tail_s crt_s application_s platform_s suppression_s instance_s dispatch_s routing_s prelude_s manager_s
     seh_s lock_s acquire_s query_s copy_s completion_s ready_s =
    run_impl host me s executable pins limits
      (no_stages\<lparr>st_entry := Some entry_s, st_proxy := Some proxy_s, st_startup := Some startup_s,
         st_codec := Some codec_s, st_binding := Some binding_s, st_asi := Some asi_s, st_tail := Some tail_s,
         st_crt := Some crt_s, st_application := Some application_s, st_platform := Some platform_s,
         st_suppression := Some suppression_s, st_instance := Some instance_s, st_dispatch := Some dispatch_s,
         st_routing := Some routing_s, st_prelude := Some prelude_s, st_manager := Some manager_s,
         st_seh := Some seh_s, st_lock := Some lock_s, st_acquire := Some acquire_s, st_query := Some query_s,
         st_copy := Some copy_s, st_completion := Some completion_s, st_ready := Some ready_s\<rparr>)"

definition run_cd_stream_tables where
  "run_cd_stream_tables host me s executable pins limits entry_s proxy_s startup_s codec_s binding_s asi_s tail_s
     crt_s application_s platform_s suppression_s instance_s dispatch_s routing_s prelude_s manager_s seh_s
     lock_s acquire_s query_s copy_s completion_s ready_s tables_s =
    run_impl host me s executable pins limits
      (no_stages\<lparr>st_entry := Some entry_s, st_proxy := Some proxy_s, st_startup := Some startup_s,
         st_codec := Some codec_s, st_binding := Some binding_s, st_asi := Some asi_s, st_tail := Some tail_s,
         st_crt := Some crt_s, st_application := Some application_s, st_platform := Some platform_s,
         st_suppression := Some suppression_s, st_instance := Some instance_s, st_dispatch := Some dispatch_s,
         st_routing := Some routing_s, st_prelude := Some prelude_s, st_manager := Some manager_s,
         st_seh := Some seh_s, st_lock := Some lock_s, st_acquire := Some acquire_s, st_query := Some query_s,
         st_copy := Some copy_s, st_completion := Some completion_s, st_ready := Some ready_s,
         st_tables := Some tables_s\<rparr>)"

definition run_cd_stream_disk where
  "run_cd_stream_disk host me s executable pins limits entry_s proxy_s startup_s codec_s binding_s asi_s tail_s
     crt_s application_s platform_s suppression_s instance_s dispatch_s routing_s prelude_s manager_s seh_s
     lock_s acquire_s query_s copy_s completion_s ready_s tables_s disk_s =
    run_impl host me s executable pins limits
      (no_stages\<lparr>st_entry := Some entry_s, st_proxy := Some proxy_s, st_startup := Some startup_s,
         st_codec := Some codec_s, st_binding := Some binding_s, st_asi := Some asi_s, st_tail := Some tail_s,
         st_crt := Some crt_s, st_application := Some application_s, st_platform := Some platform_s,
         st_suppression := Some suppression_s, st_instance := Some instance_s, st_dispatch := Some dispatch_s,
         st_routing := Some routing_s, st_prelude := Some prelude_s, st_manager := Some manager_s,
         st_seh := Some seh_s, st_lock := Some lock_s, st_acquire := Some acquire_s, st_query := Some query_s,
         st_copy := Some copy_s, st_completion := Some completion_s, st_ready := Some ready_s,
         st_tables := Some tables_s, st_disk := Some disk_s\<rparr>)"

definition run_cd_stream_allocation where
  "run_cd_stream_allocation host me s executable pins limits entry_s proxy_s startup_s codec_s binding_s asi_s
     tail_s crt_s application_s platform_s suppression_s instance_s dispatch_s routing_s prelude_s manager_s
     seh_s lock_s acquire_s query_s copy_s completion_s ready_s tables_s disk_s allocation_s =
    run_impl host me s executable pins limits
      (no_stages\<lparr>st_entry := Some entry_s, st_proxy := Some proxy_s, st_startup := Some startup_s,
         st_codec := Some codec_s, st_binding := Some binding_s, st_asi := Some asi_s, st_tail := Some tail_s,
         st_crt := Some crt_s, st_application := Some application_s, st_platform := Some platform_s,
         st_suppression := Some suppression_s, st_instance := Some instance_s, st_dispatch := Some dispatch_s,
         st_routing := Some routing_s, st_prelude := Some prelude_s, st_manager := Some manager_s,
         st_seh := Some seh_s, st_lock := Some lock_s, st_acquire := Some acquire_s, st_query := Some query_s,
         st_copy := Some copy_s, st_completion := Some completion_s, st_ready := Some ready_s,
         st_tables := Some tables_s, st_disk := Some disk_s, st_allocation := Some allocation_s\<rparr>)"

definition run_cd_stream_channels where
  "run_cd_stream_channels host me s executable pins limits entry_s proxy_s startup_s codec_s binding_s asi_s
     tail_s crt_s application_s platform_s suppression_s instance_s dispatch_s routing_s prelude_s manager_s
     seh_s lock_s acquire_s query_s copy_s completion_s ready_s tables_s disk_s allocation_s channels_s =
    run_impl host me s executable pins limits
      (no_stages\<lparr>st_entry := Some entry_s, st_proxy := Some proxy_s, st_startup := Some startup_s,
         st_codec := Some codec_s, st_binding := Some binding_s, st_asi := Some asi_s, st_tail := Some tail_s,
         st_crt := Some crt_s, st_application := Some application_s, st_platform := Some platform_s,
         st_suppression := Some suppression_s, st_instance := Some instance_s, st_dispatch := Some dispatch_s,
         st_routing := Some routing_s, st_prelude := Some prelude_s, st_manager := Some manager_s,
         st_seh := Some seh_s, st_lock := Some lock_s, st_acquire := Some acquire_s, st_query := Some query_s,
         st_copy := Some copy_s, st_completion := Some completion_s, st_ready := Some ready_s,
         st_tables := Some tables_s, st_disk := Some disk_s, st_allocation := Some allocation_s,
         st_channels := Some channels_s\<rparr>)"


section \<open>What admission guarantees\<close>

lemma refuse_simps [simp]:
  "refuse c (r # rs) = None \<longleftrightarrow> c = None" "refuse c (r # rs) = Some [] \<longleftrightarrow> c = Some False"
  by (auto simp: refuse_def)

lemma pointer_simps [simp]:
  "absent p \<noteq> None" "absent p = Some False \<longleftrightarrow> p \<noteq> None"
  "when_set p c = None \<longleftrightarrow> p \<noteq> None \<and> c = None" "when_set p c = Some False \<longleftrightarrow> p = None \<or> c = Some False"
  "deref p f = None \<longleftrightarrow> p = None \<or> (\<exists>a. p = Some a \<and> f a = None)"
  "deref p f = Some b \<longleftrightarrow> (\<exists>a. p = Some a \<and> f a = Some b)"
  by (auto simp: absent_def when_set_def deref_def split: option.splits)

lemma any_of_simps [simp]:
  "any_of (c # cs) = None \<longleftrightarrow> c = None \<or> (c = Some False \<and> any_of cs = None)"
  "any_of (c # cs) = Some False \<longleftrightarrow> c = Some False \<and> any_of cs = Some False"
  by (auto split: option.splits)

declare any_of.simps(2) [simp del]

lemma first_refusal_Admitted: "first_refusal cs = Admitted \<longleftrightarrow> (\<forall>c \<in> set cs. c = Some [])"
  by (induction cs) (auto split: option.splits)

lemma no_null_Cons:
  "c \<noteq> None \<Longrightarrow> (c = Some [] \<Longrightarrow> first_refusal cs \<noteq> Null_pointer) \<Longrightarrow> first_refusal (c # cs) \<noteq> Null_pointer"
  by (auto split: if_splits)

lemma no_null_Nil: "first_refusal [] \<noteq> Null_pointer"
  by simp

lemma no_null_append:
  "first_refusal xs \<noteq> Null_pointer \<Longrightarrow> (\<forall>c \<in> set xs. c = Some [] \<Longrightarrow> first_refusal ys \<noteq> Null_pointer) \<Longrightarrow> first_refusal (xs @ ys) \<noteq> Null_pointer"
  by (induction xs) (auto split: option.splits)

text \<open>Within each group, what a check dereferences was tested by the check itself or by the checks before it.\<close>

lemma general_checks_no_null: "first_refusal (general_checks host me s executable pins limits x) \<noteq> Null_pointer"
  unfolding general_checks_def by (intro no_null_Cons no_null_Nil) auto

lemma startup_checks_no_null: "first_refusal (startup_checks x) \<noteq> Null_pointer"
  unfolding startup_checks_def by (intro no_null_Cons no_null_Nil) auto

lemma directory_checks_no_null: "first_refusal (directory_checks x) \<noteq> Null_pointer"
  unfolding directory_checks_def by (intro no_null_Cons no_null_Nil) auto

lemma directory_checks_present:
  assumes "\<forall>c \<in> set (directory_checks x). c = Some []"
  shows "st_ready x \<noteq> None \<Longrightarrow> st_seh x \<noteq> None" "st_copy x \<noteq> None \<Longrightarrow> st_query x \<noteq> None"
    "st_query x \<noteq> None \<Longrightarrow> st_lock x \<noteq> None"
  using assms unfolding directory_checks_def by auto

lemma stream_checks_no_null:
  assumes "\<forall>c \<in> set (directory_checks x). c = Some []"
  shows "first_refusal (stream_checks x) \<noteq> Null_pointer"
  unfolding stream_checks_def using directory_checks_present[OF assms] by (intro no_null_Cons no_null_Nil) auto

lemma base_checks_no_null: "first_refusal (base_checks host me s pins x) \<noteq> Null_pointer"
  unfolding base_checks_def by (intro no_null_Cons no_null_Nil) (auto split: option.splits)

lemma admission_no_null: "run_admission host me s executable pins limits x \<noteq> Null_pointer"
  unfolding run_admission_def
  by (intro no_null_append general_checks_no_null startup_checks_no_null directory_checks_no_null stream_checks_no_null
      base_checks_no_null) simp_all


text \<open>The stages in the order in which they build on each other, and whether each is given.\<close>

definition stage_chain :: "stages \<Rightarrow> bool list" where
  "stage_chain x = [st_entry x \<noteq> None, st_proxy x \<noteq> None, st_startup x \<noteq> None, st_codec x \<noteq> None, st_binding x \<noteq> None,
     st_asi x \<noteq> None, st_tail x \<noteq> None, st_crt x \<noteq> None, st_application x \<noteq> None, st_platform x \<noteq> None,
     st_suppression x \<noteq> None, st_instance x \<noteq> None, st_dispatch x \<noteq> None, st_routing x \<noteq> None, st_prelude x \<noteq> None,
     st_manager x \<noteq> None, st_seh x \<noteq> None, st_lock x \<noteq> None, st_acquire x \<noteq> None, st_query x \<noteq> None, st_copy x \<noteq> None,
     st_completion x \<noteq> None, st_ready x \<noteq> None, st_tables x \<noteq> None, st_disk x \<noteq> None, st_allocation x \<noteq> None,
     st_channels x \<noteq> None]"

text \<open>Every recipe is valid against the recipes it builds on.\<close>

definition links :: "'a option \<Rightarrow> 'b option \<Rightarrow> ('a \<Rightarrow> 'b \<Rightarrow> bool) \<Rightarrow> bool" where
  "links p q P = (case p of None \<Rightarrow> True | Some a \<Rightarrow> (case q of None \<Rightarrow> False | Some b \<Rightarrow> P a b))"

definition startup_recipes_valid :: "suspended \<Rightarrow> stages \<Rightarrow> bool" where
  "startup_recipes_valid s x \<longleftrightarrow>
     links (st_tail x) (st_asi x) (\<lambda>t a. valid_startup_return_spec t \<and> ft_image_base (startup_frame t) = child_base s)
     \<and> links (st_crt x) (st_tail x) (\<lambda>c t. valid_crt_startup_spec c \<and> ft_image_base (crt_io c) = child_base s)
     \<and> links (st_application x) (st_crt x) valid_application_entry_spec
     \<and> links (st_platform x) (st_crt x) valid_platform_startup_spec
     \<and> links (st_suppression x) (st_platform x) (\<lambda>u p. links (Some u) (st_crt x) (\<lambda>u c. valid_platform_suppression_spec u p c))
     \<and> links (st_instance x) (st_suppression x) (\<lambda>i u. links (st_platform x) (st_crt x) (\<lambda>p c. valid_instance_startup_spec i p c u))
     \<and> links (st_dispatch x) (st_instance x) valid_event_dispatch_spec
     \<and> links (st_routing x) (st_dispatch x) valid_application_routing_spec
     \<and> links (st_prelude x) (st_routing x) valid_game_prelude_spec
     \<and> links (st_manager x) (st_prelude x) (\<lambda>m g. links (Some m) (st_routing x) (\<lambda>m r. valid_file_manager_entry_spec m g r))"

definition stage_recipes_valid :: "stages \<Rightarrow> bool" where
  "stage_recipes_valid x \<longleftrightarrow>
     links (st_seh x) (st_manager x) valid_cwd_seh_spec
     \<and> links (st_lock x) (st_seh x) valid_cwd_lock_spec
     \<and> links (st_acquire x) (st_lock x) valid_cwd_acquire_spec
     \<and> links (st_query x) (st_lock x) (\<lambda>q l. valid_cwd_query_spec q l \<and> cwd_query_directory (expected_directory q))
     \<and> links (st_copy x) (st_query x) (\<lambda>c q. links (Some c) (st_lock x) (\<lambda>c l. cwd_copy_code c q l \<noteq> None))
     \<and> links (st_completion x) (st_copy x) (\<lambda>p c. links (st_query x) (st_lock x) (\<lambda>q l. cwd_return_code p c q l \<noteq> None))
     \<and> links (st_ready x) (st_completion x) (\<lambda>r p. links (st_lock x) (st_seh x) (\<lambda>l h. links (st_lock x) (st_manager x) (\<lambda>l m.
         file_manager_ready_code r p l h m \<noteq> None)))
     \<and> links (st_tables x) (st_manager x) (\<lambda>t m. cd_stream_tables_code t m \<noteq> None)
     \<and> links (st_disk x) (st_tables x) (\<lambda>d t. links (Some d) (st_manager x) (\<lambda>d m. cd_stream_disk_code d t m \<noteq> None))
     \<and> links (st_allocation x) (st_disk x) (\<lambda>a d. links (st_manager x) (st_seh x) (\<lambda>m h. links (Some a) (st_ready x) (\<lambda>a r.
         cd_stream_allocation_code a d m h r \<noteq> None)))
     \<and> links (st_channels x) (st_tables x) (\<lambda>c t. links (Some c) (st_manager x) (\<lambda>c m. cd_stream_channels_code c t m \<noteq> None))"

lemma links_simps [simp]:
  "links p q P \<longleftrightarrow> (\<forall>a. p = Some a \<longrightarrow> (\<exists>b. q = Some b \<and> P a b))"
  by (auto simp: links_def split: option.splits)

lemma chain_sorted_Cons: "sorted_wrt (\<lambda>a b. b \<longrightarrow> a) (p # q # cs) \<longleftrightarrow> (q \<longrightarrow> p) \<and> sorted_wrt (\<lambda>a b. b \<longrightarrow> a) (q # cs)"
  by (rule sorted_wrt2) (auto intro: transpI)

lemma admitted_checks:
  assumes "run_admission host me s executable pins limits x = Admitted"
  shows "\<forall>c \<in> set (general_checks host me s executable pins limits x). c = Some []" "\<forall>c \<in> set (startup_checks x). c = Some []"
    "\<forall>c \<in> set (directory_checks x). c = Some []" "\<forall>c \<in> set (stream_checks x). c = Some []"
    "\<forall>c \<in> set (base_checks host me s pins x). c = Some []"
  using assms by (simp_all add: run_admission_def first_refusal_Admitted)

text \<open>What each group contributes to the chain and to the recipes.\<close>

lemma admitted_general:
  assumes "\<forall>c \<in> set (general_checks host me s executable pins limits x). c = Some []"
  shows "st_channels x \<noteq> None \<longrightarrow> st_allocation x \<noteq> None"
    and "links (st_channels x) (st_tables x) (\<lambda>c t. links (Some c) (st_manager x) (\<lambda>c m. cd_stream_channels_code c t m \<noteq> None))"
    and "child_error s = [] \<and> \<not> child_loader_started s \<and> child_same_file (host_os host) me s executable"
  using assms by (auto simp: general_checks_def)


lemma admitted_startup:
  assumes "\<forall>c \<in> set (startup_checks x). c = Some []"
  shows "(st_platform x \<noteq> None \<longrightarrow> st_application x \<noteq> None) \<and> (st_suppression x \<noteq> None \<longrightarrow> st_platform x \<noteq> None)
      \<and> (st_instance x \<noteq> None \<longrightarrow> st_suppression x \<noteq> None) \<and> (st_dispatch x \<noteq> None \<longrightarrow> st_instance x \<noteq> None)
      \<and> (st_routing x \<noteq> None \<longrightarrow> st_dispatch x \<noteq> None) \<and> (st_prelude x \<noteq> None \<longrightarrow> st_routing x \<noteq> None)
      \<and> (st_manager x \<noteq> None \<longrightarrow> st_prelude x \<noteq> None)"
    and "links (st_platform x) (st_crt x) valid_platform_startup_spec"
    and "links (st_suppression x) (st_platform x) (\<lambda>u p. links (Some u) (st_crt x) (\<lambda>u c. valid_platform_suppression_spec u p c))"
    and "links (st_instance x) (st_suppression x) (\<lambda>i u. links (st_platform x) (st_crt x) (\<lambda>p c. valid_instance_startup_spec i p c u))"
    and "links (st_dispatch x) (st_instance x) valid_event_dispatch_spec"
    and "links (st_routing x) (st_dispatch x) valid_application_routing_spec"
    and "links (st_prelude x) (st_routing x) valid_game_prelude_spec"
    and "links (st_manager x) (st_prelude x) (\<lambda>m g. links (Some m) (st_routing x) (\<lambda>m r. valid_file_manager_entry_spec m g r))"
  using assms unfolding startup_checks_def list.set ball_simps by ((intro conjI)?; clarsimp)+

lemma admitted_directory:
  assumes "\<forall>c \<in> set (directory_checks x). c = Some []"
  shows "(st_seh x \<noteq> None \<longrightarrow> st_manager x \<noteq> None) \<and> (st_lock x \<noteq> None \<longrightarrow> st_seh x \<noteq> None)
      \<and> (st_acquire x \<noteq> None \<longrightarrow> st_lock x \<noteq> None) \<and> (st_query x \<noteq> None \<longrightarrow> st_acquire x \<noteq> None)
      \<and> (st_copy x \<noteq> None \<longrightarrow> st_query x \<noteq> None) \<and> (st_ready x \<noteq> None \<longrightarrow> st_completion x \<noteq> None)"
    and "links (st_seh x) (st_manager x) valid_cwd_seh_spec"
    and "links (st_lock x) (st_seh x) valid_cwd_lock_spec"
    and "links (st_acquire x) (st_lock x) valid_cwd_acquire_spec"
    and "links (st_query x) (st_lock x) (\<lambda>q l. valid_cwd_query_spec q l \<and> cwd_query_directory (expected_directory q))"
    and "links (st_copy x) (st_query x) (\<lambda>c q. links (Some c) (st_lock x) (\<lambda>c l. cwd_copy_code c q l \<noteq> None))"
    and "links (st_ready x) (st_completion x) (\<lambda>r p. links (st_lock x) (st_seh x) (\<lambda>l h. links (st_lock x) (st_manager x) (\<lambda>l m.
         file_manager_ready_code r p l h m \<noteq> None)))"
  using assms unfolding directory_checks_def list.set ball_simps by ((intro conjI)?; clarsimp)+

lemma admitted_stream:
  assumes "\<forall>c \<in> set (stream_checks x). c = Some []"
  shows "(st_tables x \<noteq> None \<longrightarrow> st_ready x \<noteq> None) \<and> (st_disk x \<noteq> None \<longrightarrow> st_tables x \<noteq> None)
      \<and> (st_allocation x \<noteq> None \<longrightarrow> st_disk x \<noteq> None) \<and> (st_completion x \<noteq> None \<longrightarrow> st_copy x \<noteq> None)"
    and "links (st_tables x) (st_manager x) (\<lambda>t m. cd_stream_tables_code t m \<noteq> None)"
    and "links (st_disk x) (st_tables x) (\<lambda>d t. links (Some d) (st_manager x) (\<lambda>d m. cd_stream_disk_code d t m \<noteq> None))"
    and "links (st_allocation x) (st_disk x) (\<lambda>a d. links (st_manager x) (st_seh x) (\<lambda>m h. links (Some a) (st_ready x) (\<lambda>a r.
         cd_stream_allocation_code a d m h r \<noteq> None)))"
    and "links (st_completion x) (st_copy x) (\<lambda>p c. links (st_query x) (st_lock x) (\<lambda>q l. cwd_return_code p c q l \<noteq> None))"
  using assms unfolding stream_checks_def list.set ball_simps by ((intro conjI)?; clarsimp)+

lemma admitted_base:
  assumes "\<forall>c \<in> set (base_checks host me s pins x). c = Some []"
  shows "(st_application x \<noteq> None \<longrightarrow> st_crt x \<noteq> None) \<and> (st_crt x \<noteq> None \<longrightarrow> st_tail x \<noteq> None)
      \<and> (st_tail x \<noteq> None \<longrightarrow> st_asi x \<noteq> None) \<and> (st_asi x \<noteq> None \<longrightarrow> st_binding x \<noteq> None)
      \<and> (st_binding x \<noteq> None \<longrightarrow> st_codec x \<noteq> None) \<and> (st_codec x \<noteq> None \<longrightarrow> st_startup x \<noteq> None)
      \<and> (st_startup x \<noteq> None \<longrightarrow> st_proxy x \<noteq> None) \<and> (st_proxy x \<noteq> None \<longrightarrow> st_entry x \<noteq> None)"
    and "st_tail x \<noteq> None \<longrightarrow> st_bootstrap x = None \<and> st_frame x = None"
    and "links (st_tail x) (st_asi x) (\<lambda>t a. valid_startup_return_spec t \<and> ft_image_base (startup_frame t) = child_base s)"
    and "links (st_crt x) (st_tail x) (\<lambda>c t. valid_crt_startup_spec c \<and> ft_image_base (crt_io c) = child_base s)"
    and "links (st_application x) (st_crt x) valid_application_entry_spec"
  using assms unfolding base_checks_def list.set ball_simps by ((intro conjI)?; clarsimp simp: frame_differs_def)+

lemma admitted_chain:
  assumes "run_admission host me s executable pins limits x = Admitted"
  shows "sorted_wrt (\<lambda>a b. b \<longrightarrow> a) (stage_chain x)"
  unfolding stage_chain_def chain_sorted_Cons sorted_wrt1
  using admitted_general(1)[OF admitted_checks(1)[OF assms]] admitted_startup(1)[OF admitted_checks(2)[OF assms]]
    admitted_directory(1)[OF admitted_checks(3)[OF assms]] admitted_stream(1)[OF admitted_checks(4)[OF assms]]
    admitted_base(1)[OF admitted_checks(5)[OF assms]]
  by (elim conjE, intro conjI TrueI; assumption?)

lemma admitted_recipes:
  assumes "run_admission host me s executable pins limits x = Admitted"
  shows "startup_recipes_valid s x" "stage_recipes_valid x"
proof -
  note u = admitted_startup(2-)[OF admitted_checks(2)[OF assms]]
  note b = admitted_base(3-)[OF admitted_checks(5)[OF assms]]
  note c = admitted_general(2)[OF admitted_checks(1)[OF assms]]
  note d = admitted_directory(2-)[OF admitted_checks(3)[OF assms]]
  note e = admitted_stream(2-)[OF admitted_checks(4)[OF assms]]
  show "startup_recipes_valid s x" unfolding startup_recipes_valid_def using u b by (simp only:)
  show "stage_recipes_valid x" unfolding stage_recipes_valid_def using c d e by (simp only:)
qed

lemma stop_child_True:
  "stop_child os me s = Some (True, s') \<Longrightarrow> child_process s \<noteq> 0 \<Longrightarrow> child_stopped s'"
  by (auto simp: stop_child_def confirm_exit_def Let_def split: if_splits prod.splits option.splits bool.splits)

lemma finish_sound:
  assumes "\<forall>i. \<exists>j>i. clock os i + timeout_ms \<le> clock os j"
  shows "\<exists>reason' ok s'. finish os me reason s st = Some (Stopped reason' ok st, s') \<and> (accounted s \<longrightarrow> accounted s')
     \<and> (child_created s \<longrightarrow> (if ok then child_stopped s' else reason' = ''loader_exit_unconfirmed''))"
proof (cases "child_created s")
  case True
  obtain ok s' where "stop_child os me s = Some (ok, s')" using stop_child_returns[OF assms, of me s] by auto
  then show ?thesis using True accounted_stop stop_child_True by (auto simp: finish_def child_created_def)
next
  case False
  then show ?thesis by (auto simp: finish_def)
qed


text \<open>The owner's start either finishes, or is admitted and ready.\<close>

lemma run_impl_cases:
  assumes "me = child_owner_thread s"
  shows "(\<exists>reason st1. run_impl host me s executable pins limits x st = finish (host_os host) me reason s st1)
    \<or> (run_admission host me s executable pins limits x = Admitted
       \<and> (\<exists>st1. run_impl host me s executable pins limits x st = Some (Started st1, s\<lparr>child_loader_started := True\<rparr>)))"
proof (cases "run_admission host me s executable pins limits x")
  case Null_pointer
  then show ?thesis using admission_no_null by metis
next
  case (Refused reason)
  then show ?thesis using assms by (auto simp: run_impl_def)
next
  case Admitted
  obtain reason st1 where "(case st_entry x of None \<Rightarrow> ([], st) | Some e \<Rightarrow> arm_entry host me s e st) = (reason, st1)" by fastforce
  moreover define drift where "drift = (case st_frame x of None \<Rightarrow> False | Some f \<Rightarrow> \<not> matches_frame_target f (sample_frame_target host s 0 f))"
  ultimately have run: "run_impl host me s executable pins limits x st =
      (if reason \<noteq> [] then finish (host_os host) me reason s st1
       else if drift then finish (host_os host) me ''frame_create_sample_rejected'' s st1
       else Some (Started st1, s\<lparr>child_loader_started := True\<rparr>))"
    using assms[symmetric] Admitted by (simp add: run_impl_def)
  show ?thesis unfolding run using Admitted by (cases "reason \<noteq> []"; cases drift) (simp only: if_True if_False simp_thms, blast)+
qed

lemma admitted_state:
  assumes "run_admission host me s executable pins limits x = Admitted"
  shows "child_readable me s" "\<not> child_loader_started s" "st_tail x \<noteq> None \<longrightarrow> st_bootstrap x = None \<and> st_frame x = None"
  using admitted_general(3)[OF admitted_checks(1)[OF assms]] admitted_base(2)[OF admitted_checks(5)[OF assms]]
  by (simp_all add: child_same_file_def split: if_splits)


text \<open>The child of the demonstration, held at its first event: a plain run starts, and an entry stop without code at its address is refused.\<close>

definition demo_child :: suspended where
  "demo_child = create_suspended demo_observer_api demo_launch_api 1 [0x43] 4096 None"

definition demo_loader_host :: "unit loader_host" where
  "demo_loader_host = \<lparr>host_os = demo_observer_api, host_files = \<lambda>p. \<lparr>pin_handle = 0, pin_identity = None\<rparr>,
     host_get = \<lambda>c. None, host_set = \<lambda>c st. (False, st), host_thread_id = 1\<rparr>"

definition default_limits :: loader_limits where
  "default_limits = \<lparr>limit_events = 128, limit_modules = 64, limit_threads = 16, limit_milliseconds = 5000,
     limit_bytes = 256 * 1024 * 1024\<rparr>"

lemma demo_start:
  "run_impl demo_loader_host 1 demo_child 8 [] default_limits no_stages () = Some (Started (), demo_child\<lparr>child_loader_started := True\<rparr>)"
proof -
  have held: "child_error demo_child = []" "\<not> child_loader_started demo_child" "child_readable 1 demo_child" "child_owner_thread demo_child = 1"
    by (simp_all add: demo_child_def child_readable_def create_suspended_def start_child_def fresh_child_def demo_observer_api_def
        max_image_bytes_def call_defs take_first_event_def demo_debug_event_def opens_def closes_def event_has_file_def Let_def
        CREATE_PROCESS_DEBUG_EVENT_def LOAD_DLL_DEBUG_EVENT_def EXIT_PROCESS_DEBUG_EVENT_def)
  then have "child_same_file demo_observer_api 1 demo_child 8" by (simp add: child_same_file_def demo_observer_api_def)
  then have "run_admission demo_loader_host 1 demo_child 8 [] default_limits no_stages = Admitted"
    unfolding run_admission_def first_refusal_Admitted
    using held by (simp add: general_checks_def startup_checks_def directory_checks_def
        stream_checks_def base_checks_def no_stages_def demo_loader_host_def limits_bad_def default_limits_def)
  then show ?thesis using held by (simp add: run_impl_def no_stages_def)
qed


end
