(* ===== verification/Loader_Shapes.thy ===== *)
theory Loader_Shapes
  imports Loader_Observation Mapping_Ledger
begin

text \<open>
  The checks of \<open>run_impl\<close> (\<open>loader_observation.cpp\<close>) on the memory of the running child: before a stop is
  trusted, the audited code of every stage up to the file manager is compared with what the child has loaded. Each
  check includes those of the stages before it.

  A check answers \<open>None\<close> for a rejection, after which the run ends; the counters and samples it leaves in
  the trace for the report are not modelled. The recipes are those of an admitted run, in a record
  (\<open>recipes_given\<close> relates it to the optional arguments).
\<close>

section \<open>What the checks look at\<close>

record recipes =
  rx_proxy :: proxy_stop_spec
  rx_codec :: codec_stop_spec
  rx_binding :: binding_stop_spec
  rx_asi :: asi_stop_spec
  rx_tail :: startup_return_spec
  rx_crt :: crt_startup_spec
  rx_application :: application_entry_spec
  rx_platform :: platform_startup_spec
  rx_suppression :: platform_suppression_spec
  rx_instance :: instance_startup_spec
  rx_dispatch :: event_dispatch_spec
  rx_routing :: application_routing_spec
  rx_prelude :: game_prelude_spec
  rx_manager :: file_manager_entry_spec

definition recipes_given :: "stages \<Rightarrow> recipes \<Rightarrow> bool" where
  "recipes_given x rs \<longleftrightarrow> st_proxy x = Some (rx_proxy rs) \<and> st_codec x = Some (rx_codec rs) \<and> st_binding x = Some (rx_binding rs)
     \<and> st_asi x = Some (rx_asi rs) \<and> st_tail x = Some (rx_tail rs) \<and> st_crt x = Some (rx_crt rs)
     \<and> st_application x = Some (rx_application rs) \<and> st_platform x = Some (rx_platform rs)
     \<and> st_suppression x = Some (rx_suppression rs) \<and> st_instance x = Some (rx_instance rs)
     \<and> st_dispatch x = Some (rx_dispatch rs) \<and> st_routing x = Some (rx_routing rs) \<and> st_prelude x = Some (rx_prelude rs)
     \<and> st_manager x = Some (rx_manager rs)"

record observed_module =
  om_file :: loader_identity
  om_base :: u32
  om_mapping :: u32
  om_admitted :: bool
  om_event :: u32

record binding_seen =
  bs_slot_rva :: u32
  bs_target_rva :: u32
  bs_after :: u32
  bs_target_after :: bytes

text \<open>What the run has recorded so far: the mappings, the modules, the proxy, the addresses first seen in the slots.\<close>

record progress =
  pg_mappings :: ledger
  pg_modules :: "observed_module list"
  pg_proxy_mapping :: u32
  pg_proxy_base :: u32
  pg_entry_address :: u32
  pg_startup_address :: u32
  pg_codec_before :: bytes
  pg_codec_target :: u32
  pg_codec_handle :: u32
  pg_codec_mappings :: "u32 list"
  pg_binding_target :: u32
  pg_bindings :: "binding_seen list"
  pg_protect_target :: u32
  pg_startup_target :: u32
  pg_platform_address :: u32
  pg_teb :: u32

text \<open>The child and its main thread: registers, and the base address behind a selector.\<close>

record watched =
  wa_os :: observer_api
  wa_files :: "nat \<Rightarrow> loader_file"
  wa_child :: suspended
  wa_recipes :: recipes
  wa_registers :: "suppression_registers option"
  wa_selector :: "u32 \<Rightarrow> u32 option"

section \<open>Reads\<close>

definition read_word :: "observer_api \<Rightarrow> u32 \<Rightarrow> u32 \<Rightarrow> u32 option" where
  "read_word os base rva = map_option (\<lambda>bs. get_word bs 0) (read_image os base rva 4 False)"

text \<open>The comparison of a stretch in blocks of sixteen bytes, of code or of data.\<close>

function exact_bytes :: "observer_api \<Rightarrow> bool \<Rightarrow> u32 \<Rightarrow> u32 \<Rightarrow> bytes \<Rightarrow> bool" where
  "exact_bytes os code base rva expected =
    (if expected = [] then True
     else read_image os base rva (length (take 16 expected)) code = Some (take 16 expected)
       \<and> exact_bytes os code base (rva + 16) (drop 16 expected))"
  by pat_completeness auto
termination by (relation "measure (\<lambda>(_, _, _, _, expected). length expected)") auto

declare exact_bytes.simps [simp del]

definition exact_code :: "observer_api \<Rightarrow> u32 \<Rightarrow> u32 \<Rightarrow> bytes \<Rightarrow> bool" where
  "exact_code os base rva expected = exact_bytes os True base rva expected"

definition read_private :: "observer_api \<Rightarrow> u32 \<Rightarrow> nat \<Rightarrow> bytes option" where
  "read_private os start n =
    (if start = 0 \<or> n = 0 \<or> n > 260 \<or> n > unat (UINT32_MAX - start) then None
     else (case query_region os start of None \<Rightarrow> None
       | Some r \<Rightarrow>
         if region_type r \<noteq> MEM_PRIVATE \<or> region_state r \<noteq> MEM_COMMIT \<or> region_protect r AND 0x101 \<noteq> 0 \<or> start < base_address r
            \<or> \<not> start - base_address r < region_size r \<or> \<not> n \<le> unat (region_size r - (start - base_address r)) then None
         else (case read_process os start n of (ok, got, buffer) \<Rightarrow> if ok \<and> got = n then Some (map buffer [0..<n]) else None)))"

definition module_active :: "progress \<Rightarrow> observed_module \<Rightarrow> bool" where
  "module_active p m \<longleftrightarrow> om_admitted m \<and> mapping_active (om_mapping m) (om_base m) (pg_mappings p)"

text \<open>An address inside the code of an active system module.\<close>

definition system_address :: "observer_api \<Rightarrow> progress \<Rightarrow> u32 \<Rightarrow> bool" where
  "system_address os p target \<longleftrightarrow>
     list_ex (\<lambda>m. (id_name (om_file m) = ''kernel32.dll'' \<or> id_name (om_file m) = ''kernelbase.dll'') \<and> module_active p m
       \<and> target \<ge> om_base m \<and> read_image os (om_base m) (target - om_base m) 1 True \<noteq> None) (pg_modules p)"

definition matches_file :: "loader_identity \<Rightarrow> loader_identity \<Rightarrow> bool" where
  "matches_file a b \<longleftrightarrow> id_volume a = id_volume b \<and> id_file a = id_file b \<and> id_bytes a = id_bytes b \<and> id_sha256 a = id_sha256 b"

section \<open>Proxy, codec, bindings, plugin loader\<close>

text \<open>\<open>CALL rel32; JMP [slot]\<close>, where the slot holds the original entry.\<close>

definition proxy_shape :: "observer_api \<Rightarrow> proxy_stop_spec \<Rightarrow> progress \<Rightarrow> bool" where
  "proxy_shape os s p =
    (let base = pg_proxy_base p in
     if \<not> mapping_active (pg_proxy_mapping p) base (pg_mappings p) then False
     else (case read_image os base (thunk_rva s) 11 True of None \<Rightarrow> False
       | Some thunk \<Rightarrow>
         \<not> (thunk ! 0 \<noteq> 0xe8 \<or> thunk ! 5 \<noteq> 0xff \<or> thunk ! 6 \<noteq> 0x25)
         \<and> \<not> (thunk_rva s + 5 + get_word thunk 1 \<noteq> call_target_rva s \<or> return_slot_rva s > UINT32_MAX - base
              \<or> get_word thunk 7 \<noteq> base + return_slot_rva s
              \<or> read_word os base (return_slot_rva s) \<noteq> Some (pg_entry_address p))
         \<and> read_image os base (call_target_rva s) 1 True \<noteq> None \<and> read_image os base (iat_target_rva s) 1 True \<noteq> None))"

text \<open>A slot that was seen before must still hold the same address.\<close>

definition slot_kept :: "u32 \<Rightarrow> u32 \<Rightarrow> bool" where
  "slot_kept seen target \<longleftrightarrow> \<not> (seen \<noteq> 0 \<and> target \<noteq> seen)"

text \<open>\<open>PUSH name; CALL [slot]; MOV EDI,EAX\<close>: the thirteen bytes, and the progress with the slot's target.\<close>

definition codec_shape :: "watched \<Rightarrow> progress \<Rightarrow> (bytes \<times> progress) option" where
  "codec_shape w p =
    (let os = wa_os w; s = rx_codec (wa_recipes w); base = pg_proxy_base p; n = length (requested_name s) in
     if \<not> proxy_shape os (rx_proxy (wa_recipes w)) p then None
     else (case read_image os base (sequence_rva s) 13 True of None \<Rightarrow> None
       | Some bs \<Rightarrow>
         if bs ! 0 \<noteq> 0x68 \<or> bs ! 5 \<noteq> 0xff \<or> bs ! 6 \<noteq> 0x15 \<or> bs ! 11 \<noteq> 0x8b \<or> bs ! 12 \<noteq> 0xf8 then None
         else if codec_name_rva s > UINT32_MAX - base \<or> load_slot_rva s > UINT32_MAX - base
              \<or> get_word bs 1 \<noteq> base + codec_name_rva s \<or> get_word bs 7 \<noteq> base + load_slot_rva s then None
         else if read_image os base (codec_name_rva s) (n + 1) False \<noteq> Some (map of_char (requested_name s) @ [0]) then None
         else (case read_word os base (load_slot_rva s) of None \<Rightarrow> None
           | Some target \<Rightarrow>
             if \<not> slot_kept (pg_codec_target p) target \<or> \<not> system_address os p target then None
             else Some (bs, p\<lparr>pg_codec_target := target\<rparr>))))"

definition binding_shape :: "watched \<Rightarrow> progress \<Rightarrow> progress option" where
  "binding_shape w p =
    (let os = wa_os w; s = rx_binding (wa_recipes w); base = pg_proxy_base p in
     case codec_shape w p of None \<Rightarrow> None
     | Some (bs, p1) \<Rightarrow>
       if bs \<noteq> pg_codec_before p1 \<or> read_image os base (stop_rva s) 16 True \<noteq> Some (binding_expected_stop s)
          \<or> read_word os (child_base (wa_child w)) (iat_rva (rx_proxy (wa_recipes w))) \<noteq> Some (pg_startup_address p1) then None
       else (case read_word os base (proc_slot_rva s) of None \<Rightarrow> None
         | Some target \<Rightarrow>
           if \<not> slot_kept (pg_binding_target p1) target \<or> \<not> system_address os p1 target then None
           else Some (p1\<lparr>pg_binding_target := target\<rparr>)))"

text \<open>The call that loads the plugin, the code behind it, the codec's modules still mapped and its bindings unchanged.\<close>

definition asi_shape :: "watched \<Rightarrow> progress \<Rightarrow> progress option" where
  "asi_shape w p =
    (let os = wa_os w; s = rx_asi (wa_recipes w); base = pg_proxy_base p in
     case binding_shape w p of None \<Rightarrow> None
     | Some p1 \<Rightarrow>
       (case read_image os base (asi_call_rva s) 6 True of None \<Rightarrow> None
        | Some call \<Rightarrow>
          if call ! 0 \<noteq> 0xff \<or> call ! 1 \<noteq> 0x15 \<or> get_word call 2 \<noteq> base + load_slot_rva (rx_codec (wa_recipes w))
             \<or> read_image os base (asi_call_rva s + 6) 16 True \<noteq> Some (expected_return s)
             \<or> read_image os base (asi_end_rva s) 16 True \<noteq> Some (expected_end s) then None
          else if \<not> list_all (\<lambda>i. case List.find (\<lambda>m. om_mapping m = i) (pg_modules p1) of None \<Rightarrow> False
                  | Some m \<Rightarrow> mapping_active i (om_base m) (pg_mappings p1)) (pg_codec_mappings p1) then None
          else if \<not> list_all (\<lambda>b. read_word os base (bs_slot_rva b) = Some (bs_after b)
                  \<and> read_image os (pg_codec_handle p1) (bs_target_rva b) 16 True = Some (bs_target_after b)) (pg_bindings p1) then None
          else Some p1))"

definition asi_preloaded :: "watched \<Rightarrow> progress \<Rightarrow> bool" where
  "asi_preloaded w p \<longleftrightarrow> list_ex (\<lambda>m. module_active p m
     \<and> (case pin_identity (wa_files w (asi_module (rx_asi (wa_recipes w)))) of None \<Rightarrow> False | Some i \<Rightarrow> matches_file (om_file m) i)) (pg_modules p)"


section \<open>Startup continuation\<close>

text \<open>The first active module at which the target is the named export of the system library decides.\<close>

definition system_function :: "watched \<Rightarrow> progress \<Rightarrow> bootstrap_export_spec \<Rightarrow> u32 \<Rightarrow> bool" where
  "system_function w p spec target =
    (case List.find (\<lambda>m. id_name (om_file m) = ''kernel32.dll'' \<and> module_active p m \<and> target = om_base m + export_rva spec) (pg_modules p) of
       None \<Rightarrow> False
     | Some m \<Rightarrow> (case bootstrap_export_prefix spec (om_base m) of None \<Rightarrow> False
         | Some expected \<Rightarrow> read_image (wa_os w) (om_base m) (export_rva spec) 16 True = Some (take 16 expected)
             \<and> read_image (wa_os w) (om_base m) (export_rva spec + 16) 4 True = Some (drop 16 expected)))"

definition tail_shape :: "watched \<Rightarrow> progress \<Rightarrow> progress option" where
  "tail_shape w p =
    (let os = wa_os w; s = rx_tail (wa_recipes w); base = pg_proxy_base p in
     case asi_shape w p of None \<Rightarrow> None
     | Some p1 \<Rightarrow>
       (case (read_image os base (protect_call_rva s) 6 True, read_image os base (forward_rva s) 6 True) of
          (Some call, Some forward) \<Rightarrow>
            if call ! 0 \<noteq> 0xff \<or> call ! 1 \<noteq> 0x15 \<or> forward ! 0 \<noteq> 0xff \<or> forward ! 1 \<noteq> 0x25 then None
            else if get_word call 2 \<noteq> base + protect_slot_rva s \<or> get_word forward 2 \<noteq> base + startup_slot_rva s
               \<or> read_image os base (protect_call_rva s + 6) 16 True \<noteq> Some (protect_return_prefix s) then None
            else (case (read_word os base (protect_slot_rva s), read_word os base (startup_slot_rva s)) of
               (Some protect, Some target) \<Rightarrow>
                 if system_function w p1 (protect_function s) protect \<and> system_function w p1 (startup_function s) target
                 then Some (p1\<lparr>pg_protect_target := protect, pg_startup_target := target\<rparr>) else None
             | _ \<Rightarrow> None)
        | _ \<Rightarrow> None))"

text \<open>The walk over the regions of the image, at most 128 of them.\<close>

function image_regions :: "observer_api \<Rightarrow> u32 \<Rightarrow> bool \<Rightarrow> u32 \<Rightarrow> nat \<Rightarrow> u32 \<Rightarrow> bool" where
  "image_regions os base after limit seen cursor =
    (if \<not> cursor < limit then True
     else if seen + 1 > 128 then False
     else (case query_region os cursor of None \<Rightarrow> False
       | Some r \<Rightarrow>
         if region_state r \<noteq> MEM_COMMIT \<or> region_type r \<noteq> MEM_IMAGE \<or> allocation_base r \<noteq> base
            \<or> region_protect r AND 0x101 \<noteq> 0 \<or> (after \<and> \<not> valid_startup_image_protection (region_protect r)) then False
         else if cursor < base_address r \<or> cursor - base_address r \<ge> region_size r \<or> region_size r > UINT32_MAX - base_address r then False
         else image_regions os base after limit (seen + 1) (min limit (base_address r + region_size r))))"
  by pat_completeness auto
termination by (relation "measure (\<lambda>(_, _, _, _, seen, _). 128 - seen)") auto

declare image_regions.simps [simp del]

definition image_protection :: "watched \<Rightarrow> bool \<Rightarrow> bool" where
  "image_protection w after = (let s = wa_child w in
     image_regions (wa_os w) (child_base s) after (child_base s + of_nat (child_image_bytes s)) 0 (child_base s))"

section \<open>C runtime, application, platform\<close>

text \<open>A fresh sample of the call and the target of a frame recipe.\<close>

definition frame_loaded :: "watched \<Rightarrow> frame_target_spec \<Rightarrow> bool" where
  "frame_loaded w f \<longleftrightarrow> valid_frame_target_spec f
     \<and> read_image (wa_os w) (child_base (wa_child w)) (call_rva f) 5 True = Some (call_bytes f)
     \<and> read_image (wa_os w) (child_base (wa_child w)) (target_rva f) 16 True = Some (target_prefix f)"

definition table_loaded :: "watched \<Rightarrow> crt_initializer_table \<Rightarrow> bool" where
  "table_loaded w t \<longleftrightarrow> (let os = wa_os w; base = child_base (wa_child w) in
     list_all (\<lambda>i. let target = table_targets t ! i; value = (if target \<noteq> 0 then base + target else 0) in
       read_word os base (table_rva t + of_nat (i * 4)) = Some value
       \<and> (value \<noteq> 0 \<longrightarrow> read_image os base target 1 True \<noteq> None)) [0..<length (table_targets t)])"

definition crt_shape :: "watched \<Rightarrow> bool" where
  "crt_shape w = (let c = rx_crt (wa_recipes w); base = child_base (wa_child w) in
     list_all (frame_loaded w) [crt_io c, crt_initialize c, crt_application c]
     \<and> read_image (wa_os w) base (call_rva (crt_io c) + 5) 16 True = Some (io_return_prefix c)
     \<and> list_all (table_loaded w) (crt_tables c))"

definition application_shape :: "watched \<Rightarrow> progress \<Rightarrow> progress option" where
  "application_shape w p =
    (let os = wa_os w; rs = wa_recipes w; s = rx_application rs; c = rx_crt rs; base = child_base (wa_child w) in
     if \<not> crt_shape w then None
     else (case tail_shape w p of None \<Rightarrow> None
       | Some p1 \<Rightarrow>
         if \<not> frame_loaded w (startup_frame (rx_tail rs)) then None
         else (case application_reentry_prefix s (pg_proxy_base p1) (startup_slot_rva (rx_tail rs)) of None \<Rightarrow> None
           | Some reentry \<Rightarrow>
             if \<not> exact_code os (pg_proxy_base p1) (reentry_rva s) reentry
                \<or> read_image os (pg_proxy_base p1) (once_rva s) 1 False \<noteq> Some [1]
                \<or> \<not> exact_code os base (target_rva (crt_initialize c)) (initializer_body s)
                \<or> \<not> exact_code os base (call_rva (crt_initialize c) + 5) (initializer_return s) then None
             else (case read_image os base (second_call_rva s) 6 True of None \<Rightarrow> None
               | Some second \<Rightarrow>
                 if \<not> exact_code os base (second_call_rva s + 6) (second_return s) then None
                 else if second ! 0 \<noteq> 0xff \<or> second ! 1 \<noteq> 0x15 \<or> get_word second 2 \<noteq> base + iat_rva (rx_proxy rs) then None
                 else Some p1))))"

definition platform_shape :: "watched \<Rightarrow> progress \<Rightarrow> progress option" where
  "platform_shape w p =
    (let os = wa_os w; rs = wa_recipes w; s = rx_platform rs; base = child_base (wa_child w) in
     case application_shape w p of None \<Rightarrow> None
     | Some p1 \<Rightarrow>
       if \<not> exact_code os base (target_rva (crt_application (rx_crt rs))) (prologue s)
          \<or> \<not> exact_code os base (platform_call_rva s + 6) (platform_return_prefix s) then None
       else (case read_image os base (platform_call_rva s) 6 True of None \<Rightarrow> None
         | Some call \<Rightarrow>
           if call ! 0 \<noteq> 0xff \<or> call ! 1 \<noteq> 0x15 \<or> get_word call 2 \<noteq> base + platform_iat_rva s then None
           else (case read_word os base (platform_iat_rva s) of None \<Rightarrow> None
             | Some target \<Rightarrow>
               if pg_platform_address p1 \<noteq> 0 \<and> pg_platform_address p1 \<noteq> target then None
               else (case List.find (\<lambda>m. id_name (om_file m) = platform_module s \<and> module_active p1 m
                        \<and> target = om_base m + export_rva (platform_function s)) (pg_modules p1) of
                   None \<Rightarrow> None
                 | Some m \<Rightarrow> (case bootstrap_export_prefix (platform_function s) (om_base m) of None \<Rightarrow> None
                     | Some expected \<Rightarrow> if exact_code os (om_base m) (export_rva (platform_function s)) expected
                         then Some (p1\<lparr>pg_platform_address := target\<rparr>) else None)))))"

section \<open>Last error and instance check\<close>

text \<open>The thread's last-error cell, found through the audited getter and the thread block, whose self pointer must agree.\<close>

definition read_last_error :: "watched \<Rightarrow> progress \<Rightarrow> (u32 \<times> progress) option" where
  "read_last_error w p =
    (let os = wa_os w; s = rx_suppression (wa_recipes w); f = last_error_function s in
     case read_word os (child_base (wa_child w)) (last_error_iat_rva s) of None \<Rightarrow> None
     | Some target \<Rightarrow>
       if \<not> list_ex (\<lambda>m. id_name (om_file m) = ''kernel32.dll'' \<and> module_active p m \<and> target = om_base m + export_rva f
              \<and> exact_code os (om_base m) (export_rva f) (audited_prefix f)) (pg_modules p) then None
       else (case wa_registers w of None \<Rightarrow> None
         | Some r \<Rightarrow> (case wa_selector w (r_segments r ! 4) of None \<Rightarrow> None
           | Some teb \<Rightarrow>
             if teb < 65536 \<or> teb > UINT32_MAX - 56 \<or> (pg_teb p \<noteq> 0 \<and> pg_teb p \<noteq> teb)
                \<or> map_option (\<lambda>bs. get_word bs 0) (read_private os (teb + 24) 4) \<noteq> Some teb then None
             else map_option (\<lambda>bs. (get_word bs 0, p\<lparr>pg_teb := teb\<rparr>)) (read_private os (teb + 0x34) 4))))"

text \<open>The thunk of the system library: the last active module at which the body's call target is the thunk decides.\<close>

definition instance_thunk :: "watched \<Rightarrow> progress \<Rightarrow> u32 \<Rightarrow> bool \<times> u32" where
  "instance_thunk w p target =
    (let os = wa_os w; s = rx_instance (wa_recipes w) in
     fold (\<lambda>m acc.
       if module_active p m \<and> id_name (om_file m) = ''kernel32.dll'' \<and> target = om_base m + create_thunk_rva s
       then (if exact_code os (om_base m) (create_thunk_rva s) (put_word [0xff, 0x25, 0, 0, 0, 0] 2 (om_base m + create_thunk_slot_rva s))
             then (case read_word os (om_base m) (create_thunk_slot_rva s) of None \<Rightarrow> (False, snd acc) | Some v \<Rightarrow> (True, v))
             else (False, snd acc))
       else acc) (pg_modules p) (False, 0))"

definition instance_name_loaded :: "watched \<Rightarrow> bool" where
  "instance_name_loaded w = (let s = rx_instance (wa_recipes w) in
     list_all (\<lambda>i. read_image (wa_os w) (child_base (wa_child w)) (name_rva s + of_nat i) 1 False
         = Some [if i < length (is_name s) then of_char (is_name s ! i) else 0]) [0..<length (is_name s) + 1])"

definition instance_shape :: "watched \<Rightarrow> progress \<Rightarrow> progress option" where
  "instance_shape w p =
    (let os = wa_os w; s = rx_instance (wa_recipes w); base = child_base (wa_child w); f = create_function s in
     case platform_shape w p of None \<Rightarrow> None
     | Some p1 \<Rightarrow> (case instance_body s base of None \<Rightarrow> None
       | Some body \<Rightarrow>
         if \<not> exact_code os base (target_rva (is_caller s)) body
            \<or> \<not> exact_code os base (call_rva (is_caller s)) (call_bytes (is_caller s))
            \<or> read_word os base (body_address_rvas s ! 0) \<noteq> Some (base + name_rva s) then None
         else (case read_word os base (body_address_rvas s ! 1) of None \<Rightarrow> None
           | Some target \<Rightarrow>
             if \<not> instance_name_loaded w then None
             else (case instance_thunk w p1 target of (thunk, forward) \<Rightarrow>
               if \<not> thunk then None
               else if \<not> list_ex (\<lambda>m. module_active p1 m \<and> id_name (om_file m) = ''kernelbase.dll'' \<and> forward = om_base m + export_rva f
                        \<and> exact_code os (om_base m) (export_rva f) (audited_prefix f)) (pg_modules p1) then None
               else map_option snd (read_last_error w p1)))))"

section \<open>Dispatch, routing, prelude, file manager\<close>

definition dispatch_registers :: "thread_context \<Rightarrow> event_dispatch_registers" where
  "dispatch_registers c = \<lparr>d_esp = c_esp c, d_eax = c_eax c, d_ebx = c_ebx c, d_ecx = c_ecx c, d_edx = c_edx c, d_esi = c_esi c,
     d_edi = c_edi c, d_ebp = c_ebp c, d_flags = c_eflags c\<rparr>"

definition same_nonvolatile :: "thread_context \<Rightarrow> thread_context \<Rightarrow> bool" where
  "same_nonvolatile a b \<longleftrightarrow> c_ebx a = c_ebx b \<and> c_esi a = c_esi b \<and> c_edi a = c_edi b \<and> c_ebp a = c_ebp b \<and> c_eflags a AND 0x500 = 0"

text \<open>Each stage compares its own code with what is loaded, after the stages before it; the comparison is a predicate of its own.\<close>

definition dispatch_loaded :: "observer_api \<Rightarrow> u32 \<Rightarrow> event_dispatch_spec \<Rightarrow> bool" where
  "dispatch_loaded os base s \<longleftrightarrow>
     \<not> (\<not> exact_code os base (call_rva (dispatcher s) - 7) event_dispatch_branch
          \<or> \<not> exact_code os base (call_rva (dispatcher s)) (call_bytes (dispatcher s))
          \<or> \<not> exact_code os base (target_rva (dispatcher s)) event_dispatch_prologue
          \<or> \<not> exact_code os base (call_rva (ed_application s)) (call_bytes (ed_application s)))
     \<and> read_image os base (target_rva (ed_application s)) 16 True = Some (take 16 (application_prefix s))
     \<and> read_image os base (target_rva (ed_application s) + 16) 5 True = Some (drop 16 (application_prefix s))"

definition dispatch_shape :: "watched \<Rightarrow> progress \<Rightarrow> progress option" where
  "dispatch_shape w p =
    (case instance_shape w p of None \<Rightarrow> None
     | Some p1 \<Rightarrow> if dispatch_loaded (wa_os w) (child_base (wa_child w)) (rx_dispatch (wa_recipes w)) then Some p1 else None)"

definition routing_loaded :: "observer_api \<Rightarrow> u32 \<Rightarrow> application_routing_spec \<Rightarrow> event_dispatch_spec \<Rightarrow> bool" where
  "routing_loaded os base s d \<longleftrightarrow>
    (case application_routing_code s d of None \<Rightarrow> False
     | Some code \<Rightarrow>
       \<not> (\<not> exact_code os base (target_rva (ed_application d)) (rc_entry code)
          \<or> \<not> exact_code os base (detour_rva s) (rc_detour code)
          \<or> \<not> exact_code os base (target_rva (ed_application d) + 20) (rc_indirect code)
          \<or> \<not> exact_code os base (call_rva (initializer s)) (call_bytes (initializer s))
          \<or> \<not> exact_code os base (target_rva (initializer s)) (target_prefix (initializer s)))
       \<and> exact_bytes os False base (index_rva s) (indices s)
       \<and> list_all (\<lambda>i. read_word os base (routing_table_rva s + of_nat (i * 4)) = Some (rc_targets code ! i)) [0..<length (rc_targets code)])"

definition routing_shape :: "watched \<Rightarrow> progress \<Rightarrow> progress option" where
  "routing_shape w p =
    (case dispatch_shape w p of None \<Rightarrow> None
     | Some p1 \<Rightarrow> if routing_loaded (wa_os w) (child_base (wa_child w)) (rx_routing (wa_recipes w)) (rx_dispatch (wa_recipes w)) then Some p1 else None)"

definition prelude_loaded :: "observer_api \<Rightarrow> u32 \<Rightarrow> game_prelude_spec \<Rightarrow> bool" where
  "prelude_loaded os base s \<longleftrightarrow>
    (case game_prelude_body s of None \<Rightarrow> False
     | Some body \<Rightarrow>
       exact_code os base (call_rva (gp_empty s)) (call_bytes (gp_empty s))
       \<and> exact_code os base (target_rva (gp_empty s)) (target_prefix (gp_empty s))
       \<and> exact_code os base (call_rva (localisation s)) (call_bytes (localisation s))
       \<and> exact_code os base (target_rva (localisation s)) body
       \<and> exact_code os base (call_rva (localisation s) + 5) (gp_stop_prefix s))"

definition prelude_shape :: "watched \<Rightarrow> progress \<Rightarrow> progress option" where
  "prelude_shape w p =
    (case routing_shape w p of None \<Rightarrow> None
     | Some p1 \<Rightarrow> if prelude_loaded (wa_os w) (child_base (wa_child w)) (rx_prelude (wa_recipes w)) then Some p1 else None)"

definition prelude_read_flags :: "watched \<Rightarrow> bytes option" where
  "prelude_read_flags w =
    (let s = rx_prelude (wa_recipes w); base = child_base (wa_child w) in
     case query_region (wa_os w) (base + flags_rva s - 4) of None \<Rightarrow> None
     | Some r \<Rightarrow> if region_protect r AND 0xcc = 0 then None else read_image (wa_os w) base (flags_rva s - 4) 16 False)"

definition manager_loaded :: "observer_api \<Rightarrow> u32 \<Rightarrow> file_manager_entry_spec \<Rightarrow> bool" where
  "manager_loaded os base s \<longleftrightarrow>
    (case file_manager_body s of None \<Rightarrow> False
     | Some body \<Rightarrow>
       exact_code os base (call_rva (manager s)) (call_bytes (manager s))
       \<and> exact_code os base (target_rva (manager s)) body
       \<and> exact_code os base (call_rva (manager s) + 5) (fm_return_prefix s)
       \<and> read_image os base (suffix_rva s) 2 False = Some [0x5c, 0]
       \<and> read_image os base (cwd_rva s) 1 True \<noteq> None)"

definition manager_shape :: "watched \<Rightarrow> progress \<Rightarrow> progress option" where
  "manager_shape w p =
    (case prelude_shape w p of None \<Rightarrow> None
     | Some p1 \<Rightarrow> if manager_loaded (wa_os w) (child_base (wa_child w)) (rx_manager (wa_recipes w)) then Some p1 else None)"

section \<open>What every check keeps\<close>

text \<open>
  A check records addresses and changes nothing else: the mappings, the modules and the proxy stay, and an address
  recorded before is confirmed, never replaced.
\<close>

definition confirms :: "u32 \<Rightarrow> u32 \<Rightarrow> bool" where
  "confirms seen now \<longleftrightarrow> seen \<noteq> 0 \<longrightarrow> now = seen"

definition keeps :: "progress \<Rightarrow> progress \<Rightarrow> bool" where
  "keeps p q \<longleftrightarrow> pg_mappings q = pg_mappings p \<and> pg_modules q = pg_modules p \<and> pg_proxy_mapping q = pg_proxy_mapping p
     \<and> pg_proxy_base q = pg_proxy_base p \<and> pg_entry_address q = pg_entry_address p \<and> pg_startup_address q = pg_startup_address p
     \<and> pg_codec_before q = pg_codec_before p \<and> pg_codec_handle q = pg_codec_handle p \<and> pg_codec_mappings q = pg_codec_mappings p
     \<and> pg_bindings q = pg_bindings p
     \<and> confirms (pg_codec_target p) (pg_codec_target q) \<and> confirms (pg_binding_target p) (pg_binding_target q)
     \<and> confirms (pg_platform_address p) (pg_platform_address q) \<and> confirms (pg_teb p) (pg_teb q)"

lemma confirms_trans: "confirms a b \<Longrightarrow> confirms b c \<Longrightarrow> confirms a c"
  by (auto simp: confirms_def)

lemma keeps_refl [simp]: "keeps p p"
  by (simp add: keeps_def confirms_def)

lemma keeps_trans: "keeps p q \<Longrightarrow> keeps q r \<Longrightarrow> keeps p r"
  by (auto simp: keeps_def intro: confirms_trans)

lemma codec_keeps: "codec_shape w p = Some (bs, q) \<Longrightarrow> keeps p q"
  by (auto simp: codec_shape_def Let_def keeps_def confirms_def slot_kept_def split: option.splits if_splits)

lemma binding_keeps: "binding_shape w p = Some q \<Longrightarrow> keeps p q"
  by (auto simp: binding_shape_def Let_def keeps_def confirms_def slot_kept_def dest!: codec_keeps split: option.splits if_splits)

lemma asi_keeps: "asi_shape w p = Some q \<Longrightarrow> keeps p q"
  by (auto simp: asi_shape_def Let_def dest!: binding_keeps split: option.splits if_splits)

lemma tail_keeps: "tail_shape w p = Some q \<Longrightarrow> keeps p q"
  by (auto simp: tail_shape_def Let_def keeps_def confirms_def dest!: asi_keeps split: option.splits if_splits)

lemma application_keeps: "application_shape w p = Some q \<Longrightarrow> keeps p q"
  by (auto simp: application_shape_def Let_def dest!: tail_keeps split: option.splits if_splits)

lemma platform_keeps: "platform_shape w p = Some q \<Longrightarrow> keeps p q"
  by (auto simp: platform_shape_def Let_def keeps_def confirms_def dest!: application_keeps split: option.splits if_splits)

lemma last_error_keeps: "read_last_error w p = Some (v, q) \<Longrightarrow> keeps p q"
  by (auto simp: read_last_error_def Let_def keeps_def confirms_def split: option.splits if_splits)

lemma instance_keeps: "instance_shape w p = Some q \<Longrightarrow> keeps p q"
  by (auto simp: instance_shape_def Let_def intro: keeps_trans dest!: platform_keeps last_error_keeps split: option.splits if_splits prod.splits)

text \<open>The last check, passed, stands for all those before it.\<close>

lemma manager_shape_passed:
  assumes "manager_shape w p = Some q"
  shows "instance_shape w p = Some q" "dispatch_loaded (wa_os w) (child_base (wa_child w)) (rx_dispatch (wa_recipes w))"
    "routing_loaded (wa_os w) (child_base (wa_child w)) (rx_routing (wa_recipes w)) (rx_dispatch (wa_recipes w))"
    "prelude_loaded (wa_os w) (child_base (wa_child w)) (rx_prelude (wa_recipes w))"
    "manager_loaded (wa_os w) (child_base (wa_child w)) (rx_manager (wa_recipes w))" "keeps p q"
proof -
  show i: "instance_shape w p = Some q" "dispatch_loaded (wa_os w) (child_base (wa_child w)) (rx_dispatch (wa_recipes w))"
    "routing_loaded (wa_os w) (child_base (wa_child w)) (rx_routing (wa_recipes w)) (rx_dispatch (wa_recipes w))"
    "prelude_loaded (wa_os w) (child_base (wa_child w)) (rx_prelude (wa_recipes w))"
    "manager_loaded (wa_os w) (child_base (wa_child w)) (rx_manager (wa_recipes w))"
    using assms by (auto simp: manager_shape_def prelude_shape_def routing_shape_def dispatch_shape_def split: option.splits if_splits)
  show "keeps p q" by (rule instance_keeps[OF i(1)])
qed

end
