(* ===== verification/Game_Start.thy ===== *)
theory Game_Start
  imports Game_Prelude
begin

text \<open>
  The audited code from the event dispatch to the file manager as one program: the reference processor runs the
  branch after the instance check, the dispatcher, the handler with its switch, the initializer with its two helpers
  and the file manager's body, each piece at the address where its recipe places it, up to the routine that reads
  the current directory. The stages are \<open>event_dispatch.cpp\<close>, \<open>application_routing.cpp\<close>,
  \<open>game_prelude.cpp\<close> and \<open>file_manager_entry.cpp\<close>.
\<close>

section \<open>One stage after the other\<close>

lemma run_through_append:
  "run_through af (xs @ ys) c = (case run_through af xs c of None \<Rightarrow> None | Some c' \<Rightarrow> run_through af ys c')"
  by (induction xs arbitrary: c) (auto split: option.splits)

text \<open>The dispatch up to the handler's entry: the stages' call is taken as well.\<close>

definition dispatch_path :: "event_dispatch_spec \<Rightarrow> (region_code \<times> nat) list" where
  "dispatch_path s = (let base = ft_image_base (dispatcher s) in
     dispatch_legs s @ [((base + target_rva (dispatcher s), event_dispatch_prologue @ call_bytes (ed_application s)), 1)])"

definition start_path :: "event_dispatch_spec \<Rightarrow> application_routing_spec \<Rightarrow> game_prelude_spec \<Rightarrow> file_manager_entry_spec
    \<Rightarrow> routing_code \<Rightarrow> bytes \<Rightarrow> bytes \<Rightarrow> (region_code \<times> nat) list" where
  "start_path d r p m code body manager_body =
     dispatch_path d @ routing_legs r d code @ prelude_legs p r body @ manager_legs m manager_body"

text \<open>The stack slots below an address.\<close>

definition below :: "u32 \<Rightarrow> nat \<Rightarrow> u32 set" where
  "below sp n = (\<lambda>k. sp - 4 * word_of_nat (Suc k)) ` {..<n}"

lemma below_eight: "below sp 8 = {sp - 4, sp - 8, sp - 12, sp - 16, sp - 20, sp - 24, sp - 28, sp - 32}"
  by (auto simp: below_def numeral_eq_Suc lessThan_Suc)

lemma dispatch_run:
  assumes "valid_event_dispatch_spec s parent"
    and "length (call_bytes (dispatcher s)) = 5" "length (call_bytes (ed_application s)) = 5"
    and "x_eip c = ft_image_base (dispatcher s) + call_rva (dispatcher s) - 7"
    and "x_reg c EAX = 0" "x_reg c EBX = 0" "x_flags c AND 0x500 = 0"
  defines "sp \<equiv> x_reg c ESP"
  obtains c' where "run_through af (dispatch_path s) c = Some c'"
    "x_eip c' = ft_image_base (dispatcher s) + target_rva (ed_application s)"
    "x_reg c' = (x_reg c)(ESP := sp - 32, ESI := 0, EDI := 24)" "x_flags c' AND 0x500 = 0" "x_byte c' = x_byte c"
    "x_word c' (sp - 28) = 24"
    "\<And>a. a \<notin> below sp 8 \<Longrightarrow> x_word c' a = x_word c a"
proof -
  let ?base = "ft_image_base (dispatcher s)"
  have v: "valid_frame_target_spec (dispatcher s)" "valid_frame_target_spec (ed_application s)"
    and cb: "call_rva (ed_application s) = target_rva (dispatcher s) + 12" "ft_image_base (ed_application s) = ?base"
    using assms(1) unfolding valid_event_dispatch_spec_def Let_def by blast+
  from call_list[OF v(1) assms(2)] obtain b1 b2 b3 b4 where call: "call_bytes (dispatcher s) = [0xe8, b1, b2, b3, b4]"
    "word_of_bytes b1 b2 b3 b4 = target_rva (dispatcher s) - call_rva (dispatcher s) - 5" by blast
  from call_list[OF v(2) assms(3)] obtain a1 a2 a3 a4 where app: "call_bytes (ed_application s) = [0xe8, a1, a2, a3, a4]"
    "word_of_bytes a1 a2 a3 a4 = target_rva (ed_application s) - call_rva (ed_application s) - 5" by blast
  obtain i g f h w b where c: "c = \<lparr>x_eip = i, x_reg = g, x_flags = f, x_fs0 = h, x_word = w, x_byte = b\<rparr>" by (cases c)
  have "\<exists>c'. run_through af (dispatch_path s) c = Some c' \<and> x_eip c' = ?base + target_rva (ed_application s)
     \<and> x_reg c' = (x_reg c)(ESP := sp - 32, ESI := 0, EDI := 24) \<and> x_flags c' AND 0x500 = 0 \<and> x_byte c' = x_byte c
     \<and> x_word c' (sp - 28) = 24 \<and> (\<forall>a. a \<notin> below sp 8 \<longrightarrow> x_word c' a = x_word c a)"
    using assms(4-7)
    by (simp add: c dispatch_path_def dispatch_legs_def Let_def call app cb event_dispatch_branch_def event_dispatch_prologue_def x86_eval
          logic_result_flags_def even_parity_def sp_def)
      (auto simp: below_eight fun_eq_iff)
  then show thesis using that by blast
qed

lemma routing_run:
  assumes "application_routing_code s p = Some code" and "tables_loaded s p c"
    and "length (indices s) = 39" "length (target_rvas s) = 11"
    and "x_eip c = ft_image_base (ed_application p) + target_rva (ed_application p)"
    and "x_word c (x_reg c ESP + 4) = 24" "x_flags c AND 0x500 = 0"
  obtains c' where "run_through af (routing_legs s p code) c = Some c'"
    "x_eip c' = ft_image_base (initializer s) + call_rva (initializer s)" "x_reg c' = (x_reg c)(EAX := 5)"
    "x_flags c' AND 0x500 = 0"
proof -
  let ?base = "ft_image_base (ed_application p)"
  note code = application_routing_code_result(1)[OF assms(1)] and idx = application_routing_code_result(2)[OF assms(1)]
    and tgt = application_routing_code_result(3)[OF assms(1)] and fb = application_routing_code_result(4)[OF assms(1)]
  obtain i g f h w b where c: "c = \<lparr>x_eip = i, x_reg = g, x_flags = f, x_fs0 = h, x_word = w, x_byte = b\<rparr>" by (cases c)
  have tab: "b (24 + (?base + index_rva s)) = 5" "w (20 + (?base + routing_table_rva s)) = ?base + call_rva (initializer s)"
    using assms(2-4) nth_bytes_at[of 24 39 c "?base + index_rva s"] nth_words_at[of 5 11 c "?base + routing_table_rva s"]
    unfolding tables_loaded_def Let_def by (auto simp: idx tgt add.commute c)
  have "\<exists>c'. run_through af (routing_legs s p code) c = Some c' \<and> x_eip c' = ft_image_base (initializer s) + call_rva (initializer s)
     \<and> x_reg c' = (x_reg c)(EAX := 5) \<and> x_flags c' AND 0x500 = 0"
    using assms(5-7) by (simp add: c routing_legs_def Let_def code fb tab x86_eval sub_flags_def fun_eq_iff)
  then show thesis using that by blast
qed

lemma prelude_run:
  assumes "valid_game_prelude_spec s p" and "game_prelude_body s = Some body"
    and "length (call_bytes (initializer p)) = 5" "length (call_bytes (gp_empty s)) = 5" "length (call_bytes (localisation s)) = 5"
      "length (target_prefix (gp_empty s)) = 16"
    and "x_eip c = ft_image_base (initializer p) + call_rva (initializer p)" "x_reg c EAX = 5" "x_flags c AND 0x500 = 0"
  obtains c' where "run_through af (prelude_legs s p body) c = Some c'"
    "x_eip c' = ft_image_base (initializer p) + call_rva (localisation s) + 5"
    "x_reg c' = (x_reg c)(EAX := 0, ESP := x_reg c ESP - 4)" "x_flags c' AND 0x500 = 0"
    "x_word c' (x_reg c ESP - 4) = ft_image_base (initializer p) + call_rva (initializer p) + 5"
proof -
  let ?base = "ft_image_base (initializer p)"
  have v: "valid_frame_target_spec (initializer p)" "valid_frame_target_spec (gp_empty s)" "valid_frame_target_spec (localisation s)"
    and at: "call_rva (gp_empty s) = target_rva (initializer p)" "call_rva (localisation s) = call_rva (gp_empty s) + 5"
      "ft_image_base (localisation s) = ?base" and op: "target_prefix (gp_empty s) ! 0 = 0xc3"
    using assms(1) unfolding valid_game_prelude_spec_def Let_def by blast+
  from call_list[OF v(1) assms(3)] obtain i1 i2 i3 i4 where i: "call_bytes (initializer p) = [0xe8, i1, i2, i3, i4]"
    "word_of_bytes i1 i2 i3 i4 = target_rva (initializer p) - call_rva (initializer p) - 5" by blast
  from call_list[OF v(2) assms(4)] obtain e1 e2 e3 e4 where e: "call_bytes (gp_empty s) = [0xe8, e1, e2, e3, e4]"
    "word_of_bytes e1 e2 e3 e4 = target_rva (gp_empty s) - call_rva (gp_empty s) - 5" by blast
  from call_list[OF v(3) assms(5)] obtain l1 l2 l3 l4 where l: "call_bytes (localisation s) = [0xe8, l1, l2, l3, l4]"
    "word_of_bytes l1 l2 l3 l4 = target_rva (localisation s) - call_rva (localisation s) - 5" by blast
  obtain rest where ret: "target_prefix (gp_empty s) = 0xc3 # rest"
    using op assms(6) by (cases "target_prefix (gp_empty s)") auto
  note body = game_prelude_body_result[OF assms(2), unfolded at(3)]
  obtain ip g f h w b where c: "c = \<lparr>x_eip = ip, x_reg = g, x_flags = f, x_fs0 = h, x_word = w, x_byte = b\<rparr>" by (cases c)
  have "\<exists>c'. run_through af (prelude_legs s p body) c = Some c' \<and> x_eip c' = ?base + call_rva (localisation s) + 5
     \<and> x_reg c' = (x_reg c)(EAX := 0, ESP := x_reg c ESP - 4) \<and> x_flags c' AND 0x500 = 0
     \<and> x_word c' (x_reg c ESP - 4) = ?base + call_rva (initializer p) + 5"
    using assms(7-9) by (simp add: c prelude_legs_def Let_def i e l at ret body x86_eval fun_eq_iff)
  then show thesis using that by blast
qed

lemma manager_run:
  assumes "file_manager_body s = Some body" and "length (call_bytes (manager s)) = 5"
    and "x_eip c = ft_image_base (manager s) + call_rva (manager s)"
  defines "base \<equiv> ft_image_base (manager s)"
  obtains c' where "run_through af (manager_legs s body) c = Some c'"
    "x_eip c' = base + cwd_rva s" "x_reg c' = (x_reg c)(ESP := x_reg c ESP - 20)" "x_flags c' = x_flags c"
    "words_at c' (x_reg c ESP - 20) 5
       = [base + target_rva (manager s) + 16, base + buffer_rva s, 128, x_reg c EDI, base + call_rva (manager s) + 5]"
proof -
  have v: "valid_frame_target_spec (manager s)" by (rule file_manager_body_result(2)[OF assms(1)])
  from call_list[OF v assms(2)] obtain i1 i2 i3 i4 where i: "call_bytes (manager s) = [0xe8, i1, i2, i3, i4]"
    "word_of_bytes i1 i2 i3 i4 = target_rva (manager s) - call_rva (manager s) - 5" by blast
  note body = file_manager_body_result(1)[OF assms(1)]
  obtain ip g f h w b where c: "c = \<lparr>x_eip = ip, x_reg = g, x_flags = f, x_fs0 = h, x_word = w, x_byte = b\<rparr>" by (cases c)
  have "\<exists>c'. run_through af (manager_legs s body) c = Some c'
     \<and> x_eip c' = base + cwd_rva s \<and> x_reg c' = (x_reg c)(ESP := x_reg c ESP - 20) \<and> x_flags c' = x_flags c
     \<and> words_at c' (x_reg c ESP - 20) 5
       = [base + target_rva (manager s) + 16, base + buffer_rva s, 128, x_reg c EDI, base + call_rva (manager s) + 5]"
    using assms(3) by (simp add: c manager_legs_def Let_def i body file_manager_shape_def x86_eval fun_eq_iff base_def)
  then show thesis using that by blast
qed

section \<open>The whole path\<close>

text \<open>The arrays of the recipes have the sizes the source declares.\<close>

definition start_arrays :: "event_dispatch_spec \<Rightarrow> application_routing_spec \<Rightarrow> game_prelude_spec \<Rightarrow> file_manager_entry_spec \<Rightarrow> bool" where
  "start_arrays d r p m \<longleftrightarrow>
     list_all (\<lambda>f. length (call_bytes f) = 5 \<and> length (target_prefix f) = 16)
       [dispatcher d, ed_application d, initializer r, gp_empty p, localisation p, manager m]
     \<and> length (application_prefix d) = 21 \<and> length (indices r) = 39 \<and> length (target_rvas r) = 11"

text \<open>The processor before the branch after the instance check, with no slot of the stack inside the jump table.\<close>

definition before_dispatch :: "event_dispatch_spec \<Rightarrow> application_routing_spec \<Rightarrow> x86 \<Rightarrow> bool" where
  "before_dispatch d r c \<longleftrightarrow> x_eip c = ft_image_base (dispatcher d) + call_rva (dispatcher d) - 7
     \<and> x_reg c EAX = 0 \<and> x_reg c EBX = 0 \<and> x_flags c AND 0x500 = 0
     \<and> (\<forall>i<length (target_rvas r). ft_image_base (dispatcher d) + routing_table_rva r + 4 * word_of_nat i \<notin> below (x_reg c ESP) 8)"

lemma start_path_runs:
  assumes "valid_event_dispatch_spec d parent" and "valid_application_routing_spec r d" and "valid_file_manager_entry_spec m p r"
    and "start_arrays d r p m" and "before_dispatch d r c" and "tables_loaded r d c"
  obtains code body manager_body c' where "application_routing_code r d = Some code" "game_prelude_body p = Some body"
    "file_manager_body m = Some manager_body" "run_through af (start_path d r p m code body manager_body) c = Some c'"
    "x_eip c' = ft_image_base (dispatcher d) + cwd_rva m" "x_reg c' ESP = x_reg c ESP - 56" "x_reg c' EAX = 0"
    "words_at c' (x_reg c ESP - 56) 5 = [ft_image_base (dispatcher d) + target_rva (manager m) + 16,
       ft_image_base (dispatcher d) + buffer_rva m, 128, 24, ft_image_base (dispatcher d) + call_rva (manager m) + 5]"
proof -
  let ?base = "ft_image_base (dispatcher d)"
  obtain code where code: "application_routing_code r d = Some code"
    using assms(2) by (cases "application_routing_code r d") (auto simp: valid_application_routing_spec_def)
  have gp: "valid_game_prelude_spec p r" using assms(3) by (auto simp: valid_file_manager_entry_spec_def Let_def)
  obtain body where body: "game_prelude_body p = Some body"
    using gp by (cases "game_prelude_body p") (auto simp: valid_game_prelude_spec_def Let_def)
  obtain mb where mb: "file_manager_body m = Some mb" and mbase: "ft_image_base (manager m) = ft_image_base (initializer r)"
    and mcall: "call_rva (manager m) = call_rva (localisation p) + 5" by (rule valid_manager[OF assms(3)])
  have ebase: "ft_image_base (ed_application d) = ?base" using assms(1) unfolding valid_event_dispatch_spec_def Let_def by blast
  have rbase: "ft_image_base (initializer r) = ?base"
    using code ebase by (auto simp: application_routing_code_def routing_layout_def Let_def split: if_splits)
  have sz: "length (call_bytes (dispatcher d)) = 5" "length (call_bytes (ed_application d)) = 5" "length (call_bytes (initializer r)) = 5"
    "length (call_bytes (gp_empty p)) = 5" "length (call_bytes (localisation p)) = 5" "length (call_bytes (manager m)) = 5"
    "length (target_prefix (gp_empty p)) = 16" "length (indices r) = 39" "length (target_rvas r) = 11"
    using assms(4) by (simp_all add: start_arrays_def)
  note before = assms(5)[unfolded before_dispatch_def]
  obtain c1 where c1: "run_through af (dispatch_path d) c = Some c1" "x_eip c1 = ?base + target_rva (ed_application d)"
    "x_reg c1 = (x_reg c)(ESP := x_reg c ESP - 32, ESI := 0, EDI := 24)" "x_flags c1 AND 0x500 = 0" "x_byte c1 = x_byte c"
    "x_word c1 (x_reg c ESP - 28) = 24" and kept: "\<And>a. a \<notin> below (x_reg c ESP) 8 \<Longrightarrow> x_word c1 a = x_word c a"
    using dispatch_run[OF assms(1) sz(1,2), of c af] before by blast
  have "words_at c1 (?base + routing_table_rva r) (length (target_rvas r)) = words_at c (?base + routing_table_rva r) (length (target_rvas r))"
    unfolding words_at_def by (rule map_cong[OF refl], rule kept) (use before in simp)
  then have tab: "tables_loaded r d c1"
    using assms(6) by (simp add: tables_loaded_def Let_def ebase bytes_at_def c1(5))
  obtain c2 where c2: "run_through af (routing_legs r d code) c1 = Some c2" "x_eip c2 = ?base + call_rva (initializer r)"
    "x_reg c2 = (x_reg c1)(EAX := 5)" "x_flags c2 AND 0x500 = 0"
    using routing_run[OF code tab sz(8,9), of af] c1(2,4,6) by (simp add: ebase rbase c1(3)) blast
  obtain c3 where c3: "run_through af (prelude_legs p r body) c2 = Some c3" "x_eip c3 = ?base + call_rva (manager m)"
    "x_reg c3 = (x_reg c2)(EAX := 0, ESP := x_reg c2 ESP - 4)"
    using prelude_run[OF gp body sz(3-5,7), of c2 af] c2(2-4) by (simp add: rbase mcall add.assoc) blast
  obtain c4 where c4: "run_through af (manager_legs m mb) c3 = Some c4" "x_eip c4 = ?base + cwd_rva m"
    "x_reg c4 = (x_reg c3)(ESP := x_reg c3 ESP - 20)"
    "words_at c4 (x_reg c3 ESP - 20) 5 = [?base + target_rva (manager m) + 16, ?base + buffer_rva m, 128, x_reg c3 EDI, ?base + call_rva (manager m) + 5]"
    using manager_run[OF mb sz(6), of c3 af] c3(2) by (simp add: mbase rbase) blast
  have "run_through af (start_path d r p m code body mb) c = Some c4"
    by (simp add: start_path_def run_through_append c1(1) c2(1) c3(1) c4(1))
  moreover have at: "x_reg c3 ESP = x_reg c ESP - 36" "x_reg c3 EDI = 24" "x_reg c3 EAX = 0" by (simp_all add: c3(3) c2(3) c1(3))
  moreover have "x_reg c4 ESP = x_reg c ESP - 56" "x_reg c4 EAX = 0" by (simp_all add: c4(3) at)
  ultimately show thesis using that[OF code body mb] c4(2,4) by (simp add: at(1))
qed

end
