(* ===== verification/Loader_Path.thy ===== *)
theory Loader_Path
  imports Loader_Shapes Game_Start
begin

text \<open>
  The checks of the loader observation (\<open>Loader_Shapes\<close>) and the execution of the audited code (\<open>Game_Start\<close>) put together:
  what the child's memory holds after a passed check is the code the reference processor runs.
\<close>

section \<open>What a passed check shows\<close>

text \<open>
  The memory is a function from addresses to bytes, and a read that succeeds returns what it holds.
\<close>

definition honest_reads :: "observer_api \<Rightarrow> (u32 \<Rightarrow> u8) \<Rightarrow> bool" where
  "honest_reads os mem \<longleftrightarrow> (\<forall>a n buffer. read_process os a n = (True, n, buffer) \<longrightarrow> (\<forall>i<n. buffer i = mem (a + of_nat i)))"

primrec loaded :: "(u32 \<Rightarrow> u8) \<Rightarrow> u32 \<Rightarrow> bytes \<Rightarrow> bool" where
  "loaded mem a [] = True"
| "loaded mem a (x # xs) = (mem a = x \<and> loaded mem (a + 1) xs)"

lemma loaded_iff: "loaded mem a code \<longleftrightarrow> (\<forall>i<length code. mem (a + of_nat i) = code ! i)"
  by (induction code arbitrary: a) (auto simp: All_less_Suc2 add.assoc)

lemma loaded_append [simp]: "loaded mem a (xs @ ys) \<longleftrightarrow> loaded mem a xs \<and> loaded mem (a + of_nat (length xs)) ys"
  by (induction xs arbitrary: a) (auto simp: add.assoc)

lemma read_image_loaded:
  assumes "honest_reads os mem" and "read_image os base rva n code = Some bs"
  shows "loaded mem (base + rva) bs"
  using assms by (auto simp: read_image_def honest_reads_def loaded_iff Let_def split: option.splits if_splits prod.splits)

lemma exact_bytes_loaded:
  "honest_reads os mem \<Longrightarrow> exact_bytes os code base rva expected \<Longrightarrow> loaded mem (base + rva) expected"
proof (induction os code base rva expected rule: exact_bytes.induct)
  case (1 os code base rva expected)
  show ?case
  proof (cases "expected = []")
    case True
    then show ?thesis by simp
  next
    case False
    then have "read_image os base rva (length (take 16 expected)) code = Some (take 16 expected)"
      and rest: "exact_bytes os code base (rva + 16) (drop 16 expected)"
      using 1(3) by (subst (asm) exact_bytes.simps; simp)+
    then have head: "loaded mem (base + rva) (take 16 expected)" using read_image_loaded[OF 1(2)] by blast
    have tail: "loaded mem (base + (rva + 16)) (drop 16 expected)" using 1(1)[OF False 1(2) rest] .
    have "loaded mem (base + rva) (take 16 expected @ drop 16 expected)"
    proof (cases "length expected \<le> 16")
      case True
      then show ?thesis using head by simp
    next
      case False
      then show ?thesis using head tail unfolding loaded_append by (simp add: min_def add.assoc)
    qed
    then show ?thesis by simp
  qed
qed

lemmas exact_code_loaded = exact_bytes_loaded[where code = True, folded exact_code_def]

lemma loaded_take: "loaded mem a code \<Longrightarrow> loaded mem a (take n code)"
  by (auto simp: loaded_iff)

lemma read_word_memory:
  assumes "honest_reads os mem" and "read_word os base rva = Some v"
  shows "word_of_bytes (mem (base + rva)) (mem (base + rva + 1)) (mem (base + rva + 2)) (mem (base + rva + 3)) = v"
proof -
  obtain bs where r: "read_image os base rva 4 False = Some bs" and v: "get_word bs 0 = v"
    using assms(2) by (auto simp: read_word_def)
  have n: "length bs = 4" using r by (auto simp: read_image_def Let_def split: option.splits if_splits prod.splits)
  have "loaded mem (base + rva) bs" by (rule read_image_loaded[OF assms(1) r])
  then show ?thesis using v n by (auto simp: loaded_iff get_word_of_bytes eval_nat_numeral less_Suc_eq all_conj_distrib)
qed

text \<open>The processor sees the child's memory.\<close>

definition sees_memory :: "(u32 \<Rightarrow> u8) \<Rightarrow> x86 \<Rightarrow> bool" where
  "sees_memory mem c \<longleftrightarrow> (\<forall>a. x_byte c a = mem a \<and> x_word c a = word_of_bytes (mem a) (mem (a + 1)) (mem (a + 2)) (mem (a + 3)))"

lemma routing_tables_loaded:
  assumes "honest_reads os mem" and "routing_loaded os base s d" and "base = ft_image_base (ed_application d)" and "sees_memory mem c"
  shows "tables_loaded s d c"
proof -
  obtain code where code: "application_routing_code s d = Some code"
    and idx: "exact_bytes os False base (index_rva s) (indices s)"
    and tab: "list_all (\<lambda>i. read_word os base (routing_table_rva s + of_nat (i * 4)) = Some (rc_targets code ! i)) [0..<length (rc_targets code)]"
    using assms(2) by (auto simp: routing_loaded_def split: option.splits)
  have tg: "rc_targets code = map (\<lambda>t. base + t) (target_rvas s)"
    by (simp add: application_routing_code_result(1)[OF code] assms(3))
  have "bytes_at c (base + index_rva s) (length (indices s)) = indices s"
    by (rule nth_equalityI)
       (use exact_bytes_loaded[OF assms(1) idx] assms(4) in \<open>simp_all add: bytes_at_def loaded_iff sees_memory_def\<close>)
  moreover have "x_word c (base + routing_table_rva s + 4 * word_of_nat i) = base + target_rvas s ! i" if "i < length (target_rvas s)" for i
  proof -
    have "read_word os base (routing_table_rva s + of_nat (i * 4)) = Some (base + target_rvas s ! i)"
      using tab that by (simp add: list_all_iff tg)
    from read_word_memory[OF assms(1) this] show ?thesis using assms(4) by (simp add: sees_memory_def add.assoc mult.commute)
  qed
  then have "words_at c (base + routing_table_rva s) (length (target_rvas s)) = map (\<lambda>t. base + t) (target_rvas s)"
    by (intro nth_equalityI) (simp_all add: words_at_def)
  ultimately show ?thesis by (simp add: tables_loaded_def Let_def assms(3)[symmetric])
qed

definition path_loaded :: "(u32 \<Rightarrow> u8) \<Rightarrow> (region_code \<times> nat) list \<Rightarrow> bool" where
  "path_loaded mem legs \<longleftrightarrow> list_all (\<lambda>((a, code), n). loaded mem a code) legs"

lemma start_path_loaded:
  assumes "honest_reads os mem" and "dispatch_loaded os base d" and "routing_loaded os base r d" and "prelude_loaded os base p"
    and "manager_loaded os base m" and "valid_event_dispatch_spec d parent" and "valid_file_manager_entry_spec m p r"
    and "start_arrays d r p m" and "base = ft_image_base (dispatcher d)"
    and "application_routing_code r d = Some code" "game_prelude_body p = Some body" "file_manager_body m = Some manager_body"
  shows "path_loaded mem (start_path d r p m code body manager_body)"
proof -
  note here = exact_code_loaded[OF assms(1), of base]
  have cb: "call_rva (ed_application d) = target_rva (dispatcher d) + 12" "ft_image_base (ed_application d) = base"
    using assms(6) unfolding valid_event_dispatch_spec_def Let_def assms(9) by blast+
  have gp: "valid_game_prelude_spec p r" using assms(7) by (auto simp: valid_file_manager_entry_spec_def Let_def)
  have at: "call_rva (gp_empty p) = target_rva (initializer r)" "call_rva (localisation p) = call_rva (gp_empty p) + 5"
    using gp unfolding valid_game_prelude_spec_def Let_def by blast+
  have mbase: "ft_image_base (manager m) = ft_image_base (initializer r)" by (rule valid_manager[OF assms(7)])
  have rbase: "ft_image_base (initializer r) = base" using application_routing_code_result(4)[OF assms(10)] cb(2) by simp
  have sz: "length (call_bytes (gp_empty p)) = 5" using assms(8) by (simp add: start_arrays_def)
  have entry: "length (rc_entry code) = 21" by (simp add: application_routing_code_result(1)[OF assms(10)])
  have d: "loaded mem (base + (call_rva (dispatcher d) - 7)) event_dispatch_branch" "loaded mem (base + call_rva (dispatcher d)) (call_bytes (dispatcher d))"
      "loaded mem (base + target_rva (dispatcher d)) event_dispatch_prologue"
      "loaded mem (base + call_rva (ed_application d)) (call_bytes (ed_application d))"
    using assms(2) here unfolding dispatch_loaded_def by blast+
  have r: "loaded mem (base + target_rva (ed_application d)) (rc_entry code)" "loaded mem (base + detour_rva r) (rc_detour code)"
      "loaded mem (base + (target_rva (ed_application d) + 20)) (rc_indirect code)"
      "loaded mem (base + call_rva (initializer r)) (call_bytes (initializer r))"
    using assms(3) here unfolding routing_loaded_def assms(10) option.case by blast+
  have p: "loaded mem (base + call_rva (gp_empty p)) (call_bytes (gp_empty p))" "loaded mem (base + target_rva (gp_empty p)) (target_prefix (gp_empty p))"
      "loaded mem (base + call_rva (localisation p)) (call_bytes (localisation p))" "loaded mem (base + target_rva (localisation p)) body"
    using assms(4) here unfolding prelude_loaded_def assms(11) option.case by blast+
  have m: "loaded mem (base + call_rva (manager m)) (call_bytes (manager m))" "loaded mem (base + target_rva (manager m)) manager_body"
    using assms(5) here unfolding manager_loaded_def assms(12) option.case by blast+
  show ?thesis
    using d r(2-4) loaded_take[OF r(1), of 20] p m
    by (simp add: path_loaded_def start_path_def dispatch_path_def dispatch_legs_def routing_legs_def prelude_legs_def manager_legs_def Let_def
        assms(9)[symmetric] cb mbase rbase at sz entry min_def event_dispatch_branch_def event_dispatch_prologue_def algebra_simps)
qed

lemma loaded_child_runs:
  assumes "honest_reads os mem" and "dispatch_loaded os base d" "routing_loaded os base r d" "prelude_loaded os base p" "manager_loaded os base m"
    and "valid_event_dispatch_spec d parent" "valid_application_routing_spec r d" "valid_file_manager_entry_spec m p r" "start_arrays d r p m"
    and "base = ft_image_base (dispatcher d)" and "sees_memory mem c" and "before_dispatch d r c"
  shows "\<exists>path c'. path_loaded mem path \<and> run_through af path c = Some c' \<and> x_eip c' = base + cwd_rva m
     \<and> words_at c' (x_reg c' ESP) 5 = [base + target_rva (manager m) + 16, base + buffer_rva m, 128, 24, base + call_rva (manager m) + 5]"
proof -
  have "ft_image_base (ed_application d) = base" using assms(6) unfolding valid_event_dispatch_spec_def Let_def assms(10) by blast
  then have tab: "tables_loaded r d c" using routing_tables_loaded[OF assms(1,3) _ assms(11)] by simp
  obtain code body mb c' where s: "application_routing_code r d = Some code" "game_prelude_body p = Some body" "file_manager_body m = Some mb"
    and run: "run_through af (start_path d r p m code body mb) c = Some c'" "x_eip c' = ft_image_base (dispatcher d) + cwd_rva m"
    "x_reg c' ESP = x_reg c ESP - 56"
    "words_at c' (x_reg c ESP - 56) 5 = [ft_image_base (dispatcher d) + target_rva (manager m) + 16,
       ft_image_base (dispatcher d) + buffer_rva m, 128, 24, ft_image_base (dispatcher d) + call_rva (manager m) + 5]"
    by (rule start_path_runs[OF assms(6-9,12) tab, of af])
  show ?thesis
    by (rule exI[of _ "start_path d r p m code body mb"], rule exI[of _ c'])
       (simp only: start_path_loaded[OF assms(1-6,8-10) s] run assms(10) simp_thms)
qed

section \<open>An admitted run\<close>

text \<open>The recipes of an admitted run are valid and sit at the child's base.\<close>

lemma admitted_path_recipes:
  assumes "run_admission host me s executable pins limits x = Admitted" and "recipes_given x rs"
  shows "valid_event_dispatch_spec (rx_dispatch rs) (rx_instance rs)" "valid_application_routing_spec (rx_routing rs) (rx_dispatch rs)"
    "valid_file_manager_entry_spec (rx_manager rs) (rx_prelude rs) (rx_routing rs)" "child_base s = ft_image_base (dispatcher (rx_dispatch rs))"
proof -
  note valid = admitted_recipes(1)[OF assms(1), unfolded startup_recipes_valid_def links_simps] and given = assms(2)[unfolded recipes_given_def]
  show d: "valid_event_dispatch_spec (rx_dispatch rs) (rx_instance rs)" "valid_application_routing_spec (rx_routing rs) (rx_dispatch rs)"
    "valid_file_manager_entry_spec (rx_manager rs) (rx_prelude rs) (rx_routing rs)"
    using valid given by auto
  have i: "valid_instance_startup_spec (rx_instance rs) (rx_platform rs) (rx_crt rs) (rx_suppression rs)"
    and c: "ft_image_base (crt_io (rx_crt rs)) = child_base s" "valid_crt_startup_spec (rx_crt rs)"
    using valid given by auto
  show "child_base s = ft_image_base (dispatcher (rx_dispatch rs))"
    using i c(1) c(2) d(1) unfolding valid_event_dispatch_spec_def valid_instance_startup_spec_def valid_crt_startup_spec_def Let_def by metis
qed

text \<open>So after admission the last check alone gives the reviewed start.\<close>

lemma admitted_child_runs_reviewed_start:
  assumes "run_admission host me (wa_child w) executable pins limits x = Admitted" and "recipes_given x (wa_recipes w)"
    and "manager_shape w p = Some q" and "honest_reads (wa_os w) mem" and "sees_memory mem c"
    and "start_arrays (rx_dispatch (wa_recipes w)) (rx_routing (wa_recipes w)) (rx_prelude (wa_recipes w)) (rx_manager (wa_recipes w))"
    and "before_dispatch (rx_dispatch (wa_recipes w)) (rx_routing (wa_recipes w)) c"
  shows "\<exists>path c'. path_loaded mem path \<and> run_through af path c = Some c' \<and> x_eip c' = child_base (wa_child w) + cwd_rva (rx_manager (wa_recipes w))"
  using loaded_child_runs[OF assms(4) manager_shape_passed(2-5)[OF assms(3)] admitted_path_recipes(1-3)[OF assms(1,2)] assms(6)
      admitted_path_recipes(4)[OF assms(1,2)] assms(5,7), of af] by blast

section \<open>A sample image\<close>

text \<open>An image whose one region holds the sample recipes' code, readable throughout.\<close>

definition piece :: "u32 \<times> bytes \<Rightarrow> (u32 \<Rightarrow> u8) \<Rightarrow> u32 \<Rightarrow> u8" where
  "piece sc rest a = (case sc of (start, code) \<Rightarrow> if a - start < of_nat (length code) then code ! unat (a - start) else rest a)"

definition pieces_apart :: "u32 \<times> bytes \<Rightarrow> u32 \<times> bytes \<Rightarrow> bool" where
  "pieces_apart x y \<longleftrightarrow> (let d = unat (fst y - fst x) in
     length (snd x) \<le> d \<and> d + length (snd y) < 2 ^ 32 \<and> length (snd x) < 65536 \<and> length (snd y) < 65536)"

lemma loaded_here:
  assumes "length code < 65536"
  shows "loaded (piece (start, code) rest) start code"
  using assms by (auto simp: loaded_iff piece_def word_less_nat_alt unat_of_nat)

lemma unat_add_small: "unat (x :: u32) + i < 2 ^ 32 \<Longrightarrow> unat (x + of_nat i) = unat x + i"
  by (simp add: unat_word_ariths(1) unat_of_nat)

lemma loaded_skip:
  assumes "pieces_apart (start, code) (b, c)" and "loaded rest b c"
  shows "loaded (piece (start, code) rest) b c"
proof -
  have "\<not> b + of_nat i - start < of_nat (length code)" if i: "i < length c" for i
  proof -
    have d: "length code \<le> unat (b - start)" "unat (b - start) + i < 2 ^ 32" "length code < 65536" "i < 65536"
      using assms(1) i by (simp_all add: pieces_apart_def Let_def)
    have "b + of_nat i - start = b - start + of_nat i" by simp
    then have "unat (b + of_nat i - start) = unat (b - start) + i" using unat_add_small[OF d(2)] by (simp only:)
    then show ?thesis using d(1,3) by (simp add: word_less_nat_alt unat_of_nat)
  qed
  then show ?thesis using assms(2) by (auto simp: loaded_iff piece_def)
qed

lemma loaded_pieces:
  "sorted_wrt pieces_apart ps \<Longrightarrow> list_all (\<lambda>p. length (snd p) < 65536) ps \<Longrightarrow> list_all (\<lambda>(b, c). loaded (foldr piece ps (\<lambda>_. 0)) b c) ps"
proof (induction ps)
  case (Cons p ps)
  then show ?case using loaded_here loaded_skip by (cases p) (fastforce simp: list_all_iff)
qed simp

definition sample_image :: "(u32 \<times> bytes) list" where
  "sample_image =
    [(0x40311b, [0x85, 0xc0, 0x75, 0x0f, 0x53, 0x6a, 0x18, 0xe8, 0xd9, 0x1e, 0, 0]),
     (0x405000, [0x56, 0x8b, 0x74, 0x24, 0x0c, 0x57, 0x8b, 0x7c, 0x24, 0x0c, 0x56, 0x57, 0xe8, 0xef, 0x0f, 0, 0]),
     (0x406000, [0x8b, 0x44, 0x24, 4, 0x83, 0xf8, 0x26, 0x0f, 0x87, 0xf3, 2, 0, 0, 0x90, 0x90, 0xe9, 0xec, 0x0f, 0, 0,
       0xff, 0x24, 0x85, 0, 0x72, 0x40, 0]),
     (0x407000, [0x0f, 0xb6, 0x80, 0, 0x71, 0x40, 0, 0xe9, 8, 0xf0, 0xff, 0xff]),
     (0x407100, indices sample_routing),
     (0x407200, [0, 0x63, 0x40, 0, 0, 0x63, 0x40, 0, 0, 0x63, 0x40, 0, 0, 0x63, 0x40, 0, 0, 0x63, 0x40, 0, 0, 0x61, 0x40, 0, 0, 0x63, 0x40, 0, 0, 0x63, 0x40, 0, 0, 0x63, 0x40, 0, 0, 0x63, 0x40, 0, 0, 0x63, 0x40, 0]),
     (0x406100, [0xe8, 0xfb, 0, 0, 0]),
     (0x406200, [0xe8, 0xfb, 1, 0, 0, 0xe8, 0xf6, 2, 0, 0] @ gp_stop_prefix sample_prelude @ [0, 0, 0, 0, 0]),
     (0x406400, [0xc3, 0x90, 0x90, 0x90, 0x90, 0x90, 0x90, 0x90, 0x90, 0x90, 0x90, 0x90, 0x90, 0x90, 0x90, 0x90]),
     (0x406500, [50, 192, 198, 5, 4, 192, 64, 0, 1, 162, 5, 192, 64, 0, 162, 6, 192, 64, 0, 195]),
     (0x406600, [87, 104, 128, 0, 0, 0, 104, 4, 208, 64, 0, 232, 240, 0, 0, 0, 191, 4, 208, 64, 0, 131, 196, 8, 79, 141, 164, 36,
       0, 0, 0, 0, 138, 71, 1, 71, 132, 192, 117, 248, 102, 161, 0, 224, 64, 0, 102, 137, 7, 95, 195]),
     (0x40e000, [0x5c, 0])]"

definition sample_memory :: "u32 \<Rightarrow> u8" where
  "sample_memory = foldr piece sample_image (\<lambda>_. 0)"

lemma sample_image_apart: "sorted_wrt pieces_apart sample_image" "list_all (\<lambda>p. length (snd p) < 65536) sample_image"
  by (simp_all add: sample_image_def pieces_apart_def Let_def sample_routing_def sample_prelude_def)

lemmas sample_bytes = loaded_pieces[OF sample_image_apart, folded sample_memory_def, unfolded sample_image_def sample_routing_def sample_prelude_def, simplified]

definition sample_region :: region where
  "sample_region = \<lparr>base_address = 0x400000, allocation_base = 0x400000, region_size = 0x10000,
       region_state = MEM_COMMIT, region_type = MEM_IMAGE, region_protect = 0x40\<rparr>"

definition sample_watch :: observer_api where
  "sample_watch = demo_observer_api\<lparr>query_region := \<lambda>a. Some sample_region, read_process := \<lambda>a n. (True, n, \<lambda>i. sample_memory (a + of_nat i))\<rparr>"

lemma sample_watch_honest: "honest_reads sample_watch sample_memory"
  by (auto simp: honest_reads_def sample_watch_def)

lemma read_sample:
  assumes "0 < n" "n \<le> 16" "unat rva + n \<le> 0x10000"
  shows "read_image sample_watch 0x400000 rva n code = Some (map (\<lambda>i. sample_memory (0x400000 + rva + of_nat i)) [0..<n])"
proof -
  have r: "rva \<le> 0x10000" using assms(3) by (simp add: word_le_nat_alt)
  have u: "unat (0x400000 + rva) = 0x400000 + unat rva" "unat (0x10000 - rva) = 0x10000 - unat rva"
    using assms(3) r by (simp_all add: unat_word_ariths unat_sub)
  show ?thesis
    using assms r u
    by (auto simp: read_image_def sample_watch_def sample_region_def MEM_COMMIT_def MEM_IMAGE_def UINT32_MAX_def Let_def
        word_le_nat_alt word_less_nat_alt unat_sub)
qed

lemma read_sample_loaded:
  assumes "n = length code" "code \<noteq> []" "n \<le> 16" "unat rva + n \<le> 0x10000" "loaded sample_memory (0x400000 + rva) code"
  shows "read_image sample_watch 0x400000 rva n x = Some code"
  using assms by (subst read_sample) (auto simp: loaded_iff intro!: nth_equalityI)

lemma exact_sample:
  "unat rva + length code \<le> 0x10000 \<Longrightarrow> loaded sample_memory (0x400000 + rva) code \<Longrightarrow> exact_bytes sample_watch x 0x400000 rva code"
proof (induction code arbitrary: rva rule: length_induct)
  case (1 code)
  show ?case
  proof (cases "code = []")
    case True
    then show ?thesis by (simp add: exact_bytes.simps)
  next
    case False
    have parts: "loaded sample_memory (0x400000 + rva) (take 16 code @ drop 16 code)" using 1(3) by simp
    have now: "read_image sample_watch 0x400000 rva (length (take 16 code)) x = Some (take 16 code)"
      by (rule read_sample_loaded) (use False 1(2) parts[unfolded loaded_append] in auto)
    have later: "exact_bytes sample_watch x 0x400000 (rva + 16) (drop 16 code)"
    proof (cases "length code \<le> 16")
      case True
      then show ?thesis by (simp add: exact_bytes.simps)
    next
      case long: False
      then have "unat (rva + 16) = unat rva + 16" using 1(2) by (simp add: unat_word_ariths)
      then show ?thesis
        using 1(1)[rule_format, of "drop 16 code" "rva + 16"] 1(2) parts[unfolded loaded_append] long by (simp add: min_def add.assoc add.commute)
    qed
    show ?thesis by (subst exact_bytes.simps) (use now later in simp)
  qed
qed

lemmas exact_code_sample = exact_sample[where x = True, folded exact_code_def]

lemma sample_dispatch_loaded: "dispatch_loaded sample_watch 0x400000 sample_dispatch"
  unfolding dispatch_loaded_def
  by (simp add: exact_code_sample read_sample_loaded sample_dispatch_def sample_bytes event_dispatch_branch_def event_dispatch_prologue_def)

lemma sample_manager_loaded: "manager_loaded sample_watch 0x400000 sample_manager"
  unfolding manager_loaded_def
  by (simp add: exact_code_sample read_sample[of "Suc 0"] read_sample_loaded sample_manager_def sample_bytes file_manager_body_def file_manager_shape_def
      valid_frame_target_spec_def UINT32_MAX_def rel32_def get_word_def Let_def put_word_def)

lemma sample_prelude_loaded: "prelude_loaded sample_watch 0x400000 sample_prelude"
  unfolding prelude_loaded_def
  by (simp add: exact_code_sample sample_prelude_def sample_bytes game_prelude_body_def 
      valid_frame_target_spec_def UINT32_MAX_def rel32_def get_word_def Let_def put_word_def)

lemma read_word_sample:
  "unat rva + 4 \<le> 0x10000 \<Longrightarrow> read_word sample_watch 0x400000 rva = Some (word_of_bytes (sample_memory (0x400000 + rva))
     (sample_memory (0x400000 + rva + 1)) (sample_memory (0x400000 + rva + 2)) (sample_memory (0x400000 + rva + 3)))"
  by (simp add: read_word_def read_sample get_word_of_bytes)

lemma sample_routing_loaded: "routing_loaded sample_watch 0x400000 sample_routing sample_dispatch"
proof -
  obtain code where code: "application_routing_code sample_routing sample_dispatch = Some code" using sample_routing_valid(2) by blast
  show ?thesis
    unfolding routing_loaded_def code option.case application_routing_code_result(1)[OF code]
    by (simp add: exact_code_sample exact_sample read_word_sample sample_routing_def sample_dispatch_def sample_bytes put_word_def word_of_bytes_def upt_conv_Cons)
qed

text \<open>The processor at the branch, over the sample memory.\<close>

definition sample_start :: x86 where
  "sample_start = \<lparr>x_eip = 0x40311b, x_reg = (\<lambda>_. 0)(ESP := 0x19f000), x_flags = 0x202, x_fs0 = -1,
     x_word = \<lambda>a. word_of_bytes (sample_memory a) (sample_memory (a + 1)) (sample_memory (a + 2)) (sample_memory (a + 3)),
     x_byte = sample_memory\<rparr>"

text \<open>
  Claim C23. A child that passed the memory checks runs the reviewed start of the game. The four checks compare the
  code of the dispatch, the handler with its switch tables, the initializer and the file manager
  with the child's memory in blocks of sixteen bytes. If reads are honest, every
  instruction of the path is in that memory, and from the branch after the instance check the reference processor
  follows it through event 24 to the routine that reads the current directory, with the
  reviewed buffer and length 128 on the stack.
\<close>

theorem checked_child_runs_reviewed_start:
  assumes "honest_reads os mem" and "dispatch_loaded os base d" "routing_loaded os base r d" "prelude_loaded os base p" "manager_loaded os base m"
    and "valid_event_dispatch_spec d parent" "valid_application_routing_spec r d" "valid_file_manager_entry_spec m p r" "start_arrays d r p m"
    and "base = ft_image_base (dispatcher d)" and "sees_memory mem c" and "before_dispatch d r c"
  shows "\<exists>path c'. path_loaded mem path \<and> run_through af path c = Some c' \<and> x_eip c' = base + cwd_rva m
     \<and> words_at c' (x_reg c' ESP) 5 = [base + target_rva (manager m) + 16, base + buffer_rva m, 128, 24, base + call_rva (manager m) + 5]"
  by (rule loaded_child_runs[OF assms])

lemma sample_start_ready: "sees_memory sample_memory sample_start" "before_dispatch sample_dispatch sample_routing sample_start"
  "start_arrays sample_dispatch sample_routing sample_prelude sample_manager"
proof -
  show "sees_memory sample_memory sample_start" by (simp add: sees_memory_def sample_start_def)
  have "0x407200 + 4 * word_of_nat i \<notin> below 0x19f000 8" if "i < 11" for i
  proof -
    have "i = 0 \<or> i = 1 \<or> i = 2 \<or> i = 3 \<or> i = 4 \<or> i = 5 \<or> i = 6 \<or> i = 7 \<or> i = 8 \<or> i = 9 \<or> i = 10" using that by presburger
    then show ?thesis by (elim disjE; simp add: below_eight)
  qed
  then show "before_dispatch sample_dispatch sample_routing sample_start"
    by (simp add: before_dispatch_def sample_start_def sample_dispatch_def sample_routing_def)
  show "start_arrays sample_dispatch sample_routing sample_prelude sample_manager"
    by (simp add: start_arrays_def sample_dispatch_def sample_routing_def sample_prelude_def sample_manager_def event_dispatch_prologue_def)
qed

theorem checked_child_runs_reviewed_start_witness:
  "\<exists>path c'. path_loaded sample_memory path \<and> run_through True path sample_start = Some c' \<and> x_eip c' = 0x406700"
proof -
  have b: "(0x400000 :: u32) = ft_image_base (dispatcher sample_dispatch)" "0x400000 + cwd_rva sample_manager = 0x406700"
    by (simp_all add: sample_dispatch_def sample_manager_def)
  show ?thesis
    using checked_child_runs_reviewed_start[OF sample_watch_honest sample_dispatch_loaded sample_routing_loaded sample_prelude_loaded
      sample_manager_loaded sample_dispatch_valid sample_routing_valid(1) sample_manager_valid(1) sample_start_ready(3) b(1)
      sample_start_ready(1,2), of True] b(2) by auto
qed

end
