(* ===== verification/Loader_Stages.thy ===== *)
theory Loader_Stages
  imports Loader_Shapes
begin

text \<open>
  The checks of \<open>run_impl\<close> (\<open>loader_observation.cpp\<close>) for the stages behind the file manager: the directory routine, its
  lock, the query, the copy and the return, the stream tables, the disk parameters, the allocation and the
  channels. Each includes the check before it (\<open>Loader_Shapes\<close>). The readers take a bounded copy of memory whose
  protection and owner were checked, and the arming functions set the breakpoint of a stop and read the debug
  registers back.
\<close>

section \<open>Recipes and addresses\<close>

record stage_recipes =
  ry_seh :: cwd_seh_spec
  ry_lock :: cwd_lock_spec
  ry_acquire :: cwd_acquire_spec
  ry_query :: cwd_query_spec
  ry_copy :: cwd_copy_spec
  ry_completion :: cwd_return_spec
  ry_ready :: file_manager_ready_spec
  ry_tables :: cd_stream_tables_spec
  ry_disk :: cd_stream_disk_spec
  ry_allocation :: cd_stream_allocation_spec
  ry_channels :: cd_stream_channels_spec

text \<open>The system functions the stages have found so far, zero before.\<close>

record addresses =
  ad_seen :: progress
  ad_acquire :: u32
  ad_query :: u32
  ad_query_body :: u32
  ad_ready :: u32
  ad_disk :: u32
  ad_disk_body :: u32
  ad_allocation :: u32
  ad_channels :: "u32 list"

text \<open>An active module of the given name, and the base of the last one (zero when there is none).\<close>

definition active_named :: "progress \<Rightarrow> string \<Rightarrow> observed_module \<Rightarrow> bool" where
  "active_named p name m \<longleftrightarrow> om_admitted m \<and> mapping_active (om_mapping m) (om_base m) (pg_mappings p) \<and> id_name (om_file m) = name"

definition last_base :: "progress \<Rightarrow> string \<Rightarrow> u32" where
  "last_base p name = fold (\<lambda>m b. if active_named p name m then om_base m else b) (pg_modules p) 0"

text \<open>Two words may be recorded when nothing was recorded before or the same.\<close>

definition recorded :: "u32 \<Rightarrow> u32 \<Rightarrow> bool" where
  "recorded seen now \<longleftrightarrow> \<not> (seen \<noteq> 0 \<and> seen \<noteq> now)"

section \<open>The directory routine\<close>

definition seh_shape :: "watched \<Rightarrow> stage_recipes \<Rightarrow> addresses \<Rightarrow> addresses option" where
  "seh_shape w l a =
    (let os = wa_os w; s = ry_seh l; base = child_base (wa_child w) in
     case manager_shape w (ad_seen a) of None \<Rightarrow> None
     | Some p \<Rightarrow> (case cwd_seh_code s of None \<Rightarrow> None
       | Some (wrapper, body, scope) \<Rightarrow>
         if exact_code os base (call_rva (seh_wrapper s)) (call_bytes (seh_wrapper s))
            \<and> exact_code os base (target_rva (seh_wrapper s)) wrapper
            \<and> exact_code os base (target_rva (seh_prologue s)) body
            \<and> exact_code os base (call_rva (seh_prologue s) + 5) (seh_stop_prefix s)
            \<and> read_image os base (scope_rva s) 12 False = Some scope
            \<and> read_image os base (handler_rva s) 1 True \<noteq> None \<and> read_image os base (cleanup_rva s) 1 True \<noteq> None
         then Some (a\<lparr>ad_seen := p\<rparr>) else None))"

definition lock_shape :: "watched \<Rightarrow> stage_recipes \<Rightarrow> addresses \<Rightarrow> addresses option" where
  "lock_shape w l a =
    (let os = wa_os w; f = selector (ry_lock l); base = child_base (wa_child w) in
     case seh_shape w l a of None \<Rightarrow> None
     | Some a1 \<Rightarrow> (case cwd_lock_code (ry_lock l) of None \<Rightarrow> None
       | Some code \<Rightarrow>
         if exact_code os base (call_rva f) (call_bytes f) \<and> exact_code os base (target_rva f) code
            \<and> exact_code os base (target_rva f + 17) (lock_stop_prefix (ry_lock l)) then Some a1 else None))"

text \<open>The function behind an import slot: a named export of the system module whose code is the audited one.\<close>

definition is_function :: "watched \<Rightarrow> progress \<Rightarrow> bootstrap_export_spec \<Rightarrow> u32 \<Rightarrow> bool" where
  "is_function w p f target \<longleftrightarrow> list_ex (\<lambda>m. active_named p ''ntdll.dll'' m \<and> target = om_base m + export_rva f
     \<and> exact_code (wa_os w) (om_base m) (export_rva f) (audited_prefix f)) (pg_modules p)"

definition acquire_shape :: "watched \<Rightarrow> stage_recipes \<Rightarrow> addresses \<Rightarrow> addresses option" where
  "acquire_shape w l a =
    (let os = wa_os w; s = ry_acquire l; f = selector (ry_lock l); base = child_base (wa_child w) in
     case lock_shape w l a of None \<Rightarrow> None
     | Some a1 \<Rightarrow> (case cwd_acquire_code s (ry_lock l) of None \<Rightarrow> None
       | Some code \<Rightarrow>
         if \<not> exact_code os base (target_rva f + 38) code \<or> \<not> exact_code os base (call_rva f + 5) (acquire_return_prefix s) then None
         else (case read_word os base (acquire_iat_rva s) of None \<Rightarrow> None
           | Some target \<Rightarrow>
             if \<not> recorded (ad_acquire a1) target then None
             else if is_function w (ad_seen a1) (acquire_function s) target then Some (a1\<lparr>ad_acquire := target\<rparr>) else None)))"

definition query_shape :: "watched \<Rightarrow> stage_recipes \<Rightarrow> addresses \<Rightarrow> addresses option" where
  "query_shape w l a =
    (let os = wa_os w; s = ry_query l; f = selector (ry_lock l); base = child_base (wa_child w) in
     case acquire_shape w l a of None \<Rightarrow> None
     | Some a1 \<Rightarrow> (case cwd_query_code s (ry_lock l) of None \<Rightarrow> None
       | Some (wrapper, helper, path) \<Rightarrow>
         if \<not> exact_code os base (call_rva f + 5) wrapper \<or> \<not> exact_code os base (helper_rva s) helper
            \<or> \<not> exact_code os base (helper_rva s + 123) path \<or> \<not> exact_code os base (helper_rva s + 141) (query_return_prefix s) then None
         else
           let k32 = last_base (ad_seen a1) ''kernel32.dll''; kb = last_base (ad_seen a1) ''kernelbase.dll'' in
           if k32 = 0 \<or> kb = 0 then None
           else (case (bootstrap_export_prefix (query_function s) k32, bootstrap_export_prefix (implementation s) kb) of
               (Some function_code, Some body) \<Rightarrow>
                 (case (read_word os base (query_iat_rva s), read_word os k32 (thunk_slot_rva s)) of
                    (Some target, Some behind) \<Rightarrow>
                      if target \<noteq> k32 + export_rva (query_function s) \<or> behind \<noteq> kb + export_rva (implementation s)
                         \<or> \<not> exact_code os k32 (export_rva (query_function s)) function_code
                         \<or> \<not> exact_code os kb (export_rva (implementation s)) body
                         \<or> \<not> recorded (ad_query a1) target \<or> \<not> recorded (ad_query_body a1) behind then None
                      else Some (a1\<lparr>ad_query := target, ad_query_body := behind\<rparr>)
                  | _ \<Rightarrow> None)
             | _ \<Rightarrow> None)))"

definition copy_shape :: "watched \<Rightarrow> stage_recipes \<Rightarrow> addresses \<Rightarrow> addresses option" where
  "copy_shape w l a =
    (let os = wa_os w; s = ry_copy l; helper = helper_rva (ry_query l); base = child_base (wa_child w) in
     case query_shape w l a of None \<Rightarrow> None
     | Some a1 \<Rightarrow> (case cwd_copy_code s (ry_query l) (ry_lock l) of None \<Rightarrow> None
       | Some code \<Rightarrow>
         if exact_code os base (helper + 141) (cc_checks code) \<and> exact_code os base (helper + 197) (cc_capacity code)
            \<and> exact_code os base (helper + 218) (cc_call code) \<and> exact_code os base (copier_rva s) (cc_entry code)
            \<and> exact_code os base (copier_rva s + 117) (cc_body code) \<and> exact_code os base (helper + 231) (copy_return_prefix s)
         then Some a1 else None))"

definition return_shape :: "watched \<Rightarrow> stage_recipes \<Rightarrow> addresses \<Rightarrow> addresses option" where
  "return_shape w l a =
    (let os = wa_os w; s = ry_completion l; helper = helper_rva (ry_query l); base = child_base (wa_child w) in
     case copy_shape w l a of None \<Rightarrow> None
     | Some a1 \<Rightarrow> (case cwd_return_code s (ry_copy l) (ry_query l) (ry_lock l) of None \<Rightarrow> None
       | Some code \<Rightarrow>
         if exact_code os base (helper + 231) (rc_cleanup code) \<and> exact_code os base (helper + 63) (rc_epilogue code)
            \<and> exact_code os base (checker_rva s) (rc_checker code)
            \<and> exact_code os base (call_rva (selector (ry_lock l)) + 23) (return_return_prefix s)
         then Some a1 else None))"

definition ready_shape :: "watched \<Rightarrow> stage_recipes \<Rightarrow> addresses \<Rightarrow> addresses option" where
  "ready_shape w l a =
    (let os = wa_os w; s = ry_ready l; base = child_base (wa_child w) in
     case return_shape w l a of None \<Rightarrow> None
     | Some a1 \<Rightarrow> (case file_manager_ready_code s (ry_completion l) (ry_lock l) (ry_seh l) (rx_manager (wa_recipes w)) of None \<Rightarrow> None
       | Some code \<Rightarrow>
         if \<not> exact_code os base (call_rva (selector (ry_lock l)) + 23) (fr_wrapper code)
            \<or> \<not> exact_code os base (cleanup_rva (ry_seh l)) (fr_cleanup code) \<or> \<not> exact_code os base (unlock_rva s) (fr_unlock code)
            \<or> \<not> exact_code os base (epilogue_rva s) (fr_epilogue code) then None
         else (case read_word os base (ready_iat_rva s) of None \<Rightarrow> None
           | Some target \<Rightarrow>
             if \<not> recorded (ad_ready a1) target then None
             else if is_function w (ad_seen a1) (ready_function s) target then Some (a1\<lparr>ad_ready := target\<rparr>) else None)))"

section \<open>The stream\<close>

definition tables_shape :: "watched \<Rightarrow> stage_recipes \<Rightarrow> addresses \<Rightarrow> addresses option" where
  "tables_shape w l a =
    (let os = wa_os w; s = ry_tables l; m = rx_manager (wa_recipes w); base = child_base (wa_child w) in
     case ready_shape w l a of None \<Rightarrow> None
     | Some a1 \<Rightarrow> (case cd_stream_tables_code s m of None \<Rightarrow> None
       | Some code \<Rightarrow>
         if exact_code os base (call_rva (manager m) + 5) (ct_caller code) \<and> exact_code os base (tables_target_rva s) (ct_body code)
         then Some a1 else None))"

definition disk_shape :: "watched \<Rightarrow> stage_recipes \<Rightarrow> addresses \<Rightarrow> addresses option" where
  "disk_shape w l a =
    (let os = wa_os w; s = ry_disk l; t = ry_tables l; base = child_base (wa_child w); g = disk_implementation s in
     case tables_shape w l a of None \<Rightarrow> None
     | Some a1 \<Rightarrow> (case cd_stream_disk_code s t (rx_manager (wa_recipes w)) of None \<Rightarrow> None
       | Some code \<Rightarrow>
         if \<not> exact_code os base (tables_target_rva t + 68) code then None
         else
           let k32 = last_base (ad_seen a1) ''kernel32.dll''; kb = last_base (ad_seen a1) ''kernelbase.dll'';
               slot = k32 + disk_thunk_slot_rva s; thunk = put_word [0xff, 0x25, 0, 0, 0, 0] 2 slot in
           if k32 = 0 \<or> kb = 0 \<or> k32 > UINT32_MAX - 16 * 1024 * 1024 \<or> kb > UINT32_MAX - 16 * 1024 * 1024 then None
           else (case bootstrap_export_prefix g kb of None \<Rightarrow> None
             | Some body \<Rightarrow>
               if \<not> exact_code os k32 (disk_thunk_rva s) thunk then None
               else (case (read_word os base (disk_iat_rva t), read_word os k32 (disk_thunk_slot_rva s)) of
                  (Some target, Some behind) \<Rightarrow>
                    if target \<noteq> k32 + disk_thunk_rva s \<or> behind \<noteq> kb + export_rva g \<or> \<not> exact_code os kb (export_rva g) body
                       \<or> \<not> recorded (ad_disk a1) target \<or> \<not> recorded (ad_disk_body a1) behind then None
                    else Some (a1\<lparr>ad_disk := target, ad_disk_body := behind\<rparr>)
                | _ \<Rightarrow> None))))"

text \<open>The last two checks say which of their steps failed.\<close>

fun first_failed :: "nat \<Rightarrow> bool list \<Rightarrow> nat option" where
  "first_failed n [] = None"
| "first_failed n (ok # oks) = (if ok then first_failed (n + 1) oks else Some n)"

definition scope_words :: "bytes \<Rightarrow> u32 list" where
  "scope_words bs = [get_word bs 0, get_word bs 4, get_word bs 8]"

definition allocation_shape :: "watched \<Rightarrow> stage_recipes \<Rightarrow> addresses \<Rightarrow> nat + addresses" where
  "allocation_shape w l a =
    (let os = wa_os w; s = ry_allocation l; base = child_base (wa_child w); f = heap_function s in
     case disk_shape w l a of None \<Rightarrow> Inl 1
     | Some a1 \<Rightarrow> (case cd_stream_allocation_code s (ry_disk l) (rx_manager (wa_recipes w)) (ry_seh l) (ry_ready l) of None \<Rightarrow> Inl 2
       | Some code \<Rightarrow>
         (case first_failed 3 [exact_code os base (allocator_rva (ry_disk l)) (al_aligned code), exact_code os base (malloc_rva s) (al_malloc code),
              exact_code os base (nh_rva s) (al_nh code), exact_code os base (nh_rva s + 43) [0xc3],
              exact_code os base (heap_rva s) (al_heap_entry code), exact_code os base (heap_rva s + 70) (al_heap_tail code)] of
            Some n \<Rightarrow> Inl n
          | None \<Rightarrow> (case read_word os base (heap_iat_rva s) of None \<Rightarrow> Inl 9
            | Some target \<Rightarrow> (case read_image os base (al_scope_rva s) 12 False of None \<Rightarrow> Inl 10
              | Some scope \<Rightarrow>
                if scope_words scope \<noteq> [UINT32_MAX, 0, base + scope_cleanup_rva s] then Inl 11
                else if \<not> recorded (ad_allocation a1) target then Inl 12
                else if list_ex (\<lambda>m. active_named (ad_seen a1) ''ntdll.dll'' m \<and> target = om_base m + export_rva f
                       \<and> (case bootstrap_export_prefix f (om_base m) of None \<Rightarrow> False
                          | Some prefix \<Rightarrow> exact_code os (om_base m) (export_rva f) prefix)) (pg_modules (ad_seen a1))
                then Inr (a1\<lparr>ad_allocation := target\<rparr>) else Inl 13)))))"

text \<open>The base of the last active module with the given name whose export has the audited code (\<open>None\<close> when there is none).\<close>

definition found_in :: "watched \<Rightarrow> progress \<Rightarrow> bootstrap_export_spec \<Rightarrow> string \<Rightarrow> u32 option" where
  "found_in w p f name = fold (\<lambda>m b.
     if active_named p name m \<and> (case bootstrap_export_prefix f (om_base m) of None \<Rightarrow> False
         | Some prefix \<Rightarrow> exact_code (wa_os w) (om_base m) (export_rva f) prefix) then Some (om_base m) else b) (pg_modules p) None"

definition channel_functions :: "watched \<Rightarrow> progress \<Rightarrow> cd_stream_channels_spec \<Rightarrow> u32 list" where
  "channel_functions w p s =
    map (\<lambda>(f, name). case found_in w p f name of None \<Rightarrow> 0 | Some b \<Rightarrow> b + export_rva f)
      [(error_thunk s, ''kernel32.dll''), (error_implementation s, ''ntdll.dll''),
       (local_thunk s, ''kernel32.dll''), (local_implementation s, ''kernelbase.dll'')]"

definition channels_shape :: "watched \<Rightarrow> stage_recipes \<Rightarrow> addresses \<Rightarrow> nat + addresses" where
  "channels_shape w l a =
    (let os = wa_os w; s = ry_channels l; t = ry_tables l; base = child_base (wa_child w) in
     case allocation_shape w l a of Inl _ \<Rightarrow> Inl 1
     | Inr a1 \<Rightarrow> (case cd_stream_channels_code s t (rx_manager (wa_recipes w)) of None \<Rightarrow> Inl 2
       | Some code \<Rightarrow>
         if \<not> exact_code os base (tables_target_rva t + 137) code then Inl 3
         else if read_image os base (filename_rva s) 16 False \<noteq> Some (map of_char ''MODELS'' @ [0x5c] @ map of_char ''GTA3.IMG'' @ [0]) then Inl 4
         else
           let fs = channel_functions w (ad_seen a1) s;
               kernel = (case found_in w (ad_seen a1) (error_thunk s) ''kernel32.dll'' of None \<Rightarrow> 0 | Some b \<Rightarrow> b) in
           if \<not> list_all (\<lambda>x. x \<noteq> 0) fs then Inl 5
           else if read_word os base (error_iat_rva s) \<noteq> Some (fs ! 0) \<or> read_word os base (local_iat_rva s) \<noteq> Some (fs ! 2)
              \<or> read_word os kernel (error_thunk_slot_rva s) \<noteq> Some (fs ! 1) \<or> read_word os kernel (local_thunk_slot_rva s) \<noteq> Some (fs ! 3) then Inl 6
           else if ad_channels a1 ! 0 \<noteq> 0 \<and> ad_channels a1 \<noteq> fs then Inl 7
           else Inr (a1\<lparr>ad_channels := fs\<rparr>)))"

text \<open>The bootstrap module: still mapped, its exports the audited ones.\<close>

definition bootstrap_shape :: "watched \<Rightarrow> bootstrap_lifecycle_spec \<Rightarrow> u32 \<Rightarrow> u32 \<Rightarrow> progress \<Rightarrow> progress option" where
  "bootstrap_shape w b mapping handle p =
    (if \<not> mapping_active mapping handle (pg_mappings p) then None
     else (case asi_shape w p of None \<Rightarrow> None
       | Some p1 \<Rightarrow>
         if list_all (\<lambda>f. case bootstrap_export_prefix f handle of None \<Rightarrow> False
             | Some expected \<Rightarrow> read_image (wa_os w) handle (export_rva f) 16 True = Some (take 16 expected)
                 \<and> read_image (wa_os w) handle (export_rva f + 16) 4 True = Some (drop 16 expected)) (exports b)
         then Some p1 else None))"

section \<open>Readers\<close>

text \<open>A writable region of memory, and a copy in blocks of sixteen bytes.\<close>

definition writable :: "region \<Rightarrow> bool" where
  "writable r \<longleftrightarrow> region_protect r AND 0xcc \<noteq> 0"

function read_blocks :: "observer_api \<Rightarrow> u32 \<Rightarrow> u32 \<Rightarrow> nat \<Rightarrow> bytes option" where
  "read_blocks os base rva n =
    (if n = 0 then Some []
     else (case read_image os base rva (min 16 n) False of None \<Rightarrow> None
       | Some bs \<Rightarrow> map_option ((@) bs) (read_blocks os base (rva + 16) (n - min 16 n))))"
  by pat_completeness auto
termination by (relation "measure (\<lambda>(_, _, _, n). n)") auto

declare read_blocks.simps [simp del]

text \<open>The region of a window of the image: committed, of this image, writable, unguarded, and long enough.\<close>

definition window_region :: "observer_api \<Rightarrow> u32 \<Rightarrow> u32 \<Rightarrow> nat \<Rightarrow> bool" where
  "window_region os base start n \<longleftrightarrow> (case query_region os start of None \<Rightarrow> False
     | Some r \<Rightarrow> \<not> (region_state r \<noteq> MEM_COMMIT \<or> region_type r \<noteq> MEM_IMAGE \<or> allocation_base r \<noteq> base \<or> \<not> writable r
         \<or> region_protect r AND 0x101 \<noteq> 0 \<or> start < base_address r \<or> start - base_address r > region_size r
         \<or> n > unat (region_size r - (start - base_address r))))"

definition manager_read_buffer :: "watched \<Rightarrow> bytes option" where
  "manager_read_buffer w =
    (let base = child_base (wa_child w); rva = buffer_rva (rx_manager (wa_recipes w)) - 4 in
     if window_region (wa_os w) base (base + rva) 136 then read_blocks (wa_os w) base rva 136 else None)"

definition tables_read :: "watched \<Rightarrow> stage_recipes \<Rightarrow> bytes option" where
  "tables_read w l =
    (let base = child_base (wa_child w); rva = handles_rva (ry_tables l) - 4 in
     if window_region (wa_os w) base (base + rva) cd_stream_table_bytes then read_blocks (wa_os w) base rva cd_stream_table_bytes else None)"

definition disk_read_globals :: "watched \<Rightarrow> stage_recipes \<Rightarrow> bytes option" where
  "disk_read_globals w l =
    (let base = child_base (wa_child w); rva = disk_flags_rva (ry_disk l) - 4 in
     if window_region (wa_os w) base (base + rva) 20 then read_blocks (wa_os w) base rva 20 else None)"

definition allocation_globals :: "watched \<Rightarrow> stage_recipes \<Rightarrow> u32 list option" where
  "allocation_globals w l =
    (let os = wa_os w; s = ry_allocation l; base = child_base (wa_child w) in
     those [read_word os base (new_mode_rva s), read_word os base (threshold_rva s), read_word os base (heap_handle_rva s),
       read_word os base (heap_mode_rva s)])"

definition lock_read_slot :: "watched \<Rightarrow> stage_recipes \<Rightarrow> bytes option" where
  "lock_read_slot w l =
    (let base = child_base (wa_child w); rva = lock_table_rva (ry_lock l) + 52 in
     case query_region (wa_os w) (base + rva) of None \<Rightarrow> None
     | Some r \<Rightarrow> if writable r then read_image (wa_os w) base rva 16 False else None)"

definition lock_read_stack :: "watched \<Rightarrow> u32 \<Rightarrow> bytes option" where
  "lock_read_stack w esp =
    (case query_region (wa_os w) (esp - 32) of None \<Rightarrow> None
     | Some r \<Rightarrow> if writable r then read_private (wa_os w) (esp - 32) 100 else None)"

text \<open>The first seven words of the thread block, whose last is its own address.\<close>

definition seh_read_tib :: "watched \<Rightarrow> progress \<Rightarrow> (u32 list \<times> progress) option" where
  "seh_read_tib w p =
    (case read_last_error w p of None \<Rightarrow> None
     | Some (_, p1) \<Rightarrow>
       (case query_region (wa_os w) (pg_teb p1) of None \<Rightarrow> None
        | Some r \<Rightarrow>
          if \<not> writable r then None
          else (case read_private (wa_os w) (pg_teb p1) 28 of None \<Rightarrow> None
            | Some bs \<Rightarrow> let tib = map (\<lambda>i. get_word bs (4 * i)) [0..<7] in
              if tib ! 6 = pg_teb p1 then Some (tib, p1) else None)))"

text \<open>The lock object: outside the stack and the thread block, in a region whose kind does not change.\<close>

definition acquire_read_object :: "watched \<Rightarrow> stage_recipes \<Rightarrow> u32 list \<Rightarrow> u32 \<Rightarrow> u32 \<times> u32 \<Rightarrow> (bytes \<times> u32 \<times> u32) option" where
  "acquire_read_object w l tib start seen =
    (let os = wa_os w; base = child_base (wa_child w) in
     if start < 65536 \<or> start > UINT32_MAX - 24 \<or> start mod 4 \<noteq> 0 \<or> (start < tib ! 1 \<and> tib ! 2 < start + 24)
        \<or> (start < tib ! 6 + 56 \<and> tib ! 6 < start + 24) then None
     else (case query_region os start of None \<Rightarrow> None
       | Some r \<Rightarrow>
         if start < base_address r \<or> start - base_address r > region_size r \<or> 24 > region_size r - (start - base_address r) then None
         else if fst seen \<noteq> 0 \<and> seen \<noteq> (region_type r, region_protect r) then None
         else if region_type r = MEM_PRIVATE
         then (if region_protect r AND 0xc \<noteq> 0
               then map_option (\<lambda>bs. (bs, region_type r, region_protect r)) (read_private os start 24) else None)
         else if region_type r \<noteq> MEM_IMAGE \<or> allocation_base r \<noteq> base \<or> start < base
            \<or> start - base > ft_image_size (selector (ry_lock l)) - 24 \<or> \<not> writable r then None
         else (case (read_image os base (start - base) 16 False, read_image os base (start - base + 16) 8 False) of
             (Some a, Some b) \<Rightarrow> Some (a @ b, region_type r, region_protect r)
           | _ \<Rightarrow> None)))"

section \<open>Arming\<close>

text \<open>
  Each stop is an execution breakpoint in the first debug register, next to the write watch on the import slot, the watch on the
  plugin's call and, later, the guard in the instance check. The registers are written and read back; the stage and
  the address are recorded only when what was read is what was asked for. \<open>c_dr\<close> lists the registers 0 to 3, 6 and 7.
\<close>

definition arm_registers ::
  "'c loader_host \<Rightarrow> (u32 list \<Rightarrow> bool) \<Rightarrow> u32 list \<Rightarrow> u32 \<times> u32 \<Rightarrow> thread_context \<Rightarrow> 'c \<Rightarrow> (u32 \<times> u32) option \<times> 'c" where
  "arm_registers host expected dr stop c st =
    (case host_set host (c\<lparr>c_dr := dr\<rparr>) st of (ok, st1) \<Rightarrow>
       if \<not> ok then (None, st1)
       else (case host_get host st1 of None \<Rightarrow> (None, st1)
         | Some v \<Rightarrow> (if expected (c_dr v) then Some stop else None, st1)))"

definition watches_import :: "watched \<Rightarrow> u32 list \<Rightarrow> bool" where
  "watches_import w dr \<longleftrightarrow> dr ! 1 = child_base (wa_child w) + iat_rva (rx_proxy (wa_recipes w))"

definition plugin_call :: "watched \<Rightarrow> progress \<Rightarrow> u32" where
  "plugin_call w p = pg_proxy_base p + asi_call_rva (rx_asi (wa_recipes w))"

definition plugin_end :: "watched \<Rightarrow> progress \<Rightarrow> u32" where
  "plugin_end w p = pg_proxy_base p + asi_end_rva (rx_asi (wa_recipes w))"

definition instance_guard :: "watched \<Rightarrow> u32" where
  "instance_guard w = child_base (wa_child w) + target_rva (is_caller (rx_instance (wa_recipes w))) + 31"

definition arm_asi :: "'c loader_host \<Rightarrow> watched \<Rightarrow> progress \<Rightarrow> u32 \<Rightarrow> thread_context \<Rightarrow> 'c \<Rightarrow> (u32 \<times> u32) option \<times> 'c" where
  "arm_asi host w p start c st =
    arm_registers host (\<lambda>dr. dr ! 0 = start \<and> watches_import w dr \<and> dr ! 2 = plugin_end w p \<and> dr ! 5 AND 0xffff20ff = 0x00d00015)
      ((c_dr c)[0 := start, 4 := 0, 2 := plugin_end w p, 5 := c_dr c ! 5 OR 0x10]) (0, start) c st"

definition arm_tail :: "'c loader_host \<Rightarrow> watched \<Rightarrow> progress \<Rightarrow> u32 \<Rightarrow> u32 \<Rightarrow> thread_context \<Rightarrow> 'c \<Rightarrow> (u32 \<times> u32) option \<times> 'c" where
  "arm_tail host w p stage start c st =
    arm_registers host (\<lambda>dr. dr ! 0 = start \<and> dr ! 2 = plugin_call w p \<and> watches_import w dr \<and> dr ! 5 AND 0xffff20ff = 0x00d00015)
      ((c_dr c)[0 := start, 4 := 0, 2 := plugin_call w p]) (stage, start) c st"

definition arm_crt :: "'c loader_host \<Rightarrow> watched \<Rightarrow> progress \<Rightarrow> u32 \<Rightarrow> u32 \<Rightarrow> thread_context \<Rightarrow> 'c \<Rightarrow> (u32 \<times> u32) option \<times> 'c" where
  "arm_crt host w p stage start c st =
    arm_registers host (\<lambda>dr. dr ! 0 = start \<and> watches_import w dr \<and> dr ! 2 = plugin_call w p \<and> dr ! 5 AND 0xffff20ff = 0x00d00015)
      ((c_dr c)[0 := start, 4 := 0]) (stage, start) c st"

definition arm_application :: "'c loader_host \<Rightarrow> watched \<Rightarrow> progress \<Rightarrow> u32 \<Rightarrow> u32 \<Rightarrow> thread_context \<Rightarrow> 'c \<Rightarrow> (u32 \<times> u32) option \<times> 'c" where
  "arm_application = arm_crt"

definition arm_instance :: "'c loader_host \<Rightarrow> watched \<Rightarrow> progress \<Rightarrow> u32 \<Rightarrow> u32 \<Rightarrow> thread_context \<Rightarrow> 'c \<Rightarrow> (u32 \<times> u32) option \<times> 'c" where
  "arm_instance host w p stage start c st =
    arm_registers host (\<lambda>dr. dr ! 0 = start \<and> dr ! 3 = instance_guard w \<and> watches_import w dr \<and> dr ! 2 = plugin_call w p
        \<and> dr ! 5 AND 0xffff20ff = 0x00d00055)
      ((c_dr c)[0 := start, 3 := instance_guard w, 4 := 0, 5 := 0x00d00055]) (stage, start) c st"

text \<open>From the dispatch on only the stop moves.\<close>

definition arm_dispatch :: "'c loader_host \<Rightarrow> watched \<Rightarrow> progress \<Rightarrow> u32 \<Rightarrow> u32 \<Rightarrow> thread_context \<Rightarrow> 'c \<Rightarrow> (u32 \<times> u32) option \<times> 'c" where
  "arm_dispatch host w p stage start c st =
    arm_registers host (\<lambda>dr. dr ! 0 = start \<and> watches_import w dr \<and> dr ! 2 = plugin_call w p \<and> dr ! 3 = instance_guard w
        \<and> dr ! 5 AND 0xffff20ff = 0x00d00055)
      ((c_dr c)[0 := start, 4 := 0]) (stage, start) c st"

text \<open>The arming functions of these stages are the same, each for its own stop.\<close>

definition arm_routing :: "'c loader_host \<Rightarrow> watched \<Rightarrow> progress \<Rightarrow> u32 \<Rightarrow> u32 \<Rightarrow> thread_context \<Rightarrow> 'c \<Rightarrow> (u32 \<times> u32) option \<times> 'c" where
  "arm_routing = arm_dispatch"

definition arm_prelude :: "'c loader_host \<Rightarrow> watched \<Rightarrow> progress \<Rightarrow> u32 \<Rightarrow> u32 \<Rightarrow> thread_context \<Rightarrow> 'c \<Rightarrow> (u32 \<times> u32) option \<times> 'c" where
  "arm_prelude = arm_dispatch"

definition arm_manager :: "'c loader_host \<Rightarrow> watched \<Rightarrow> progress \<Rightarrow> u32 \<Rightarrow> u32 \<Rightarrow> thread_context \<Rightarrow> 'c \<Rightarrow> (u32 \<times> u32) option \<times> 'c" where
  "arm_manager = arm_dispatch"

definition arm_seh :: "'c loader_host \<Rightarrow> watched \<Rightarrow> progress \<Rightarrow> u32 \<Rightarrow> u32 \<Rightarrow> thread_context \<Rightarrow> 'c \<Rightarrow> (u32 \<times> u32) option \<times> 'c" where
  "arm_seh = arm_dispatch"

definition arm_lock :: "'c loader_host \<Rightarrow> watched \<Rightarrow> progress \<Rightarrow> u32 \<Rightarrow> u32 \<Rightarrow> thread_context \<Rightarrow> 'c \<Rightarrow> (u32 \<times> u32) option \<times> 'c" where
  "arm_lock = arm_dispatch"

definition arm_acquire :: "'c loader_host \<Rightarrow> watched \<Rightarrow> progress \<Rightarrow> u32 \<Rightarrow> u32 \<Rightarrow> thread_context \<Rightarrow> 'c \<Rightarrow> (u32 \<times> u32) option \<times> 'c" where
  "arm_acquire = arm_dispatch"

definition arm_query :: "'c loader_host \<Rightarrow> watched \<Rightarrow> progress \<Rightarrow> u32 \<Rightarrow> u32 \<Rightarrow> thread_context \<Rightarrow> 'c \<Rightarrow> (u32 \<times> u32) option \<times> 'c" where
  "arm_query = arm_dispatch"

definition arm_copy :: "'c loader_host \<Rightarrow> watched \<Rightarrow> progress \<Rightarrow> u32 \<Rightarrow> u32 \<Rightarrow> thread_context \<Rightarrow> 'c \<Rightarrow> (u32 \<times> u32) option \<times> 'c" where
  "arm_copy = arm_dispatch"

definition arm_return :: "'c loader_host \<Rightarrow> watched \<Rightarrow> progress \<Rightarrow> u32 \<Rightarrow> u32 \<Rightarrow> thread_context \<Rightarrow> 'c \<Rightarrow> (u32 \<times> u32) option \<times> 'c" where
  "arm_return = arm_dispatch"

definition arm_ready :: "'c loader_host \<Rightarrow> watched \<Rightarrow> progress \<Rightarrow> u32 \<Rightarrow> u32 \<Rightarrow> thread_context \<Rightarrow> 'c \<Rightarrow> (u32 \<times> u32) option \<times> 'c" where
  "arm_ready = arm_dispatch"

definition tables_stop :: "watched \<Rightarrow> stage_recipes \<Rightarrow> u32 \<Rightarrow> u32" where
  "tables_stop w l stage = child_base (wa_child w) + tables_target_rva (ry_tables l) + (if stage = 2 then 68 else 0)"

definition arm_tables :: "'c loader_host \<Rightarrow> watched \<Rightarrow> stage_recipes \<Rightarrow> progress \<Rightarrow> u32 \<Rightarrow> thread_context \<Rightarrow> 'c \<Rightarrow> (u32 \<times> u32) option \<times> 'c" where
  "arm_tables host w l p stage = arm_dispatch host w p stage (tables_stop w l stage)"

definition disk_stop :: "watched \<Rightarrow> stage_recipes \<Rightarrow> addresses \<Rightarrow> u32 \<Rightarrow> u32" where
  "disk_stop w l a stage = (if stage = 1 then ad_disk a else if stage = 2 then ad_disk_body a
     else child_base (wa_child w) + tables_target_rva (ry_tables l) + (if stage = 3 then 74 else 132))"

definition arm_disk :: "'c loader_host \<Rightarrow> watched \<Rightarrow> stage_recipes \<Rightarrow> addresses \<Rightarrow> u32 \<Rightarrow> thread_context \<Rightarrow> 'c \<Rightarrow> (u32 \<times> u32) option \<times> 'c" where
  "arm_disk host w l a stage = arm_dispatch host w (ad_seen a) stage (disk_stop w l a stage)"

definition allocation_stop :: "watched \<Rightarrow> stage_recipes \<Rightarrow> addresses \<Rightarrow> u32 \<Rightarrow> u32" where
  "allocation_stop w l a stage =
    (let s = ry_allocation l; al = allocator_rva (ry_disk l) in
     if stage = 6 then ad_allocation a
     else child_base (wa_child w) + [0, al, heap_rva s, heap_rva s + 22, heap_rva s + 30, heap_rva s + 99, 0, heap_rva s + 105,
       al + 17, al + 30, tables_target_rva (ry_tables l) + 137] ! unat stage)"

definition arm_allocation :: "'c loader_host \<Rightarrow> watched \<Rightarrow> stage_recipes \<Rightarrow> addresses \<Rightarrow> u32 \<Rightarrow> thread_context \<Rightarrow> 'c \<Rightarrow> (u32 \<times> u32) option \<times> 'c" where
  "arm_allocation host w l a stage = arm_dispatch host w (ad_seen a) stage (allocation_stop w l a stage)"

definition channels_stop :: "watched \<Rightarrow> stage_recipes \<Rightarrow> addresses \<Rightarrow> u32 \<Rightarrow> u32" where
  "channels_stop w l a stage =
    (let start = child_base (wa_child w) + tables_target_rva (ry_tables l) + 137; fs = ad_channels a in
     [0, start + 7, fs ! 0, fs ! 1, start + 13, start + 41, fs ! 2, fs ! 3, start + 47, start + 59] ! unat stage)"

definition arm_channels :: "'c loader_host \<Rightarrow> watched \<Rightarrow> stage_recipes \<Rightarrow> addresses \<Rightarrow> u32 \<Rightarrow> thread_context \<Rightarrow> 'c \<Rightarrow> (u32 \<times> u32) option \<times> 'c" where
  "arm_channels host w l a stage = arm_dispatch host w (ad_seen a) stage (channels_stop w l a stage)"

end
