(* ===== verification/Loader_Stops.thy ===== *)
theory Loader_Stops
  imports Loader_Stages
begin

text \<open>
  The stops of \<open>run_impl\<close> (\<open>loader_observation.cpp\<close>) behind the startup call: the codec, its bindings, the plugin,
  the return of the startup call and the C runtime.
  A stop looks at the held child and decides; the loop (\<open>Loader_Events\<close>) carries the decision out.

  The code has a record per stage with a flag \<open>armed\<close>; a flag, once set, stays, and the stop that is due is the one of the
  latest stage armed. Here that is one value, \<open>la_stop\<close>, with its address. What a stop saves for a later one is in \<open>late\<close>.
\<close>

section \<open>Stops and decisions\<close>

text \<open>The stages with several stops number them as the code does.\<close>

datatype late_stop = Codec_return | Binding_stop | Plugin_call | Plugin_return | Tail_stop u32 | Crt_stop u32
  | Application_stop u32 | Platform_call | Suppressed | Instance_stop u32 | Dispatch_stop u32 | Routing_stop u32 | Prelude_stop u32
  | Manager_stop u32 | Seh_stop u32 | Lock_stop u32 | Acquire_stop u32 | Query_stop u32 | Copy_stop u32 | Return_stop u32 | Ready_stop u32
  | Tables_stop u32 | Disk_stop u32 | Allocation_stop u32 | Channels_stop u32

record late =
  la_stop :: late_stop
  la_address :: u32
  la_startup :: thread_context
  la_return :: u32
  la_argument :: u32
  la_codec_event :: u32
  la_targets :: "bytes list"
  la_plugin_event :: u32
  la_plugin_stack :: u32
  la_plugin_mapping :: u32
  la_protect_stack :: u32
  la_protect_cell :: u32
  la_first_protect :: u32
  la_io_stack :: u32
  la_io_saved :: "u32 list"
  la_saved :: thread_context
  la_initializer_stack :: u32
  la_second_stack :: u32
  la_second_argument :: u32
  la_show :: u32
  la_call_stack :: u32
  la_arguments :: "u32 list"
  la_platform_saved :: thread_context
  la_entry_stack :: u32
  la_transaction :: suppression_transaction
  la_prologue :: bytes
  la_error :: u32
  la_instance_saved :: thread_context
  la_caller_stack :: u32
  la_handle :: u32
  la_last_error :: u32
  la_dispatch_saved :: event_dispatch_registers
  la_prelude_saved :: event_dispatch_registers
  la_prelude_stack :: bytes
  la_flags_before :: bytes
  la_flags_after :: bytes
  la_manager_saved :: event_dispatch_registers
  la_buffer_before :: bytes
  la_found :: addresses
  la_seh_saved :: event_dispatch_registers
  la_tib_before :: "u32 list"
  la_tib_after :: "u32 list"
  la_seh_stack :: "u32 list"
  la_prior :: "u32 list"
  la_lock_saved :: event_dispatch_registers
  la_lock_stack :: "u32 list"
  la_slot :: bytes
  la_acquire_saved :: event_dispatch_registers
  la_thread :: u32
  la_object_before :: "u32 list"
  la_object_after :: "u32 list"
  la_object_kind :: "u32 \<times> u32"
  la_acquire_stack :: "u32 list"
  la_query_saved :: event_dispatch_registers
  la_cookie :: u32
  la_error_before :: u32
  la_error_after :: u32
  la_guard :: "u32 list"
  la_directory :: bytes
  la_length :: u32
  la_query_return :: event_dispatch_registers
  la_copy_return :: event_dispatch_registers
  la_destination :: bytes
  la_ready_directory :: bytes
  la_tables_saved :: event_dispatch_registers
  la_tables_before :: bytes
  la_tables_after :: bytes
  la_disk_before :: "u32 list"
  la_disk_after :: "u32 list"
  la_geometry :: disk_geometry
  la_disk_return :: event_dispatch_registers
  la_disk_error :: u32
  la_heap_globals :: "u32 list"
  la_allocation_saved :: event_dispatch_registers
  la_allocation_stack :: bytes
  la_block :: allocation_layout
  la_heap_return :: event_dispatch_registers
  la_block_hash :: bytes
  la_metadata :: u32
  la_channels_saved :: event_dispatch_registers
  la_channels_stack :: bytes
  la_pointer_before :: bytes
  la_pointer :: u32
  la_error_return :: event_dispatch_registers
  la_local_return :: event_dispatch_registers

text \<open>What a stop looks at; \<open>si_same_event\<close> is \<open>same_named_event\<close> on the child, \<open>si_files\<close> has the hash functions.\<close>

record 'c site =
  si_watch :: watched
  si_host :: "'c loader_host"
  si_stages :: stages
  si_event :: u32
  si_same_event :: "u32 \<Rightarrow> string \<Rightarrow> bool"
  si_files :: file_api

text \<open>
  \<open>Deny\<close>: the run ends with a reason. \<open>Report\<close>: it ends, with what the stop has recorded. \<open>Conclude\<close>: the thread is
  restored first, which may fail. \<open>Break\<close>: the debug registers are set and read back, with a reason for either failure.
  \<open>Move\<close>: an arming function runs; it answers with the next stop or fails. \<open>Unfollowed\<close>: the run goes on to the exported functions
  of the plugin, which are called by writing to the child's stack. \<open>Null\<close>: a recipe that is not given is looked at.
\<close>

datatype 'c decision =
    Deny string
  | Report string progress late
  | Conclude string string "'c \<Rightarrow> bool \<times> 'c" progress late
  | Break string string "u32 list" "u32 list \<Rightarrow> bool" progress late
  | Move string "thread_context \<Rightarrow> 'c \<Rightarrow> late option \<times> 'c" progress
  | Unfollowed
  | Null

text \<open>An arming function that records its stop.\<close>

definition arming :: "(u32 \<Rightarrow> late_stop) \<Rightarrow> late \<Rightarrow> (thread_context \<Rightarrow> 'c \<Rightarrow> (u32 \<times> u32) option \<times> 'c) \<Rightarrow> thread_context \<Rightarrow> 'c \<Rightarrow> late option \<times> 'c" where
  "arming stop l f c st = (case f c st of (None, st1) \<Rightarrow> (None, st1)
     | (Some (n, a), st1) \<Rightarrow> (Some (l\<lparr>la_stop := stop n, la_address := a\<rparr>), st1))"

text \<open>The recipes of a run; one that is not given is not looked at, see \<open>late_stop\<close> below.\<close>

definition recipes_of :: "stages \<Rightarrow> recipes" where
  "recipes_of x = \<lparr>rx_proxy = the (st_proxy x), rx_codec = the (st_codec x), rx_binding = the (st_binding x), rx_asi = the (st_asi x),
     rx_tail = the (st_tail x), rx_crt = the (st_crt x), rx_application = the (st_application x), rx_platform = the (st_platform x),
     rx_suppression = the (st_suppression x), rx_instance = the (st_instance x), rx_dispatch = the (st_dispatch x),
     rx_routing = the (st_routing x), rx_prelude = the (st_prelude x), rx_manager = the (st_manager x)\<rparr>"

lemma recipes_of_given: "recipes_given x rs \<Longrightarrow> recipes_of x = rs"
  by (simp add: recipes_given_def recipes_of_def)

definition words_of :: "bytes \<Rightarrow> u32 list" where
  "words_of bs = map (\<lambda>i. get_word bs (4 * i)) [0..<length bs div 4]"

definition read_words :: "watched \<Rightarrow> u32 \<Rightarrow> nat \<Rightarrow> u32 list option" where
  "read_words w start n = map_option words_of (read_private (wa_os w) start (4 * n))"

section \<open>The order of the stops\<close>

text \<open>The stop armed behind each: the next of its stage, or the first of the next stage.\<close>

definition next_stop :: "late_stop \<Rightarrow> late_stop set" where
  "next_stop s = (case s of
     Codec_return \<Rightarrow> {Binding_stop} | Binding_stop \<Rightarrow> {Plugin_call} | Plugin_call \<Rightarrow> {Plugin_return} | Plugin_return \<Rightarrow> {Tail_stop 1}
   | Tail_stop n \<Rightarrow> {if n = 1 \<or> n = 2 then Tail_stop (n + 1) else Crt_stop 1}
   | Crt_stop n \<Rightarrow> {if n = 1 then Crt_stop 2 else Application_stop 1}
   | Application_stop n \<Rightarrow> {if n = 5 then Platform_call else Application_stop (n + 1)}
   | Platform_call \<Rightarrow> {Suppressed} | Suppressed \<Rightarrow> {Instance_stop 1}
   | Instance_stop n \<Rightarrow> {if n = 4 then Dispatch_stop 1 else Instance_stop (n + 1)}
   | Dispatch_stop n \<Rightarrow> {if n = 3 then Routing_stop 1 else Dispatch_stop (n + 1)}
   | Routing_stop n \<Rightarrow> {if n = 4 then Prelude_stop 1 else Routing_stop (n + 1)}
   | Prelude_stop n \<Rightarrow> {if n = 5 then Manager_stop 1 else Prelude_stop (n + 1)}
   | Manager_stop n \<Rightarrow> {if n = 2 then Seh_stop 1 else Manager_stop 2}
   | Seh_stop n \<Rightarrow> {if n = 3 then Lock_stop 1 else Seh_stop (n + 1)}
   | Lock_stop n \<Rightarrow> {if n = 2 then Acquire_stop 1 else Lock_stop 2}
   | Acquire_stop n \<Rightarrow> {if n = 5 then Query_stop 1 else Acquire_stop (n + 1)}
   | Query_stop n \<Rightarrow> {if n = 7 then Copy_stop 1 else Query_stop (n + 1)}
   | Copy_stop n \<Rightarrow> {if n = 5 then Return_stop 1 else Copy_stop (n + 1)}
   | Return_stop n \<Rightarrow> {if n = 6 then Ready_stop 1 else Return_stop (n + 1)}
   | Ready_stop n \<Rightarrow> {if n = 9 then Tables_stop 1 else Ready_stop (n + 1)}
   | Tables_stop n \<Rightarrow> {if n = 2 then Disk_stop 1 else Tables_stop 2}
   | Disk_stop n \<Rightarrow> {if n = 4 then Allocation_stop 1 else Disk_stop (n + 1)}
   | Allocation_stop n \<Rightarrow> {if n = 10 then Channels_stop 1 else Allocation_stop (n + 1)} \<union> (if n = 3 then {Allocation_stop 5} else {})
   | Channels_stop n \<Rightarrow> {Channels_stop (n + 1)})"

text \<open>The stages a stop belongs to the last of, and their recipes.\<close>

definition stage_of :: "late_stop \<Rightarrow> nat" where
  "stage_of s = (case s of Codec_return \<Rightarrow> 1 | Binding_stop \<Rightarrow> 2 | Plugin_call \<Rightarrow> 3 | Plugin_return \<Rightarrow> 3 | Tail_stop n \<Rightarrow> 4 | Crt_stop n \<Rightarrow> 5
   | Application_stop n \<Rightarrow> 6 | Platform_call \<Rightarrow> 7 | Suppressed \<Rightarrow> 8 | Instance_stop n \<Rightarrow> 9 | Dispatch_stop n \<Rightarrow> 10 | Routing_stop n \<Rightarrow> 11
   | Prelude_stop n \<Rightarrow> 12 | Manager_stop n \<Rightarrow> 13 | Seh_stop n \<Rightarrow> 14 | Lock_stop n \<Rightarrow> 15 | Acquire_stop n \<Rightarrow> 16 | Query_stop n \<Rightarrow> 17
   | Copy_stop n \<Rightarrow> 18 | Return_stop n \<Rightarrow> 19 | Ready_stop n \<Rightarrow> 20 | Tables_stop n \<Rightarrow> 21 | Disk_stop n \<Rightarrow> 22 | Allocation_stop n \<Rightarrow> 23
   | Channels_stop n \<Rightarrow> 24)"

definition recipes_present :: "stages \<Rightarrow> late_stop \<Rightarrow> bool" where
  "recipes_present x s \<longleftrightarrow> list_all (\<lambda>b. b) (take (stage_of s)
     [st_codec x \<noteq> None, st_binding x \<noteq> None, st_asi x \<noteq> None, st_tail x \<noteq> None, st_crt x \<noteq> None, st_application x \<noteq> None,
      st_platform x \<noteq> None, st_suppression x \<noteq> None, st_instance x \<noteq> None, st_dispatch x \<noteq> None, st_routing x \<noteq> None,
      st_prelude x \<noteq> None, st_manager x \<noteq> None, st_seh x \<noteq> None, st_lock x \<noteq> None, st_acquire x \<noteq> None, st_query x \<noteq> None,
      st_copy x \<noteq> None, st_completion x \<noteq> None, st_ready x \<noteq> None, st_tables x \<noteq> None, st_disk x \<noteq> None, st_allocation x \<noteq> None,
      st_channels x \<noteq> None])"

text \<open>What the last stop of a stage reports when no further stage is asked for.\<close>

definition stage_report :: "late_stop \<Rightarrow> string" where
  "stage_report s = (case s of
     Codec_return \<Rightarrow> ''codec_return_verified'' | Binding_stop \<Rightarrow> ''codec_bindings_verified'' | Plugin_return \<Rightarrow> ''asi_return_verified''
   | Tail_stop n \<Rightarrow> if n = 1 \<or> n = 2 then [] else ''startup_return_verified''
   | Crt_stop n \<Rightarrow> if n = 1 then [] else ''crt_initializer_boundary_verified''
   | Application_stop n \<Rightarrow> if n = 5 then ''application_entry_verified'' else []
   | Platform_call \<Rightarrow> ''platform_startup_boundary_verified'' | Suppressed \<Rightarrow> ''platform_suppression_verified''
   | Instance_stop n \<Rightarrow> if n = 4 then ''instance_startup_verified'' else []
   | Dispatch_stop n \<Rightarrow> if n = 3 then ''event_dispatch_boundary_verified'' else []
   | Routing_stop n \<Rightarrow> if n = 4 then ''application_routing_boundary_verified'' else []
   | Prelude_stop n \<Rightarrow> if n = 5 then ''game_prelude_verified'' else []
   | Manager_stop n \<Rightarrow> if n = 2 then ''file_manager_entry_verified'' else []
   | Seh_stop n \<Rightarrow> if n = 3 then ''cwd_seh_verified'' else []
   | Lock_stop n \<Rightarrow> if n = 2 then ''cwd_lock_verified'' else []
   | Acquire_stop n \<Rightarrow> if n = 5 then ''cwd_acquire_verified'' else []
   | Query_stop n \<Rightarrow> if n = 7 then ''cwd_query_verified'' else []
   | Copy_stop n \<Rightarrow> if n = 5 then ''cwd_copy_verified'' else []
   | Return_stop n \<Rightarrow> if n = 6 then ''cwd_return_verified'' else []
   | Ready_stop n \<Rightarrow> if n = 9 then ''file_manager_ready_verified'' else []
   | Tables_stop n \<Rightarrow> if n = 2 then ''cd_stream_tables_verified'' else []
   | Disk_stop n \<Rightarrow> if n = 4 then ''cd_stream_disk_verified'' else []
   | Allocation_stop n \<Rightarrow> if n = 10 then ''cd_stream_allocation_verified'' else []
   | Channels_stop n \<Rightarrow> if n = 9 then ''cd_stream_channels_verified'' else []
   | Plugin_call \<Rightarrow> [])"

definition final_reports :: "string set" where
  "final_reports = {''codec_return_verified'', ''codec_bindings_verified'', ''asi_return_verified'', ''startup_return_verified'',
     ''crt_initializer_boundary_verified'', ''application_entry_verified'', ''platform_startup_boundary_verified'',
     ''platform_suppression_verified'', ''instance_startup_verified'', ''event_dispatch_boundary_verified'',
     ''application_routing_boundary_verified'', ''game_prelude_verified'', ''file_manager_entry_verified'', ''cwd_seh_verified'',
     ''cwd_lock_verified'', ''cwd_acquire_verified'', ''cwd_query_verified'', ''cwd_copy_verified'', ''cwd_return_verified'',
     ''file_manager_ready_verified'', ''cd_stream_tables_verified'', ''cd_stream_disk_verified'', ''cd_stream_allocation_verified'',
     ''cd_stream_channels_verified'', ''entry_boundary_reached'', ''proxy_return_verified'', ''startup_call_verified'',
     ''loader_mapping_history_mismatch''}"

text \<open>A stop changes nothing of what the loop relies on.\<close>

definition same_ground :: "progress \<Rightarrow> progress \<Rightarrow> bool" where
  "same_ground p q \<longleftrightarrow> pg_mappings q = pg_mappings p \<and> pg_modules q = pg_modules p \<and> pg_proxy_mapping q = pg_proxy_mapping p
     \<and> pg_proxy_base q = pg_proxy_base p \<and> pg_entry_address q = pg_entry_address p \<and> pg_startup_address q = pg_startup_address p"

lemma keeps_ground: "keeps p q \<Longrightarrow> same_ground p q"
  by (simp add: keeps_def same_ground_def)

lemma ground_refl [simp]: "same_ground p p"
  by (simp add: same_ground_def)

lemma ground_trans: "same_ground p q \<Longrightarrow> same_ground q r \<Longrightarrow> same_ground p r"
  by (simp add: same_ground_def)

lemma ground_update [simp]:
  "same_ground p (q\<lparr>pg_codec_before := b\<rparr>) = same_ground p q" "same_ground p (q\<lparr>pg_codec_handle := h\<rparr>) = same_ground p q"
  "same_ground p (q\<lparr>pg_codec_mappings := ms\<rparr>) = same_ground p q" "same_ground p (q\<lparr>pg_bindings := bs\<rparr>) = same_ground p q"
  "same_ground (q\<lparr>pg_codec_handle := h\<rparr>) p = same_ground q p" "same_ground (q\<lparr>pg_codec_mappings := ms\<rparr>) p = same_ground q p"
  "same_ground (q\<lparr>pg_bindings := bs\<rparr>) p = same_ground q p"
  by (simp_all add: same_ground_def)

definition follows :: "stages \<Rightarrow> late \<Rightarrow> late \<Rightarrow> bool" where
  "follows x l l' \<longleftrightarrow> la_stop l' \<in> next_stop (la_stop l) \<and> recipes_present x (la_stop l')"

definition reports :: "late \<Rightarrow> string \<Rightarrow> late \<Rightarrow> bool" where
  "reports l reason l' \<longleftrightarrow> la_stop l' = la_stop l \<and> la_address l' = la_address l \<and> (reason \<in> final_reports \<longrightarrow> reason = stage_report (la_stop l))"

definition decision_sound :: "stages \<Rightarrow> progress \<Rightarrow> late \<Rightarrow> 'c decision \<Rightarrow> bool" where
  "decision_sound x p l d \<longleftrightarrow> (case d of Deny reason \<Rightarrow> reason \<notin> final_reports
   | Report reason q l' \<Rightarrow> la_stop l \<noteq> Suppressed \<and> same_ground p q \<and> reports l reason l'
   | Conclude bad reason f q l' \<Rightarrow> la_stop l = Suppressed \<and> bad \<notin> final_reports \<and> same_ground p q \<and> reports l reason l'
   | Break unwritten differing dr expected q l' \<Rightarrow> unwritten \<notin> final_reports \<and> differing \<notin> final_reports \<and> same_ground p q \<and> follows x l l'
   | Move reason f q \<Rightarrow> reason \<notin> final_reports \<and> same_ground p q \<and> (\<forall>c st l' st'. f c st = (Some l', st') \<longrightarrow> follows x l l')
   | Unfollowed \<Rightarrow> True | Null \<Rightarrow> False)"

text \<open>An arming function answers with the stop it was asked for.\<close>

definition arms :: "u32 \<Rightarrow> u32 \<Rightarrow> (thread_context \<Rightarrow> 'c \<Rightarrow> (u32 \<times> u32) option \<times> 'c) \<Rightarrow> bool" where
  "arms n a f \<longleftrightarrow> (\<forall>c st r st'. f c st = (Some r, st') \<longrightarrow> r = (n, a))"

lemma arm_registers_Some: "arm_registers host expected dr stop c st = (Some r, st') \<Longrightarrow> r = stop"
  by (auto simp: arm_registers_def split: prod.splits if_splits option.splits)

lemma arms_all:
  "arms 0 a (arm_asi host w p a)" "arms n a (arm_tail host w p n a)" "arms n a (arm_crt host w p n a)"
  "arms n a (arm_application host w p n a)" "arms n a (arm_instance host w p n a)" "arms n a (arm_dispatch host w p n a)"
  "arms n a (arm_routing host w p n a)" "arms n a (arm_prelude host w p n a)" "arms n a (arm_manager host w p n a)"
  "arms n a (arm_seh host w p n a)" "arms n a (arm_lock host w p n a)" "arms n a (arm_acquire host w p n a)"
  "arms n a (arm_query host w p n a)" "arms n a (arm_copy host w p n a)" "arms n a (arm_return host w p n a)"
  "arms n a (arm_ready host w p n a)"
  by (auto simp: arms_def arm_asi_def arm_tail_def arm_crt_def arm_application_def arm_instance_def arm_dispatch_def arm_routing_def
      arm_prelude_def arm_manager_def arm_seh_def arm_lock_def arm_acquire_def arm_query_def arm_copy_def arm_return_def arm_ready_def
      dest: arm_registers_Some)

lemma Move_sound:
  assumes "arms n a f" and "reason \<notin> final_reports" "same_ground p q"
    and "stop n \<in> next_stop (la_stop l)" "recipes_present x (stop n)"
  shows "decision_sound x p l (Move reason (arming stop l0 f) q)"
proof -
  have "r = (n, a)" if "f c st = (Some r, st')" for c st r st' using assms(1) that unfolding arms_def by blast
  then show ?thesis using assms(2-) by (fastforce simp: decision_sound_def arming_def follows_def split: prod.splits option.splits)
qed

lemma decision_simps [simp]:
  "decision_sound x p l (Deny reason) \<longleftrightarrow> reason \<notin> final_reports"
  "decision_sound x p l (Report reason q l') \<longleftrightarrow> la_stop l \<noteq> Suppressed \<and> same_ground p q \<and> reports l reason l'"
  "decision_sound x p l (Break unwritten differing dr expected q l') \<longleftrightarrow> unwritten \<notin> final_reports \<and> differing \<notin> final_reports \<and> same_ground p q \<and> follows x l l'"
  "decision_sound x p l (Conclude bad reason f q l') \<longleftrightarrow> la_stop l = Suppressed \<and> bad \<notin> final_reports \<and> same_ground p q \<and> reports l reason l'"
  "decision_sound x p l Unfollowed" "\<not> decision_sound x p l Null"
  by (simp_all add: decision_sound_def)

section \<open>Codec and bindings\<close>

text \<open>The active mappings of a pinned file. A library that a call has loaded has one, newer than the call, at the handle returned.\<close>

definition copies :: "watched \<Rightarrow> progress \<Rightarrow> nat \<Rightarrow> observed_module list" where
  "copies w p pin = filter (\<lambda>m. module_active p m
     \<and> (case pin_identity (wa_files w pin) of None \<Rightarrow> False | Some i \<Rightarrow> matches_file (om_file m) i)) (pg_modules p)"

definition fresh_copy :: "string \<Rightarrow> u32 \<Rightarrow> u32 option \<Rightarrow> observed_module list \<Rightarrow> string + u32" where
  "fresh_copy stage armed handle ms =
    (case ms of [] \<Rightarrow> Inl (stage @ ''_mapping_missing'')
     | m # rest \<Rightarrow>
       if om_event m \<le> armed then Inl (stage @ ''_mapping_not_fresh'')
       else if handle \<noteq> None \<and> handle \<noteq> Some (om_base m) then Inl (stage @ ''_handle_mismatch'')
       else if rest \<noteq> [] then Inl (stage @ ''_mapping_ambiguous'') else Inr (om_mapping m))"

fun fresh_copies :: "watched \<Rightarrow> progress \<Rightarrow> u32 \<Rightarrow> u32 option \<Rightarrow> nat list \<Rightarrow> string + u32 list" where
  "fresh_copies w p armed handle [] = Inr []"
| "fresh_copies w p armed handle (pin # pins) =
    (case fresh_copy ''codec'' armed handle (copies w p pin) of Inl reason \<Rightarrow> Inl reason
     | Inr i \<Rightarrow> (case fresh_copies w p armed None pins of Inl reason \<Rightarrow> Inl reason | Inr is \<Rightarrow> Inr (i # is)))"

text \<open>Before the bindings the slots are empty; the functions they are to lead to are kept.\<close>

fun slots_before :: "observer_api \<Rightarrow> u32 \<Rightarrow> u32 \<Rightarrow> binding_slot_spec list \<Rightarrow> string + bytes list" where
  "slots_before os base handle [] = Inr []"
| "slots_before os base handle (b # bs) =
    (case (read_word os base (slot_rva b), read_image os handle (slot_target_rva b) 16 True) of
       (Some before, Some target) \<Rightarrow>
         if before \<noteq> 0 then Inl ''binding_preexisting_slot''
         else (case slots_before os base handle bs of Inl reason \<Rightarrow> Inl reason | Inr ts \<Rightarrow> Inr (target # ts))
     | _ \<Rightarrow> Inl ''binding_precondition_read'')"

text \<open>Behind them every slot is read; the result says besides whether all of them lead to their functions, unchanged.\<close>

fun slots_after :: "observer_api \<Rightarrow> u32 \<Rightarrow> u32 \<Rightarrow> binding_slot_spec list \<Rightarrow> bytes list \<Rightarrow> (bool \<times> binding_seen list) option" where
  "slots_after os base handle [] ts = Some (True, [])"
| "slots_after os base handle (b # bs) ts =
    (case (read_word os base (slot_rva b), read_image os handle (slot_target_rva b) 16 True) of
       (Some after, Some target) \<Rightarrow>
         map_option (\<lambda>(ok, seen). ((after = handle + slot_target_rva b \<and> target = hd ts) \<and> ok,
             \<lparr>bs_slot_rva = slot_rva b, bs_target_rva = slot_target_rva b, bs_after = after, bs_target_after = target\<rparr> # seen))
           (slots_after os base handle bs (tl ts))
     | _ \<Rightarrow> None)"

text \<open>At the startup call a run with a codec recipe goes on: no codec module may be loaded, and the call that loads it is as reviewed.\<close>

definition codec_guards :: "watched \<Rightarrow> u32 \<Rightarrow> u32 list \<Rightarrow> bool" where
  "codec_guards w stop dr \<longleftrightarrow> dr ! 0 = stop \<and> watches_import w dr \<and> dr ! 5 AND 0xffff20ff = 0x00d00005"

text \<open>What is recorded by a later stop has a placeholder until then: no stop reads it before it is set.\<close>

definition no_addresses :: "progress \<Rightarrow> addresses" where
  "no_addresses p = \<lparr>ad_seen = p, ad_acquire = 0, ad_query = 0, ad_query_body = 0, ad_ready = 0, ad_disk = 0, ad_disk_body = 0,
     ad_allocation = 0, ad_channels = [0, 0, 0, 0]\<rparr>"

definition no_geometry :: disk_geometry where
  "no_geometry = \<lparr>sectors_per_cluster = 0, bytes_per_sector = 0, free_clusters = 0, total_clusters = 0\<rparr>"

definition no_block :: allocation_layout where
  "no_block = \<lparr>raw_block = 0, aligned_block = 0, metadata_cell = 0, block_bytes = 0\<rparr>"

definition first_late :: "progress \<Rightarrow> thread_context \<Rightarrow> u32 \<Rightarrow> u32 \<Rightarrow> u32 \<Rightarrow> u32 \<Rightarrow> late" where
  "first_late p c stop event ret argument = \<lparr>la_stop = Codec_return, la_address = stop, la_startup = c, la_return = ret, la_argument = argument,
     la_codec_event = event, la_targets = [], la_plugin_event = 0, la_plugin_stack = 0, la_plugin_mapping = 0, la_protect_stack = 0,
     la_protect_cell = 0, la_first_protect = 0, la_io_stack = 0, la_io_saved = [], la_saved = c, la_initializer_stack = 0,
     la_second_stack = 0, la_second_argument = 0, la_show = 0, la_call_stack = 0, la_arguments = [], la_platform_saved = c,
     la_entry_stack = 0, la_transaction = new_transaction, la_prologue = [], la_error = 0,
     la_instance_saved = c, la_caller_stack = 0, la_handle = 0, la_last_error = 0, la_dispatch_saved = dispatch_registers c,
     la_prelude_saved = dispatch_registers c, la_prelude_stack = [], la_flags_before = [], la_flags_after = [],
     la_manager_saved = dispatch_registers c, la_buffer_before = [], la_found = no_addresses p, la_seh_saved = dispatch_registers c,
     la_tib_before = [], la_tib_after = [], la_seh_stack = [], la_prior = [0, 0], la_lock_saved = dispatch_registers c, la_lock_stack = [],
     la_slot = [], la_acquire_saved = dispatch_registers c, la_thread = 0, la_object_before = [], la_object_after = [],
     la_object_kind = (0, 0), la_acquire_stack = [], la_query_saved = dispatch_registers c, la_cookie = 0, la_error_before = 0,
     la_error_after = 0, la_guard = [], la_directory = [], la_length = 0, la_query_return = dispatch_registers c,
     la_copy_return = dispatch_registers c, la_destination = [], la_ready_directory = [], la_tables_saved = dispatch_registers c,
     la_tables_before = [], la_tables_after = [], la_disk_before = [], la_disk_after = [], la_geometry = no_geometry,
     la_disk_return = dispatch_registers c, la_disk_error = 0, la_heap_globals = [], la_allocation_saved = dispatch_registers c,
     la_allocation_stack = [], la_block = no_block, la_heap_return = dispatch_registers c, la_block_hash = [],
     la_metadata = 0, la_channels_saved = dispatch_registers c, la_channels_stack = [], la_pointer_before = [], la_pointer = 0,
     la_error_return = dispatch_registers c, la_local_return = dispatch_registers c\<rparr>"

definition at_codec_call :: "'c site \<Rightarrow> codec_stop_spec \<Rightarrow> u32 \<Rightarrow> u32 \<Rightarrow> thread_context \<Rightarrow> progress \<Rightarrow> 'c decision" where
  "at_codec_call v s ret argument c p =
    (let w = si_watch v; stop = pg_proxy_base p + sequence_rva s + 11 in
     if list_ex (\<lambda>pin. copies w p pin \<noteq> []) (codec_modules s) then Deny ''codec_module_preloaded''
     else (case codec_shape w p of None \<Rightarrow> Deny ''codec_call_shape''
       | Some (bs, p1) \<Rightarrow> Break ''codec_breakpoint_write_failed'' ''codec_breakpoint_arm_failed'' ((c_dr c)[0 := stop, 4 := 0])
           (codec_guards w stop) (p1\<lparr>pg_codec_before := bs\<rparr>) (first_late p c stop (si_event v) ret argument)))"

definition at_codec_return :: "'c site \<Rightarrow> thread_context \<Rightarrow> progress \<Rightarrow> late \<Rightarrow> 'c decision" where
  "at_codec_return v c p l =
    (let w = si_watch v; os = wa_os w; handle = c_eax c in
     case codec_shape w p of None \<Rightarrow> Deny ''codec_return_shape''
     | Some (bs, p1) \<Rightarrow>
       if bs \<noteq> pg_codec_before p1 then Deny ''codec_return_shape''
       else if read_word os (child_base (wa_child w)) (iat_rva (rx_proxy (wa_recipes w))) \<noteq> Some (pg_startup_address p1) then Deny ''startup_iat_drift''
       else if handle = 0 then Deny ''codec_load_failed''
       else (case fresh_copies w p1 (la_codec_event l) (Some handle) (codec_modules (rx_codec (wa_recipes w))) of Inl reason \<Rightarrow> Deny reason
         | Inr ids \<Rightarrow>
           let p2 = p1\<lparr>pg_codec_handle := handle, pg_codec_mappings := ids\<rparr> in
           (case st_binding (si_stages v) of None \<Rightarrow> Report ''codec_return_verified'' p2 l
            | Some b \<Rightarrow> (case binding_shape w p2 of None \<Rightarrow> Deny ''binding_precondition_shape''
              | Some p3 \<Rightarrow> (case slots_before os (pg_proxy_base p3) handle (binding_slots b) of Inl reason \<Rightarrow> Deny reason
                | Inr targets \<Rightarrow>
                  let stop = pg_proxy_base p3 + stop_rva b in
                  Break ''binding_breakpoint_write_failed'' ''binding_breakpoint_arm_failed'' ((c_dr c)[0 := stop, 4 := 0]) (codec_guards w stop) p3
                    (l\<lparr>la_stop := Binding_stop, la_address := stop, la_targets := targets\<rparr>))))))"

definition codec_active :: "progress \<Rightarrow> bool" where
  "codec_active p \<longleftrightarrow> list_all (\<lambda>i. case List.find (\<lambda>m. om_mapping m = i) (pg_modules p) of None \<Rightarrow> False
     | Some m \<Rightarrow> mapping_active i (om_base m) (pg_mappings p)) (pg_codec_mappings p)"

definition at_binding :: "'c site \<Rightarrow> thread_context \<Rightarrow> progress \<Rightarrow> late \<Rightarrow> 'c decision" where
  "at_binding v c p l =
    (let w = si_watch v in
     case binding_shape w p of None \<Rightarrow> Deny ''binding_return_shape''
     | Some p1 \<Rightarrow>
       if \<not> codec_active p1 then Deny ''binding_mapping_retired''
       else (case slots_after (wa_os w) (pg_proxy_base p1) (pg_codec_handle p1) (binding_slots (rx_binding (wa_recipes w))) (la_targets l) of
           None \<Rightarrow> Deny ''binding_slot_unreadable''
         | Some (ok, seen) \<Rightarrow>
           if \<not> ok then Deny ''binding_slot_mismatch''
           else let p2 = p1\<lparr>pg_bindings := seen\<rparr> in
             if st_asi (si_stages v) = None then Report ''codec_bindings_verified'' p2 l
             else (case asi_shape w p2 of None \<Rightarrow> Deny ''asi_precondition_shape''
               | Some p3 \<Rightarrow>
                 if asi_preloaded w p3 then Deny ''asi_module_preloaded''
                 else Move ''asi_breakpoint_arm_failed'' (arming (\<lambda>n. Plugin_call) l (arm_asi (si_host v) w p3 (plugin_call w p3))) p3)))"

section \<open>The plugin\<close>

text \<open>The name of the plugin in the child's memory is the requested path in either case, with its end.\<close>

definition lower_char :: "u8 \<Rightarrow> u8" where
  "lower_char b = (if b \<ge> 0x41 \<and> b \<le> 0x5a then b + 0x20 else b)"

definition same_path :: "string \<Rightarrow> bytes \<Rightarrow> bool" where
  "same_path path bs \<longleftrightarrow> bs ! length path = 0 \<and> map lower_char (take (length path) bs) = map (lower_char \<circ> of_char) path"

definition at_plugin_call :: "'c site \<Rightarrow> thread_context \<Rightarrow> progress \<Rightarrow> late \<Rightarrow> 'c decision" where
  "at_plugin_call v c p l =
    (let w = si_watch v; os = wa_os w; esp = c_esp c; path = requested_path (rx_asi (wa_recipes w)) in
     case asi_shape w p of None \<Rightarrow> Deny ''asi_call_shape''
     | Some p1 \<Rightarrow>
       if asi_preloaded w p1 then Deny ''asi_module_preloaded''
       else (case (if esp mod 4 \<noteq> 0 then None else Option.bind (read_private os esp 4) (\<lambda>bs. read_private os (get_word bs 0) (length path + 1))) of
           None \<Rightarrow> Deny ''asi_path_unreadable''
         | Some bs \<Rightarrow>
           if \<not> same_path path bs then Deny ''asi_path_mismatch''
           else Move ''asi_breakpoint_arm_failed'' (arming (\<lambda>n. Plugin_return) (l\<lparr>la_plugin_event := si_event v, la_plugin_stack := esp\<rparr>)
             (arm_asi (si_host v) w p1 (plugin_call w p1 + 6))) p1))"

definition at_plugin_return :: "'c site \<Rightarrow> thread_context \<Rightarrow> progress \<Rightarrow> late \<Rightarrow> 'c decision" where
  "at_plugin_return v c p l =
    (let w = si_watch v; x = si_stages v; handle = c_eax c in
     case asi_shape w p of None \<Rightarrow> Deny ''asi_return_shape''
     | Some p1 \<Rightarrow>
       if la_plugin_stack l > UINT32_MAX - 4 \<or> c_esp c \<noteq> la_plugin_stack l + 4 then Deny ''asi_stack_mismatch''
       else if handle = 0 then Deny ''asi_load_failed''
       else (case fresh_copy ''asi'' (la_plugin_event l) (Some handle) (copies w p1 (asi_module (rx_asi (wa_recipes w)))) of Inl reason \<Rightarrow> Deny reason
         | Inr i \<Rightarrow>
           let l1 = l\<lparr>la_plugin_mapping := i\<rparr> in
           (case st_tail x of
              Some t \<Rightarrow> (case tail_shape w p1 of None \<Rightarrow> Deny ''startup_return_precondition_shape''
                | Some p2 \<Rightarrow>
                  if \<not> frame_loaded w (startup_frame t) then Deny ''startup_return_frame_precondition''
                  else Move ''startup_return_arm_failed'' (arming Tail_stop l1 (arm_tail (si_host v) w p2 1 (pg_proxy_base p2 + protect_call_rva t))) p2)
            | None \<Rightarrow>
              if (case st_frame x of None \<Rightarrow> False | Some f \<Rightarrow> \<not> frame_loaded w f) then Deny ''frame_asi_sample_rejected''
              else (case st_bootstrap x of None \<Rightarrow> Report ''asi_return_verified'' p1 l1
                | Some b \<Rightarrow> if bootstrap_shape w b i handle p1 = None then Deny ''bootstrap_export_shape'' else Unfollowed))))"

section \<open>The return of the startup call\<close>

definition PAGE_EXECUTE_READWRITE :: u32 where "PAGE_EXECUTE_READWRITE = 0x40"

text \<open>The page protection the image begins with.\<close>

definition first_protection :: "watched \<Rightarrow> u32" where
  "first_protection w = (if child_image_bytes (wa_child w) = 0 then 0
     else case query_region (wa_os w) (child_base (wa_child w)) of None \<Rightarrow> 0 | Some r \<Rightarrow> region_protect r)"

text \<open>A private, writable cell in the allocation of the stack.\<close>

definition stack_cell :: "watched \<Rightarrow> u32 \<Rightarrow> u32 \<Rightarrow> bool" where
  "stack_cell w esp cell \<longleftrightarrow> (case (query_region (wa_os w) esp, query_region (wa_os w) cell) of
     (Some stack, Some r) \<Rightarrow> region_state r = MEM_COMMIT \<and> region_type r = MEM_PRIVATE \<and> region_protect r = PAGE_READWRITE
       \<and> allocation_base r = allocation_base stack
   | _ \<Rightarrow> False)"

text \<open>The first stop is the call that makes the image writable, the second its return, the third the return of the startup call.\<close>

definition at_protect_call :: "'c site \<Rightarrow> thread_context \<Rightarrow> progress \<Rightarrow> late \<Rightarrow> 'c decision" where
  "at_protect_call v c p l =
    (let w = si_watch v; s = rx_tail (wa_recipes w); esp = c_esp c in
     case (if esp mod 4 \<noteq> 0 then None else read_words w esp 4) of None \<Rightarrow> Deny ''startup_return_arguments_read''
     | Some args \<Rightarrow>
       let cell = args ! 3 in
       if args ! 0 \<noteq> child_base (wa_child w) \<or> unat (args ! 1) \<noteq> child_image_bytes (wa_child w) \<or> args ! 2 \<noteq> PAGE_EXECUTE_READWRITE
          \<or> cell = 0 \<or> cell mod 4 \<noteq> 0 \<or> \<not> stack_cell w (c_esp (la_startup l)) cell \<or> read_private (wa_os w) cell 4 = None
       then Deny ''startup_return_arguments''
       else if \<not> image_protection w False then Deny ''startup_return_image_precondition''
       else Move ''startup_return_arm_failed'' (arming Tail_stop (l\<lparr>la_protect_stack := esp, la_protect_cell := cell, la_first_protect := first_protection w\<rparr>)
         (arm_tail (si_host v) w p 2 (pg_proxy_base p + protect_call_rva s + 6))) p)"

definition at_protect_return :: "'c site \<Rightarrow> thread_context \<Rightarrow> progress \<Rightarrow> late \<Rightarrow> 'c decision" where
  "at_protect_return v c p l =
    (let w = si_watch v in
     if c_eax c = 0 then Deny ''startup_return_protect_failed''
     else if la_protect_stack l > UINT32_MAX - 16 \<or> c_esp c \<noteq> la_protect_stack l + 16
        \<or> read_words w (la_protect_cell l) 1 \<noteq> Some [la_first_protect l] then Deny ''startup_return_protect_result''
     else if \<not> image_protection w True then Deny ''startup_return_protection_mismatch''
     else Move ''startup_return_arm_failed'' (arming Tail_stop l (arm_tail (si_host v) w p 3 (la_return l))) p)"

definition startup_registers_kept :: "thread_context \<Rightarrow> thread_context \<Rightarrow> bool" where
  "startup_registers_kept before c \<longleftrightarrow> \<not> c_esp before > UINT32_MAX - 8 \<and> c_esp c = c_esp before + 8 \<and> same_nonvolatile c before"

definition at_startup_return :: "'c site \<Rightarrow> thread_context \<Rightarrow> progress \<Rightarrow> late \<Rightarrow> 'c decision" where
  "at_startup_return v c p l =
    (let w = si_watch v; os = wa_os w; base = child_base (wa_child w); esp = c_esp c in
     if \<not> startup_registers_kept (la_startup l) c then Deny ''startup_return_calling_convention''
     else (case read_image os base (la_return l - base - 6) 6 True of None \<Rightarrow> Deny ''startup_return_callsite_read''
       | Some call \<Rightarrow>
         if call ! 0 \<noteq> 0xff \<or> call ! 1 \<noteq> 0x15 \<or> get_word call 2 \<noteq> base + iat_rva (rx_proxy (wa_recipes w)) then Deny ''startup_return_callsite''
         else if read_words w (la_argument l) 1 \<noteq> Some [68] then Deny ''startup_return_info''
         else if \<not> frame_loaded w (startup_frame (rx_tail (wa_recipes w))) then Deny ''startup_return_frame_drift''
         else (case st_crt (si_stages v) of None \<Rightarrow> Report ''startup_return_verified'' p l
           | Some s \<Rightarrow>
             let io_stack = esp + io_return_stack_offset s; ret = base + call_rva (crt_io s) + 5 in
             if \<not> crt_shape w then Deny ''crt_precondition_shape''
             else if esp > UINT32_MAX - io_return_stack_offset s \<or> read_words w io_stack 1 \<noteq> Some [ret] then Deny ''crt_stack_precondition''
             else (case read_words w esp 4 of None \<Rightarrow> Deny ''crt_stack_precondition''
               | Some saved \<Rightarrow> Move ''crt_arm_failed'' (arming Crt_stop (l\<lparr>la_io_stack := io_stack, la_io_saved := saved\<rparr>) (arm_crt (si_host v) w p 1 ret)) p))))"

definition at_tail :: "'c site \<Rightarrow> u32 \<Rightarrow> thread_context \<Rightarrow> progress \<Rightarrow> late \<Rightarrow> 'c decision" where
  "at_tail v stage c p l =
    (case tail_shape (si_watch v) p of None \<Rightarrow> Deny ''startup_return_shape''
     | Some p1 \<Rightarrow> if stage = 1 then at_protect_call v c p1 l else if stage = 2 then at_protect_return v c p1 l else at_startup_return v c p1 l)"

section \<open>The C runtime\<close>

text \<open>The registers the runtime's input and output start-up has saved are back, in the order in which it pushed them.\<close>

definition at_io_return :: "'c site \<Rightarrow> thread_context \<Rightarrow> progress \<Rightarrow> late \<Rightarrow> 'c decision" where
  "at_io_return v c p l =
    (let w = si_watch v; saved = la_io_saved l in
     if la_io_stack l > UINT32_MAX - 4 \<or> c_esp c \<noteq> la_io_stack l + 4 \<or> [c_edi c, c_esi c, c_ebp c, c_ebx c] \<noteq> saved \<or> c_eflags c AND 0x500 \<noteq> 0
     then Deny ''crt_io_calling_convention''
     else if c_eax c \<noteq> 0 then Deny ''crt_io_failed''
     else Move ''crt_arm_failed'' (arming Crt_stop l
       (arm_crt (si_host v) w p 2 (child_base (wa_child w) + call_rva (crt_initialize (rx_crt (wa_recipes w)))))) p)"

definition at_initializer_call :: "'c site \<Rightarrow> thread_context \<Rightarrow> progress \<Rightarrow> late \<Rightarrow> 'c decision" where
  "at_initializer_call v c p l =
    (let w = si_watch v in
     if c_esp c \<noteq> la_io_stack l + 4 then Deny ''crt_initializer_stack''
     else if \<not> frame_loaded w (startup_frame (rx_tail (wa_recipes w))) then Deny ''crt_frame_drift''
     else if st_application (si_stages v) = None then Report ''crt_initializer_boundary_verified'' p l
     else (case application_shape w p of None \<Rightarrow> Deny ''application_precondition_shape''
       | Some p1 \<Rightarrow> Move ''application_arm_failed'' (arming Application_stop (l\<lparr>la_saved := c, la_initializer_stack := c_esp c\<rparr>)
           (arm_application (si_host v) w p1 1 (child_base (wa_child w) + call_rva (crt_initialize (rx_crt (wa_recipes w))) + 5))) p1))"

definition at_crt :: "'c site \<Rightarrow> u32 \<Rightarrow> thread_context \<Rightarrow> progress \<Rightarrow> late \<Rightarrow> 'c decision" where
  "at_crt v stage c p l =
    (case tail_shape (si_watch v) p of None \<Rightarrow> Deny ''crt_loader_shape''
     | Some p1 \<Rightarrow>
       if \<not> crt_shape (si_watch v) then Deny ''crt_shape_drift''
       else if stage = 1 then at_io_return v c p1 l else at_initializer_call v c p1 l)"

section \<open>Every decision is one of the stop's own\<close>

lemmas shape_grounds = codec_keeps[THEN keeps_ground] binding_keeps[THEN keeps_ground] asi_keeps[THEN keeps_ground] tail_keeps[THEN keeps_ground]

lemma fresh_copy_reason:
  "fresh_copy ''codec'' armed handle ms = Inl reason \<Longrightarrow> reason \<notin> final_reports"
  "fresh_copy ''asi'' armed handle ms = Inl reason \<Longrightarrow> reason \<notin> final_reports"
  by (auto simp: fresh_copy_def final_reports_def split: list.splits if_splits)

lemma fresh_copies_reason: "fresh_copies w p armed handle pins = Inl reason \<Longrightarrow> reason \<notin> final_reports"
  by (induction pins arbitrary: handle) (auto dest: fresh_copy_reason split: sum.splits)

lemma slots_before_reason: "slots_before os base handle bs = Inl reason \<Longrightarrow> reason \<notin> final_reports"
  by (induction bs) (auto simp: final_reports_def split: option.splits if_splits sum.splits)

text \<open>Only literal reasons are compared with the list.\<close>

lemma final_literal: "c # cs \<in> final_reports \<longleftrightarrow> c # cs \<in> {''codec_return_verified'', ''codec_bindings_verified'', ''asi_return_verified'', ''startup_return_verified'',
     ''crt_initializer_boundary_verified'', ''application_entry_verified'', ''platform_startup_boundary_verified'',
     ''platform_suppression_verified'', ''instance_startup_verified'', ''event_dispatch_boundary_verified'',
     ''application_routing_boundary_verified'', ''game_prelude_verified'', ''file_manager_entry_verified'', ''cwd_seh_verified'',
     ''cwd_lock_verified'', ''cwd_acquire_verified'', ''cwd_query_verified'', ''cwd_copy_verified'', ''cwd_return_verified'',
     ''file_manager_ready_verified'', ''cd_stream_tables_verified'', ''cd_stream_disk_verified'', ''cd_stream_allocation_verified'',
     ''cd_stream_channels_verified'', ''entry_boundary_reached'', ''proxy_return_verified'', ''startup_call_verified'',
     ''loader_mapping_history_mismatch''}"
  by (simp only: final_reports_def)

lemmas stop_defs = arms_all[THEN Move_sound] reports_def follows_def next_stop_def stage_report_def recipes_present_def stage_of_def final_literal

lemma at_codec_call_sound:
  assumes "st_codec (si_stages v) \<noteq> None" "at_codec_call v s ret argument c p = Break unwritten differing dr expected q l"
  shows "same_ground p q" "recipes_present (si_stages v) (la_stop l)" "la_stop l = Codec_return" "unwritten \<notin> final_reports" "differing \<notin> final_reports"
  using assms by (auto simp: at_codec_call_def first_late_def Let_def stop_defs dest!: shape_grounds split: if_splits option.splits)

lemma at_codec_return_sound:
  assumes "la_stop l = Codec_return" "recipes_present (si_stages v) Codec_return"
  shows "decision_sound (si_stages v) p l (at_codec_return v c p l)"
proof (cases "codec_shape (si_watch v) p")
  case None
  then show ?thesis by (simp add: at_codec_return_def final_literal)
next
  case (Some r)
  obtain bs p1 where s: "codec_shape (si_watch v) p = Some (bs, p1)" using Some by (cases r) simp
  note g = shape_grounds(1)[OF s]
  have b: "same_ground p q" if "binding_shape (si_watch v) (p1\<lparr>pg_codec_handle := h, pg_codec_mappings := is\<rparr>) = Some q" for h "is" q
    using ground_trans[OF _ shape_grounds(2)[OF that], of p] g by simp
  show ?thesis using assms g b
    by (simp add: at_codec_return_def Let_def s stop_defs fresh_copies_reason slots_before_reason
        split: option.split sum.split)
qed

lemma at_binding_sound:
  assumes "la_stop l = Binding_stop" "recipes_present (si_stages v) Binding_stop"
  shows "decision_sound (si_stages v) p l (at_binding v c p l)"
proof (cases "binding_shape (si_watch v) p")
  case None
  then show ?thesis by (simp add: at_binding_def final_literal)
next
  case (Some p1)
  note g = shape_grounds(2)[OF Some]
  have b: "same_ground p q" if "asi_shape (si_watch v) (p1\<lparr>pg_bindings := bs\<rparr>) = Some q" for bs q
    using ground_trans[OF _ shape_grounds(3)[OF that], of p] g by simp
  show ?thesis using assms g b by (simp add: at_binding_def Let_def Some stop_defs split: option.split)
qed

lemma at_plugin_call_sound:
  assumes "la_stop l = Plugin_call" "recipes_present (si_stages v) Plugin_call"
  shows "decision_sound (si_stages v) p l (at_plugin_call v c p l)"
  using assms shape_grounds(3)[of "si_watch v" p] by (simp add: at_plugin_call_def Let_def stop_defs split: option.split)

lemma at_plugin_return_sound:
  assumes "la_stop l = Plugin_return" "recipes_present (si_stages v) Plugin_return"
  shows "decision_sound (si_stages v) p l (at_plugin_return v c p l)"
proof (cases "asi_shape (si_watch v) p")
  case None
  then show ?thesis by (simp add: at_plugin_return_def final_literal)
next
  case (Some p1)
  note g = shape_grounds(3)[OF Some]
  have t: "same_ground p q" if "tail_shape (si_watch v) p1 = Some q" for q by (rule ground_trans[OF g shape_grounds(4)[OF that]])
  show ?thesis using assms g t
    by (simp add: at_plugin_return_def Let_def Some stop_defs fresh_copy_reason split: option.split sum.split)
qed

lemma at_protect_call_sound:
  assumes "la_stop l = Tail_stop 1" "recipes_present (si_stages v) (Tail_stop 1)" "same_ground p q"
  shows "decision_sound (si_stages v) p l (at_protect_call v c q l)"
  using assms by (simp add: at_protect_call_def Let_def stop_defs split: option.split)

lemma at_protect_return_sound:
  assumes "la_stop l = Tail_stop 2" "recipes_present (si_stages v) (Tail_stop 2)" "same_ground p q"
  shows "decision_sound (si_stages v) p l (at_protect_return v c q l)"
  using assms by (simp add: at_protect_return_def Let_def stop_defs split: option.split)

lemma at_startup_return_sound:
  assumes "la_stop l = Tail_stop n" "n \<noteq> 1" "n \<noteq> 2" "recipes_present (si_stages v) (Tail_stop n)" "same_ground p q"
  shows "decision_sound (si_stages v) p l (at_startup_return v c q l)"
  using assms by (simp add: at_startup_return_def Let_def stop_defs split: option.split)

lemma at_tail_sound:
  assumes "la_stop l = Tail_stop n" "recipes_present (si_stages v) (Tail_stop n)"
  shows "decision_sound (si_stages v) p l (at_tail v n c p l)"
proof (cases "tail_shape (si_watch v) p")
  case None
  then show ?thesis by (simp add: at_tail_def final_literal)
next
  case (Some q)
  then show ?thesis using assms at_protect_call_sound at_protect_return_sound at_startup_return_sound shape_grounds(4)[OF Some]
    by (auto simp: at_tail_def)
qed

lemma at_io_return_sound:
  assumes "la_stop l = Crt_stop 1" "recipes_present (si_stages v) (Crt_stop 1)" "same_ground p q"
  shows "decision_sound (si_stages v) p l (at_io_return v c q l)"
  using assms by (simp add: at_io_return_def Let_def stop_defs)

lemma at_initializer_call_sound:
  assumes "la_stop l = Crt_stop n" "n \<noteq> 1" "recipes_present (si_stages v) (Crt_stop n)" "same_ground p q"
  shows "decision_sound (si_stages v) p l (at_initializer_call v c q l)"
  using assms ground_trans[OF assms(4) application_keeps[THEN keeps_ground]]
  by (simp add: at_initializer_call_def Let_def stop_defs split: option.split)

lemma at_crt_sound:
  assumes "la_stop l = Crt_stop n" "recipes_present (si_stages v) (Crt_stop n)"
  shows "decision_sound (si_stages v) p l (at_crt v n c p l)"
proof (cases "tail_shape (si_watch v) p")
  case None
  then show ?thesis by (simp add: at_crt_def final_literal)
next
  case (Some q)
  then show ?thesis using assms at_io_return_sound at_initializer_call_sound shape_grounds(4)[OF Some]
    by (auto simp: at_crt_def final_literal)
qed

end
