(* ===== verification/Loader_Game_Stops.thy ===== *)
theory Loader_Game_Stops
  imports Loader_Stops
begin

text \<open>
  The stops of \<open>run_impl\<close> (\<open>loader_observation.cpp\<close>) behind the C runtime: the application's entry, the platform call and its
  suppression, the instance check, the dispatch of the event, its routing, the prelude of the game and the file manager.
\<close>

section \<open>The application's entry\<close>

definition STARTF_USESHOWWINDOW :: u32 where "STARTF_USESHOWWINDOW = 1"
definition SW_SHOWDEFAULT :: u32 where "SW_SHOWDEFAULT = 10"

text \<open>The field of the start-up record that says how the window is to be shown, when its flags say that it is set.\<close>

definition show_command :: "bytes \<Rightarrow> u32" where
  "show_command info = (if get_word info 44 AND STARTF_USESHOWWINDOW \<noteq> 0 then ucast (info ! 48) + 256 * ucast (info ! 49) else SW_SHOWDEFAULT)"

text \<open>The command line ends within the given number of bytes, all of them readable.\<close>

fun line_ends :: "observer_api \<Rightarrow> nat \<Rightarrow> u32 \<Rightarrow> bool" where
  "line_ends os 0 start = False"
| "line_ends os (Suc n) start = (case read_private os start 1 of None \<Rightarrow> False | Some bs \<Rightarrow> bs ! 0 = 0 \<or> line_ends os n (start + 1))"

definition at_initializer_return :: "'c site \<Rightarrow> thread_context \<Rightarrow> progress \<Rightarrow> late \<Rightarrow> 'c decision" where
  "at_initializer_return v c p l =
    (let w = si_watch v in
     if c_esp c \<noteq> la_initializer_stack l \<or> \<not> same_nonvolatile c (la_saved l) then Deny ''application_initializer_abi''
     else if c_eax c \<noteq> 0 then Deny ''application_initializer_failed''
     else Move ''application_arm_failed'' (arming Application_stop l
       (arm_application (si_host v) w p 2 (child_base (wa_child w) + second_call_rva (rx_application (wa_recipes w))))) p)"

definition at_second_call :: "'c site \<Rightarrow> thread_context \<Rightarrow> progress \<Rightarrow> late \<Rightarrow> 'c decision" where
  "at_second_call v c p l =
    (let w = si_watch v; os = wa_os w; esp = c_esp c in
     case (if esp mod 4 \<noteq> 0 then None else read_words w esp 1) of None \<Rightarrow> Deny ''application_second_argument''
     | Some args \<Rightarrow>
       let argument = args ! 0 in
       if argument = 0 \<or> argument mod 4 \<noteq> 0
          \<or> (case (query_region os esp, query_region os argument) of
               (Some stack, Some r) \<Rightarrow> allocation_base r \<noteq> allocation_base stack \<or> region_protect r \<noteq> PAGE_READWRITE
             | _ \<Rightarrow> True)
          \<or> read_private os argument 68 = None then Deny ''application_second_argument''
       else Move ''application_arm_failed'' (arming Application_stop (l\<lparr>la_saved := c, la_second_stack := esp, la_second_argument := argument\<rparr>)
         (arm_application (si_host v) w p 3 (child_base (wa_child w) + second_call_rva (rx_application (wa_recipes w)) + 6))) p)"

definition at_second_return :: "'c site \<Rightarrow> thread_context \<Rightarrow> progress \<Rightarrow> late \<Rightarrow> 'c decision" where
  "at_second_return v c p l =
    (let w = si_watch v in
     if la_second_stack l > UINT32_MAX - 4 \<or> c_esp c \<noteq> la_second_stack l + 4 \<or> \<not> same_nonvolatile c (la_saved l) then Deny ''application_second_abi''
     else (case read_private (wa_os w) (la_second_argument l) 68 of None \<Rightarrow> Deny ''application_second_info''
       | Some info \<Rightarrow>
         if get_word info 0 \<noteq> 68 then Deny ''application_second_info''
         else Move ''application_arm_failed'' (arming Application_stop (l\<lparr>la_show := show_command info\<rparr>)
           (arm_application (si_host v) w p 4 (child_base (wa_child w) + call_rva (crt_application (rx_crt (wa_recipes w)))))) p))"

definition at_application_call :: "'c site \<Rightarrow> thread_context \<Rightarrow> progress \<Rightarrow> late \<Rightarrow> 'c decision" where
  "at_application_call v c p l =
    (let w = si_watch v; base = child_base (wa_child w); esp = c_esp c in
     case (if la_initializer_stack l < 16 \<or> esp \<noteq> la_initializer_stack l - 16 \<or> esp mod 4 \<noteq> 0 then None else read_words w esp 4) of
       None \<Rightarrow> Deny ''application_arguments''
     | Some args \<Rightarrow>
       if args ! 0 \<noteq> base \<or> args ! 1 \<noteq> 0 \<or> args ! 3 \<noteq> la_show l \<or> args ! 2 = 0 \<or> args ! 2 > UINT32_MAX - 32768 then Deny ''application_arguments''
       else if \<not> line_ends (wa_os w) 32768 (args ! 2) then Deny ''application_command_line''
       else Move ''application_arm_failed'' (arming Application_stop (l\<lparr>la_saved := c, la_call_stack := esp, la_arguments := args\<rparr>)
         (arm_application (si_host v) w p 5 (base + target_rva (crt_application (rx_crt (wa_recipes w)))))) p)"

text \<open>The stop at the platform call is set like those of the application.\<close>

definition at_application_entry :: "'c site \<Rightarrow> thread_context \<Rightarrow> progress \<Rightarrow> late \<Rightarrow> 'c decision" where
  "at_application_entry v c p l =
    (let w = si_watch v; base = child_base (wa_child w); ret = base + call_rva (crt_application (rx_crt (wa_recipes w))) + 5 in
     if la_call_stack l < 4 \<or> c_esp c \<noteq> la_call_stack l - 4 \<or> \<not> same_nonvolatile c (la_saved l)
        \<or> read_words w (c_esp c) 5 \<noteq> Some (ret # la_arguments l) then Deny ''application_entry_stack''
     else (case st_platform (si_stages v) of None \<Rightarrow> Report ''application_entry_verified'' p l
       | Some s \<Rightarrow> (case platform_shape w p of None \<Rightarrow> Deny ''platform_precondition_shape''
         | Some p1 \<Rightarrow> Move ''platform_arm_failed'' (arming (\<lambda>n. Platform_call) (l\<lparr>la_platform_saved := c, la_entry_stack := c_esp c\<rparr>)
             (arm_crt (si_host v) w p1 0 (base + platform_call_rva s))) p1)))"

definition at_application :: "'c site \<Rightarrow> u32 \<Rightarrow> thread_context \<Rightarrow> progress \<Rightarrow> late \<Rightarrow> 'c decision" where
  "at_application v stage c p l =
    (case application_shape (si_watch v) p of None \<Rightarrow> Deny ''application_shape_drift''
     | Some p1 \<Rightarrow>
       if stage = 1 then at_initializer_return v c p1 l else if stage = 2 then at_second_call v c p1 l
       else if stage = 3 then at_second_return v c p1 l else if stage = 4 then at_application_call v c p1 l
       else if stage = 5 then at_application_entry v c p1 l else Deny ''application_stage'')"

section \<open>The platform call\<close>

definition platform_arguments :: "u32 list" where
  "platform_arguments = [0x2001, 0, 0, 2]"

text \<open>The prologue's stack: the saved register, the flag it has set, and above it the frame of the application's entry.\<close>

definition platform_stack_valid :: "watched \<Rightarrow> thread_context \<Rightarrow> late \<Rightarrow> bool" where
  "platform_stack_valid w c l \<longleftrightarrow>
    (let n = platform_stack_bytes (rx_platform (wa_recipes w)); esp = c_esp c in
     la_entry_stack l \<ge> n \<and> esp = la_entry_stack l - n \<and> read_words w (esp + 16) 1 = Some [c_ebx (la_platform_saved l)]
     \<and> read_private (wa_os w) (esp + 23) 1 = Some [1]
     \<and> read_words w (la_entry_stack l) 5 = Some ((child_base (wa_child w) + call_rva (crt_application (rx_crt (wa_recipes w))) + 5) # la_arguments l))"

definition platform_registers_valid :: "thread_context \<Rightarrow> late \<Rightarrow> bool" where
  "platform_registers_valid c l \<longleftrightarrow> c_ebx c = 0 \<and> c_esi c = c_esi (la_platform_saved l) \<and> c_edi c = c_edi (la_platform_saved l)
     \<and> c_ebp c = c_ebp (la_platform_saved l) \<and> c_eflags c AND 0x500 = 0"

text \<open>The suppression: the thread moves past the call by the transaction of \<open>Platform_Suppression\<close>.\<close>

definition suppress :: "'c loader_host \<Rightarrow> suppression_registers \<Rightarrow> late \<Rightarrow> thread_context \<Rightarrow> 'c \<Rightarrow> late option \<times> 'c" where
  "suppress host r l c st =
    (case suppression_apply (windows_read (host_get host)) (windows_write (host_set host)) r (la_address l) new_transaction st of
       (ok, t, st1) \<Rightarrow> (if ok then Some (l\<lparr>la_stop := Suppressed, la_address := la_address l + 6, la_transaction := t\<rparr>) else None, st1))"

definition at_platform :: "'c site \<Rightarrow> thread_context \<Rightarrow> progress \<Rightarrow> late \<Rightarrow> 'c decision" where
  "at_platform v c p l =
    (let w = si_watch v in
     case platform_shape w p of None \<Rightarrow> Deny ''platform_shape_drift''
     | Some p1 \<Rightarrow>
       if \<not> platform_stack_valid w c l \<or> \<not> platform_registers_valid c l then Deny ''platform_stack_or_registers''
       else (case read_words w (c_esp c) 4 of None \<Rightarrow> Deny ''platform_argument_read''
         | Some args \<Rightarrow>
           if args \<noteq> platform_arguments then Deny ''platform_arguments''
           else if st_suppression (si_stages v) = None then Report ''platform_startup_boundary_verified'' p1 l
           else (case wa_registers w of None \<Rightarrow> Deny ''suppression_snapshot_failed''
             | Some r \<Rightarrow>
               if r_eip r \<noteq> la_address l then Deny ''suppression_snapshot_failed''
               else (case read_private (wa_os w) (r_esp r) 172 of None \<Rightarrow> Deny ''suppression_snapshot_failed''
                 | Some stack \<Rightarrow> (case read_last_error w p1 of None \<Rightarrow> Deny ''suppression_last_error_identity''
                   | Some (e, p2) \<Rightarrow> Move ''suppression_context_failed'' (suppress (si_host v) r (l\<lparr>la_prologue := stack, la_error := e\<rparr>)) p2)))))"

text \<open>Behind the call: the thread is where the transaction has put it, the stack and the last error are as before.\<close>

definition unsuppress :: "'c loader_host \<Rightarrow> suppression_transaction \<Rightarrow> 'c \<Rightarrow> bool \<times> 'c" where
  "unsuppress host t st = (case suppression_restore (windows_read (host_get host)) (windows_write (host_set host)) t st of (ok, t1, st1) \<Rightarrow> (ok, st1))"

definition at_suppressed :: "'c site \<Rightarrow> thread_context \<Rightarrow> progress \<Rightarrow> late \<Rightarrow> 'c decision" where
  "at_suppressed v c p l =
    (let w = si_watch v; t = la_transaction l; expected = (replacement t)\<lparr>r_debug := (r_debug (replacement t))[4 := 1]\<rparr> in
     case wa_registers w of None \<Rightarrow> Deny ''suppression_return_read_failed''
     | Some r \<Rightarrow>
       if r\<lparr>r_flags := r_flags r AND NOT 0x10000\<rparr> \<noteq> expected then Deny ''suppression_return_drift''
       else (case platform_shape w p of None \<Rightarrow> Deny ''suppression_return_drift''
         | Some p1 \<Rightarrow>
           if read_private (wa_os w) (r_esp (original t)) 172 \<noteq> Some (la_prologue l) then Deny ''suppression_state_drift''
           else (case read_last_error w p1 of None \<Rightarrow> Deny ''suppression_state_drift''
             | Some (e, p2) \<Rightarrow>
               if e \<noteq> la_error l then Deny ''suppression_state_drift''
               else (case st_instance (si_stages v) of
                   None \<Rightarrow> Conclude ''suppression_restore_failed'' ''platform_suppression_verified'' (unsuppress (si_host v) t) p2 l
                 | Some s \<Rightarrow> (case instance_shape w p2 of None \<Rightarrow> Deny ''instance_precondition_shape''
                   | Some p3 \<Rightarrow> Move ''instance_arm_failed'' (arming Instance_stop (l\<lparr>la_instance_saved := c, la_caller_stack := c_esp c\<rparr>)
                       (arm_instance (si_host v) w p3 1 (child_base (wa_child w) + target_rva (is_caller s) + 12))) p3)))))"

section \<open>The instance check\<close>

definition ERROR_ALREADY_EXISTS :: u32 where "ERROR_ALREADY_EXISTS = 183"

definition same_event :: "'c site \<Rightarrow> late \<Rightarrow> bool" where
  "same_event v l \<longleftrightarrow> si_same_event v (la_handle l) (is_name (rx_instance (wa_recipes (si_watch v))))"

text \<open>What the caller of the platform call had on its stack above the four arguments of that call.\<close>

definition caller_kept :: "watched \<Rightarrow> u32 \<Rightarrow> late \<Rightarrow> bool" where
  "caller_kept w start l \<longleftrightarrow> read_private (wa_os w) start 156 = Some (drop 16 (la_prologue l))"

definition at_instance_call :: "'c site \<Rightarrow> thread_context \<Rightarrow> progress \<Rightarrow> late \<Rightarrow> 'c decision" where
  "at_instance_call v c p l =
    (let w = si_watch v; s = rx_instance (wa_recipes w); base = child_base (wa_child w) in
     if la_caller_stack l < 20 \<or> c_esp c \<noteq> la_caller_stack l - 20
        \<or> read_words w (c_esp c) 5 \<noteq> Some [0, 0, 1, base + name_rva s, base + call_rva (is_caller s) + 5] then Deny ''instance_arguments''
     else Move ''instance_arm_failed'' (arming Instance_stop l (arm_instance (si_host v) w p 2 (base + target_rva (is_caller s) + 18))) p)"

definition at_instance_created :: "'c site \<Rightarrow> thread_context \<Rightarrow> progress \<Rightarrow> late \<Rightarrow> 'c decision" where
  "at_instance_created v c p l =
    (let w = si_watch v; s = rx_instance (wa_recipes w); l1 = l\<lparr>la_handle := c_eax c\<rparr> in
     case (if c_esp c \<noteq> la_caller_stack l - 4 then None else read_last_error w p) of None \<Rightarrow> Deny ''instance_create_abi''
     | Some (e, p1) \<Rightarrow>
       if c_eax c = 0 then Deny ''instance_create_failed''
       else if \<not> same_event v l1 then Deny ''instance_event_identity''
       else Move ''instance_arm_failed'' (arming Instance_stop (l1\<lparr>la_last_error := e\<rparr>)
         (arm_instance (si_host v) w p1 3 (child_base (wa_child w) + target_rva (is_caller s) + 24))) p1)"

text \<open>An event that existed before means another instance; the run ends there.\<close>

definition at_instance_error :: "'c site \<Rightarrow> thread_context \<Rightarrow> progress \<Rightarrow> late \<Rightarrow> 'c decision" where
  "at_instance_error v c p l =
    (let w = si_watch v in
     if c_esp c \<noteq> la_caller_stack l - 4 \<or> c_eax c \<noteq> la_last_error l then Deny ''instance_getter_abi''
     else if la_last_error l = ERROR_ALREADY_EXISTS then Report ''instance_existing_detected'' p l
     else if la_last_error l \<noteq> 0 then Deny ''instance_ambiguous_last_error''
     else Move ''instance_arm_failed'' (arming Instance_stop l
       (arm_instance (si_host v) w p 4 (child_base (wa_child w) + call_rva (is_caller (rx_instance (wa_recipes w))) + 5))) p)"

definition at_instance_return :: "'c site \<Rightarrow> thread_context \<Rightarrow> progress \<Rightarrow> late \<Rightarrow> 'c decision" where
  "at_instance_return v c p l =
    (let w = si_watch v in
     if c_esp c \<noteq> la_caller_stack l \<or> c_eax c \<noteq> 0 then Deny ''instance_return_abi''
     else if \<not> caller_kept w (c_esp c) l then Deny ''instance_stack_drift''
     else if \<not> same_event v l then Deny ''instance_event_identity''
     else (case st_dispatch (si_stages v) of None \<Rightarrow> Report ''instance_startup_verified'' p l
       | Some s \<Rightarrow> (case dispatch_shape w p of None \<Rightarrow> Deny ''event_dispatch_precondition_shape''
         | Some p1 \<Rightarrow> Move ''event_dispatch_arm_failed'' (arming Dispatch_stop (l\<lparr>la_dispatch_saved := dispatch_registers c\<rparr>)
             (arm_dispatch (si_host v) w p1 1 (child_base (wa_child w) + call_rva (dispatcher s)))) p1)))"

definition at_instance :: "'c site \<Rightarrow> u32 \<Rightarrow> thread_context \<Rightarrow> progress \<Rightarrow> late \<Rightarrow> 'c decision" where
  "at_instance v stage c p l =
    (case instance_shape (si_watch v) p of None \<Rightarrow> Deny ''instance_shape_drift''
     | Some p1 \<Rightarrow>
       if \<not> same_nonvolatile c (la_instance_saved l) then Deny ''instance_registers''
       else if stage = 1 then at_instance_call v c p1 l else if stage = 2 then at_instance_created v c p1 l
       else if stage = 3 then at_instance_error v c p1 l else if stage = 4 then at_instance_return v c p1 l else Deny ''instance_stage'')"

section \<open>Dispatch, routing, prelude, file manager\<close>

text \<open>The frames further up the stack are as they were, and so is the last error.\<close>

definition error_kept :: "watched \<Rightarrow> late \<Rightarrow> progress \<Rightarrow> progress option" where
  "error_kept w l p = (case read_last_error w p of None \<Rightarrow> None | Some (e, p1) \<Rightarrow> if e = la_last_error l then Some p1 else None)"

definition prelude_kept :: "watched \<Rightarrow> late \<Rightarrow> bool" where
  "prelude_kept w l \<longleftrightarrow> read_private (wa_os w) (d_esp (la_prelude_saved l)) 32 = Some (la_prelude_stack l)
     \<and> caller_kept w (d_esp (la_dispatch_saved l)) l"

definition at_dispatch :: "'c site \<Rightarrow> u32 \<Rightarrow> thread_context \<Rightarrow> progress \<Rightarrow> late \<Rightarrow> 'c decision" where
  "at_dispatch v stage c p l =
    (let w = si_watch v; s = rx_dispatch (wa_recipes w); base = child_base (wa_child w); n = (if stage = 1 then 2 else if stage = 2 then 3 else 7) in
     if stage = 0 \<or> stage > 3 then Deny ''event_dispatch_stage''
     else (case dispatch_shape w p of None \<Rightarrow> Deny ''event_dispatch_shape_drift''
       | Some p1 \<Rightarrow>
         if (case read_words w (c_esp c) n of None \<Rightarrow> True
             | Some stack \<Rightarrow> \<not> event_dispatch_frame s stage (la_dispatch_saved l) (dispatch_registers c) stack) then Deny ''event_dispatch_frame''
         else (case (if caller_kept w (d_esp (la_dispatch_saved l)) l then error_kept w l p1 else None) of None \<Rightarrow> Deny ''event_dispatch_caller_drift''
           | Some p2 \<Rightarrow>
             if \<not> same_event v l then Deny ''event_dispatch_instance_identity''
             else if stage \<noteq> 3 then Move ''event_dispatch_arm_failed'' (arming Dispatch_stop l
               (arm_dispatch (si_host v) w p2 (stage + 1) (base + (if stage = 1 then target_rva (dispatcher s) else call_rva (ed_application s))))) p2
             else if st_routing (si_stages v) = None then Report ''event_dispatch_boundary_verified'' p2 l
             else (case routing_shape w p2 of None \<Rightarrow> Deny ''application_routing_precondition_shape''
               | Some p3 \<Rightarrow> Move ''application_routing_arm_failed'' (arming Routing_stop l
                   (arm_routing (si_host v) w p3 1 (base + target_rva (ed_application s)))) p3))))"

definition at_routing :: "'c site \<Rightarrow> u32 \<Rightarrow> thread_context \<Rightarrow> progress \<Rightarrow> late \<Rightarrow> 'c decision" where
  "at_routing v stage c p l =
    (let w = si_watch v; s = rx_routing (wa_recipes w); d = rx_dispatch (wa_recipes w); base = child_base (wa_child w) in
     if stage = 0 \<or> stage > 4 then Deny ''application_routing_stage''
     else (case routing_shape w p of None \<Rightarrow> Deny ''application_routing_shape_drift''
       | Some p1 \<Rightarrow>
         if (case read_words w (c_esp c) 8 of None \<Rightarrow> True
             | Some stack \<Rightarrow> \<not> application_routing_frame s d stage (la_dispatch_saved l) (dispatch_registers c) stack) then Deny ''application_routing_frame''
         else (case (if caller_kept w (d_esp (la_dispatch_saved l)) l then error_kept w l p1 else None) of None \<Rightarrow> Deny ''application_routing_caller_drift''
           | Some p2 \<Rightarrow>
             if \<not> same_event v l then Deny ''application_routing_instance_identity''
             else if stage \<noteq> 4 then Move ''application_routing_arm_failed'' (arming Routing_stop l
               (arm_routing (si_host v) w p2 (stage + 1) (base + (if stage = 1 then detour_rva s
                  else if stage = 2 then target_rva (ed_application d) + 20 else call_rva (initializer s))))) p2
             else if st_prelude (si_stages v) = None then Report ''application_routing_boundary_verified'' p2 l
             else (case prelude_shape w p2 of None \<Rightarrow> Deny ''game_prelude_precondition_shape''
               | Some p3 \<Rightarrow> (case read_private (wa_os w) (c_esp c) 32 of None \<Rightarrow> Deny ''game_prelude_precondition_stack''
                 | Some parent \<Rightarrow> (case prelude_read_flags w of None \<Rightarrow> Deny ''game_prelude_precondition_flags''
                   | Some flags \<Rightarrow> Move ''game_prelude_arm_failed'' (arming Prelude_stop (l\<lparr>la_prelude_saved := dispatch_registers c,
                       la_prelude_stack := parent, la_flags_before := flags, la_flags_after := flags\<rparr>)
                       (arm_prelude (si_host v) w p3 1 (base + target_rva (initializer s)))) p3))))))"

text \<open>Behind the prelude the stage of the file manager begins.\<close>

definition at_prelude_end :: "'c site \<Rightarrow> thread_context \<Rightarrow> progress \<Rightarrow> late \<Rightarrow> 'c decision" where
  "at_prelude_end v c p l =
    (let w = si_watch v in
     case st_manager (si_stages v) of None \<Rightarrow> Report ''game_prelude_verified'' p l
     | Some m \<Rightarrow> (case manager_shape w p of None \<Rightarrow> Deny ''file_manager_precondition_shape''
       | Some p1 \<Rightarrow> (case manager_read_buffer w of None \<Rightarrow> Deny ''file_manager_precondition_buffer''
         | Some buffer \<Rightarrow> Move ''file_manager_arm_failed'' (arming Manager_stop (l\<lparr>la_manager_saved := dispatch_registers c, la_buffer_before := buffer\<rparr>)
             (arm_manager (si_host v) w p1 1 (child_base (wa_child w) + target_rva (manager m)))) p1)))"

definition prelude_next :: "game_prelude_spec \<Rightarrow> u32 \<Rightarrow> u32" where
  "prelude_next s stage = (if stage = 1 then target_rva (gp_empty s) else if stage = 2 then call_rva (localisation s)
     else if stage = 3 then target_rva (localisation s) else call_rva (localisation s) + 5)"

definition at_prelude :: "'c site \<Rightarrow> u32 \<Rightarrow> thread_context \<Rightarrow> progress \<Rightarrow> late \<Rightarrow> 'c decision" where
  "at_prelude v stage c p l =
    (let w = si_watch v; s = rx_prelude (wa_recipes w); n = (if stage = 2 \<or> stage = 4 then 2 else 1) in
     if stage = 0 \<or> stage > 5 then Deny ''game_prelude_stage''
     else (case prelude_shape w p of None \<Rightarrow> Deny ''game_prelude_shape_drift''
       | Some p1 \<Rightarrow>
         if (case read_words w (c_esp c) n of None \<Rightarrow> True
             | Some stack \<Rightarrow> \<not> game_prelude_frame s (rx_routing (wa_recipes w)) stage (la_prelude_saved l) (dispatch_registers c) stack)
         then Deny ''game_prelude_frame''
         else (case (if prelude_kept w l then error_kept w l p1 else None) of None \<Rightarrow> Deny ''game_prelude_caller_drift''
           | Some p2 \<Rightarrow> (case prelude_read_flags w of None \<Rightarrow> Deny ''game_prelude_flags_drift''
             | Some flags \<Rightarrow>
               let l1 = l\<lparr>la_flags_after := flags\<rparr> in
               if \<not> game_prelude_flags stage (la_flags_before l) flags then Deny ''game_prelude_flags_drift''
               else if \<not> same_event v l then Deny ''game_prelude_instance_identity''
               else if stage = 5 then at_prelude_end v c p2 l1
               else Move ''game_prelude_arm_failed'' (arming Prelude_stop l1
                 (arm_prelude (si_host v) w p2 (stage + 1) (child_base (wa_child w) + prelude_next s stage))) p2))))"

section \<open>Every decision is one of the stop's own\<close>

lemma game_grounds:
  "application_shape w p = Some q \<Longrightarrow> same_ground p q" "platform_shape w p = Some q \<Longrightarrow> same_ground p q"
  "instance_shape w p = Some q \<Longrightarrow> same_ground p q" "dispatch_shape w p = Some q \<Longrightarrow> same_ground p q"
  "routing_shape w p = Some q \<Longrightarrow> same_ground p q" "prelude_shape w p = Some q \<Longrightarrow> same_ground p q"
  "manager_shape w p = Some q \<Longrightarrow> same_ground p q"
  by (auto simp: dispatch_shape_def routing_shape_def prelude_shape_def manager_shape_def split: option.splits if_splits
      dest: application_keeps platform_keeps instance_keeps intro!: keeps_ground)

lemma error_grounds:
  "read_last_error w p = Some (e, q) \<Longrightarrow> same_ground p q" "error_kept w l p = Some q \<Longrightarrow> same_ground p q"
  by (auto simp: error_kept_def dest: last_error_keeps intro!: keeps_ground split: option.splits if_splits prod.splits)

lemma at_initializer_return_sound:
  assumes "la_stop l = Application_stop 1" "recipes_present (si_stages v) (Application_stop 1)" "same_ground p q"
  shows "decision_sound (si_stages v) p l (at_initializer_return v c q l)"
  using assms by (simp add: at_initializer_return_def Let_def stop_defs)

lemma at_second_call_sound:
  assumes "la_stop l = Application_stop 2" "recipes_present (si_stages v) (Application_stop 2)" "same_ground p q"
  shows "decision_sound (si_stages v) p l (at_second_call v c q l)"
  using assms by (simp add: at_second_call_def Let_def stop_defs split: option.split)

lemma at_second_return_sound:
  assumes "la_stop l = Application_stop 3" "recipes_present (si_stages v) (Application_stop 3)" "same_ground p q"
  shows "decision_sound (si_stages v) p l (at_second_return v c q l)"
  using assms by (simp add: at_second_return_def Let_def stop_defs split: option.split)

lemma at_application_call_sound:
  assumes "la_stop l = Application_stop 4" "recipes_present (si_stages v) (Application_stop 4)" "same_ground p q"
  shows "decision_sound (si_stages v) p l (at_application_call v c q l)"
  using assms by (simp add: at_application_call_def Let_def stop_defs split: option.split)

lemma at_application_entry_sound:
  assumes "la_stop l = Application_stop 5" "recipes_present (si_stages v) (Application_stop 5)" "same_ground p q"
  shows "decision_sound (si_stages v) p l (at_application_entry v c q l)"
  using assms ground_trans[OF assms(3) game_grounds(2)] by (simp add: at_application_entry_def Let_def stop_defs split: option.split)

lemma at_application_sound:
  assumes "la_stop l = Application_stop n" "recipes_present (si_stages v) (Application_stop n)"
  shows "decision_sound (si_stages v) p l (at_application v n c p l)"
proof (cases "application_shape (si_watch v) p")
  case None
  then show ?thesis by (simp add: at_application_def final_literal)
next
  case (Some q)
  then show ?thesis using assms at_initializer_return_sound at_second_call_sound at_second_return_sound at_application_call_sound
      at_application_entry_sound game_grounds(1)[OF Some]
    by (auto simp: at_application_def final_literal)
qed

lemma suppress_follows:
  "suppress host r l0 c st = (Some l', st') \<Longrightarrow> la_stop l = Platform_call \<Longrightarrow> recipes_present x Suppressed \<Longrightarrow> follows x l l'"
  by (auto simp: suppress_def follows_def next_stop_def split: prod.splits if_splits)

lemma Suppress_sound:
  assumes "reason \<notin> final_reports" "same_ground p q" "la_stop l = Platform_call" "recipes_present x Suppressed"
  shows "decision_sound x p l (Move reason (suppress host r l0) q)"
  using assms suppress_follows by (auto simp: decision_sound_def)

lemma at_platform_sound:
  assumes "la_stop l = Platform_call" "recipes_present (si_stages v) Platform_call"
  shows "decision_sound (si_stages v) p l (at_platform v c p l)"
proof (cases "platform_shape (si_watch v) p")
  case None
  then show ?thesis by (simp add: at_platform_def final_literal)
next
  case (Some p1)
  note g = game_grounds(2)[OF Some]
  have e: "same_ground p q" if "read_last_error (si_watch v) p1 = Some (e, q)" for e q by (rule ground_trans[OF g error_grounds(1)[OF that]])
  show ?thesis using assms g e by (simp add: at_platform_def Let_def Some stop_defs Suppress_sound split: option.split)
qed

lemma at_suppressed_sound:
  assumes "la_stop l = Suppressed" "recipes_present (si_stages v) Suppressed"
  shows "decision_sound (si_stages v) p l (at_suppressed v c p l)"
proof (cases "platform_shape (si_watch v) p")
  case None
  then show ?thesis by (simp add: at_suppressed_def Let_def final_literal split: option.split)
next
  case (Some p1)
  note g = game_grounds(2)[OF Some]
  have e: "same_ground p q" if "read_last_error (si_watch v) p1 = Some (e, q)" for e q by (rule ground_trans[OF g error_grounds(1)[OF that]])
  have i: "same_ground p r" if "read_last_error (si_watch v) p1 = Some (e, q)" "instance_shape (si_watch v) q = Some r" for e q r
    by (rule ground_trans[OF e[OF that(1)] game_grounds(3)[OF that(2)]])
  show ?thesis using assms e i by (simp add: at_suppressed_def Let_def Some stop_defs split: option.split)
qed

lemma at_instance_call_sound:
  assumes "la_stop l = Instance_stop 1" "recipes_present (si_stages v) (Instance_stop 1)" "same_ground p q"
  shows "decision_sound (si_stages v) p l (at_instance_call v c q l)"
  using assms by (simp add: at_instance_call_def Let_def stop_defs)

lemma at_instance_created_sound:
  assumes "la_stop l = Instance_stop 2" "recipes_present (si_stages v) (Instance_stop 2)" "same_ground p q"
  shows "decision_sound (si_stages v) p l (at_instance_created v c q l)"
  using assms ground_trans[OF assms(3) error_grounds(1)] by (simp add: at_instance_created_def Let_def stop_defs split: option.split)

lemma at_instance_error_sound:
  assumes "la_stop l = Instance_stop 3" "recipes_present (si_stages v) (Instance_stop 3)" "same_ground p q"
  shows "decision_sound (si_stages v) p l (at_instance_error v c q l)"
  using assms by (simp add: at_instance_error_def Let_def stop_defs)

lemma at_instance_return_sound:
  assumes "la_stop l = Instance_stop 4" "recipes_present (si_stages v) (Instance_stop 4)" "same_ground p q"
  shows "decision_sound (si_stages v) p l (at_instance_return v c q l)"
  using assms ground_trans[OF assms(3) game_grounds(4)] by (simp add: at_instance_return_def Let_def stop_defs split: option.split)

lemma at_instance_sound:
  assumes "la_stop l = Instance_stop n" "recipes_present (si_stages v) (Instance_stop n)"
  shows "decision_sound (si_stages v) p l (at_instance v n c p l)"
proof (cases "instance_shape (si_watch v) p")
  case None
  then show ?thesis by (simp add: at_instance_def final_literal)
next
  case (Some q)
  then show ?thesis using assms at_instance_call_sound at_instance_created_sound at_instance_error_sound at_instance_return_sound game_grounds(3)[OF Some]
    by (auto simp: at_instance_def final_literal)
qed

lemma at_dispatch_sound:
  assumes "la_stop l = Dispatch_stop n" "recipes_present (si_stages v) (Dispatch_stop n)"
  shows "decision_sound (si_stages v) p l (at_dispatch v n c p l)"
proof (cases "dispatch_shape (si_watch v) p")
  case None
  then show ?thesis by (simp add: at_dispatch_def Let_def final_literal)
next
  case (Some p1)
  note g = game_grounds(4)[OF Some]
  have e: "same_ground p q" if "error_kept (si_watch v) l p1 = Some q" for q by (rule ground_trans[OF g error_grounds(2)[OF that]])
  have i: "same_ground p r" if "error_kept (si_watch v) l p1 = Some q" "routing_shape (si_watch v) q = Some r" for q r
    by (rule ground_trans[OF e[OF that(1)] game_grounds(5)[OF that(2)]])
  show ?thesis using assms e i by (simp add: at_dispatch_def Let_def Some stop_defs split: option.split)
qed

lemma at_routing_sound:
  assumes "la_stop l = Routing_stop n" "recipes_present (si_stages v) (Routing_stop n)"
  shows "decision_sound (si_stages v) p l (at_routing v n c p l)"
proof (cases "routing_shape (si_watch v) p")
  case None
  then show ?thesis by (simp add: at_routing_def Let_def final_literal)
next
  case (Some p1)
  note g = game_grounds(5)[OF Some]
  have e: "same_ground p q" if "error_kept (si_watch v) l p1 = Some q" for q by (rule ground_trans[OF g error_grounds(2)[OF that]])
  have i: "same_ground p r" if "error_kept (si_watch v) l p1 = Some q" "prelude_shape (si_watch v) q = Some r" for q r
    by (rule ground_trans[OF e[OF that(1)] game_grounds(6)[OF that(2)]])
  show ?thesis using assms e i by (simp add: at_routing_def Let_def Some stop_defs split: option.split)
qed

lemma at_prelude_end_sound:
  assumes "la_stop l0 = Prelude_stop 5" "la_stop l = Prelude_stop 5" "la_address l = la_address l0"
    "recipes_present (si_stages v) (Prelude_stop 5)" "same_ground p q"
  shows "decision_sound (si_stages v) p l0 (at_prelude_end v c q l)"
  using assms ground_trans[OF assms(5) game_grounds(7)] by (simp add: at_prelude_end_def Let_def stop_defs split: option.split)

lemma at_prelude_sound:
  assumes "la_stop l = Prelude_stop n" "recipes_present (si_stages v) (Prelude_stop n)"
  shows "decision_sound (si_stages v) p l (at_prelude v n c p l)"
proof (cases "prelude_shape (si_watch v) p")
  case None
  then show ?thesis by (simp add: at_prelude_def Let_def final_literal)
next
  case (Some p1)
  note g = game_grounds(6)[OF Some]
  have e: "same_ground p q" if "error_kept (si_watch v) l p1 = Some q" for q by (rule ground_trans[OF g error_grounds(2)[OF that]])
  have "decision_sound (si_stages v) p l (at_prelude_end v c q (l\<lparr>la_flags_after := fs\<rparr>))" if "n = 5" "error_kept (si_watch v) l p1 = Some q" for q fs
    by (rule at_prelude_end_sound) (use assms that e in simp_all)
  then show ?thesis using assms e
    by (simp add: at_prelude_def Let_def Some arms_all[THEN Move_sound] next_stop_def recipes_present_def stage_of_def final_literal split: option.split)
qed

end
