(* ===== verification/Loader_Directory_Stops.thy ===== *)
theory Loader_Directory_Stops
  imports Loader_Game_Stops
begin

text \<open>
  The stops of \<open>run_impl\<close> (\<open>loader_observation.cpp\<close>) in the file manager: its entry, the exception frame of the directory
  routine, its lock, the query, the copy, the return and the end of the file manager.
\<close>

section \<open>What every stop looks at\<close>

definition stage_recipes_of :: "stages \<Rightarrow> stage_recipes" where
  "stage_recipes_of x = \<lparr>ry_seh = the (st_seh x), ry_lock = the (st_lock x), ry_acquire = the (st_acquire x), ry_query = the (st_query x),
     ry_copy = the (st_copy x), ry_completion = the (st_completion x), ry_ready = the (st_ready x), ry_tables = the (st_tables x),
     ry_disk = the (st_disk x), ry_allocation = the (st_allocation x), ry_channels = the (st_channels x)\<rparr>"

text \<open>The addresses found so far, with the progress of this stop.\<close>

definition found :: "late \<Rightarrow> progress \<Rightarrow> addresses" where
  "found l p = (la_found l)\<lparr>ad_seen := p\<rparr>"

definition prior_kept :: "watched \<Rightarrow> late \<Rightarrow> bool" where
  "prior_kept w l \<longleftrightarrow> la_tib_before l ! 0 = UINT32_MAX \<or> read_words w (la_tib_before l ! 0) 2 = Some (la_prior l)"

definition flags_kept :: "watched \<Rightarrow> late \<Rightarrow> bool" where
  "flags_kept w l \<longleftrightarrow> prelude_read_flags w = Some (la_flags_after l)"

definition buffer_kept :: "watched \<Rightarrow> late \<Rightarrow> bool" where
  "buffer_kept w l \<longleftrightarrow> manager_read_buffer w = Some (la_buffer_before l)"

definition tib_kept :: "watched \<Rightarrow> late \<Rightarrow> progress \<Rightarrow> progress option" where
  "tib_kept w l p = (case seh_read_tib w p of None \<Rightarrow> None | Some (tib, p1) \<Rightarrow> if tib = la_tib_after l then Some p1 else None)"

definition slot_same :: "watched \<Rightarrow> stage_recipes \<Rightarrow> late \<Rightarrow> bool" where
  "slot_same w y l \<longleftrightarrow> lock_read_slot w y = Some (la_slot l)"

definition slot_value :: "late \<Rightarrow> u32" where
  "slot_value l = get_word (la_slot l) 4"

definition read_object :: "watched \<Rightarrow> stage_recipes \<Rightarrow> late \<Rightarrow> (u32 list \<times> u32 \<times> u32) option" where
  "read_object w y l = map_option (\<lambda>(bs, kind). (words_of bs, kind)) (acquire_read_object w y (la_tib_after l) (slot_value l) (la_object_kind l))"

text \<open>What the exception frame, the lock and its acquisition have in common, each with its own reasons.\<close>

definition surroundings :: "string \<Rightarrow> 'c site \<Rightarrow> late \<Rightarrow> progress \<Rightarrow> string + progress" where
  "surroundings stage v l p =
    (let w = si_watch v in
     if \<not> prior_kept w l then Inl (stage @ ''_prior_record_drift'')
     else (case (if prelude_kept w l then error_kept w l p else None) of None \<Rightarrow> Inl (stage @ ''_caller_drift'')
       | Some p1 \<Rightarrow>
         if \<not> buffer_kept w l then Inl (stage @ ''_buffer_drift'')
         else if \<not> flags_kept w l then Inl (stage @ ''_localisation_drift'')
         else if \<not> same_event v l then Inl (stage @ ''_instance_identity'') else Inr p1))"

section \<open>The entry of the file manager\<close>

definition at_manager_end :: "'c site \<Rightarrow> thread_context \<Rightarrow> progress \<Rightarrow> late \<Rightarrow> 'c decision" where
  "at_manager_end v c p l =
    (let w = si_watch v; r = dispatch_registers c in
     case st_seh (si_stages v) of None \<Rightarrow> Report ''file_manager_entry_verified'' p l
     | Some s \<Rightarrow> (case seh_shape w (stage_recipes_of (si_stages v)) (found l p) of None \<Rightarrow> Deny ''cwd_seh_precondition_shape''
       | Some a \<Rightarrow> (case seh_read_tib w (ad_seen a) of None \<Rightarrow> Deny ''cwd_seh_precondition_tib''
         | Some (tib, p1) \<Rightarrow>
           if \<not> valid_cwd_seh_origin r tib then Deny ''cwd_seh_precondition_tib''
           else (case (read_words w (d_esp r - 60) 20, if tib ! 0 = UINT32_MAX then Some [0, 0] else read_words w (tib ! 0) 2) of
               (Some stack, Some prior) \<Rightarrow> Move ''cwd_seh_arm_failed'' (arming Seh_stop
                 (l\<lparr>la_found := a, la_seh_saved := r, la_tib_before := tib, la_tib_after := tib, la_seh_stack := stack, la_prior := prior\<rparr>)
                 (arm_seh (si_host v) w p1 1 (child_base (wa_child w) + target_rva (seh_wrapper s)))) p1
             | _ \<Rightarrow> Deny ''cwd_seh_precondition_stack''))))"

definition at_manager :: "'c site \<Rightarrow> u32 \<Rightarrow> thread_context \<Rightarrow> progress \<Rightarrow> late \<Rightarrow> 'c decision" where
  "at_manager v stage c p l =
    (let w = si_watch v; s = rx_manager (wa_recipes w) in
     if stage \<noteq> 1 \<and> stage \<noteq> 2 then Deny ''file_manager_stage''
     else (case manager_shape w p of None \<Rightarrow> Deny ''file_manager_shape_drift''
       | Some p1 \<Rightarrow>
         if (case read_words w (c_esp c) (if stage = 1 then 2 else 5) of None \<Rightarrow> True
             | Some stack \<Rightarrow> \<not> file_manager_entry_frame s (rx_prelude (wa_recipes w)) (rx_routing (wa_recipes w)) stage (la_manager_saved l)
                 (dispatch_registers c) stack) then Deny ''file_manager_frame''
         else (case (if prelude_kept w l then error_kept w l p1 else None) of None \<Rightarrow> Deny ''file_manager_caller_drift''
           | Some p2 \<Rightarrow>
             if \<not> buffer_kept w l then Deny ''file_manager_buffer_drift''
             else if \<not> flags_kept w l then Deny ''file_manager_localisation_drift''
             else if \<not> same_event v l then Deny ''file_manager_instance_identity''
             else if stage = 2 then at_manager_end v c p2 l
             else Move ''file_manager_arm_failed'' (arming Manager_stop l
               (arm_manager (si_host v) w p2 2 (child_base (wa_child w) + target_rva (manager s) + 11))) p2)))"

section \<open>The exception frame\<close>

definition at_seh_end :: "'c site \<Rightarrow> thread_context \<Rightarrow> progress \<Rightarrow> late \<Rightarrow> 'c decision" where
  "at_seh_end v c p l =
    (let w = si_watch v; y = stage_recipes_of (si_stages v); r = dispatch_registers c in
     case st_lock (si_stages v) of None \<Rightarrow> Report ''cwd_seh_verified'' p l
     | Some s \<Rightarrow> (case lock_shape w y (found l p) of None \<Rightarrow> Deny ''cwd_lock_precondition_shape''
       | Some a \<Rightarrow>
         if \<not> valid_cwd_lock_origin r (la_tib_after l) then Deny ''cwd_lock_precondition_tib''
         else (case lock_read_stack w (d_esp r) of None \<Rightarrow> Deny ''cwd_lock_precondition_stack''
           | Some stack \<Rightarrow> (case lock_read_slot w y of None \<Rightarrow> Deny ''cwd_lock_precondition_slot''
             | Some slot \<Rightarrow> Move ''cwd_lock_arm_failed'' (arming Lock_stop
                 (l\<lparr>la_found := a, la_lock_saved := r, la_lock_stack := words_of stack, la_slot := slot\<rparr>)
                 (arm_lock (si_host v) w (ad_seen a) 1 (child_base (wa_child w) + target_rva (selector s)))) (ad_seen a)))))"

definition at_seh :: "'c site \<Rightarrow> u32 \<Rightarrow> thread_context \<Rightarrow> progress \<Rightarrow> late \<Rightarrow> 'c decision" where
  "at_seh v stage c p l =
    (let w = si_watch v; y = stage_recipes_of (si_stages v); s = ry_seh y; saved = la_seh_saved l in
     if stage = 0 \<or> stage > 3 then Deny ''cwd_seh_stage''
     else (case seh_shape w y (found l p) of None \<Rightarrow> Deny ''cwd_seh_shape_drift''
       | Some a \<Rightarrow>
         if \<not> cwd_seh_frame s stage saved (dispatch_registers c) then Deny ''cwd_seh_frame''
         else (case (seh_read_tib w (ad_seen a), read_words w (d_esp saved - 60) 20) of
             (Some (tib, p1), Some stack) \<Rightarrow>
               let l1 = l\<lparr>la_found := a, la_tib_after := tib\<rparr> in
               if \<not> cwd_seh_memory s stage saved (la_tib_before l) tib (la_seh_stack l) stack then Deny ''cwd_seh_memory_drift''
               else (case surroundings ''cwd_seh'' v l1 p1 of Inl reason \<Rightarrow> Deny reason
                 | Inr p2 \<Rightarrow>
                   if stage = 3 then at_seh_end v c p2 l1
                   else Move ''cwd_seh_arm_failed'' (arming Seh_stop l1 (arm_seh (si_host v) w p2 (stage + 1)
                     (child_base (wa_child w) + (if stage = 1 then target_rva (seh_prologue s) else call_rva (seh_prologue s) + 5)))) p2)
           | _ \<Rightarrow> Deny ''cwd_seh_memory_drift'')))"

section \<open>The lock\<close>

text \<open>The critical section must be there and unowned before the call that takes it.\<close>

definition at_lock_end :: "'c site \<Rightarrow> thread_context \<Rightarrow> progress \<Rightarrow> late \<Rightarrow> 'c decision" where
  "at_lock_end v c p l =
    (let w = si_watch v; y = stage_recipes_of (si_stages v); r = dispatch_registers c; thread = host_thread_id (si_host v) in
     if st_acquire (si_stages v) = None then Report ''cwd_lock_verified'' p l
     else if slot_value l = 0 then Deny ''cwd_acquire_missing_slot''
     else (case acquire_shape w y (found l p) of None \<Rightarrow> Deny ''cwd_acquire_precondition_shape''
       | Some a \<Rightarrow> (case read_object w y l of None \<Rightarrow> Deny ''cwd_acquire_precondition_object''
         | Some (object, kind) \<Rightarrow>
           if \<not> cwd_acquire_object (slot_value l) object object thread False then Deny ''cwd_acquire_precondition_object''
           else (case read_words w (d_esp r) 21 of None \<Rightarrow> Deny ''cwd_acquire_precondition_stack''
             | Some stack \<Rightarrow> Move ''cwd_acquire_arm_failed'' (arming Acquire_stop
                 (l\<lparr>la_found := a, la_acquire_saved := r, la_thread := thread, la_object_before := object, la_object_after := object,
                   la_object_kind := kind, la_acquire_stack := stack\<rparr>)
                 (arm_acquire (si_host v) w (ad_seen a) 1 (child_base (wa_child w) + target_rva (selector (ry_lock y)) + 38))) (ad_seen a)))))"

definition at_lock :: "'c site \<Rightarrow> u32 \<Rightarrow> thread_context \<Rightarrow> progress \<Rightarrow> late \<Rightarrow> 'c decision" where
  "at_lock v stage c p l =
    (let w = si_watch v; y = stage_recipes_of (si_stages v); s = ry_lock y; saved = la_lock_saved l in
     if stage \<noteq> 1 \<and> stage \<noteq> 2 then Deny ''cwd_lock_stage''
     else (case lock_shape w y (found l p) of None \<Rightarrow> Deny ''cwd_lock_shape_drift''
       | Some a \<Rightarrow>
         if \<not> slot_same w y l then Deny ''cwd_lock_slot_drift''
         else if \<not> cwd_lock_frame s stage saved (dispatch_registers c) (slot_value l) then Deny ''cwd_lock_frame''
         else if (case lock_read_stack w (d_esp saved) of None \<Rightarrow> True
             | Some stack \<Rightarrow> \<not> cwd_lock_memory s stage saved (la_lock_stack l) (words_of stack)) then Deny ''cwd_lock_stack_drift''
         else (case tib_kept w l (ad_seen a) of None \<Rightarrow> Deny ''cwd_lock_seh_drift''
           | Some p1 \<Rightarrow> (case surroundings ''cwd_lock'' v l p1 of Inl reason \<Rightarrow> Deny reason
             | Inr p2 \<Rightarrow>
               if stage = 2 then at_lock_end v c p2 (l\<lparr>la_found := a\<rparr>)
               else Move ''cwd_lock_arm_failed'' (arming Lock_stop (l\<lparr>la_found := a\<rparr>)
                 (arm_lock (si_host v) w p2 2 (child_base (wa_child w) + target_rva (selector s) + 17))) p2))))"

definition at_acquire_end :: "'c site \<Rightarrow> thread_context \<Rightarrow> progress \<Rightarrow> late \<Rightarrow> 'c decision" where
  "at_acquire_end v c p l =
    (let w = si_watch v; y = stage_recipes_of (si_stages v); base = child_base (wa_child w) in
     case st_query (si_stages v) of None \<Rightarrow> Report ''cwd_acquire_verified'' p l
     | Some s \<Rightarrow> (case query_shape w y (found l p) of None \<Rightarrow> Deny ''cwd_query_precondition_shape''
       | Some a \<Rightarrow> (case (read_word (wa_os w) base (cookie_rva s), read_last_error w (ad_seen a)) of
           (Some cookie, Some (e, p1)) \<Rightarrow> Move ''cwd_query_arm_failed'' (arming Query_stop
             (l\<lparr>la_found := a, la_query_saved := dispatch_registers c, la_cookie := cookie, la_error_before := e\<rparr>)
             (arm_query (si_host v) w p1 1 (base + call_rva (selector (ry_lock y)) + 18))) p1
         | _ \<Rightarrow> Deny ''cwd_query_precondition_memory'')))"

definition acquire_next :: "late \<Rightarrow> u32 \<Rightarrow> stage_recipes \<Rightarrow> u32 \<Rightarrow> u32" where
  "acquire_next l base y stage = (let f = selector (ry_lock y) in
     if stage = 1 then base + target_rva f + 40 else if stage = 2 then ad_acquire (la_found l)
     else if stage = 3 then base + target_rva f + 46 else base + call_rva f + 5)"

definition at_acquire :: "'c site \<Rightarrow> u32 \<Rightarrow> thread_context \<Rightarrow> progress \<Rightarrow> late \<Rightarrow> 'c decision" where
  "at_acquire v stage c p l =
    (let w = si_watch v; y = stage_recipes_of (si_stages v); base = child_base (wa_child w); saved = la_acquire_saved l;
         call = (if stage = 2 then Some [slot_value l] else if stage = 3 then Some [base + target_rva (selector (ry_lock y)) + 46, slot_value l] else None) in
     if stage = 0 \<or> stage > 5 then Deny ''cwd_acquire_stage''
     else (case acquire_shape w y (found l p) of None \<Rightarrow> Deny ''cwd_acquire_shape_drift''
       | Some a \<Rightarrow>
         if \<not> slot_same w y l then Deny ''cwd_acquire_slot_drift''
         else if \<not> cwd_acquire_frame stage saved (dispatch_registers c) (d_ebp (la_lock_saved l)) then Deny ''cwd_acquire_frame''
         else if (case call of None \<Rightarrow> False | Some args \<Rightarrow> read_words w (c_esp c) (length args) \<noteq> Some args) then Deny ''cwd_acquire_arguments''
         else (case read_object w y l of None \<Rightarrow> Deny ''cwd_acquire_object_drift''
           | Some (object, kind) \<Rightarrow>
             let l1 = l\<lparr>la_found := a, la_object_after := object, la_object_kind := kind\<rparr> in
             if \<not> cwd_acquire_object (slot_value l) (la_object_before l) object (la_thread l) (stage \<ge> 4) then Deny ''cwd_acquire_object_drift''
             else if read_words w (d_esp saved) 21 \<noteq> Some (la_acquire_stack l) then Deny ''cwd_acquire_stack_drift''
             else (case tib_kept w l (ad_seen a) of None \<Rightarrow> Deny ''cwd_acquire_seh_drift''
               | Some p1 \<Rightarrow> (case surroundings ''cwd_acquire'' v l p1 of Inl reason \<Rightarrow> Deny reason
                 | Inr p2 \<Rightarrow>
                   if stage = 5 then at_acquire_end v c p2 l1
                   else Move ''cwd_acquire_arm_failed'' (arming Acquire_stop l1
                     (arm_acquire (si_host v) w p2 (stage + 1) (acquire_next l1 base y stage))) p2)))))"

section \<open>The query\<close>

text \<open>The return address of the helper, the buffer in its frame, and the guard words behind the buffer.\<close>

definition helper_return :: "watched \<Rightarrow> stage_recipes \<Rightarrow> u32" where
  "helper_return w y = child_base (wa_child w) + call_rva (selector (ry_lock y)) + 23"

definition query_buffer :: "late \<Rightarrow> u32" where
  "query_buffer l = d_esp (la_query_saved l) - 284"

definition root_buffer :: "watched \<Rightarrow> u32" where
  "root_buffer w = child_base (wa_child w) + buffer_rva (rx_manager (wa_recipes w))"

definition lock_kept :: "watched \<Rightarrow> stage_recipes \<Rightarrow> late \<Rightarrow> bool" where
  "lock_kept w y l \<longleftrightarrow> slot_same w y l \<and> map_option fst (read_object w y l) = Some (la_object_after l)"

definition cookie_kept :: "watched \<Rightarrow> stage_recipes \<Rightarrow> late \<Rightarrow> bool" where
  "cookie_kept w y l \<longleftrightarrow> read_word (wa_os w) (child_base (wa_child w)) (cookie_rva (ry_query y)) = Some (la_cookie l)"

text \<open>The helper's frame: the encoded cookie, the saved register and the saved frame pointer.\<close>

definition encoded_kept :: "watched \<Rightarrow> stage_recipes \<Rightarrow> late \<Rightarrow> bool" where
  "encoded_kept w y l \<longleftrightarrow> read_words w (d_esp (la_query_saved l) - 20) 1 = Some [la_cookie l XOR helper_return w y]"

definition frame_kept :: "watched \<Rightarrow> late \<Rightarrow> u32 \<Rightarrow> bool" where
  "frame_kept w l ebx \<longleftrightarrow> read_words w (d_esp (la_query_saved l) - 288) 1 = Some [ebx]
     \<and> read_words w (d_esp (la_query_saved l) - 16) 1 = Some [d_ebp (la_query_saved l)]"

text \<open>The seventh stop: the directory the system has returned must be the expected one.\<close>

definition at_query_end :: "'c site \<Rightarrow> thread_context \<Rightarrow> progress \<Rightarrow> late \<Rightarrow> 'c decision" where
  "at_query_end v c p l =
    (let w = si_watch v; y = stage_recipes_of (si_stages v) in
     if read_words w (query_buffer l + 260) 2 \<noteq> Some (la_guard l) then Deny ''cwd_query_guard_drift''
     else (case read_private (wa_os w) (query_buffer l) 260 of None \<Rightarrow> Deny ''cwd_query_buffer_read''
       | Some path \<Rightarrow>
         let reason = cwd_query_result (c_eax c) path (expected_directory (ry_query y));
             l1 = l\<lparr>la_length := c_eax c, la_directory := path\<rparr> in
         if reason \<noteq> [] then Deny reason
         else if st_copy (si_stages v) = None then Report ''cwd_query_verified'' p l1
         else (case copy_shape w y (found l p) of None \<Rightarrow> Deny ''cwd_copy_precondition_shape''
           | Some a \<Rightarrow> Move ''cwd_copy_arm_failed'' (arming Copy_stop (l1\<lparr>la_found := a, la_query_return := dispatch_registers c, la_destination := la_buffer_before l\<rparr>)
               (arm_copy (si_host v) w (ad_seen a) 1 (child_base (wa_child w) + helper_rva (ry_query y) + 158))) (ad_seen a))))"

text \<open>At the call of the system's function the arguments are the buffer and its size, inside the stack.\<close>

definition query_arguments :: "watched \<Rightarrow> stage_recipes \<Rightarrow> u32 \<Rightarrow> u32 list \<Rightarrow> thread_context \<Rightarrow> late \<Rightarrow> string + u32 list" where
  "query_arguments w y stage tib c l =
    (let a = query_buffer l; args = (if stage = 6 then [child_base (wa_child w) + helper_rva (ry_query y) + 141] else []) @ [260, a] in
     if a < tib ! 2 \<or> a > tib ! 1 \<or> 268 > tib ! 1 - a then Inl ''cwd_query_buffer_bounds''
     else if read_words w (c_esp c) (length args) \<noteq> Some args then Inl ''cwd_query_arguments''
     else (case read_words w (a + 260) 2 of None \<Rightarrow> Inl ''cwd_query_guard_read''
       | Some guard \<Rightarrow> if stage = 5 \<or> guard = la_guard l then Inr guard else Inl ''cwd_query_guard_drift''))"

definition query_next :: "late \<Rightarrow> u32 \<Rightarrow> u32 \<Rightarrow> u32 \<Rightarrow> u32" where
  "query_next l base helper stage = (if stage = 1 then base + helper else if stage = 2 then base + helper + 26
     else if stage = 3 then base + helper + 123 else if stage = 4 then base + helper + 135
     else if stage = 5 then ad_query (la_found l) else base + helper + 141)"

definition at_query :: "'c site \<Rightarrow> u32 \<Rightarrow> thread_context \<Rightarrow> progress \<Rightarrow> late \<Rightarrow> 'c decision" where
  "at_query v stage c p l =
    (let w = si_watch v; y = stage_recipes_of (si_stages v); base = child_base (wa_child w); saved = la_query_saved l in
     if stage = 0 \<or> stage > 7 then Deny ''cwd_query_stage''
     else (case query_shape w y (found l p) of None \<Rightarrow> Deny ''cwd_query_shape_drift''
       | Some a \<Rightarrow>
         if \<not> cwd_query_frame stage saved (dispatch_registers c) (la_cookie l) (helper_return w y) then Deny ''cwd_query_frame''
         else if (case read_words w (d_esp (la_acquire_saved l)) 21 of None \<Rightarrow> True
             | Some stack \<Rightarrow> \<not> cwd_query_stack stage (la_acquire_stack l) stack (root_buffer w) (helper_return w y)) then Deny ''cwd_query_stack_drift''
         else (case (if prior_kept w l then seh_read_tib w (ad_seen a) else None) of None \<Rightarrow> Deny ''cwd_query_seh_drift''
           | Some (tib, p1) \<Rightarrow>
             if tib \<noteq> la_tib_after l then Deny ''cwd_query_seh_drift''
             else if \<not> lock_kept w y l then Deny ''cwd_query_lock_drift''
             else if stage \<ge> 3 \<and> \<not> frame_kept w l 0 then Deny ''cwd_query_helper_stack''
             else if \<not> cookie_kept w y l \<or> (stage \<ge> 3 \<and> \<not> encoded_kept w y l) then Deny ''cwd_query_cookie_drift''
             else (case (if prelude_kept w l then read_last_error w p1 else None) of None \<Rightarrow> Deny ''cwd_query_caller_drift''
               | Some (e, p2) \<Rightarrow>
                 let l1 = l\<lparr>la_found := a, la_error_after := e\<rparr> in
                 if stage < 7 \<and> e \<noteq> la_error_before l then Deny ''cwd_query_last_error_drift''
                 else if \<not> buffer_kept w l \<or> \<not> flags_kept w l then Deny ''cwd_query_outer_buffer_drift''
                 else if \<not> same_event v l then Deny ''cwd_query_instance_identity''
                 else if stage = 7 then at_query_end v c p2 l1
                 else (case (if stage = 5 \<or> stage = 6 then query_arguments w y stage tib c l else Inr (la_guard l)) of Inl reason \<Rightarrow> Deny reason
                   | Inr guard \<Rightarrow> Move ''cwd_query_arm_failed'' (arming Query_stop (l1\<lparr>la_guard := guard\<rparr>)
                       (arm_query (si_host v) w p2 (stage + 1) (query_next l1 base (helper_rva (ry_query y)) stage))) p2)))))"

section \<open>The copy and the return\<close>

text \<open>What the copy and the return have in common, each with its own reasons; \<open>ebx\<close> is the register the helper has saved.\<close>

definition query_state :: "string \<Rightarrow> 'c site \<Rightarrow> stage_recipes \<Rightarrow> u32 \<Rightarrow> late \<Rightarrow> progress \<Rightarrow> string + progress" where
  "query_state stage v y ebx l p =
    (let w = si_watch v in
     if (case read_words w (d_esp (la_acquire_saved l)) 21 of None \<Rightarrow> True
         | Some stack \<Rightarrow> \<not> cwd_query_stack 7 (la_acquire_stack l) stack (root_buffer w) (helper_return w y)) then Inl (stage @ ''_stack_drift'')
     else (case (if prior_kept w l \<and> d_esp (la_query_saved l) - 304 \<ge> la_tib_after l ! 2 then tib_kept w l p else None) of None \<Rightarrow> Inl (stage @ ''_seh_drift'')
       | Some p1 \<Rightarrow>
         if \<not> lock_kept w y l then Inl (stage @ ''_lock_drift'')
         else if \<not> cookie_kept w y l \<or> \<not> encoded_kept w y l \<or> \<not> frame_kept w l ebx then Inl (stage @ ''_cookie_drift'')
         else if \<not> prelude_kept w l then Inl (stage @ ''_caller_drift'')
         else (case read_last_error w p1 of None \<Rightarrow> Inl (stage @ ''_last_error_drift'')
           | Some (e, p2) \<Rightarrow>
             if e \<noteq> la_error_after l then Inl (stage @ ''_last_error_drift'')
             else if read_private (wa_os w) (query_buffer l) 260 \<noteq> Some (la_directory l) then Inl (stage @ ''_source_drift'')
             else if read_words w (query_buffer l + 260) 2 \<noteq> Some (la_guard l) then Inl (stage @ ''_guard_drift'') else Inr p2)))"

definition at_copy_end :: "'c site \<Rightarrow> thread_context \<Rightarrow> progress \<Rightarrow> late \<Rightarrow> 'c decision" where
  "at_copy_end v c p l =
    (let w = si_watch v; y = stage_recipes_of (si_stages v) in
     if st_completion (si_stages v) = None then Report ''cwd_copy_verified'' p l
     else (case return_shape w y (found l p) of None \<Rightarrow> Deny ''cwd_return_precondition_shape''
       | Some a \<Rightarrow> Move ''cwd_return_arm_failed'' (arming Return_stop (l\<lparr>la_found := a, la_copy_return := dispatch_registers c\<rparr>)
           (arm_return (si_host v) w (ad_seen a) 1 (child_base (wa_child w) + helper_rva (ry_query y) + 63))) (ad_seen a)))"

definition copy_next :: "u32 \<Rightarrow> stage_recipes \<Rightarrow> u32 \<Rightarrow> u32" where
  "copy_next base y stage = (let helper = helper_rva (ry_query y) in
     if stage = 1 then base + helper + 200 else if stage = 2 then base + helper + 226
     else if stage = 3 then base + copier_rva (ry_copy y) else base + helper + 231)"

definition at_copy :: "'c site \<Rightarrow> u32 \<Rightarrow> thread_context \<Rightarrow> progress \<Rightarrow> late \<Rightarrow> 'c decision" where
  "at_copy v stage c p l =
    (let w = si_watch v; y = stage_recipes_of (si_stages v); base = child_base (wa_child w);
         args = (if stage = 4 then [base + helper_rva (ry_query y) + 231] else []) @ [root_buffer w, query_buffer l] in
     if stage = 0 \<or> stage > 5 then Deny ''cwd_copy_stage''
     else (case copy_shape w y (found l p) of None \<Rightarrow> Deny ''cwd_copy_shape_drift''
       | Some a \<Rightarrow>
         if \<not> cwd_copy_frame stage (la_query_saved l) (la_query_return l) (dispatch_registers c) (query_buffer l) (root_buffer w) (la_length l)
         then Deny ''cwd_copy_frame''
         else if stage \<ge> 3 \<and> read_words w (c_esp c) (length args) \<noteq> Some args then Deny ''cwd_copy_arguments''
         else (case query_state ''cwd_copy'' v y 0 l (ad_seen a) of Inl reason \<Rightarrow> Deny reason
           | Inr p1 \<Rightarrow> (case manager_read_buffer w of None \<Rightarrow> Deny ''cwd_copy_destination_drift''
             | Some now \<Rightarrow>
               let l1 = l\<lparr>la_found := a, la_destination := now\<rparr> in
               if \<not> cwd_copy_buffer (la_buffer_before l) now (la_directory l) (la_length l) (stage = 5) then Deny ''cwd_copy_destination_drift''
               else if \<not> flags_kept w l then Deny ''cwd_copy_localisation_drift''
               else if \<not> same_event v l then Deny ''cwd_copy_instance_identity''
               else if stage = 5 then at_copy_end v c p1 l1
               else Move ''cwd_copy_arm_failed'' (arming Copy_stop l1 (arm_copy (si_host v) w p1 (stage + 1) (copy_next base y stage))) p1))))"

definition at_return_end :: "'c site \<Rightarrow> thread_context \<Rightarrow> progress \<Rightarrow> late \<Rightarrow> 'c decision" where
  "at_return_end v c p l =
    (let w = si_watch v; y = stage_recipes_of (si_stages v) in
     if st_ready (si_stages v) = None then Report ''cwd_return_verified'' p l
     else (case ready_shape w y (found l p) of None \<Rightarrow> Deny ''file_manager_ready_precondition_shape''
       | Some a \<Rightarrow> Move ''file_manager_ready_arm_failed'' (arming Ready_stop (l\<lparr>la_found := a\<rparr>)
           (arm_ready (si_host v) w (ad_seen a) 1 (child_base (wa_child w) + unlock_rva (ry_ready y) + 13))) (ad_seen a)))"

definition return_next :: "watched \<Rightarrow> stage_recipes \<Rightarrow> u32 \<Rightarrow> u32" where
  "return_next w y stage = (let base = child_base (wa_child w); helper = helper_rva (ry_query y); checker = base + checker_rva (ry_completion y) in
     if stage = 1 then base + helper + 70 else if stage = 2 then checker else if stage = 3 then checker + 6
     else if stage = 4 then base + helper + 75 else helper_return w y)"

definition at_return :: "'c site \<Rightarrow> u32 \<Rightarrow> thread_context \<Rightarrow> progress \<Rightarrow> late \<Rightarrow> 'c decision" where
  "at_return v stage c p l =
    (let w = si_watch v; y = stage_recipes_of (si_stages v); saved = la_query_saved l;
         ebx = (if stage \<le> 2 then 0 else child_base (wa_child w) + helper_rva (ry_query y) + 75) in
     case return_shape w y (found l p) of None \<Rightarrow> Deny ''cwd_return_shape_drift''
     | Some a \<Rightarrow>
       if \<not> cwd_return_frame stage saved (la_copy_return l) (dispatch_registers c) (la_cookie l) (root_buffer w) then Deny ''cwd_return_frame''
       else (case query_state ''cwd_return'' v y ebx l (ad_seen a) of Inl reason \<Rightarrow> Deny reason
         | Inr p1 \<Rightarrow>
           let l1 = l\<lparr>la_found := a\<rparr> in
           if manager_read_buffer w \<noteq> Some (la_destination l) then Deny ''cwd_return_destination_drift''
           else if \<not> flags_kept w l then Deny ''cwd_return_localisation_drift''
           else if \<not> same_event v l then Deny ''cwd_return_instance_identity''
           else if read_words w (d_esp saved - 12) 4 \<noteq> Some [helper_return w y, 0, root_buffer w, 128] then Deny ''cwd_return_helper_arguments''
           else if stage = 6 then at_return_end v c p1 l1
           else Move ''cwd_return_arm_failed'' (arming Return_stop l1 (arm_return (si_host v) w p1 (stage + 1) (return_next w y stage))) p1))"

section \<open>The end of the file manager\<close>

text \<open>Before the fifth stop the exception frame and its record are in place, afterwards they are gone.\<close>

definition wrapper_frame :: "watched \<Rightarrow> stage_recipes \<Rightarrow> late \<Rightarrow> bool" where
  "wrapper_frame w y l \<longleftrightarrow> (let base = child_base (wa_child w); t = d_esp (la_query_saved l) in
     read_words w (t + 28) 4 = Some [la_tib_before l ! 0, base + handler_rva (ry_seh y), base + scope_rva (ry_seh y), UINT32_MAX]
     \<and> read_words w (t + 16) 1 = Some [root_buffer w])"

text \<open>The words on top of the stack at each stop, as far as they are compared.\<close>

definition ready_return :: "watched \<Rightarrow> u32" where
  "ready_return w = child_base (wa_child w) + call_rva (manager (rx_manager (wa_recipes w))) + 5"

definition ready_stack :: "watched \<Rightarrow> stage_recipes \<Rightarrow> u32 \<Rightarrow> late \<Rightarrow> u32 list" where
  "ready_stack w y stage l =
    (let base = child_base (wa_child w); f = selector (ry_lock y); m = manager (rx_manager (wa_recipes w));
         cleanup = [d_ebp (la_query_saved l), base + cleanup_rva (ry_seh y) + 7, 7, base + call_rva f + 38]; edi = d_edi (la_manager_saved l) in
     if stage = 1 then slot_value l # cleanup else if stage = 2 then (base + unlock_rva (ry_ready y) + 19) # slot_value l # cleanup
     else if stage = 3 then cleanup else if stage = 4 then [base + call_rva f + 46] else if stage = 5 then [base + target_rva m + 16]
     else if stage = 6 then [root_buffer w, 128, edi, ready_return w] else if stage \<le> 8 then [edi, ready_return w] else [])"

definition ready_next :: "watched \<Rightarrow> stage_recipes \<Rightarrow> late \<Rightarrow> u32 \<Rightarrow> u32" where
  "ready_next w y l stage =
    (let base = child_base (wa_child w); target = base + target_rva (manager (rx_manager (wa_recipes w))) in
     if stage = 1 then ad_ready (la_found l) else if stage = 2 then base + unlock_rva (ry_ready y) + 19
     else if stage = 3 then base + epilogue_rva (ry_ready y) else if stage = 4 then base + call_rva (selector (ry_lock y)) + 46
     else if stage = 5 then target + 16 else if stage = 6 then target + 40 else if stage = 7 then target + 49 else ready_return w)"

definition at_ready_end :: "'c site \<Rightarrow> thread_context \<Rightarrow> progress \<Rightarrow> late \<Rightarrow> 'c decision" where
  "at_ready_end v c p l =
    (let w = si_watch v; y = stage_recipes_of (si_stages v); r = dispatch_registers c in
     if st_tables (si_stages v) = None then Report ''file_manager_ready_verified'' p l
     else (case tables_shape w y (found l p) of None \<Rightarrow> Deny ''cd_stream_tables_precondition_shape''
       | Some a \<Rightarrow> (case tables_read w y of None \<Rightarrow> Deny ''cd_stream_tables_precondition_memory''
         | Some before \<Rightarrow>
           if d_esp r < 65600 \<or> d_flags r AND 0x500 \<noteq> 0 then Deny ''cd_stream_tables_precondition_frame''
           else Move ''cd_stream_tables_arm_failed'' (arming Tables_stop (l\<lparr>la_found := a, la_tables_saved := r, la_tables_before := before\<rparr>)
             (arm_tables (si_host v) w y (ad_seen a) 1)) (ad_seen a))))"

definition at_ready :: "'c site \<Rightarrow> u32 \<Rightarrow> thread_context \<Rightarrow> progress \<Rightarrow> late \<Rightarrow> 'c decision" where
  "at_ready v stage c p l =
    (let w = si_watch v; y = stage_recipes_of (si_stages v); args = ready_stack w y stage l in
     case ready_shape w y (found l p) of None \<Rightarrow> Deny ''file_manager_ready_shape_drift''
     | Some a \<Rightarrow>
       if \<not> file_manager_ready_frame stage (la_query_saved l) (la_manager_saved l) (dispatch_registers c) (root_buffer w) (la_length l)
       then Deny ''file_manager_ready_frame''
       else if \<not> slot_same w y l \<or> (case read_object w y l of None \<Rightarrow> True
           | Some (object, kind) \<Rightarrow> \<not> cwd_acquire_object (slot_value l) (la_object_before l) object (la_thread l) (stage \<le> 2))
       then Deny ''file_manager_ready_lock_drift''
       else (case seh_read_tib w (ad_seen a) of None \<Rightarrow> Deny ''file_manager_ready_seh_drift''
         | Some (tib, p1) \<Rightarrow>
           if tib \<noteq> (if stage < 5 then la_tib_after l else la_tib_before l) then Deny ''file_manager_ready_seh_drift''
           else if \<not> prior_kept w l then Deny ''file_manager_ready_prior_record_drift''
           else if stage < 5 \<and> \<not> wrapper_frame w y l then Deny ''file_manager_ready_wrapper_state''
           else if args \<noteq> [] \<and> read_words w (c_esp c) (length args) \<noteq> Some args then Deny ''file_manager_ready_arguments''
           else if \<not> prelude_kept w l then Deny ''file_manager_ready_caller_drift''
           else (case manager_read_buffer w of None \<Rightarrow> Deny ''file_manager_ready_buffer_drift''
             | Some now \<Rightarrow>
               if \<not> file_manager_ready_buffer (la_destination l) now (la_length l) (stage \<ge> 8) then Deny ''file_manager_ready_buffer_drift''
               else (case read_last_error w p1 of None \<Rightarrow> Deny ''file_manager_ready_last_error_drift''
                 | Some (e, p2) \<Rightarrow>
                   let l1 = l\<lparr>la_found := a, la_ready_directory := now\<rparr> in
                   if e \<noteq> la_error_after l then Deny ''file_manager_ready_last_error_drift''
                   else if \<not> flags_kept w l then Deny ''file_manager_ready_localisation_drift''
                   else if \<not> same_event v l then Deny ''file_manager_ready_instance_identity''
                   else if stage = 9 then at_ready_end v c p2 l1
                   else Move ''file_manager_ready_arm_failed'' (arming Ready_stop l1 (arm_ready (si_host v) w p2 (stage + 1) (ready_next w y l1 stage))) p2))))"

section \<open>Every decision is one of the stop's own\<close>

lemma found_seen [simp]: "ad_seen (found l p) = p"
  by (simp add: found_def)

lemma directory_grounds:
  "seh_shape w y a = Some b \<Longrightarrow> same_ground (ad_seen a) (ad_seen b)" "lock_shape w y a = Some b \<Longrightarrow> same_ground (ad_seen a) (ad_seen b)"
  "acquire_shape w y a = Some b \<Longrightarrow> same_ground (ad_seen a) (ad_seen b)" "query_shape w y a = Some b \<Longrightarrow> same_ground (ad_seen a) (ad_seen b)"
  "copy_shape w y a = Some b \<Longrightarrow> same_ground (ad_seen a) (ad_seen b)" "return_shape w y a = Some b \<Longrightarrow> same_ground (ad_seen a) (ad_seen b)"
  "ready_shape w y a = Some b \<Longrightarrow> same_ground (ad_seen a) (ad_seen b)" "tables_shape w y a = Some b \<Longrightarrow> same_ground (ad_seen a) (ad_seen b)"
proof -
  show seh: "\<And>a b. seh_shape w y a = Some b \<Longrightarrow> same_ground (ad_seen a) (ad_seen b)"
    by (auto simp: seh_shape_def Let_def dest!: game_grounds(7) split: option.splits if_splits prod.splits)
  show lock: "\<And>a b. lock_shape w y a = Some b \<Longrightarrow> same_ground (ad_seen a) (ad_seen b)"
    by (auto simp: lock_shape_def Let_def dest!: seh split: option.splits if_splits)
  show acquire: "\<And>a b. acquire_shape w y a = Some b \<Longrightarrow> same_ground (ad_seen a) (ad_seen b)"
    by (auto simp: acquire_shape_def Let_def dest!: lock split: option.splits if_splits)
  show query: "\<And>a b. query_shape w y a = Some b \<Longrightarrow> same_ground (ad_seen a) (ad_seen b)"
    by (auto simp: query_shape_def Let_def dest!: acquire split: option.splits if_splits prod.splits)
  show copy: "\<And>a b. copy_shape w y a = Some b \<Longrightarrow> same_ground (ad_seen a) (ad_seen b)"
    by (auto simp: copy_shape_def Let_def dest!: query split: option.splits if_splits)
  show return: "\<And>a b. return_shape w y a = Some b \<Longrightarrow> same_ground (ad_seen a) (ad_seen b)"
    by (auto simp: return_shape_def Let_def dest!: copy split: option.splits if_splits)
  show ready: "\<And>a b. ready_shape w y a = Some b \<Longrightarrow> same_ground (ad_seen a) (ad_seen b)"
    by (auto simp: ready_shape_def Let_def dest!: return split: option.splits if_splits)
  show "\<And>a b. tables_shape w y a = Some b \<Longrightarrow> same_ground (ad_seen a) (ad_seen b)"
    by (auto simp: tables_shape_def Let_def dest!: ready split: option.splits if_splits)
qed

lemma tib_grounds:
  "seh_read_tib w p = Some (tib, q) \<Longrightarrow> same_ground p q" "tib_kept w l p = Some q \<Longrightarrow> same_ground p q"
  by (auto simp: tib_kept_def seh_read_tib_def Let_def dest!: error_grounds(1) split: option.splits if_splits prod.splits)

lemma surroundings_ground: "surroundings stage v l p = Inr q \<Longrightarrow> same_ground p q"
  by (auto simp: surroundings_def Let_def dest!: error_grounds(2) split: option.splits if_splits)

lemma surroundings_reason:
  "surroundings ''cwd_seh'' v l p = Inl reason \<Longrightarrow> reason \<notin> final_reports"
  "surroundings ''cwd_lock'' v l p = Inl reason \<Longrightarrow> reason \<notin> final_reports"
  "surroundings ''cwd_acquire'' v l p = Inl reason \<Longrightarrow> reason \<notin> final_reports"
  by (auto simp: surroundings_def Let_def final_literal split: option.splits if_splits)

lemma at_manager_end_sound:
  assumes "la_stop l = Manager_stop 2" "recipes_present (si_stages v) (Manager_stop 2)" "same_ground p q"
  shows "decision_sound (si_stages v) p l (at_manager_end v c q l)"
proof -
  have "same_ground p r" if "seh_shape (si_watch v) y (found l q) = Some a" "seh_read_tib (si_watch v) (ad_seen a) = Some (tib, r)" for y a tib r
    using ground_trans[OF assms(3)] ground_trans[OF directory_grounds(1)[OF that(1)] tib_grounds(1)[OF that(2)]] by simp
  then show ?thesis using assms by (simp add: at_manager_end_def Let_def stop_defs split: option.split)
qed

lemma at_manager_sound:
  assumes "la_stop l = Manager_stop n" "recipes_present (si_stages v) (Manager_stop n)"
  shows "decision_sound (si_stages v) p l (at_manager v n c p l)"
proof (cases "manager_shape (si_watch v) p")
  case None
  then show ?thesis by (simp add: at_manager_def Let_def final_literal)
next
  case (Some p1)
  have e: "same_ground p q" if "error_kept (si_watch v) l p1 = Some q" for q
    by (rule ground_trans[OF game_grounds(7)[OF Some] error_grounds(2)[OF that]])
  then have "decision_sound (si_stages v) p l (at_manager_end v c q l)" if "n = 2" "error_kept (si_watch v) l p1 = Some q" for q
    using at_manager_end_sound assms that by blast
  then show ?thesis using assms e
    by (simp add: at_manager_def Let_def Some stop_defs split: option.split)
qed

text \<open>A stop that passes on what it has recorded.\<close>

definition passes :: "late \<Rightarrow> late \<Rightarrow> bool" where
  "passes l l' \<longleftrightarrow> la_stop l' = la_stop l \<and> la_address l' = la_address l"

lemma at_seh_end_sound:
  assumes "la_stop l0 = Seh_stop 3" "passes l0 l" "recipes_present (si_stages v) (Seh_stop 3)" "same_ground p q"
  shows "decision_sound (si_stages v) p l0 (at_seh_end v c q l)"
proof -
  have "same_ground p (ad_seen a)" if "lock_shape (si_watch v) y (found l q) = Some a" for y a
    using ground_trans[OF assms(4)] directory_grounds(2)[OF that] by simp
  then show ?thesis using assms by (simp add: at_seh_end_def Let_def passes_def stop_defs split: option.split)
qed

lemma at_seh_sound:
  assumes "la_stop l = Seh_stop n" "recipes_present (si_stages v) (Seh_stop n)"
  shows "decision_sound (si_stages v) p l (at_seh v n c p l)"
proof (cases "seh_shape (si_watch v) (stage_recipes_of (si_stages v)) (found l p)")
  case None
  then show ?thesis by (simp add: at_seh_def Let_def final_literal)
next
  case (Some a)
  have g: "same_ground p q" if "seh_read_tib (si_watch v) (ad_seen a) = Some (tib, p1)" "surroundings ''cwd_seh'' v l1 p1 = Inr q" for tib p1 l1 q
    using ground_trans[OF directory_grounds(1)[OF Some] ground_trans[OF tib_grounds(1)[OF that(1)] surroundings_ground[OF that(2)]]] by simp
  have e: "decision_sound (si_stages v) p l (at_seh_end v c q (l\<lparr>la_found := a, la_tib_after := tib\<rparr>))"
    if "n = 3" "seh_read_tib (si_watch v) (ad_seen a) = Some (tib, p1)" "surroundings ''cwd_seh'' v l1 p1 = Inr q" for tib p1 l1 q
    by (rule at_seh_end_sound) (use assms that g in \<open>simp_all add: passes_def\<close>)
  show ?thesis using assms g e
    by (simp add: at_seh_def Let_def Some stop_defs surroundings_reason split: option.split sum.split)
qed

lemma at_lock_end_sound:
  assumes "la_stop l0 = Lock_stop 2" "passes l0 l" "recipes_present (si_stages v) (Lock_stop 2)" "same_ground p q"
  shows "decision_sound (si_stages v) p l0 (at_lock_end v c q l)"
proof -
  have "same_ground p (ad_seen a)" if "acquire_shape (si_watch v) y (found l q) = Some a" for y a
    using ground_trans[OF assms(4)] directory_grounds(3)[OF that] by simp
  then show ?thesis using assms by (simp add: at_lock_end_def Let_def passes_def stop_defs split: option.split)
qed

lemma at_lock_sound:
  assumes "la_stop l = Lock_stop n" "recipes_present (si_stages v) (Lock_stop n)"
  shows "decision_sound (si_stages v) p l (at_lock v n c p l)"
proof (cases "lock_shape (si_watch v) (stage_recipes_of (si_stages v)) (found l p)")
  case None
  then show ?thesis by (simp add: at_lock_def Let_def final_literal)
next
  case (Some a)
  have g: "same_ground p q" if "tib_kept (si_watch v) l (ad_seen a) = Some p1" "surroundings ''cwd_lock'' v l p1 = Inr q" for p1 q
    using ground_trans[OF directory_grounds(2)[OF Some] ground_trans[OF tib_grounds(2)[OF that(1)] surroundings_ground[OF that(2)]]] by simp
  have e: "decision_sound (si_stages v) p l (at_lock_end v c q (l\<lparr>la_found := a\<rparr>))"
    if "n = 2" "tib_kept (si_watch v) l (ad_seen a) = Some p1" "surroundings ''cwd_lock'' v l p1 = Inr q" for p1 q
    by (rule at_lock_end_sound) (use assms that g in \<open>simp_all add: passes_def\<close>)
  show ?thesis using assms g e
    by (simp add: at_lock_def Let_def Some stop_defs surroundings_reason split: option.split sum.split)
qed

lemma at_acquire_end_sound:
  assumes "la_stop l0 = Acquire_stop 5" "passes l0 l" "recipes_present (si_stages v) (Acquire_stop 5)" "same_ground p q"
  shows "decision_sound (si_stages v) p l0 (at_acquire_end v c q l)"
proof -
  have "same_ground p r" if "query_shape (si_watch v) y (found l q) = Some a" "read_last_error (si_watch v) (ad_seen a) = Some (e, r)" for y a e r
    using ground_trans[OF assms(4)] ground_trans[OF directory_grounds(4)[OF that(1)] error_grounds(1)[OF that(2)]] by simp
  then show ?thesis using assms by (simp add: at_acquire_end_def Let_def passes_def stop_defs split: option.split)
qed

lemma at_acquire_sound:
  assumes "la_stop l = Acquire_stop n" "recipes_present (si_stages v) (Acquire_stop n)"
  shows "decision_sound (si_stages v) p l (at_acquire v n c p l)"
proof (cases "acquire_shape (si_watch v) (stage_recipes_of (si_stages v)) (found l p)")
  case None
  then show ?thesis by (simp add: at_acquire_def Let_def final_literal)
next
  case (Some a)
  have g: "same_ground p q" if "tib_kept (si_watch v) l (ad_seen a) = Some p1" "surroundings ''cwd_acquire'' v l p1 = Inr q" for p1 q
    using ground_trans[OF directory_grounds(3)[OF Some] ground_trans[OF tib_grounds(2)[OF that(1)] surroundings_ground[OF that(2)]]] by simp
  have e: "decision_sound (si_stages v) p l (at_acquire_end v c q (l\<lparr>la_found := a, la_object_after := o', la_object_kind := k\<rparr>))"
    if "n = 5" "tib_kept (si_watch v) l (ad_seen a) = Some p1" "surroundings ''cwd_acquire'' v l p1 = Inr q" for p1 q o' k
    by (rule at_acquire_end_sound) (use assms that g in \<open>simp_all add: passes_def\<close>)
  show ?thesis using assms g e
    by (simp add: at_acquire_def Let_def Some stop_defs surroundings_reason split: option.split sum.split prod.split)
qed

lemma query_state_ground: "query_state stage v y ebx l p = Inr q \<Longrightarrow> same_ground p q"
  by (auto simp: query_state_def Let_def dest!: error_grounds(1) tib_grounds(2) intro: ground_trans split: option.splits if_splits)

lemma query_state_reason:
  "query_state ''cwd_copy'' v y ebx l p = Inl reason \<Longrightarrow> reason \<notin> final_reports"
  "query_state ''cwd_return'' v y ebx l p = Inl reason \<Longrightarrow> reason \<notin> final_reports"
  by (auto simp: query_state_def Let_def final_literal split: option.splits if_splits)

lemma query_reasons:
  "cwd_query_result n buffer expected \<notin> final_reports" "query_arguments w y stage tib c l = Inl reason \<Longrightarrow> reason \<notin> final_reports"
  by (auto simp: cwd_query_result_def query_arguments_def Let_def final_reports_def split: option.splits if_splits)

lemma at_query_end_sound:
  assumes "la_stop l0 = Query_stop 7" "passes l0 l" "recipes_present (si_stages v) (Query_stop 7)" "same_ground p q"
  shows "decision_sound (si_stages v) p l0 (at_query_end v c q l)"
proof -
  have "same_ground p (ad_seen a)" if "copy_shape (si_watch v) y (found l q) = Some a" for y a
    using ground_trans[OF assms(4)] directory_grounds(5)[OF that] by simp
  then show ?thesis using assms by (simp add: at_query_end_def Let_def passes_def stop_defs query_reasons split: option.split)
qed

lemma at_query_sound:
  assumes "la_stop l = Query_stop n" "recipes_present (si_stages v) (Query_stop n)"
  shows "decision_sound (si_stages v) p l (at_query v n c p l)"
proof (cases "query_shape (si_watch v) (stage_recipes_of (si_stages v)) (found l p)")
  case None
  then show ?thesis by (simp add: at_query_def Let_def final_literal)
next
  case (Some a)
  have g: "same_ground p q" if "seh_read_tib (si_watch v) (ad_seen a) = Some (tib, p1)" "read_last_error (si_watch v) p1 = Some (e, q)" for tib p1 e q
    using ground_trans[OF directory_grounds(4)[OF Some] ground_trans[OF tib_grounds(1)[OF that(1)] error_grounds(1)[OF that(2)]]] by simp
  have e: "decision_sound (si_stages v) p l (at_query_end v c q (l\<lparr>la_found := a, la_error_after := e\<rparr>))"
    if "n = 7" "seh_read_tib (si_watch v) (ad_seen a) = Some (tib, p1)" "read_last_error (si_watch v) p1 = Some (e, q)" for tib p1 e q
    by (rule at_query_end_sound) (use assms that g in \<open>simp_all add: passes_def\<close>)
  show ?thesis using assms g e
    by (simp add: at_query_def Let_def Some stop_defs query_reasons split: option.split sum.split)
qed

lemma at_copy_end_sound:
  assumes "la_stop l0 = Copy_stop 5" "passes l0 l" "recipes_present (si_stages v) (Copy_stop 5)" "same_ground p q"
  shows "decision_sound (si_stages v) p l0 (at_copy_end v c q l)"
proof -
  have "same_ground p (ad_seen a)" if "return_shape (si_watch v) y (found l q) = Some a" for y a
    using ground_trans[OF assms(4)] directory_grounds(6)[OF that] by simp
  then show ?thesis using assms by (simp add: at_copy_end_def Let_def passes_def stop_defs split: option.split)
qed

lemma at_copy_sound:
  assumes "la_stop l = Copy_stop n" "recipes_present (si_stages v) (Copy_stop n)"
  shows "decision_sound (si_stages v) p l (at_copy v n c p l)"
proof (cases "copy_shape (si_watch v) (stage_recipes_of (si_stages v)) (found l p)")
  case None
  then show ?thesis by (simp add: at_copy_def Let_def final_literal)
next
  case (Some a)
  have g: "same_ground p q" if "query_state ''cwd_copy'' v y 0 l (ad_seen a) = Inr q" for y q
    using ground_trans[OF directory_grounds(5)[OF Some] query_state_ground[OF that]] by simp
  have e: "decision_sound (si_stages v) p l (at_copy_end v c q (l\<lparr>la_found := a, la_destination := d\<rparr>))"
    if "n = 5" "query_state ''cwd_copy'' v y 0 l (ad_seen a) = Inr q" for y q d
    by (rule at_copy_end_sound) (use assms that g in \<open>simp_all add: passes_def\<close>)
  show ?thesis using assms g e
    by (simp add: at_copy_def Let_def Some stop_defs query_state_reason split: option.split sum.split)
qed

lemma at_return_end_sound:
  assumes "la_stop l0 = Return_stop 6" "passes l0 l" "recipes_present (si_stages v) (Return_stop 6)" "same_ground p q"
  shows "decision_sound (si_stages v) p l0 (at_return_end v c q l)"
proof -
  have "same_ground p (ad_seen a)" if "ready_shape (si_watch v) y (found l q) = Some a" for y a
    using ground_trans[OF assms(4)] directory_grounds(7)[OF that] by simp
  then show ?thesis using assms by (simp add: at_return_end_def Let_def passes_def stop_defs split: option.split)
qed

lemma at_return_sound:
  assumes "la_stop l = Return_stop n" "recipes_present (si_stages v) (Return_stop n)"
  shows "decision_sound (si_stages v) p l (at_return v n c p l)"
proof (cases "return_shape (si_watch v) (stage_recipes_of (si_stages v)) (found l p)")
  case None
  then show ?thesis by (simp add: at_return_def Let_def final_literal)
next
  case (Some a)
  have g: "same_ground p q" if "query_state ''cwd_return'' v y ebx l (ad_seen a) = Inr q" for y ebx q
    using ground_trans[OF directory_grounds(6)[OF Some] query_state_ground[OF that]] by simp
  have e: "decision_sound (si_stages v) p l (at_return_end v c q (l\<lparr>la_found := a\<rparr>))"
    if "n = 6" "query_state ''cwd_return'' v y ebx l (ad_seen a) = Inr q" for y ebx q
    by (rule at_return_end_sound) (use assms that g in \<open>simp_all add: passes_def\<close>)
  show ?thesis using assms g e
    by (simp add: at_return_def Let_def Some stop_defs query_state_reason split: option.split sum.split)
qed

lemma arms_tables [simp]: "arms n (tables_stop w y n) (arm_tables host w y p n)"
  by (simp add: arm_tables_def arms_def arm_dispatch_def) (blast dest: arm_registers_Some)

lemma at_ready_end_sound:
  assumes "la_stop l0 = Ready_stop 9" "passes l0 l" "recipes_present (si_stages v) (Ready_stop 9)" "same_ground p q"
  shows "decision_sound (si_stages v) p l0 (at_ready_end v c q l)"
proof -
  have "same_ground p (ad_seen a)" if "tables_shape (si_watch v) y (found l q) = Some a" for y a
    using ground_trans[OF assms(4)] directory_grounds(8)[OF that] by simp
  then show ?thesis using assms by (simp add: at_ready_end_def Let_def passes_def stop_defs arms_tables[THEN Move_sound] split: option.split)
qed

lemma at_ready_sound:
  assumes "la_stop l = Ready_stop n" "recipes_present (si_stages v) (Ready_stop n)"
  shows "decision_sound (si_stages v) p l (at_ready v n c p l)"
proof (cases "ready_shape (si_watch v) (stage_recipes_of (si_stages v)) (found l p)")
  case None
  then show ?thesis by (simp add: at_ready_def Let_def final_literal)
next
  case (Some a)
  have g: "same_ground p q" if "seh_read_tib (si_watch v) (ad_seen a) = Some (tib, p1)" "read_last_error (si_watch v) p1 = Some (e, q)" for tib p1 e q
    using ground_trans[OF directory_grounds(7)[OF Some] ground_trans[OF tib_grounds(1)[OF that(1)] error_grounds(1)[OF that(2)]]] by simp
  have e: "decision_sound (si_stages v) p l (at_ready_end v c q (l\<lparr>la_found := a, la_ready_directory := d\<rparr>))"
    if "n = 9" "seh_read_tib (si_watch v) (ad_seen a) = Some (tib, p1)" "read_last_error (si_watch v) p1 = Some (e, q)" for tib p1 e q d
    by (rule at_ready_end_sound) (use assms that g in \<open>simp_all add: passes_def\<close>)
  show ?thesis using assms g e
    by (simp add: at_ready_def Let_def Some stop_defs split: option.split)
qed

end
