(* ===== verification/Loader_Stream_Stops.thy ===== *)
theory Loader_Stream_Stops
  imports Loader_Directory_Stops
begin

text \<open>
  The last stops of \<open>run_impl\<close> (\<open>loader_observation.cpp\<close>), in the initialization of the stream: its tables, the disk
  parameters, the allocation and the channels; and the choice of the stop that is due.
\<close>

section \<open>What every stop looks at\<close>

definition directory_same :: "watched \<Rightarrow> late \<Rightarrow> bool" where
  "directory_same w l \<longleftrightarrow> manager_read_buffer w = Some (la_ready_directory l)"

text \<open>The critical section is unowned again, and the thread block is as it was before the directory routine.\<close>

definition released :: "watched \<Rightarrow> stage_recipes \<Rightarrow> late \<Rightarrow> bool" where
  "released w y l \<longleftrightarrow> (case read_object w y l of None \<Rightarrow> False
     | Some (object, kind) \<Rightarrow> cwd_acquire_object (slot_value l) (la_object_before l) object (la_thread l) False)"

definition tib_restored :: "watched \<Rightarrow> u32 list \<Rightarrow> progress \<Rightarrow> progress option" where
  "tib_restored w tib p = (case seh_read_tib w p of None \<Rightarrow> None | Some (now, p1) \<Rightarrow> if now = tib then Some p1 else None)"

definition error_read :: "watched \<Rightarrow> u32 \<Rightarrow> progress \<Rightarrow> progress option" where
  "error_read w e p = (case read_last_error w p of None \<Rightarrow> None | Some (now, p1) \<Rightarrow> if now = e then Some p1 else None)"

definition stream_parent :: "'c site \<Rightarrow> stage_recipes \<Rightarrow> late \<Rightarrow> bool" where
  "stream_parent v y l \<longleftrightarrow> (let w = si_watch v in
     directory_same w l \<and> prelude_kept w l \<and> flags_kept w l \<and> released w y l \<and> same_event v l)"

text \<open>The return address of the game's initializer, below which the stream's caller lies.\<close>

definition outer_kept :: "watched \<Rightarrow> late \<Rightarrow> bool" where
  "outer_kept w l \<longleftrightarrow> read_words w (d_esp (la_tables_saved l)) 1 = Some [child_base (wa_child w) + call_rva (initializer (rx_routing (wa_recipes w))) + 5]"

definition stream_call :: "watched \<Rightarrow> u32" where
  "stream_call w = child_base (wa_child w) + call_rva (manager (rx_manager (wa_recipes w))) + 12"

section \<open>Tables\<close>

definition at_tables_end :: "'c site \<Rightarrow> thread_context \<Rightarrow> progress \<Rightarrow> late \<Rightarrow> 'c decision" where
  "at_tables_end v c p l =
    (let w = si_watch v; y = stage_recipes_of (si_stages v) in
     if st_disk (si_stages v) = None then Report ''cd_stream_tables_verified'' p l
     else (case disk_shape w y (found l p) of None \<Rightarrow> Deny ''cd_stream_disk_precondition_shape''
       | Some a \<Rightarrow> (case disk_read_globals w y of None \<Rightarrow> Deny ''cd_stream_disk_precondition_memory''
         | Some before \<Rightarrow> Move ''cd_stream_disk_arm_failed'' (arming Disk_stop (l\<lparr>la_found := a, la_disk_before := words_of before\<rparr>)
             (arm_disk (si_host v) w y a 1)) (ad_seen a))))"

text \<open>The caller of the stream, the thread block and the last error are as the directory routine left them.\<close>

definition tables_surroundings :: "'c site \<Rightarrow> stage_recipes \<Rightarrow> progress \<Rightarrow> late \<Rightarrow> progress option" where
  "tables_surroundings v y p l =
    Option.bind (if stream_parent v y l then tib_restored (si_watch v) (la_tib_before l) p else None) (error_read (si_watch v) (la_error_after l))"

definition at_tables :: "'c site \<Rightarrow> u32 \<Rightarrow> thread_context \<Rightarrow> progress \<Rightarrow> late \<Rightarrow> 'c decision" where
  "at_tables v stage c p l =
    (let w = si_watch v; y = stage_recipes_of (si_stages v); saved = la_tables_saved l; e = d_esp saved in
     case tables_shape w y (found l p) of None \<Rightarrow> Deny ''cd_stream_tables_shape_drift''
     | Some a \<Rightarrow>
       if \<not> cd_stream_tables_frame stage saved (dispatch_registers c) (child_base (wa_child w) + handles_rva (ry_tables y)) then Deny ''cd_stream_tables_frame''
       else (case tables_read w y of None \<Rightarrow> Deny ''cd_stream_tables_memory_drift''
         | Some now \<Rightarrow>
           let l1 = l\<lparr>la_found := a, la_tables_after := now\<rparr> in
           if \<not> cd_stream_tables_memory (la_tables_before l) now (stage = 2) then Deny ''cd_stream_tables_memory_drift''
           else if read_words w (e - 8) 2 \<noteq> Some [stream_call w, 5]
              \<or> (stage = 2 \<and> read_words w (c_esp c) 6 \<noteq> Some [0, e - 12, e - 24, e - 16, e - 20, d_edi saved]) then Deny ''cd_stream_tables_arguments''
           else if \<not> outer_kept w l \<or> \<not> prelude_kept w l then Deny ''cd_stream_tables_caller_drift''
           else (case tables_surroundings v y (ad_seen a) l of
               None \<Rightarrow> Deny ''cd_stream_tables_parent_drift''
             | Some p1 \<Rightarrow>
               if stage = 2 then at_tables_end v c p1 l1
               else Move ''cd_stream_tables_arm_failed'' (arming Tables_stop l1 (arm_tables (si_host v) w y p1 2)) p1)))"

section \<open>Disk parameters\<close>

text \<open>The words of the caller's frame, and the arguments of the call and of the allocation behind it.\<close>

definition disk_arguments :: "watched \<Rightarrow> stage_recipes \<Rightarrow> u32 \<Rightarrow> u32 list \<Rightarrow> thread_context \<Rightarrow> late \<Rightarrow> bool" where
  "disk_arguments w y stage locals c l \<longleftrightarrow>
    (let saved = la_tables_saved l; e = d_esp saved; g = la_geometry l in
     locals ! 0 = d_edi saved \<and> locals ! 5 = stream_call w \<and> locals ! 6 = 5
     \<and> (stage \<le> 2 \<longrightarrow> read_words w (c_esp c) 6 = Some [child_base (wa_child w) + tables_target_rva (ry_tables y) + 74, 0, e - 12, e - 24, e - 16, e - 20])
     \<and> (stage = 4 \<longrightarrow> read_words w (c_esp c) 4 = Some [2048, bytes_per_sector g, 0, d_esi saved]
          \<and> take 4 (drop 1 locals) = [bytes_per_sector g, total_clusters g, free_clusters g, sectors_per_cluster g]))"

text \<open>The tables and what surrounds them are as before; the last error is read and judged by the stop.\<close>

definition disk_surroundings :: "'c site \<Rightarrow> stage_recipes \<Rightarrow> progress \<Rightarrow> late \<Rightarrow> (u32 \<times> progress) option" where
  "disk_surroundings v y p l =
    (let w = si_watch v in
     Option.bind (if tables_read w y = Some (la_tables_after l) \<and> outer_kept w l \<and> stream_parent v y l
       then tib_restored w (la_tib_before l) p else None) (read_last_error w))"

definition at_disk_end :: "'c site \<Rightarrow> thread_context \<Rightarrow> progress \<Rightarrow> late \<Rightarrow> 'c decision" where
  "at_disk_end v c p l =
    (let w = si_watch v; y = stage_recipes_of (si_stages v) in
     if st_allocation (si_stages v) = None then Report ''cd_stream_disk_verified'' p l
     else (case allocation_shape w y (found l p) of Inl n \<Rightarrow> Deny ''cd_stream_allocation_precondition_shape''
       | Inr a \<Rightarrow> (case allocation_globals w y of None \<Rightarrow> Deny ''cd_stream_allocation_request_rejected''
         | Some globals \<Rightarrow>
           if \<not> cd_stream_allocation_request (bytes_per_sector (la_geometry l)) globals then Deny ''cd_stream_allocation_request_rejected''
           else (case read_private (wa_os w) (c_esp c) 44 of None \<Rightarrow> Deny ''cd_stream_allocation_precondition_stack''
             | Some stack \<Rightarrow> Move ''cd_stream_allocation_arm_failed'' (arming Allocation_stop
                 (l\<lparr>la_found := a, la_heap_globals := globals, la_allocation_saved := dispatch_registers c, la_allocation_stack := stack\<rparr>)
                 (arm_allocation (si_host v) w y a 1)) (ad_seen a)))))"

text \<open>The third stop is the return of the system's function: what it has not stored is not looked at when it fails.\<close>

definition at_disk_return :: "'c site \<Rightarrow> u32 list \<Rightarrow> u32 \<Rightarrow> thread_context \<Rightarrow> progress \<Rightarrow> late \<Rightarrow> 'c decision" where
  "at_disk_return v locals e c p l =
    (let w = si_watch v; y = stage_recipes_of (si_stages v) in
     case cd_stream_disk_query_result (c_eax c) (take 4 (drop 1 locals)) of
       (Query_failed, g) \<Rightarrow> Deny ''cd_stream_disk_query_failed''
     | (Geometry_rejected, g) \<Rightarrow> Deny ''cd_stream_disk_geometry_rejected''
     | (Query_accepted, g) \<Rightarrow> Move ''cd_stream_disk_arm_failed'' (arming Disk_stop
         (l\<lparr>la_disk_return := dispatch_registers c, la_disk_error := e, la_geometry := g\<rparr>) (arm_disk (si_host v) w y (found l p) 4)) p)"

definition at_disk :: "'c site \<Rightarrow> u32 \<Rightarrow> thread_context \<Rightarrow> progress \<Rightarrow> late \<Rightarrow> 'c decision" where
  "at_disk v stage c p l =
    (let w = si_watch v; y = stage_recipes_of (si_stages v); saved = la_tables_saved l; g = la_geometry l in
     case disk_shape w y (found l p) of None \<Rightarrow> Deny ''cd_stream_disk_shape_drift''
     | Some a \<Rightarrow>
       if \<not> cd_stream_disk_frame stage saved (dispatch_registers c) (child_base (wa_child w) + handles_rva (ry_tables y)) g (Some (la_disk_return l))
       then Deny ''cd_stream_disk_frame''
       else (case read_words w (d_esp saved - 28) 7 of None \<Rightarrow> Deny ''cd_stream_disk_arguments''
         | Some locals \<Rightarrow>
           if \<not> disk_arguments w y stage locals c l then Deny ''cd_stream_disk_arguments''
           else (case map_option words_of (disk_read_globals w y) of None \<Rightarrow> Deny ''cd_stream_disk_globals_drift''
             | Some now \<Rightarrow>
               let l1 = l\<lparr>la_found := a, la_disk_after := now\<rparr> in
               if \<not> cd_stream_disk_memory (la_disk_before l) now (cd_stream_disk_flags (bytes_per_sector g)) (stage = 4) then Deny ''cd_stream_disk_globals_drift''
               else (case disk_surroundings v y (ad_seen a) l of None \<Rightarrow> Deny ''cd_stream_disk_parent_drift''
                 | Some (e, p1) \<Rightarrow>
                   if (stage \<le> 2 \<and> e \<noteq> la_error_after l) \<or> (stage = 4 \<and> e \<noteq> la_disk_error l) then Deny ''cd_stream_disk_parent_drift''
                   else if stage = 3 then at_disk_return v locals e c p1 l1
                   else if stage = 4 then at_disk_end v c p1 l1
                   else Move ''cd_stream_disk_arm_failed'' (arming Disk_stop l1 (arm_disk (si_host v) w y (found l1 p1) (stage + 1))) p1))))"

section \<open>Allocation\<close>

text \<open>The frames of the allocator, of the general allocation and of the heap call, innermost last.\<close>

definition allocation_arguments :: "watched \<Rightarrow> stage_recipes \<Rightarrow> u32 \<Rightarrow> thread_context \<Rightarrow> late \<Rightarrow> bool" where
  "allocation_arguments w y stage c l \<longleftrightarrow>
    (let base = child_base (wa_child w); s = ry_allocation y; saved = la_allocation_saved l; a = bytes_per_sector (la_geometry l); e = d_esp saved;
         heap = (if stage = 6 then [base + heap_rva s + 105] else []) @ [la_heap_globals l ! 2, 0, 2048 + a] in
     read_private (wa_os w) e 44 = Some (la_allocation_stack l)
     \<and> read_words w (e - 4) 1 = Some [base + tables_target_rva (ry_tables y) + 137]
     \<and> (2 \<le> stage \<and> stage \<le> 7 \<longrightarrow> read_words w (e - 36) 8 = Some [base + nh_rva s + 16, 2048 + a, base + malloc_rva s + 15, 2048 + a, 0,
          base + allocator_rva (ry_disk y) + 17, 2048 + a, d_esi saved])
     \<and> (stage = 5 \<or> stage = 6 \<longrightarrow> read_words w (c_esp c) (length heap) = Some heap))"

text \<open>Inside the heap routine its exception record is the first of the chain.\<close>

definition heap_frame_kept :: "watched \<Rightarrow> stage_recipes \<Rightarrow> late \<Rightarrow> bool" where
  "heap_frame_kept w y l \<longleftrightarrow>
    (let base = child_base (wa_child w); saved = la_allocation_saved l; e = d_esp saved in
     case read_words w (e - 80) 11 of None \<Rightarrow> False
     | Some f \<Rightarrow> take 3 f = [d_edi saved, bytes_per_sector (la_geometry l), d_ebx saved] \<and> f ! 4 = e - 80
         \<and> drop 6 f = [la_tib_before l ! 0, base + handler_rva (ry_seh y), base + al_scope_rva (ry_allocation y), UINT32_MAX, d_ebp saved])"

definition outside_stack :: "u32 \<Rightarrow> u32 \<Rightarrow> u32 list \<Rightarrow> bool" where
  "outside_stack start n tib \<longleftrightarrow> \<not> (start < tib ! 1 \<and> tib ! 2 < start + n) \<and> \<not> (start < tib ! 6 + 56 \<and> tib ! 6 < start + n)"

text \<open>The seventh stop is the return of the heap call: the block is laid out, hashed, and its cell read.\<close>

definition at_heap_return :: "'c site \<Rightarrow> u32 list \<Rightarrow> thread_context \<Rightarrow> progress \<Rightarrow> late \<Rightarrow> 'c decision" where
  "at_heap_return v tib c p l =
    (let w = si_watch v; y = stage_recipes_of (si_stages v) in
     if c_eax c = 0 then Deny ''cd_stream_allocation_failed''
     else (case cd_stream_allocation_layout (c_eax c) (bytes_per_sector (la_geometry l)) of None \<Rightarrow> Deny ''cd_stream_allocation_block_rejected''
       | Some b \<Rightarrow>
         if \<not> outside_stack (raw_block b) (block_bytes b) tib then Deny ''cd_stream_allocation_block_rejected''
         else (case (allocation_hash (wa_os w) (si_files v) b, read_words w (metadata_cell b) 1) of
             (Some hash, Some cell) \<Rightarrow> (case read_last_error w p of None \<Rightarrow> Deny ''cd_stream_allocation_error_read''
               | Some (e, p1) \<Rightarrow> Move ''cd_stream_allocation_arm_failed'' (arming Allocation_stop
                   (l\<lparr>la_heap_return := dispatch_registers c, la_block := b, la_block_hash := hash, la_metadata := cell ! 0\<rparr>)
                   (arm_allocation (si_host v) w y (found l p1) 8)) p1)
           | _ \<Rightarrow> Deny ''cd_stream_allocation_block_unreadable'')))"

definition at_allocation_end :: "'c site \<Rightarrow> thread_context \<Rightarrow> progress \<Rightarrow> late \<Rightarrow> 'c decision" where
  "at_allocation_end v c p l =
    (let w = si_watch v; os = wa_os w; y = stage_recipes_of (si_stages v); base = child_base (wa_child w); esp = c_esp c in
     case st_channels (si_stages v) of None \<Rightarrow> Report ''cd_stream_allocation_verified'' p l
     | Some s \<Rightarrow> (case channels_shape w y (found l p) of Inl n \<Rightarrow> Deny ''cd_stream_channels_precondition_shape''
       | Inr a \<Rightarrow> (case (read_private os (esp + 12) 32, read_image os base (pointer_rva s - 4) 12 False, read_last_error w (ad_seen a)) of
           (Some stack, Some before, Some (e, p1)) \<Rightarrow>
             if read_words w (esp + 40) 1 \<noteq> Some [5] \<or> read_word os base (pointer_rva s) \<noteq> Some 0 then Deny ''cd_stream_channels_precondition_state''
             else Move ''cd_stream_channels_arm_failed'' (arming Channels_stop
               (l\<lparr>la_found := a, la_channels_saved := dispatch_registers c, la_channels_stack := stack, la_pointer_before := before\<rparr>)
               (arm_channels (si_host v) w y (a\<lparr>ad_seen := p1\<rparr>) 1)) p1
         | _ \<Rightarrow> Deny ''cd_stream_channels_precondition_state'')))"

text \<open>Which way the heap routine goes is read off the flags: to the small-block test in the third mode, past it in the first.\<close>

definition allocation_branch :: "u32 \<Rightarrow> u32 list \<Rightarrow> u32 \<Rightarrow> string" where
  "allocation_branch stage globals flags =
    (if stage = 3 \<and> (flags AND 0x40 \<noteq> 0) \<noteq> (globals ! 3 = 3) then ''cd_stream_allocation_heap_branch''
     else if stage = 4 \<and> (globals ! 3 \<noteq> 3 \<or> flags AND 0x41 \<noteq> 0) then ''cd_stream_allocation_threshold_branch'' else [])"

definition content_kept :: "'c site \<Rightarrow> u32 \<Rightarrow> late \<Rightarrow> bool" where
  "content_kept v cell l \<longleftrightarrow> allocation_hash (wa_os (si_watch v)) (si_files v) (la_block l) = Some (la_block_hash l)
     \<and> read_words (si_watch v) (metadata_cell (la_block l)) 1 = Some [cell]"

definition allocation_refusal :: "'c site \<Rightarrow> u32 \<Rightarrow> thread_context \<Rightarrow> late \<Rightarrow> string" where
  "allocation_refusal v stage c l =
    (let w = si_watch v; y = stage_recipes_of (si_stages v); globals = la_heap_globals l in
     if allocation_globals w y \<noteq> Some globals then ''cd_stream_allocation_globals_drift''
     else if \<not> cd_stream_allocation_frame stage (la_allocation_saved l) (dispatch_registers c) (bytes_per_sector (la_geometry l)) (la_block l) (la_heap_return l)
     then ''cd_stream_allocation_frame''
     else if \<not> allocation_arguments w y stage c l then ''cd_stream_allocation_arguments''
     else allocation_branch stage globals (c_eflags c))"

text \<open>From the third to the seventh stop the heap routine's own exception record is the first of the chain.\<close>

definition allocation_surroundings :: "'c site \<Rightarrow> u32 \<Rightarrow> u32 list \<Rightarrow> progress \<Rightarrow> late \<Rightarrow> string + progress" where
  "allocation_surroundings v stage tib p l =
    (let w = si_watch v; y = stage_recipes_of (si_stages v) in
     case (if prior_kept w l \<and> (3 \<le> stage \<and> stage \<le> 7 \<longrightarrow> heap_frame_kept w y l) then tib_restored w tib p else None) of
       None \<Rightarrow> Inl ''cd_stream_allocation_seh_drift''
     | Some p1 \<Rightarrow>
       if tables_read w y \<noteq> Some (la_tables_after l) \<or> map_option words_of (disk_read_globals w y) \<noteq> Some (la_disk_after l) \<or> \<not> stream_parent v y l
       then Inl ''cd_stream_allocation_parent_drift'' else Inr p1)"

definition allocation_next :: "'c site \<Rightarrow> u32 \<Rightarrow> u32 list \<Rightarrow> thread_context \<Rightarrow> progress \<Rightarrow> late \<Rightarrow> 'c decision" where
  "allocation_next v stage tib c p l =
    (let w = si_watch v; y = stage_recipes_of (si_stages v) in
     if stage = 7 then at_heap_return v tib c p l
     else if stage \<ge> 8 \<and> \<not> content_kept v (if stage = 10 then raw_block (la_block l) else la_metadata l) l then Deny ''cd_stream_allocation_content_drift''
     else if stage = 10 then at_allocation_end v c p l
     else Move ''cd_stream_allocation_arm_failed'' (arming Allocation_stop l
       (arm_allocation (si_host v) w y (found l p) (if stage = 3 \<and> la_heap_globals l ! 3 = 1 then 5 else stage + 1))) p)"

definition at_allocation :: "'c site \<Rightarrow> u32 \<Rightarrow> thread_context \<Rightarrow> progress \<Rightarrow> late \<Rightarrow> 'c decision" where
  "at_allocation v stage c p l =
    (let tib = (if 3 \<le> stage \<and> stage \<le> 7 then (la_tib_before l)[0 := d_esp (la_allocation_saved l) - 56] else la_tib_before l);
         reason = allocation_refusal v stage c l in
     case allocation_shape (si_watch v) (stage_recipes_of (si_stages v)) (found l p) of Inl n \<Rightarrow> Deny ''cd_stream_allocation_shape_drift''
     | Inr a \<Rightarrow>
       if reason \<noteq> [] then Deny reason
       else (case allocation_surroundings v stage tib (ad_seen a) l of Inl reason \<Rightarrow> Deny reason
         | Inr p1 \<Rightarrow> allocation_next v stage tib c p1 (l\<lparr>la_found := a\<rparr>)))"

section \<open>Channels\<close>

definition channels_arguments :: "watched \<Rightarrow> stage_recipes \<Rightarrow> u32 \<Rightarrow> thread_context \<Rightarrow> late \<Rightarrow> bool" where
  "channels_arguments w y stage c l \<longleftrightarrow>
    (let base = child_base (wa_child w); t = base + tables_target_rva (ry_tables y);
         args = (if stage = 1 then [0] else if stage \<le> 3 then [t + 150, 0] else if stage = 5 then [0x40, 240]
           else if stage = 6 \<or> stage = 7 then [t + 184, 0x40, 240] else if stage = 9 then [base + filename_rva (ry_channels y), 0] else []) in
     read_private (wa_os w) (d_esp (la_channels_saved l) + 12) 32 = Some (la_channels_stack l)
     \<and> (args \<noteq> [] \<longrightarrow> read_words w (c_esp c) (length args) = Some args))"

text \<open>The block of the channels: private, writable, zero.\<close>

definition channels_block :: "watched \<Rightarrow> u32 \<Rightarrow> string" where
  "channels_block w start =
    (case (query_region (wa_os w) start, read_private (wa_os w) start 240) of
       (Some r, Some bs) \<Rightarrow>
         if region_state r \<noteq> MEM_COMMIT \<or> region_type r \<noteq> MEM_PRIVATE \<or> region_protect r \<noteq> PAGE_READWRITE then ''cd_stream_channels_block_unreadable''
         else if \<not> cd_stream_channels_memory bs then ''cd_stream_channels_nonzero_block'' else []
     | _ \<Rightarrow> ''cd_stream_channels_block_unreadable'')"

text \<open>The eighth stop is the return of the allocation; its block may not overlap the first one, the stack or the thread block.\<close>

definition at_channels_return :: "'c site \<Rightarrow> thread_context \<Rightarrow> progress \<Rightarrow> late \<Rightarrow> 'c decision" where
  "at_channels_return v c p l =
    (let w = si_watch v; y = stage_recipes_of (si_stages v); start = c_eax c; reason = channels_block w start in
     case read_last_error w p of None \<Rightarrow> Deny ''cd_stream_channels_error_unreadable''
     | Some (e, p1) \<Rightarrow>
       if start = 0 then Deny ''cd_stream_channels_allocation_failed''
       else if \<not> cd_stream_channels_range start (la_block l) \<or> \<not> outside_stack start 240 (la_tib_before l) then Deny ''cd_stream_channels_block_rejected''
       else if reason \<noteq> [] then Deny reason
       else Move ''cd_stream_channels_arm_failed'' (arming Channels_stop (l\<lparr>la_local_return := dispatch_registers c, la_pointer := start\<rparr>)
         (arm_channels (si_host v) w y (found l p1) 9)) p1)"

text \<open>The ninth stop ends every run: the pointer is published and the block still zero.\<close>

definition at_channels_end :: "'c site \<Rightarrow> progress \<Rightarrow> late \<Rightarrow> 'c decision" where
  "at_channels_end v p l = (let reason = channels_block (si_watch v) (la_pointer l) in
     if reason \<noteq> [] then Deny reason else Report ''cd_stream_channels_verified'' p l)"

definition channels_refusal :: "'c site \<Rightarrow> u32 \<Rightarrow> thread_context \<Rightarrow> late \<Rightarrow> string" where
  "channels_refusal v stage c l =
    (let w = si_watch v; y = stage_recipes_of (si_stages v) in
     if \<not> cd_stream_channels_frame stage (la_channels_saved l) (dispatch_registers c) (la_error_return l) (la_local_return l) then ''cd_stream_channels_frame''
     else if \<not> channels_arguments w y stage c l then ''cd_stream_channels_arguments''
     else if (case tables_read w y of None \<Rightarrow> True | Some now \<Rightarrow> \<not> cd_stream_channels_tables (la_tables_after l) now (stage \<ge> 5)) then ''cd_stream_channels_tables_drift''
     else (case read_image (wa_os w) (child_base (wa_child w)) (pointer_rva (ry_channels y) - 4) 12 False of None \<Rightarrow> ''cd_stream_channels_pointer_unreadable''
       | Some now \<Rightarrow> if now \<noteq> (if stage = 9 then put_word (la_pointer_before l) 4 (la_pointer l) else la_pointer_before l)
           then ''cd_stream_channels_pointer_drift'' else []))"

definition channels_surroundings :: "'c site \<Rightarrow> progress \<Rightarrow> late \<Rightarrow> string + progress" where
  "channels_surroundings v p l =
    (let w = si_watch v; y = stage_recipes_of (si_stages v) in
     case (if prior_kept w l then tib_restored w (la_tib_before l) p else None) of None \<Rightarrow> Inl ''cd_stream_channels_seh_drift''
     | Some p1 \<Rightarrow>
       if map_option words_of (disk_read_globals w y) \<noteq> Some (la_disk_after l) \<or> \<not> stream_parent v y l then Inl ''cd_stream_channels_parent_drift''
       else if allocation_globals w y \<noteq> Some (la_heap_globals l) \<or> \<not> content_kept v (raw_block (la_block l)) l
       then Inl ''cd_stream_channels_allocation_drift'' else Inr p1)"

definition channels_next :: "'c site \<Rightarrow> u32 \<Rightarrow> thread_context \<Rightarrow> progress \<Rightarrow> late \<Rightarrow> 'c decision" where
  "channels_next v stage c p l =
    (let w = si_watch v; y = stage_recipes_of (si_stages v) in
     if stage = 4 then (case error_read w 0 p of None \<Rightarrow> Deny ''cd_stream_channels_error_not_reset''
       | Some p1 \<Rightarrow> Move ''cd_stream_channels_arm_failed'' (arming Channels_stop (l\<lparr>la_error_return := dispatch_registers c\<rparr>)
           (arm_channels (si_host v) w y (found l p1) 5)) p1)
     else if stage = 8 then at_channels_return v c p l
     else if stage = 9 then at_channels_end v p l
     else Move ''cd_stream_channels_arm_failed'' (arming Channels_stop l (arm_channels (si_host v) w y (found l p) (stage + 1))) p)"

definition at_channels :: "'c site \<Rightarrow> u32 \<Rightarrow> thread_context \<Rightarrow> progress \<Rightarrow> late \<Rightarrow> 'c decision" where
  "at_channels v stage c p l =
    (let reason = channels_refusal v stage c l in
     case channels_shape (si_watch v) (stage_recipes_of (si_stages v)) (found l p) of Inl n \<Rightarrow> Deny ''cd_stream_channels_shape_drift''
     | Inr a \<Rightarrow>
       if reason \<noteq> [] then Deny reason
       else (case channels_surroundings v (ad_seen a) l of Inl reason \<Rightarrow> Deny reason
         | Inr p1 \<Rightarrow> channels_next v stage c p1 (l\<lparr>la_found := a\<rparr>)))"

section \<open>The stop that is due\<close>

text \<open>A stop reads the recipes of its stage and of those before it; they are given, or a null pointer is followed.\<close>

definition late_stop :: "'c site \<Rightarrow> thread_context \<Rightarrow> progress \<Rightarrow> late \<Rightarrow> 'c decision" where
  "late_stop v c p l =
    (if \<not> recipes_present (si_stages v) (la_stop l) then Null
     else case la_stop l of
       Codec_return \<Rightarrow> at_codec_return v c p l | Binding_stop \<Rightarrow> at_binding v c p l | Plugin_call \<Rightarrow> at_plugin_call v c p l
     | Plugin_return \<Rightarrow> at_plugin_return v c p l | Tail_stop n \<Rightarrow> at_tail v n c p l | Crt_stop n \<Rightarrow> at_crt v n c p l
     | Application_stop n \<Rightarrow> at_application v n c p l | Platform_call \<Rightarrow> at_platform v c p l | Suppressed \<Rightarrow> at_suppressed v c p l
     | Instance_stop n \<Rightarrow> at_instance v n c p l | Dispatch_stop n \<Rightarrow> at_dispatch v n c p l | Routing_stop n \<Rightarrow> at_routing v n c p l
     | Prelude_stop n \<Rightarrow> at_prelude v n c p l | Manager_stop n \<Rightarrow> at_manager v n c p l | Seh_stop n \<Rightarrow> at_seh v n c p l
     | Lock_stop n \<Rightarrow> at_lock v n c p l | Acquire_stop n \<Rightarrow> at_acquire v n c p l | Query_stop n \<Rightarrow> at_query v n c p l
     | Copy_stop n \<Rightarrow> at_copy v n c p l | Return_stop n \<Rightarrow> at_return v n c p l | Ready_stop n \<Rightarrow> at_ready v n c p l
     | Tables_stop n \<Rightarrow> at_tables v n c p l | Disk_stop n \<Rightarrow> at_disk v n c p l | Allocation_stop n \<Rightarrow> at_allocation v n c p l
     | Channels_stop n \<Rightarrow> at_channels v n c p l)"

section \<open>Every decision is one of the stop's own\<close>

lemma arms_stream [simp]:
  "arms n (disk_stop w y a n) (arm_disk host w y a n)" "arms n (allocation_stop w y a n) (arm_allocation host w y a n)"
  "arms n (channels_stop w y a n) (arm_channels host w y a n)"
  by (simp_all add: arm_disk_def arm_allocation_def arm_channels_def arms_def arm_dispatch_def) (blast dest: arm_registers_Some)+

lemmas stream_defs = stop_defs arms_tables[THEN Move_sound] arms_stream[THEN Move_sound]

lemma stream_grounds:
  "disk_shape w y a = Some b \<Longrightarrow> same_ground (ad_seen a) (ad_seen b)"
  "allocation_shape w y a = Inr b \<Longrightarrow> same_ground (ad_seen a) (ad_seen b)"
  "channels_shape w y a = Inr b \<Longrightarrow> same_ground (ad_seen a) (ad_seen b)"
proof -
  show disk: "\<And>a b. disk_shape w y a = Some b \<Longrightarrow> same_ground (ad_seen a) (ad_seen b)"
    by (auto simp: disk_shape_def Let_def dest!: directory_grounds(8) split: option.splits if_splits)
  show allocation: "\<And>a b. allocation_shape w y a = Inr b \<Longrightarrow> same_ground (ad_seen a) (ad_seen b)"
    by (auto simp: allocation_shape_def Let_def dest!: disk split: option.splits if_splits)
  show "\<And>a b. channels_shape w y a = Inr b \<Longrightarrow> same_ground (ad_seen a) (ad_seen b)"
    by (auto simp: channels_shape_def Let_def dest!: allocation split: option.splits if_splits sum.splits)
qed

lemma restored_ground:
  "tib_restored w tib p = Some q \<Longrightarrow> same_ground p q" "error_read w e p = Some q \<Longrightarrow> same_ground p q"
  by (auto simp: tib_restored_def error_read_def dest!: tib_grounds(1) error_grounds(1) split: option.splits if_splits prod.splits)

lemma stream_surroundings_ground:
  "tables_surroundings v y p l = Some q \<Longrightarrow> same_ground p q" "disk_surroundings v y p l = Some (e, q) \<Longrightarrow> same_ground p q"
  using restored_ground error_grounds(1) ground_trans
  by (fastforce simp: tables_surroundings_def disk_surroundings_def Let_def bind_eq_Some_conv split: if_splits)+

lemma at_tables_end_sound:
  assumes "la_stop l0 = Tables_stop 2" "passes l0 l" "recipes_present (si_stages v) (Tables_stop 2)" "same_ground p q"
  shows "decision_sound (si_stages v) p l0 (at_tables_end v c q l)"
proof -
  have "same_ground p (ad_seen a)" if "disk_shape (si_watch v) y (found l q) = Some a" for y a
    using ground_trans[OF assms(4)] stream_grounds(1)[OF that] by simp
  then show ?thesis using assms by (simp add: at_tables_end_def Let_def passes_def stream_defs split: option.split)
qed

lemma at_tables_sound:
  assumes "la_stop l = Tables_stop n" "recipes_present (si_stages v) (Tables_stop n)"
  shows "decision_sound (si_stages v) p l (at_tables v n c p l)"
proof (cases "tables_shape (si_watch v) (stage_recipes_of (si_stages v)) (found l p)")
  case None
  then show ?thesis by (simp add: at_tables_def Let_def final_literal)
next
  case (Some a)
  have g: "same_ground p q" if "tables_surroundings v y (ad_seen a) l1 = Some q" for y l1 q
    using ground_trans[OF directory_grounds(8)[OF Some] stream_surroundings_ground(1)[OF that]] by simp
  have e: "decision_sound (si_stages v) p l (at_tables_end v c q (l\<lparr>la_found := a, la_tables_after := t\<rparr>))"
    if "n = 2" "same_ground p q" for q t
    by (rule at_tables_end_sound) (use assms that in \<open>simp_all add: passes_def\<close>)
  show ?thesis using assms g e
    by (simp add: at_tables_def Let_def Some stream_defs split: option.split)
qed

lemma at_disk_end_sound:
  assumes "la_stop l0 = Disk_stop 4" "passes l0 l" "recipes_present (si_stages v) (Disk_stop 4)" "same_ground p q"
  shows "decision_sound (si_stages v) p l0 (at_disk_end v c q l)"
proof -
  have "same_ground p (ad_seen a)" if "allocation_shape (si_watch v) y (found l q) = Inr a" for y a
    using ground_trans[OF assms(4)] stream_grounds(2)[OF that] by simp
  then show ?thesis using assms by (simp add: at_disk_end_def Let_def passes_def stream_defs split: option.split sum.split)
qed

lemma at_disk_return_sound:
  assumes "la_stop l0 = Disk_stop 3" "passes l0 l" "recipes_present (si_stages v) (Disk_stop 3)" "same_ground p q"
  shows "decision_sound (si_stages v) p l0 (at_disk_return v locals e c q l)"
  using assms by (simp add: at_disk_return_def Let_def passes_def stream_defs split: prod.split disk_query_result.split)

lemma at_disk_sound:
  assumes "la_stop l = Disk_stop n" "recipes_present (si_stages v) (Disk_stop n)"
  shows "decision_sound (si_stages v) p l (at_disk v n c p l)"
proof (cases "disk_shape (si_watch v) (stage_recipes_of (si_stages v)) (found l p)")
  case None
  then show ?thesis by (simp add: at_disk_def Let_def final_literal)
next
  case (Some a)
  have g: "same_ground p q" if "disk_surroundings v y (ad_seen a) l1 = Some (e, q)" for y l1 e q
    using ground_trans[OF stream_grounds(1)[OF Some] stream_surroundings_ground(2)[OF that]] by simp
  have f: "decision_sound (si_stages v) p l (at_disk_end v c q (l\<lparr>la_found := a, la_disk_after := t\<rparr>))" if "n = 4" "same_ground p q" for q t
    by (rule at_disk_end_sound) (use assms that in \<open>simp_all add: passes_def\<close>)
  have r: "decision_sound (si_stages v) p l (at_disk_return v locals e c q (l\<lparr>la_found := a, la_disk_after := t\<rparr>))" if "n = 3" "same_ground p q" for locals e q t
    by (rule at_disk_return_sound) (use assms that in \<open>simp_all add: passes_def\<close>)
  show ?thesis using assms g f r
    by (simp add: at_disk_def Let_def Some stream_defs split: option.split)
qed

lemma at_heap_return_sound:
  assumes "la_stop l0 = Allocation_stop 7" "passes l0 l" "recipes_present (si_stages v) (Allocation_stop 7)" "same_ground p q"
  shows "decision_sound (si_stages v) p l0 (at_heap_return v tib c q l)"
  using assms ground_trans[OF assms(4) error_grounds(1)]
  by (simp add: at_heap_return_def Let_def passes_def stream_defs split: option.split)

lemma at_allocation_end_sound:
  assumes "la_stop l0 = Allocation_stop 10" "passes l0 l" "recipes_present (si_stages v) (Allocation_stop 10)" "same_ground p q"
  shows "decision_sound (si_stages v) p l0 (at_allocation_end v c q l)"
proof -
  have "same_ground p r" if "channels_shape (si_watch v) y (found l q) = Inr a" "read_last_error (si_watch v) (ad_seen a) = Some (e, r)" for y a e r
    using ground_trans[OF assms(4)] ground_trans[OF stream_grounds(3)[OF that(1)] error_grounds(1)[OF that(2)]] by simp
  then show ?thesis using assms by (simp add: at_allocation_end_def Let_def passes_def stream_defs split: option.split sum.split)
qed

lemma allocation_reasons:
  "allocation_refusal v n c l \<notin> final_reports" "allocation_surroundings v n tib p l = Inl reason \<Longrightarrow> reason \<notin> final_reports"
  by (auto simp: allocation_refusal_def allocation_branch_def allocation_surroundings_def Let_def final_reports_def split: option.splits if_splits)

lemma allocation_surroundings_ground: "allocation_surroundings v n tib p l = Inr q \<Longrightarrow> same_ground p q"
  by (auto simp: allocation_surroundings_def Let_def dest: restored_ground(1) split: option.splits if_splits)

lemma allocation_next_sound:
  assumes "la_stop l0 = Allocation_stop n" "passes l0 l" "recipes_present (si_stages v) (Allocation_stop n)" "same_ground p q"
  shows "decision_sound (si_stages v) p l0 (allocation_next v n tib c q l)"
proof (cases "n = 7 \<or> n = 10")
  case True
  then show ?thesis using assms at_heap_return_sound[of l0 l v p q tib c] at_allocation_end_sound[of l0 l v p q c]
    by (auto simp: allocation_next_def Let_def final_literal)
next
  case False
  then show ?thesis using assms by (simp add: allocation_next_def Let_def passes_def stream_defs)
qed

lemma at_allocation_sound:
  assumes "la_stop l = Allocation_stop n" "recipes_present (si_stages v) (Allocation_stop n)"
  shows "decision_sound (si_stages v) p l (at_allocation v n c p l)"
proof (cases "allocation_shape (si_watch v) (stage_recipes_of (si_stages v)) (found l p)")
  case (Inl m)
  then show ?thesis by (simp add: at_allocation_def Let_def final_literal)
next
  case (Inr a)
  have "decision_sound (si_stages v) p l (allocation_next v n tib c q (l\<lparr>la_found := a\<rparr>))"
    if "allocation_surroundings v n tib (ad_seen a) l = Inr q" for tib q
    by (rule allocation_next_sound)
      (use assms ground_trans[OF stream_grounds(2)[OF Inr] allocation_surroundings_ground[OF that]] in \<open>simp_all add: passes_def\<close>)
  then show ?thesis by (simp add: at_allocation_def Let_def Inr allocation_reasons split: sum.split)
qed

lemma channels_block_reason: "channels_block w start \<notin> final_reports"
  by (simp add: channels_block_def final_reports_def split: option.split)

lemma at_channels_return_sound:
  assumes "la_stop l0 = Channels_stop 8" "passes l0 l" "recipes_present (si_stages v) (Channels_stop 8)" "same_ground p q"
  shows "decision_sound (si_stages v) p l0 (at_channels_return v c q l)"
  using assms ground_trans[OF assms(4) error_grounds(1)]
  by (simp add: at_channels_return_def Let_def passes_def stream_defs channels_block_reason split: option.split)

lemma at_channels_end_sound:
  assumes "la_stop l0 = Channels_stop 9" "passes l0 l" "same_ground p q"
  shows "decision_sound (si_stages v) p l0 (at_channels_end v q l)"
  using assms by (simp add: at_channels_end_def Let_def passes_def stream_defs channels_block_reason)

lemma channels_reasons:
  "channels_refusal v n c l \<notin> final_reports" "channels_surroundings v p l = Inl reason \<Longrightarrow> reason \<notin> final_reports"
  by (auto simp: channels_refusal_def channels_surroundings_def Let_def final_reports_def split: option.splits if_splits)

lemma channels_surroundings_ground: "channels_surroundings v p l = Inr q \<Longrightarrow> same_ground p q"
  by (auto simp: channels_surroundings_def Let_def dest: restored_ground(1) split: option.splits if_splits)

lemma channels_next_sound:
  assumes "la_stop l0 = Channels_stop n" "passes l0 l" "recipes_present (si_stages v) (Channels_stop n)" "same_ground p q"
  shows "decision_sound (si_stages v) p l0 (channels_next v n c q l)"
proof (cases "n = 8 \<or> n = 9")
  case True
  then show ?thesis using assms at_channels_return_sound[of l0 l v p q c] at_channels_end_sound[of l0 l p q v]
    by (auto simp: channels_next_def)
next
  case False
  then show ?thesis using assms ground_trans[OF assms(4) restored_ground(2)]
    by (simp add: channels_next_def Let_def passes_def stream_defs split: option.split)
qed

lemma at_channels_sound:
  assumes "la_stop l = Channels_stop n" "recipes_present (si_stages v) (Channels_stop n)"
  shows "decision_sound (si_stages v) p l (at_channels v n c p l)"
proof (cases "channels_shape (si_watch v) (stage_recipes_of (si_stages v)) (found l p)")
  case (Inl m)
  then show ?thesis by (simp add: at_channels_def Let_def final_literal)
next
  case (Inr a)
  have "decision_sound (si_stages v) p l (channels_next v n c q (l\<lparr>la_found := a\<rparr>))" if "channels_surroundings v (ad_seen a) l = Inr q" for q
    by (rule channels_next_sound)
      (use assms ground_trans[OF stream_grounds(3)[OF Inr] channels_surroundings_ground[OF that]] in \<open>simp_all add: passes_def\<close>)
  then show ?thesis by (simp add: at_channels_def Let_def Inr channels_reasons split: sum.split)
qed

text \<open>
  Whatever stop is due, its decision denies with a reason that is no success, reports its own stage's success, or moves to the stop
  that follows, whose recipe is given.
\<close>

lemma late_stop_sound:
  assumes "recipes_present (si_stages v) (la_stop l)"
  shows "decision_sound (si_stages v) p l (late_stop v c p l)"
  using assms
  by (cases "la_stop l")
    (simp_all add: late_stop_def at_codec_return_sound at_binding_sound at_plugin_call_sound at_plugin_return_sound at_tail_sound at_crt_sound
      at_application_sound at_platform_sound at_suppressed_sound at_instance_sound at_dispatch_sound at_routing_sound at_prelude_sound
      at_manager_sound at_seh_sound at_lock_sound at_acquire_sound at_query_sound at_copy_sound at_return_sound at_ready_sound
      at_tables_sound at_disk_sound at_allocation_sound at_channels_sound)

end
