(* ===== verification/Loader_Events.thy ===== *)
theory Loader_Events
  imports Loader_Stream_Stops
begin

text \<open>
  The debug-event loop of \<open>LoaderObservation::run_impl\<close> (\<open>loader_observation.cpp\<close>): the held event is released, the
  next one is taken, and module loads, unloads, threads and exceptions are admitted or end the run. The stops at the entry,
  at the return of the proxy and at the startup call are handled here; behind the startup call \<open>late_stop\<close> (\<open>Loader_Stream_Stops\<close>)
  decides and the loop carries the decision out. Only the calls of the plugin's exported functions, which are made
  by writing to the child's stack, are not followed (\<open>Beyond\<close>).

  While an event is pending the child is suspended, so its memory and its answers do not change: the world is a
  host and a set of files for every number of events. Counters and samples that are only reported are left out.
\<close>

section \<open>State\<close>

definition UNLOAD_DLL_DEBUG_EVENT :: u32 where "UNLOAD_DLL_DEBUG_EVENT = 7"
definition CREATE_THREAD_DEBUG_EVENT :: u32 where "CREATE_THREAD_DEBUG_EVENT = 2"
definition EXCEPTION_BREAKPOINT :: u32 where "EXCEPTION_BREAKPOINT = 0x80000003"
definition EXCEPTION_SINGLE_STEP :: u32 where "EXCEPTION_SINGLE_STEP = 0x80000004"

record 'c looping =
  lo_child :: suspended
  lo_context :: 'c
  lo_seen :: progress
  lo_events :: u32
  lo_threads :: u32
  lo_charged :: u64
  lo_candidate :: bool
  lo_initial :: bool
  lo_validated :: bool
  lo_proxy_armed :: bool
  lo_proxy_continued :: bool
  lo_startup_armed :: bool
  lo_startup_continued :: bool
  lo_target_before :: bytes
  lo_late :: "late option"

text \<open>How a run ends: with a reason, at the calls of the plugin, or at a null pointer.\<close>

datatype ending = Verdict string | Beyond | Null_recipe

text \<open>One turn of the loop ends the run or asks for another; both carry the state.\<close>

datatype 'c turn = End ending "'c looping" | More "'c looping"

definition reject :: "string \<Rightarrow> 'c looping \<Rightarrow> 'c turn" where
  "reject reason lo = End (Verdict reason) lo"

text \<open>The system's calls on event handles; the two handles \<open>same_named_event\<close> opens with them it closes (\<open>same_named_event_closes\<close>).\<close>

record event_api =
  api_compare :: "(nat \<Rightarrow> nat \<Rightarrow> bool) option"
  api_duplicate :: "u32 \<Rightarrow> nat option"
  api_open :: "string \<Rightarrow> nat"

definition child_event_named :: "event_api \<Rightarrow> u32 \<Rightarrow> string \<Rightarrow> bool" where
  "child_event_named es value name = fst (same_named_event (api_compare es) (api_duplicate es) (api_open es) value name)"

text \<open>What the run was given; \<open>ex_selector\<close> is the base behind a selector of the main thread.\<close>

record 'c trial =
  ex_world :: "u32 \<Rightarrow> 'c loader_host"
  ex_files :: "u32 \<Rightarrow> file_api"
  ex_me :: u32
  ex_pins :: "nat list"
  ex_limits :: loader_limits
  ex_stages :: stages
  ex_selector :: "u32 \<Rightarrow> u32 \<Rightarrow> u32 option"
  ex_events :: "u32 \<Rightarrow> event_api"

definition now_host :: "'c trial \<Rightarrow> 'c looping \<Rightarrow> 'c loader_host" where
  "now_host x lo = ex_world x (lo_events lo)"

definition now_os :: "'c trial \<Rightarrow> 'c looping \<Rightarrow> observer_api" where
  "now_os x lo = host_os (now_host x lo)"

definition files_now :: "'c trial \<Rightarrow> 'c looping \<Rightarrow> file_api" where
  "files_now x lo = ex_files x (lo_events lo)"

text \<open>The pinned files were opened and inspected before the run.\<close>

definition pin_files :: "'c trial \<Rightarrow> nat \<Rightarrow> loader_file" where
  "pin_files x = host_files (ex_world x 1)"

definition copy_now :: "'c trial \<Rightarrow> 'c looping \<Rightarrow> u32 \<Rightarrow> nat \<Rightarrow> bytes option" where
  "copy_now x lo rva n = child_copy (now_os x lo) (ex_me x) (lo_child lo) rva n"

definition image_word :: "'c trial \<Rightarrow> 'c looping \<Rightarrow> u32 \<Rightarrow> u32 option" where
  "image_word x lo rva = read_word (now_os x lo) (child_base (lo_child lo)) rva"

section \<open>Modules and threads\<close>

definition unread_identity :: loader_identity where
  "unread_identity = \<lparr>id_volume = 0, id_bytes = 0, id_file = replicate 16 0, id_sha256 = replicate 32 0, id_name = []\<rparr>"

definition add_module :: "observed_module \<Rightarrow> 'c looping \<Rightarrow> 'c looping" where
  "add_module m lo = lo\<lparr>lo_seen := (lo_seen lo)\<lparr>pg_modules := pg_modules (lo_seen lo) @ [m]\<rparr>\<rparr>"

definition closed_file :: "debug_event \<Rightarrow> 'c looping \<Rightarrow> 'c looping" where
  "closed_file e lo = lo\<lparr>lo_child := close_event_file e (lo_child lo)\<rparr>"

definition is_pinned :: "'c trial \<Rightarrow> loader_identity \<Rightarrow> bool" where
  "is_pinned x i \<longleftrightarrow> list_ex (\<lambda>p. case pin_identity (pin_files x p) of None \<Rightarrow> False | Some j \<Rightarrow> matches_file j i) (ex_pins x)"

text \<open>Between the bindings and the load of the plugin nothing may be loaded.\<close>

definition loads_barred :: "'c looping \<Rightarrow> bool" where
  "loads_barred lo \<longleftrightarrow> (case lo_late lo of None \<Rightarrow> False | Some l \<Rightarrow> la_stop l = Binding_stop \<or> la_stop l = Plugin_call)"

text \<open>
  A module is loaded: its file must fit the budgets, be inspected, be one of the pinned files, and its base must be free.
  The file handle is closed on every way out.
\<close>

definition on_load :: "'c trial \<Rightarrow> debug_event \<Rightarrow> 'c looping \<Rightarrow> 'c turn" where
  "on_load x e lo =
    (let base = event_image e; unknown = \<lparr>om_file = unread_identity, om_base = base, om_mapping = 0, om_admitted = False, om_event = lo_events lo\<rparr> in
     if of_nat (length (pg_modules (lo_seen lo))) \<ge> limit_modules (ex_limits x) then reject ''loader_module_limit'' (closed_file e lo)
     else (case (if event_file e = 0 then None else file_length (files_now x lo) (event_file e)) of
         None \<Rightarrow> reject ''loader_file_or_byte_limit'' (closed_file e (add_module unknown lo))
       | Some n \<Rightarrow>
         if \<not> (n > 0 \<and> nat n \<le> unat (limit_bytes (ex_limits x) - lo_charged lo))
         then reject ''loader_file_or_byte_limit'' (closed_file e (add_module unknown lo))
         else let lo1 = closed_file e (lo\<lparr>lo_charged := lo_charged lo + word_of_int n\<rparr>) in
           (case inspect_loader_file (files_now x lo) (event_file e) max_loader_file_bytes of
              None \<Rightarrow> reject ''loader_module_metadata'' (add_module unknown lo1)
            | Some i \<Rightarrow>
              let found = unknown\<lparr>om_file := i\<rparr> in
              if base = 0 then reject ''loader_module_metadata'' (add_module found lo1)
              else if \<not> is_pinned x i then reject ''loader_module_not_pinned'' (add_module found lo1)
              else (case admit base (lo_events lo1) (pg_mappings (lo_seen lo1)) of (t, l) \<Rightarrow>
                let lo2 = lo1\<lparr>lo_seen := (lo_seen lo1)\<lparr>pg_mappings := l\<rparr>\<rparr> in
                if t_error t \<noteq> [] then reject (t_error t) (add_module (found\<lparr>om_admitted := True\<rparr>) lo2)
                else let lo3 = add_module (found\<lparr>om_admitted := True, om_mapping := t_mapping_id t\<rparr>) lo2 in
                  if loads_barred lo3 then reject ''binding_unexpected_load'' lo3 else More lo3))))"

text \<open>A module is unloaded: its mapping is retired; the proxy, the plugin and, from the bindings on, the codec must stay.\<close>

definition codec_bound :: "u32 \<Rightarrow> 'c looping \<Rightarrow> bool" where
  "codec_bound i lo \<longleftrightarrow> (case lo_late lo of None \<Rightarrow> False | Some l \<Rightarrow> la_stop l \<noteq> Codec_return) \<and> i \<in> set (pg_codec_mappings (lo_seen lo))"

definition on_unload :: "'c trial \<Rightarrow> debug_event \<Rightarrow> 'c looping \<Rightarrow> 'c turn" where
  "on_unload x e lo =
    (case retire (event_image e) (lo_events lo) (pg_mappings (lo_seen lo)) of (t, l) \<Rightarrow>
      let lo1 = lo\<lparr>lo_seen := (lo_seen lo)\<lparr>pg_mappings := l\<rparr>\<rparr> in
      if t_error t \<noteq> [] then reject (t_error t) lo1
      else (case List.find (\<lambda>m. om_mapping m = t_mapping_id t) (pg_modules (lo_seen lo1)) of
          None \<Rightarrow> reject ''loader_mapping_history_mismatch'' lo1
        | Some m \<Rightarrow>
          if lo_validated lo1 \<and> t_mapping_id t = pg_proxy_mapping (lo_seen lo1) then reject ''proxy_mapping_retired'' lo1
          else if codec_bound (t_mapping_id t) lo1 then reject ''binding_mapping_retired'' lo1
          else if (case st_asi (ex_stages x) of None \<Rightarrow> False | Some s \<Rightarrow>
                (case pin_identity (pin_files x (asi_module s)) of None \<Rightarrow> False | Some i \<Rightarrow> matches_file (om_file m) i))
          then reject ''asi_mapping_retired'' lo1 else More lo1))"

definition on_thread :: "'c trial \<Rightarrow> 'c looping \<Rightarrow> 'c turn" where
  "on_thread x lo =
    (let lo1 = lo\<lparr>lo_threads := lo_threads lo + 1\<rparr> in
     if lo_threads lo1 > limit_threads (ex_limits x) then reject ''loader_thread_limit'' lo1 else More lo1)"

section \<open>Exceptions before the first stop\<close>

text \<open>The loader's own breakpoint: on the main thread, inside the image of an active \<open>ntdll.dll\<close>.\<close>

definition is_loader_breakpoint :: "'c trial \<Rightarrow> debug_event \<Rightarrow> 'c looping \<Rightarrow> bool" where
  "is_loader_breakpoint x e lo \<longleftrightarrow>
     event_exception e = EXCEPTION_BREAKPOINT \<and> event_first_chance e \<and> event_thread e = host_thread_id (now_host x lo)
     \<and> (case query_region (now_os x lo) (event_address e) of None \<Rightarrow> False
        | Some r \<Rightarrow> region_state r = MEM_COMMIT \<and> region_type r = MEM_IMAGE
            \<and> list_ex (\<lambda>m. module_active (lo_seen lo) m \<and> id_name (om_file m) = ''ntdll.dll'' \<and> om_base m = allocation_base r)
                (pg_modules (lo_seen lo)))"

definition on_first_exception :: "'c trial \<Rightarrow> debug_event \<Rightarrow> 'c looping \<Rightarrow> 'c turn" where
  "on_first_exception x e lo =
    (let lo1 = lo\<lparr>lo_candidate := lo_candidate lo \<or> is_loader_breakpoint x e lo\<rparr> in
     case st_entry (ex_stages x) of
       Some s \<Rightarrow>
         if lo_candidate lo1
         then (if copy_now x lo1 (stop_entry_rva s) 16 \<noteq> Some (entry_expected s) then reject ''entry_preinitialization_drift'' lo1
           else (case host_get (now_host x lo1) (lo_context lo1) of
               None \<Rightarrow> reject ''entry_breakpoint_lost_before_initialization'' lo1
             | Some c \<Rightarrow>
               if c_dr c ! 0 \<noteq> pg_entry_address (lo_seen lo1) \<or> c_dr c ! 5 AND 0xffff20ff \<noteq> 1
               then reject ''entry_breakpoint_lost_before_initialization'' lo1 else More lo1))
         else reject ''loader_exception'' lo1
     | None \<Rightarrow> reject (if lo_candidate lo1 then ''loader_breakpoint_candidate'' else ''loader_exception'') lo1)"

section \<open>The stops\<close>

text \<open>Writing debug registers and reading them back, with the reasons for a failed write and for a difference.\<close>

definition set_stop ::
  "'c trial \<Rightarrow> string \<Rightarrow> string \<Rightarrow> thread_context \<Rightarrow> u32 list \<Rightarrow> (u32 list \<Rightarrow> bool) \<Rightarrow> ('c looping \<Rightarrow> 'c looping) \<Rightarrow> 'c looping \<Rightarrow> 'c turn" where
  "set_stop x unwritten differing c dr expected armed lo =
    (case host_set (now_host x lo) (c\<lparr>c_dr := dr\<rparr>) (lo_context lo) of (ok, st1) \<Rightarrow>
       let lo1 = lo\<lparr>lo_context := st1\<rparr> in
       if \<not> ok then reject unwritten lo1
       else (case host_get (now_host x lo1) st1 of None \<Rightarrow> reject differing lo1
         | Some v \<Rightarrow> if expected (c_dr v) then More (armed lo1) else reject differing lo1))"

definition proxy_return_address :: "proxy_stop_spec \<Rightarrow> 'c looping \<Rightarrow> u32" where
  "proxy_return_address s lo = pg_proxy_base (lo_seen lo) + thunk_rva s + 5"

text \<open>The mappings of the proxy's file.\<close>

definition proxy_modules :: "'c trial \<Rightarrow> proxy_stop_spec \<Rightarrow> 'c looping \<Rightarrow> observed_module list" where
  "proxy_modules x s lo = filter (\<lambda>m. module_active (lo_seen lo) m
     \<and> (case pin_identity (pin_files x (proxy_module s)) of None \<Rightarrow> False | Some i \<Rightarrow> matches_file (om_file m) i)) (pg_modules (lo_seen lo))"

text \<open>At the entry: without a proxy the run ends here; with one the entry must be redirected to the reviewed thunk.\<close>

definition entry_stop :: "'c trial \<Rightarrow> entry_stop_spec \<Rightarrow> thread_context \<Rightarrow> 'c looping \<Rightarrow> 'c turn" where
  "entry_stop x e c lo =
    (case copy_now x lo (stop_entry_rva e) 16 of None \<Rightarrow> reject ''entry_bytes_unreadable'' lo
     | Some after \<Rightarrow>
       (case st_proxy (ex_stages x) of
          None \<Rightarrow> reject (if after = entry_expected e then ''entry_boundary_reached'' else ''entry_boundary_modified'') lo
        | Some s \<Rightarrow>
          (case proxy_modules x s lo of
             [] \<Rightarrow> reject ''proxy_mapping_missing'' lo
           | [m] \<Rightarrow>
             let lo1 = lo\<lparr>lo_seen := (lo_seen lo)\<lparr>pg_proxy_mapping := om_mapping m, pg_proxy_base := om_base m\<rparr>\<rparr>; p = lo_seen lo1 in
             if \<not> proxy_shape (now_os x lo1) s p then reject ''proxy_entry_shape'' lo1
             else if after ! 0 \<noteq> 0xe9 \<or> pg_entry_address p + 5 + get_word after 1 \<noteq> pg_proxy_base p + thunk_rva s
                \<or> drop 5 after \<noteq> drop 5 (entry_expected e) then reject ''proxy_entry_redirect'' lo1
             else (case image_word x lo1 (iat_rva s) of None \<Rightarrow> reject ''proxy_iat_unreadable'' lo1
               | Some slot \<Rightarrow>
                 if \<not> system_address (now_os x lo1) p slot then reject ''proxy_iat_before_not_system'' lo1
                 else set_stop x ''proxy_breakpoint_write_failed'' ''proxy_breakpoint_arm_failed'' c
                   ((c_dr c)[0 := proxy_return_address s lo1, 4 := 0])
                   (\<lambda>dr. dr ! 0 = proxy_return_address s lo1 \<and> dr ! 5 AND 0xffff20ff = 1)
                   (\<lambda>lo. lo\<lparr>lo_proxy_armed := True\<rparr>) (lo1\<lparr>lo_validated := True\<rparr>))
           | _ \<Rightarrow> reject ''proxy_mapping_ambiguous'' lo)))"

text \<open>At the return of the proxy: the entry is restored and the import slot leads into the proxy.\<close>

definition proxy_stop :: "'c trial \<Rightarrow> entry_stop_spec \<Rightarrow> proxy_stop_spec \<Rightarrow> thread_context \<Rightarrow> 'c looping \<Rightarrow> 'c turn" where
  "proxy_stop x e s c lo =
    (let os = now_os x lo; base = child_base (lo_child lo) in
     if \<not> proxy_shape os s (lo_seen lo) then reject ''proxy_return_shape'' lo
     else (case copy_now x lo (stop_entry_rva e) 16 of None \<Rightarrow> reject ''proxy_return_entry_unreadable'' lo
       | Some after \<Rightarrow>
         if after \<noteq> entry_expected e then reject ''proxy_entry_not_restored'' lo
         else (case image_word x lo (iat_rva s) of None \<Rightarrow> reject ''proxy_iat_unreadable'' lo
           | Some slot \<Rightarrow>
             if slot \<noteq> pg_proxy_base (lo_seen lo) + iat_target_rva s then reject ''proxy_iat_mismatch'' lo
             else if st_startup (ex_stages x) = None then reject ''proxy_return_verified'' lo
             else let lo1 = lo\<lparr>lo_seen := (lo_seen lo)\<lparr>pg_startup_address := slot\<rparr>\<rparr> in
               (case read_image os (pg_proxy_base (lo_seen lo1)) (iat_target_rva s) 16 True of None \<Rightarrow> reject ''startup_target_unreadable'' lo1
                | Some target \<Rightarrow>
                  set_stop x ''startup_breakpoint_write_failed'' ''startup_breakpoint_arm_failed'' c
                    ((c_dr c)[0 := slot, 1 := base + iat_rva s, 4 := 0, 5 := c_dr c ! 5 AND NOT 0xffff20ff OR 0x00d00005])
                    (\<lambda>dr. dr ! 0 = slot \<and> dr ! 1 = base + iat_rva s \<and> dr ! 5 AND 0xffff20ff = 0x00d00005)
                    (\<lambda>lo. lo\<lparr>lo_startup_armed := True\<rparr>) (lo1\<lparr>lo_target_before := target\<rparr>)))))"

text \<open>The two words on top of the stack at the startup call, read from one private region.\<close>

definition private_region :: "region \<Rightarrow> bool" where
  "private_region r \<longleftrightarrow> region_type r = MEM_PRIVATE \<and> region_state r = MEM_COMMIT \<and> region_protect r AND 0x101 = 0"

definition startup_stack_region :: "region \<Rightarrow> u32 \<Rightarrow> bool" where
  "startup_stack_region r esp \<longleftrightarrow> private_region r \<and> \<not> esp < base_address r \<and> \<not> esp - base_address r \<ge> region_size r
     \<and> \<not> 8 > region_size r - (esp - base_address r)"

text \<open>The argument is a complete start-up record in the allocation of the stack.\<close>

definition startup_argument_valid :: "observer_api \<Rightarrow> region \<Rightarrow> u32 \<Rightarrow> bool" where
  "startup_argument_valid os stack a \<longleftrightarrow> a \<noteq> 0 \<and> a mod 4 = 0
     \<and> (case query_region os a of None \<Rightarrow> False
        | Some r \<Rightarrow> private_region r \<and> allocation_base r = allocation_base stack \<and> region_protect r AND 0x44 \<noteq> 0
            \<and> a \<ge> base_address r \<and> a - base_address r < region_size r \<and> 68 \<le> region_size r - (a - base_address r))"

fun startup_samples :: "'c trial \<Rightarrow> 'c looping \<Rightarrow> image_anchor list \<Rightarrow> bool" where
  "startup_samples x lo [] = True"
| "startup_samples x lo (a # rest) = (copy_now x lo (anchor_rva a) (unat (anchor_length a)) \<noteq> None \<and> startup_samples x lo rest)"

text \<open>What a stop behind the startup call looks at.\<close>

definition site_now :: "'c trial \<Rightarrow> 'c looping \<Rightarrow> 'c site" where
  "site_now x lo =
    (let host = now_host x lo in
     \<lparr>si_watch = \<lparr>wa_os = host_os host, wa_files = pin_files x, wa_child = lo_child lo, wa_recipes = recipes_of (ex_stages x),
        wa_registers = fst (windows_read (host_get host) (lo_context lo)), wa_selector = ex_selector x (lo_events lo)\<rparr>,
      si_host = host, si_stages = ex_stages x, si_event = lo_events lo, si_same_event = child_event_named (ex_events x (lo_events lo)),
      si_files = files_now x lo\<rparr>)"

text \<open>The decision of a stop is carried out.\<close>

definition settle :: "'c trial \<Rightarrow> thread_context \<Rightarrow> 'c decision \<Rightarrow> 'c looping \<Rightarrow> 'c turn" where
  "settle x c d lo =
    (case d of
       Deny reason \<Rightarrow> reject reason lo
     | Report reason p l \<Rightarrow> reject reason (lo\<lparr>lo_seen := p, lo_late := Some l\<rparr>)
     | Conclude unrestored reason f p l \<Rightarrow> (case f (lo_context lo) of (ok, st1) \<Rightarrow>
         reject (if ok then reason else unrestored) (lo\<lparr>lo_context := st1, lo_seen := p, lo_late := Some l\<rparr>))
     | Break unwritten differing dr expected p l \<Rightarrow>
         set_stop x unwritten differing c dr expected (\<lambda>lo. lo\<lparr>lo_late := Some l\<rparr>) (lo\<lparr>lo_seen := p\<rparr>)
     | Move reason f p \<Rightarrow> (case f c (lo_context lo) of (answer, st1) \<Rightarrow>
         let lo1 = lo\<lparr>lo_context := st1, lo_seen := p\<rparr> in
         (case answer of None \<Rightarrow> reject reason lo1 | Some l \<Rightarrow> More (lo1\<lparr>lo_late := Some l\<rparr>)))
     | Unfollowed \<Rightarrow> End Beyond lo
     | Null \<Rightarrow> End Null_recipe lo)"

definition startup_stop :: "'c trial \<Rightarrow> startup_stop_spec \<Rightarrow> proxy_stop_spec \<Rightarrow> thread_context \<Rightarrow> 'c looping \<Rightarrow> 'c turn" where
  "startup_stop x u s c lo =
    (let os = now_os x lo; base = child_base (lo_child lo); p = lo_seen lo; esp = c_esp c in
     if \<not> proxy_shape os s p then reject ''startup_proxy_shape'' lo
     else if image_word x lo (iat_rva s) \<noteq> Some (pg_startup_address p) then reject ''startup_iat_drift'' lo
     else (case read_image os (pg_proxy_base p) (iat_target_rva s) 16 True of None \<Rightarrow> reject ''startup_target_unreadable'' lo
       | Some target \<Rightarrow>
         if target \<noteq> lo_target_before lo then reject ''startup_target_drift'' lo
         else (case query_region os esp of None \<Rightarrow> reject ''startup_stack_region'' lo
           | Some stack \<Rightarrow>
             if \<not> startup_stack_region stack esp then reject ''startup_stack_region'' lo
             else (case read_process os esp 8 of (ok, got, buffer) \<Rightarrow>
               if \<not> (ok \<and> got = 8) then reject ''startup_stack_read'' lo
               else let bs = map buffer [0..<8]; ret = get_word bs 0; argument = get_word bs 4 in
                 if ret < base \<or> ret - base < 6 \<or> unat (ret - base) \<ge> child_image_bytes (lo_child lo) then reject ''startup_callsite_range'' lo
                 else (case read_image os base (ret - base - 6) 6 True of None \<Rightarrow> reject ''startup_callsite_read'' lo
                   | Some call \<Rightarrow>
                     if \<not> (call ! 0 = 0xff \<and> call ! 1 = 0x15 \<and> get_word call 2 = base + iat_rva s) then reject ''startup_callsite_shape'' lo
                     else if \<not> startup_argument_valid os stack argument then reject ''startup_argument_region'' lo
                     else if \<not> startup_samples x lo (startup_anchors u) then reject ''startup_sample_unreadable'' lo
                     else (case st_codec (ex_stages x) of None \<Rightarrow> reject ''startup_call_verified'' lo
                       | Some s \<Rightarrow> settle x c (at_codec_call (site_now x lo) s ret argument c p) lo))))))"

text \<open>
  A stop counts only as the execution breakpoint of debug register 0 at the expected address; the other registers are guards. From
  the startup call on register 1 watches the import slot, and a write to it ends the run. From the plugin on register 2 is the end
  of the search for plugins, or, once the plugin is there, the call that loads another. From the instance check on register 3 is
  the branch of a second instance.
\<close>

record stop_guards =
  gu_slot :: "u32 option"
  gu_plugin :: "(u32 \<times> string) option"
  gu_branch :: "u32 option"

definition no_guards :: stop_guards where
  "no_guards = \<lparr>gu_slot = None, gu_plugin = None, gu_branch = None\<rparr>"

definition guard_control :: "stop_guards \<Rightarrow> u32" where
  "guard_control g = (if gu_branch g \<noteq> None then 0x00d00055 else if gu_plugin g \<noteq> None then 0x00d00015 else 0x00d00005)"

definition plugin_guard :: "recipes \<Rightarrow> progress \<Rightarrow> late_stop \<Rightarrow> u32 \<times> string" where
  "plugin_guard rs p s =
    (if stage_of s \<ge> 4 then (pg_proxy_base p + asi_call_rva (rx_asi rs), ''startup_return_extra_asi_call'')
     else (pg_proxy_base p + asi_end_rva (rx_asi rs), if s = Plugin_return then ''asi_return_skipped'' else ''asi_candidate_missing''))"

definition late_guards :: "'c trial \<Rightarrow> 'c looping \<Rightarrow> late_stop \<Rightarrow> stop_guards" where
  "late_guards x lo s =
    (let base = child_base (lo_child lo); rs = recipes_of (ex_stages x) in
     \<lparr>gu_slot = Some (base + iat_rva (rx_proxy rs)),
      gu_plugin = (if stage_of s \<ge> 3 then Some (plugin_guard rs (lo_seen lo) s) else None),
      gu_branch = (if stage_of s \<ge> 9 then Some (base + target_rva (is_caller (rx_instance rs)) + 31) else None)\<rparr>)"

text \<open>The result is the reason to end, or empty.\<close>

definition guard_refusal :: "debug_event \<Rightarrow> thread_context \<Rightarrow> u32 \<Rightarrow> stop_guards \<Rightarrow> string" where
  "guard_refusal e c expected g =
    (let dr = c_dr c; identity = ''entry_breakpoint_identity''; hit = dr ! 4 AND 0xe00f in
     if gu_slot g \<noteq> None \<and> (dr ! 0 \<noteq> expected \<or> Some (dr ! 1) \<noteq> gu_slot g \<or> dr ! 5 AND 0xffff20ff \<noteq> guard_control g
        \<or> (gu_plugin g \<noteq> None \<and> Some (dr ! 2) \<noteq> map_option fst (gu_plugin g))) then identity
     else if gu_branch g \<noteq> None \<and> Some (dr ! 3) \<noteq> gu_branch g then ''instance_guard_identity''
     else if gu_branch g \<noteq> None \<and> dr ! 4 AND 8 \<noteq> 0 then ''instance_forbidden_branch''
     else if gu_plugin g \<noteq> None \<and> dr ! 4 AND 4 \<noteq> 0
     then (if hit \<noteq> 4 \<or> c_eip c \<noteq> dr ! 2 \<or> event_address e \<noteq> dr ! 2 then identity else snd (the (gu_plugin g)))
     else if gu_slot g \<noteq> None \<and> dr ! 4 AND 2 \<noteq> 0 then (if hit \<noteq> 2 then identity else ''startup_iat_written'') else [])"

definition stop_refusal :: "debug_event \<Rightarrow> thread_context \<Rightarrow> u32 \<Rightarrow> stop_guards \<Rightarrow> string" where
  "stop_refusal e c expected g =
    (let dr = c_dr c; reason = guard_refusal e c expected g in
     if reason \<noteq> [] then reason
     else if event_address e \<noteq> expected then ''entry_unexpected_exception''
     else if c_eip c \<noteq> expected \<or> dr ! 0 \<noteq> expected \<or> dr ! 4 AND 0xe00f \<noteq> 1
        \<or> (case gu_slot g of None \<Rightarrow> dr ! 5 AND 0xffff00ff \<noteq> 1 | Some slot \<Rightarrow> dr ! 5 AND 0xffff20ff \<noteq> guard_control g \<or> dr ! 1 \<noteq> slot)
     then ''entry_breakpoint_identity'' else [])"

text \<open>A stop whose recipes are not given follows a null pointer.\<close>

definition on_late_stop :: "'c trial \<Rightarrow> debug_event \<Rightarrow> thread_context \<Rightarrow> late \<Rightarrow> 'c looping \<Rightarrow> 'c turn" where
  "on_late_stop x e c l lo =
    (let reason = stop_refusal e c (la_address l) (late_guards x lo (la_stop l)) in
     if \<not> recipes_present (ex_stages x) (la_stop l) then End Null_recipe lo
     else if reason \<noteq> [] then reject reason lo
     else settle x c (late_stop (site_now x lo) c (lo_seen lo) l) lo)"

definition on_stop :: "'c trial \<Rightarrow> debug_event \<Rightarrow> entry_stop_spec \<Rightarrow> 'c looping \<Rightarrow> 'c turn" where
  "on_stop x e s lo =
    (if event_exception e \<noteq> EXCEPTION_SINGLE_STEP \<or> \<not> event_first_chance e \<or> event_thread e \<noteq> host_thread_id (now_host x lo)
     then reject ''entry_unexpected_exception'' lo
     else (case host_get (now_host x lo) (lo_context lo) of None \<Rightarrow> reject ''entry_context_read_failed'' lo
       | Some c \<Rightarrow>
         if lo_startup_continued lo
         then (case (st_startup (ex_stages x), st_proxy (ex_stages x)) of
             (Some u, Some p) \<Rightarrow> (case lo_late lo of
                 Some l \<Rightarrow> on_late_stop x e c l lo
               | None \<Rightarrow>
                 let reason = stop_refusal e c (pg_startup_address (lo_seen lo)) (no_guards\<lparr>gu_slot := Some (child_base (lo_child lo) + iat_rva p)\<rparr>) in
                 if reason \<noteq> [] then reject reason lo else startup_stop x u p c lo)
           | _ \<Rightarrow> End Null_recipe lo)
         else if lo_proxy_continued lo
         then (case st_proxy (ex_stages x) of None \<Rightarrow> End Null_recipe lo
           | Some p \<Rightarrow>
             let reason = stop_refusal e c (proxy_return_address p lo) no_guards in
             if reason \<noteq> [] then reject reason lo else proxy_stop x s p c lo)
         else let reason = stop_refusal e c (pg_entry_address (lo_seen lo)) no_guards in
           if reason \<noteq> [] then reject reason lo else entry_stop x s c lo))"

section \<open>The loop\<close>

definition on_event :: "'c trial \<Rightarrow> debug_event \<Rightarrow> 'c looping \<Rightarrow> 'c turn" where
  "on_event x e lo =
    (if event_code e = LOAD_DLL_DEBUG_EVENT then on_load x e lo
     else if event_code e = UNLOAD_DLL_DEBUG_EVENT then on_unload x e lo
     else if event_code e = CREATE_THREAD_DEBUG_EVENT then on_thread x lo
     else if event_code e = EXCEPTION_DEBUG_EVENT
     then (case st_entry (ex_stages x) of
         Some s \<Rightarrow> if lo_initial lo then on_stop x e s lo else on_first_exception x e lo
       | None \<Rightarrow> on_first_exception x e lo)
     else if event_code e = EXIT_PROCESS_DEBUG_EVENT
     then reject ''loader_early_exit'' (lo\<lparr>lo_child := (lo_child lo)\<lparr>child_exit_seen := True\<rparr>\<rparr>)
     else reject ''loader_unexpected_event'' (closed_file e lo))"

text \<open>What is armed counts as continued once the held event was released.\<close>

definition continued :: "'c trial \<Rightarrow> 'c looping \<Rightarrow> 'c looping" where
  "continued x lo = lo\<lparr>lo_child := (lo_child lo)\<lparr>child_pending := False\<rparr>,
     lo_startup_continued := lo_startup_continued lo \<or> lo_startup_armed lo,
     lo_proxy_continued := lo_proxy_continued lo \<or> lo_proxy_armed lo,
     lo_initial := lo_initial lo \<or> (st_entry (ex_stages x) \<noteq> None \<and> lo_candidate lo)\<rparr>"

definition take_event :: "'c trial \<Rightarrow> debug_event \<Rightarrow> 'c looping \<Rightarrow> 'c turn" where
  "take_event x e lo =
    (if event_process e \<noteq> child_process_id (lo_child lo) then reject ''loader_event_identity'' (closed_file e lo)
     else on_event x e (lo\<lparr>lo_child := (lo_child lo)\<lparr>child_pending := True, child_pending_thread := event_thread e\<rparr>\<rparr>))"

definition await_event :: "'c trial \<Rightarrow> u64 \<Rightarrow> 'c looping \<Rightarrow> 'c turn" where
  "await_event x deadline lo =
    (case read_clock (now_os x lo) (lo_child lo) of (now, s1) \<Rightarrow>
     if now \<ge> deadline then reject ''loader_timeout'' (lo\<lparr>lo_child := s1\<rparr>)
     else (case wait_debug_event (now_os x lo) (ucast (deadline - now)) s1 of
         (Delivered e, s2) \<Rightarrow> take_event x e (lo\<lparr>lo_child := s2, lo_events := lo_events lo + 1\<rparr>)
       | (_, s2) \<Rightarrow> reject ''loader_wait_failed'' (lo\<lparr>lo_child := s2\<rparr>)))"

definition loader_turn :: "'c trial \<Rightarrow> u64 \<Rightarrow> 'c looping \<Rightarrow> 'c turn" where
  "loader_turn x deadline lo =
    (if lo_events lo \<ge> limit_events (ex_limits x) then reject ''loader_event_limit'' lo
     else case read_clock (now_os x lo) (lo_child lo) of (now, s1) \<Rightarrow>
       if now \<ge> deadline then reject ''loader_timeout'' (lo\<lparr>lo_child := s1\<rparr>)
       else (case continue_debug_event (now_os x lo) DBG_CONTINUE s1 of (ok, s2) \<Rightarrow>
         if \<not> ok then reject ''loader_continue_failed'' (lo\<lparr>lo_child := s2\<rparr>)
         else await_event x deadline (continued x (lo\<lparr>lo_child := s2\<rparr>))))"

end
