(* ===== verification/Loader_Run.thy ===== *)
theory Loader_Run
  imports Loader_Events
begin

text \<open>
  The loop of \<open>LoaderObservation::run_impl\<close> and the whole observation: admission, the debug-event loop, the stop of the child.
  The theorems are an invariant of the loop (budgets, pinned modules, the record of mappings, the account of handles
  and of releases) and the meaning of the verdicts that report a reached stop.
\<close>

section \<open>The loop\<close>

lemma closed_file_simps [simp]:
  "lo_events (closed_file e lo) = lo_events lo" "lo_threads (closed_file e lo) = lo_threads lo"
  "lo_charged (closed_file e lo) = lo_charged lo" "lo_seen (closed_file e lo) = lo_seen lo"
  "lo_context (closed_file e lo) = lo_context lo"
  by (simp_all add: closed_file_def)

lemma add_module_simps [simp]:
  "lo_events (add_module m lo) = lo_events lo" "lo_child (add_module m lo) = lo_child lo"
  "lo_threads (add_module m lo) = lo_threads lo" "lo_charged (add_module m lo) = lo_charged lo"
  by (simp_all add: add_module_def)

lemma set_stop_More:
  assumes "set_stop x a b c dr expected armed lo = More lo'"
  obtains st1 v where "lo' = armed (lo\<lparr>lo_context := st1\<rparr>)" "host_get (now_host x lo) st1 = Some v" "expected (c_dr v)"
  using assms by (auto simp: set_stop_def reject_def Let_def now_host_def split: prod.splits if_splits option.splits)

text \<open>A turn that asks for another took one event.\<close>

lemma settle_events: "settle x c d lo = More lo' \<Longrightarrow> lo_events lo' = lo_events lo"
  by (auto simp: settle_def reject_def Let_def split: decision.splits prod.splits option.splits elim!: set_stop_More)

lemma on_stop_events:
  assumes "on_stop x e s lo = More lo'"
  shows "lo_events lo' = lo_events lo"
proof -
  have entry: "entry_stop x s c lo = More lo' \<Longrightarrow> lo_events lo' = lo_events lo" for c
    by (auto simp: entry_stop_def reject_def Let_def split: option.splits if_splits list.splits elim!: set_stop_More)
  have proxy: "proxy_stop x s p c lo = More lo' \<Longrightarrow> lo_events lo' = lo_events lo" for p c
    by (auto simp: proxy_stop_def reject_def Let_def split: option.splits if_splits elim!: set_stop_More)
  have startup: "startup_stop x u p c lo = More lo' \<Longrightarrow> lo_events lo' = lo_events lo" for u p c
    by (auto simp: startup_stop_def reject_def Let_def dest!: settle_events split: option.splits prod.splits if_splits)
  have late: "on_late_stop x e c l lo = More lo' \<Longrightarrow> lo_events lo' = lo_events lo" for c l
    by (auto simp: on_late_stop_def reject_def Let_def dest!: settle_events split: if_splits)
  show ?thesis using assms entry proxy startup late
    by (auto simp: on_stop_def reject_def Let_def split: option.splits if_splits)
qed

lemma on_event_events:
  assumes "on_event x e lo = More lo'"
  shows "lo_events lo' = lo_events lo"
proof -
  have load: "on_load x e lo = More lo' \<Longrightarrow> lo_events lo' = lo_events lo"
    by (auto simp: on_load_def reject_def Let_def split: option.splits if_splits prod.splits)
  have unload: "on_unload x e lo = More lo' \<Longrightarrow> lo_events lo' = lo_events lo"
    by (auto simp: on_unload_def reject_def Let_def split: option.splits if_splits prod.splits)
  have thread: "on_thread x lo = More lo' \<Longrightarrow> lo_events lo' = lo_events lo"
    by (auto simp: on_thread_def reject_def Let_def split: if_splits)
  have first: "on_first_exception x e lo = More lo' \<Longrightarrow> lo_events lo' = lo_events lo"
    by (auto simp: on_first_exception_def reject_def Let_def split: option.splits if_splits)
  show ?thesis using assms load unload thread first on_stop_events[of x e _ lo lo']
    by (auto simp: on_event_def reject_def split: option.splits if_splits)
qed

lemma loader_turn_More:
  assumes "loader_turn x deadline lo = More lo'"
  shows "lo_events lo < limit_events (ex_limits x)" "lo_events lo' = lo_events lo + 1"
proof -
  show "lo_events lo < limit_events (ex_limits x)" using assms by (auto simp: loader_turn_def reject_def split: if_splits)
  obtain s2 where "await_event x deadline (continued x (lo\<lparr>lo_child := s2\<rparr>)) = More lo'"
    using assms by (auto simp: loader_turn_def reject_def split: if_splits prod.splits)
  then obtain e s3 where "take_event x e (continued x (lo\<lparr>lo_child := s2\<rparr>)\<lparr>lo_child := s3, lo_events := lo_events lo + 1\<rparr>) = More lo'"
    by (auto simp: await_event_def continued_def reject_def split: if_splits prod.splits wait_answer.splits)
  then show "lo_events lo' = lo_events lo + 1"
    by (auto simp: take_event_def reject_def dest!: on_event_events split: if_splits)
qed

lemma unat_suc_below: "(a::u32) < b \<Longrightarrow> unat (a + 1) = Suc (unat a)"
  using unatSuc[of a] by (metis add.commute eq_neg_iff_add_eq_0 word_order.extremum_strict)

function loader_loop :: "'c trial \<Rightarrow> u64 \<Rightarrow> 'c looping \<Rightarrow> ending \<times> 'c looping" where
  "loader_loop x deadline lo = (case loader_turn x deadline lo of End v lo' \<Rightarrow> (v, lo') | More lo' \<Rightarrow> loader_loop x deadline lo')"
  by pat_completeness auto
termination
proof (relation "measure (\<lambda>(x, _, lo). unat (limit_events (ex_limits x)) - unat (lo_events lo))")
  fix x :: "'c trial" and deadline lo lo' assume "loader_turn x deadline lo = More lo'"
  from loader_turn_More[OF this] show "((x, deadline, lo'), x, deadline, lo) \<in> measure (\<lambda>(x, _, lo). unat (limit_events (ex_limits x)) - unat (lo_events lo))"
    using unat_suc_below[of "lo_events lo" "limit_events (ex_limits x)"] by (simp add: word_less_nat_alt)
qed simp

declare loader_loop.simps [simp del]

section \<open>The observation\<close>

text \<open>Nothing is known of the modules yet; the entry address is fixed.\<close>

definition first_progress :: "'c trial \<Rightarrow> suspended \<Rightarrow> progress" where
  "first_progress x s = \<lparr>pg_mappings = new_ledger (limit_modules (ex_limits x)), pg_modules = [], pg_proxy_mapping = 0, pg_proxy_base = 0,
     pg_entry_address = (case st_entry (ex_stages x) of None \<Rightarrow> 0 | Some e \<Rightarrow> child_base s + stop_entry_rva e), pg_startup_address = 0,
     pg_codec_before = [], pg_codec_target = 0, pg_codec_handle = 0, pg_codec_mappings = [], pg_binding_target = 0, pg_bindings = [],
     pg_protect_target = 0, pg_startup_target = 0, pg_platform_address = 0, pg_teb = 0\<rparr>"

definition first_state :: "'c trial \<Rightarrow> suspended \<Rightarrow> 'c \<Rightarrow> 'c looping" where
  "first_state x s st = \<lparr>lo_child = s, lo_context = st, lo_seen = first_progress x s, lo_events = 1, lo_threads = 1, lo_charged = 0,
     lo_candidate = False, lo_initial = False, lo_validated = False, lo_proxy_armed = False, lo_proxy_continued = False,
     lo_startup_armed = False, lo_startup_continued = False, lo_target_before = [], lo_late = None\<rparr>"

text \<open>
  How an observation ends: before the loop, with the state the loop ended in and the child after the stop, at the calls of the
  plugin, or at a null pointer.
\<close>

datatype 'c observation = Unstarted "'c start" suspended | Over "'c start" "'c looping" suspended | Later "'c looping" | Fault "'c looping"

definition observe :: "'c trial \<Rightarrow> suspended \<Rightarrow> nat \<Rightarrow> 'c \<Rightarrow> 'c observation option" where
  "observe x s executable st =
    (case run_impl (ex_world x 1) (ex_me x) s executable (ex_pins x) (ex_limits x) (ex_stages x) st of None \<Rightarrow> None
     | Some (Started st1, s1) \<Rightarrow>
       (case read_clock (host_os (ex_world x 1)) s1 of (now, s2) \<Rightarrow>
          (case loader_loop x (now + ucast (limit_milliseconds (ex_limits x))) (first_state x s2 st1) of
             (Verdict reason, lo) \<Rightarrow> map_option (\<lambda>(r, s3). Over r lo s3) (finish (now_os x lo) (ex_me x) reason (lo_child lo) (lo_context lo))
           | (Beyond, lo) \<Rightarrow> Some (Later lo)
           | (Null_recipe, lo) \<Rightarrow> Some (Fault lo)))
     | Some (r, s1) \<Rightarrow> Some (Unstarted r s1))"

section \<open>What every turn keeps\<close>

text \<open>Every module with an identifier is pinned, and the identifiers are the ledger's, in its order.\<close>

definition modules_known :: "'c trial \<Rightarrow> progress \<Rightarrow> bool" where
  "modules_known x p \<longleftrightarrow>
     (let known = filter (\<lambda>m. om_mapping m \<noteq> 0) (pg_modules p) in
      map om_mapping known = ledger_issued (pg_mappings p) \<and> list_all (\<lambda>m. om_admitted m \<and> is_pinned x (om_file m)) known)"

definition within_budget :: "'c trial \<Rightarrow> 'c looping \<Rightarrow> bool" where
  "within_budget x lo \<longleftrightarrow> lo_events lo \<le> limit_events (ex_limits x) \<and> length (pg_modules (lo_seen lo)) \<le> unat (limit_modules (ex_limits x))
     \<and> lo_charged lo \<le> limit_bytes (ex_limits x) \<and> unat (lo_threads lo) \<le> unat (limit_threads (ex_limits x)) + 1"

text \<open>A loader run may release the held event of its own child.\<close>

definition owned :: "suspended \<Rightarrow> bool" where
  "owned s \<longleftrightarrow> account True s \<and> child_created s"

lemma owned_flags [simp]:
  "owned (s\<lparr>child_pending := p\<rparr>) = owned s" "owned (s\<lparr>child_pending_thread := t\<rparr>) = owned s" "owned (s\<lparr>child_exit_seen := e\<rparr>) = owned s"
  by (simp_all add: owned_def child_created_def)

lemma owned_calls:
  "read_clock os s = (now, s') \<Longrightarrow> owned s \<Longrightarrow> owned s'"
  "continue_debug_event os status s = (ok, s') \<Longrightarrow> owned s \<Longrightarrow> owned s'"
  "wait_debug_event os timeout s = (answer, s') \<Longrightarrow> owned s \<Longrightarrow> (case answer of Delivered e \<Rightarrow> owned (close_event_file e s') | _ \<Rightarrow> owned s')"
  by (auto simp: owned_def child_created_def account_def call_defs Let_def split: wait_answer.splits)

text \<open>It holds in every state, also the last.\<close>

definition state_sound :: "'c trial \<Rightarrow> 'c looping \<Rightarrow> bool" where
  "state_sound x lo \<longleftrightarrow> owned (lo_child lo) \<and> ledger_inv (pg_mappings (lo_seen lo)) \<and> modules_known x (lo_seen lo) \<and> within_budget x lo"

text \<open>The proxy that was validated is a mapping of the pinned proxy file.\<close>

definition proxy_pinned :: "'c trial \<Rightarrow> 'c looping \<Rightarrow> bool" where
  "proxy_pinned x lo \<longleftrightarrow> (\<exists>s i m. st_proxy (ex_stages x) = Some s \<and> m \<in> set (pg_modules (lo_seen lo)) \<and> om_admitted m
     \<and> om_mapping m = pg_proxy_mapping (lo_seen lo) \<and> om_base m = pg_proxy_base (lo_seen lo)
     \<and> pin_identity (pin_files x (proxy_module s)) = Some i \<and> matches_file (om_file m) i)"

text \<open>The stops are armed in order, at the addresses of the recipes.\<close>

definition steps_in_order :: "'c trial \<Rightarrow> 'c looping \<Rightarrow> bool" where
  "steps_in_order x lo \<longleftrightarrow>
     (\<forall>e. st_entry (ex_stages x) = Some e \<longrightarrow> pg_entry_address (lo_seen lo) = child_base (lo_child lo) + stop_entry_rva e)
     \<and> (lo_proxy_continued lo \<longrightarrow> lo_proxy_armed lo) \<and> (lo_proxy_armed lo \<longrightarrow> proxy_pinned x lo)
     \<and> (lo_startup_continued lo \<longrightarrow> lo_startup_armed lo)
     \<and> (lo_startup_armed lo \<longrightarrow> lo_proxy_armed lo \<and> st_startup (ex_stages x) \<noteq> None
          \<and> (\<forall>s. st_proxy (ex_stages x) = Some s \<longrightarrow> pg_startup_address (lo_seen lo) = pg_proxy_base (lo_seen lo) + iat_target_rva s))
     \<and> (\<forall>l. lo_late lo = Some l \<longrightarrow> lo_startup_armed lo \<and> recipes_present (ex_stages x) (la_stop l))"

definition ready :: "'c trial \<Rightarrow> 'c looping \<Rightarrow> bool" where
  "ready x lo \<longleftrightarrow> state_sound x lo \<and> lo_threads lo \<le> limit_threads (ex_limits x) \<and> list_all (\<lambda>m. om_mapping m \<noteq> 0) (pg_modules (lo_seen lo))
     \<and> l_last_event (pg_mappings (lo_seen lo)) \<le> lo_events lo \<and> steps_in_order x lo"

text \<open>With an event at hand: its file is still open.\<close>

definition event_at_hand :: "'c trial \<Rightarrow> debug_event \<Rightarrow> 'c looping \<Rightarrow> bool" where
  "event_at_hand x e lo \<longleftrightarrow> ready x (closed_file e lo)
     \<and> (lo_proxy_armed lo \<longrightarrow> lo_proxy_continued lo) \<and> (lo_startup_armed lo \<longrightarrow> lo_startup_continued lo)"

section \<open>Verdicts\<close>

definition stopped_at :: "'c trial \<Rightarrow> 'c looping \<Rightarrow> u32 \<Rightarrow> thread_context \<Rightarrow> bool" where
  "stopped_at x lo a c \<longleftrightarrow> host_get (now_host x lo) (lo_context lo) = Some c \<and> c_eip c = a \<and> c_dr c ! 0 = a \<and> c_dr c ! 4 AND 0xe00f = 1"

text \<open>The active mapping of the pinned proxy, its thunk intact.\<close>

definition proxy_in_place :: "'c trial \<Rightarrow> proxy_stop_spec \<Rightarrow> 'c looping \<Rightarrow> bool" where
  "proxy_in_place x s lo \<longleftrightarrow> st_proxy (ex_stages x) = Some s \<and> proxy_shape (now_os x lo) s (lo_seen lo)
     \<and> (\<exists>m i. m \<in> set (pg_modules (lo_seen lo)) \<and> module_active (lo_seen lo) m \<and> om_base m = pg_proxy_base (lo_seen lo)
          \<and> pin_identity (pin_files x (proxy_module s)) = Some i \<and> matches_file (om_file m) i)"

definition entry_seen :: "'c trial \<Rightarrow> 'c looping \<Rightarrow> bool" where
  "entry_seen x lo \<longleftrightarrow> (\<exists>e c. st_entry (ex_stages x) = Some e \<and> st_proxy (ex_stages x) = None
     \<and> stopped_at x lo (child_base (lo_child lo) + stop_entry_rva e) c \<and> copy_now x lo (stop_entry_rva e) 16 = Some (entry_expected e))"

definition proxy_seen :: "'c trial \<Rightarrow> 'c looping \<Rightarrow> bool" where
  "proxy_seen x lo \<longleftrightarrow> (\<exists>e s c. st_entry (ex_stages x) = Some e \<and> st_startup (ex_stages x) = None \<and> proxy_in_place x s lo
     \<and> stopped_at x lo (proxy_return_address s lo) c \<and> copy_now x lo (stop_entry_rva e) 16 = Some (entry_expected e)
     \<and> image_word x lo (iat_rva s) = Some (pg_proxy_base (lo_seen lo) + iat_target_rva s))"

definition startup_seen :: "'c trial \<Rightarrow> 'c looping \<Rightarrow> bool" where
  "startup_seen x lo \<longleftrightarrow> (\<exists>s u c stack got buffer call. st_codec (ex_stages x) = None \<and> st_startup (ex_stages x) = Some u \<and> proxy_in_place x s lo
     \<and> stopped_at x lo (pg_proxy_base (lo_seen lo) + iat_target_rva s) c
     \<and> image_word x lo (iat_rva s) = Some (pg_proxy_base (lo_seen lo) + iat_target_rva s)
     \<and> c_dr c ! 1 = child_base (lo_child lo) + iat_rva s \<and> c_dr c ! 4 AND 2 = 0
     \<and> query_region (now_os x lo) (c_esp c) = Some stack \<and> read_process (now_os x lo) (c_esp c) 8 = (True, got, buffer)
     \<and> (let ret = get_word (map buffer [0..<8]) 0 in
         read_image (now_os x lo) (child_base (lo_child lo)) (ret - child_base (lo_child lo) - 6) 6 True = Some call
         \<and> take 2 call = [0xff, 0x15] \<and> get_word call 2 = child_base (lo_child lo) + iat_rva s)
     \<and> startup_argument_valid (now_os x lo) stack (get_word (map buffer [0..<8]) 4))"

text \<open>
  A report behind the startup call: the thread is stopped at the address the last stop of the stage was set to, with the guards in place, and the
  stop's own decision on the child as it is now is the report. After the suppression the thread is put back in front of the call.
\<close>

definition guards_hold :: "stop_guards \<Rightarrow> thread_context \<Rightarrow> bool" where
  "guards_hold g c \<longleftrightarrow> Some (c_dr c ! 1) = gu_slot g \<and> c_dr c ! 5 AND 0xffff20ff = guard_control g
     \<and> (gu_plugin g \<noteq> None \<longrightarrow> Some (c_dr c ! 2) = map_option fst (gu_plugin g)) \<and> (gu_branch g \<noteq> None \<longrightarrow> Some (c_dr c ! 3) = gu_branch g)"

definition thread_restored :: "'c trial \<Rightarrow> 'c looping \<Rightarrow> suppression_transaction \<Rightarrow> bool" where
  "thread_restored x lo t \<longleftrightarrow> fst (windows_read (host_get (now_host x lo)) (lo_context lo))
     = Some ((original t)\<lparr>r_debug := (r_debug (original t))[4 := 0]\<rparr>)"

definition late_seen :: "'c trial \<Rightarrow> string \<Rightarrow> 'c looping \<Rightarrow> bool" where
  "late_seen x reason lo \<longleftrightarrow> (\<exists>l. lo_late lo = Some l \<and> stage_report (la_stop l) = reason \<and> recipes_present (ex_stages x) (la_stop l)
     \<and> (if la_stop l = Suppressed then thread_restored x lo (la_transaction l)
        else \<exists>c p before. stopped_at x lo (la_address l) c \<and> guards_hold (late_guards x lo (la_stop l)) c
          \<and> la_stop before = la_stop l \<and> late_stop (site_now x lo) c p before = Report reason (lo_seen lo) l))"

definition verdict_true :: "'c trial \<Rightarrow> ending \<Rightarrow> 'c looping \<Rightarrow> bool" where
  "verdict_true x v lo \<longleftrightarrow> v \<noteq> Null_recipe \<and> v \<noteq> Verdict ''loader_mapping_history_mismatch''
     \<and> (v = Verdict ''entry_boundary_reached'' \<longrightarrow> entry_seen x lo) \<and> (v = Verdict ''proxy_return_verified'' \<longrightarrow> proxy_seen x lo)
     \<and> (v = Verdict ''startup_call_verified'' \<longrightarrow> startup_seen x lo)
     \<and> (\<forall>s. v = Verdict (stage_report s) \<and> stage_report s \<noteq> [] \<longrightarrow> late_seen x (stage_report s) lo)"

definition turn_sound :: "'c trial \<Rightarrow> 'c turn \<Rightarrow> bool" where
  "turn_sound x t \<longleftrightarrow> (case t of More lo \<Rightarrow> ready x lo | End v lo \<Rightarrow> state_sound x lo \<and> verdict_true x v lo)"

lemma turn_sound_simps [simp]:
  "turn_sound x (More lo) = ready x lo"
  "turn_sound x (End Beyond lo) = state_sound x lo"
  "turn_sound x (reject r lo) \<longleftrightarrow> state_sound x lo \<and> verdict_true x (Verdict r) lo"
  by (simp_all add: turn_sound_def reject_def verdict_true_def)

text \<open>A reason that is none of the verdicts, and the reasons that are.\<close>

lemma stage_report_in: "stage_report s \<noteq> [] \<Longrightarrow> stage_report s \<in> final_reports"
  by (cases s) (simp_all add: stage_report_def final_reports_def split: if_splits)

lemma stage_report_other:
  "stage_report s \<notin> {''entry_boundary_reached'', ''proxy_return_verified'', ''startup_call_verified'', ''loader_mapping_history_mismatch''}"
  by (cases s) (simp_all add: stage_report_def)

lemma stage_report_final:
  "stage_report s \<noteq> [] \<Longrightarrow> stage_report s \<in> final_reports" "[] \<notin> final_reports"
  "stage_report s \<noteq> ''entry_boundary_reached''" "stage_report s \<noteq> ''proxy_return_verified''" "stage_report s \<noteq> ''startup_call_verified''"
  "stage_report s \<noteq> ''loader_mapping_history_mismatch''"
  using stage_report_in[of s] stage_report_other[of s] by (simp_all add: final_reports_def)

lemma not_final_verdict: "r \<notin> final_reports \<Longrightarrow> verdict_true x (Verdict r) lo"
  using stage_report_final by (auto simp: verdict_true_def final_reports_def)

lemmas other_verdict = not_final_verdict final_literal

lemma early_verdicts:
  "verdict_true x (Verdict ''entry_boundary_reached'') lo = entry_seen x lo"
  "verdict_true x (Verdict ''proxy_return_verified'') lo = proxy_seen x lo"
  "verdict_true x (Verdict ''startup_call_verified'') lo = startup_seen x lo"
  using stage_report_final(3-5) by (fastforce simp: verdict_true_def)+

lemma late_verdict:
  assumes "stage_report s \<noteq> []"
  shows "verdict_true x (Verdict (stage_report s)) lo = late_seen x (stage_report s) lo"
  using assms stage_report_final(3-6)[of s] by (auto simp: verdict_true_def)

lemma ready_sound: "ready x lo \<Longrightarrow> state_sound x lo"
  by (simp add: ready_def)

lemma mapping_errors:
  "t_error (fst (admit b e l)) \<notin> final_reports" "t_error (fst (retire b e l)) \<notin> final_reports"
  by (simp_all add: admit_def retire_def ledger_validate_def Let_def stage_report_final(2) final_literal split: option.splits prod.splits)

section \<open>Events that are not stops\<close>

text \<open>Closing the file first changes nothing of the rest of a load.\<close>

lemma closed_file_moves:
  "closed_file e (add_module m lo) = add_module m (closed_file e lo)"
  "closed_file e (lo\<lparr>lo_charged := n\<rparr>) = closed_file e lo\<lparr>lo_charged := n\<rparr>"
  by (simp_all add: closed_file_def add_module_def)

lemma sound_add_unknown:
  assumes "state_sound x lo" and "om_mapping m = 0" and "length (pg_modules (lo_seen lo)) < unat (limit_modules (ex_limits x))"
  shows "state_sound x (add_module m lo)"
  using assms by (simp add: state_sound_def modules_known_def within_budget_def add_module_def)

lemma unat_of_length:
  fixes k k' :: u32
  assumes "of_nat n < k" and "n \<le> unat k'"
  shows "n < unat k"
proof -
  have "unat k' < 2 ^ 32" by (rule order_less_le_trans[OF unsigned_less]) simp
  then have "unat (of_nat n :: u32) = n" using assms(2) by (intro unat_small) simp
  then show ?thesis using assms(1) by (simp add: word_less_nat_alt)
qed

lemma add_below:
  assumes "w \<le> k - c" and "c \<le> (k::u64)"
  shows "c + w \<le> k"
proof -
  have "unat k < 2 ^ 64" by (rule order_less_le_trans[OF unsigned_less]) simp
  moreover have "unat c + unat w \<le> unat k" using assms by (simp add: word_le_nat_alt unat_sub)
  ultimately show ?thesis by (simp add: word_le_nat_alt unat_word_ariths)
qed

lemma charged_below:
  assumes "n > 0" "nat n \<le> unat (k - c)" "c \<le> (k::u64)"
  shows "c + word_of_int n \<le> k"
proof -
  have "unat (k - c) < 2 ^ 64" by (rule order_less_le_trans[OF unsigned_less]) simp
  then have "n < 2 ^ 64" using assms(1,2) by simp
  then have "unat (word_of_int n :: u64) = nat n" using assms(1) by (simp add: unat_eq_nat_uint uint_word_of_int)
  then show ?thesis using assms(2,3) by (intro add_below) (simp_all add: word_le_nat_alt)
qed

lemma issued_nonzero: "ledger_inv l \<Longrightarrow> 0 \<notin> set (ledger_issued l)"
proof
  assume inv: "ledger_inv l" and "0 \<in> set (ledger_issued l)"
  then obtain i where i: "i < length (l_history l)" "m_id (l_history l ! i) = 0" by (auto simp: ledger_issued_def in_set_conv_nth)
  then have "word_of_nat (Suc i) = (0::u32)" "Suc i \<le> 64" using inv by (auto simp: ledger_inv_def)
  then show False using unat_small[of "Suc i"] by simp
qed

lemma retire_issued: "retire base event l = (t, l') \<Longrightarrow> ledger_issued l' = ledger_issued l"
  by (auto simp: retire_def ledger_issued_def Let_def dest!: retire_first_Some split: if_splits option.splits)
    (simp add: map_update list_update_same_conv)

lemma retired_known:
  assumes "retire base event l = (t, l')" and "t_error t = []"
  shows "t_mapping_id t \<in> set (ledger_issued l)" "l_last_event l' = event"
  using assms by (auto simp: retire_def ledger_issued_def Let_def dest!: retire_first_Some split: if_splits option.splits)

lemma admitted_issued:
  assumes "admit base event l = (t, l')" and "t_error t = []"
  shows "ledger_issued l' = ledger_issued l @ [t_mapping_id t]" "l_last_event l' = event"
  using admit_success[of base event l] assms by (auto simp: ledger_issued_def)

lemma steps_more_modules:
  assumes "steps_in_order x lo" and "pg_modules p = pg_modules (lo_seen lo) @ ms" "pg_proxy_mapping p = pg_proxy_mapping (lo_seen lo)"
    "pg_proxy_base p = pg_proxy_base (lo_seen lo)" "pg_entry_address p = pg_entry_address (lo_seen lo)"
    "pg_startup_address p = pg_startup_address (lo_seen lo)"
  shows "steps_in_order x (lo\<lparr>lo_seen := p\<rparr>)"
proof -
  have "proxy_pinned x lo \<Longrightarrow> proxy_pinned x (lo\<lparr>lo_seen := p\<rparr>)" using assms(2-) by (auto simp: proxy_pinned_def)
  then show ?thesis using assms by (auto simp: steps_in_order_def)
qed

lemma ready_admit:
  assumes r: "ready x lo" and t: "admit base (lo_events lo) (pg_mappings (lo_seen lo)) = (t, l)" "t_error t = []"
    and m: "om_mapping m = t_mapping_id t" "om_admitted m" "is_pinned x (om_file m)"
    and room: "length (pg_modules (lo_seen lo)) < unat (limit_modules (ex_limits x))"
  shows "ready x (add_module m (lo\<lparr>lo_seen := (lo_seen lo)\<lparr>pg_mappings := l\<rparr>\<rparr>))"
proof -
  let ?p = "(lo_seen lo)\<lparr>pg_mappings := l, pg_modules := pg_modules (lo_seen lo) @ [m]\<rparr>"
  have inv: "ledger_inv l" using admit_inv[of "pg_mappings (lo_seen lo)" base "lo_events lo"] r t(1) by (simp add: ready_def state_sound_def)
  then have nz: "om_mapping m \<noteq> 0" using issued_nonzero[OF inv] admitted_issued(1)[OF t] m(1) by auto
  have "steps_in_order x (lo\<lparr>lo_seen := ?p\<rparr>)"
    by (rule steps_more_modules[where ms = "[m]"]) (use r in \<open>simp_all add: ready_def\<close>)
  moreover have "add_module m (lo\<lparr>lo_seen := (lo_seen lo)\<lparr>pg_mappings := l\<rparr>\<rparr>) = lo\<lparr>lo_seen := ?p\<rparr>" by (simp add: add_module_def)
  ultimately show ?thesis using r inv nz m room admitted_issued[OF t]
    by (simp add: ready_def state_sound_def modules_known_def within_budget_def Let_def)
qed

lemma ready_retire:
  assumes r: "ready x lo" and t: "retire base (lo_events lo) (pg_mappings (lo_seen lo)) = (t, l)" "t_error t = []"
  shows "ready x (lo\<lparr>lo_seen := (lo_seen lo)\<lparr>pg_mappings := l\<rparr>\<rparr>)"
proof -
  have inv: "ledger_inv l" using retire_inv[of "pg_mappings (lo_seen lo)" base "lo_events lo"] r t(1) by (simp add: ready_def state_sound_def)
  have "steps_in_order x (lo\<lparr>lo_seen := (lo_seen lo)\<lparr>pg_mappings := l\<rparr>\<rparr>)"
    by (rule steps_more_modules[where ms = "[]"]) (use r in \<open>simp_all add: ready_def\<close>)
  then show ?thesis using r inv retire_issued[OF t(1)] retired_known(2)[OF t]
    by (simp add: ready_def state_sound_def modules_known_def within_budget_def Let_def)
qed

lemma ready_charged:
  "ready x lo \<Longrightarrow> n \<le> limit_bytes (ex_limits x) \<Longrightarrow> ready x (lo\<lparr>lo_charged := n\<rparr>)"
  by (simp add: ready_def state_sound_def modules_known_def within_budget_def steps_in_order_def proxy_pinned_def)

lemma sound_admit_refused:
  assumes "admit base event (pg_mappings (lo_seen lo)) = (t, l)" and "t_error t \<noteq> []"
  shows "lo\<lparr>lo_seen := (lo_seen lo)\<lparr>pg_mappings := l\<rparr>\<rparr> = lo"
  using admit_failure[of base event "pg_mappings (lo_seen lo)"] assms by simp

lemma sound_retire_refused:
  assumes "retire base event (pg_mappings (lo_seen lo)) = (t, l)" and "t_error t \<noteq> []"
  shows "lo\<lparr>lo_seen := (lo_seen lo)\<lparr>pg_mappings := l\<rparr>\<rparr> = lo"
  using retire_failure[of base event "pg_mappings (lo_seen lo)"] assms by simp

lemma on_load_sound:
  assumes "ready x (closed_file e lo)"
  shows "turn_sound x (on_load x e lo)"
proof -
  let ?lo = "closed_file e lo"
  let ?charged = "\<lambda>n. ?lo\<lparr>lo_charged := lo_charged lo + word_of_int n\<rparr>"
  note s = ready_sound[OF assms]
  have few: "length (pg_modules (lo_seen lo)) \<le> unat (limit_modules (ex_limits x))" and paid: "lo_charged lo \<le> limit_bytes (ex_limits x)"
    using s by (simp_all add: state_sound_def within_budget_def)
  show ?thesis
  proof (cases "of_nat (length (pg_modules (lo_seen lo))) \<ge> limit_modules (ex_limits x)")
    case True
    then show ?thesis using s by (simp add: on_load_def Let_def other_verdict)
  next
    case open_room: False
    then have room: "length (pg_modules (lo_seen lo)) < unat (limit_modules (ex_limits x))" using unat_of_length[OF _ few] by simp
    have unknown: "state_sound x (add_module m lo1)" if "om_mapping m = 0" "ready x lo1" "pg_modules (lo_seen lo1) = pg_modules (lo_seen lo)" for m lo1
      using sound_add_unknown[OF ready_sound[OF that(2)] that(1)] room that(3) by simp
    have budget: "ready x (?charged n)" if "n > 0" "nat n \<le> unat (limit_bytes (ex_limits x) - lo_charged lo)" for n
      by (rule ready_charged[OF assms charged_below[OF that paid]])
    have admitted: "turn_sound x (if t_error t \<noteq> [] then reject (t_error t) (add_module (m\<lparr>om_mapping := 0\<rparr>) (lo1\<lparr>lo_seen := (lo_seen lo1)\<lparr>pg_mappings := l\<rparr>\<rparr>))
        else let lo3 = add_module (m\<lparr>om_mapping := t_mapping_id t\<rparr>) (lo1\<lparr>lo_seen := (lo_seen lo1)\<lparr>pg_mappings := l\<rparr>\<rparr>) in
          if loads_barred lo3 then reject ''binding_unexpected_load'' lo3 else More lo3)"
      if a: "admit base (lo_events lo1) (pg_mappings (lo_seen lo1)) = (t, l)" and m: "om_admitted m" "is_pinned x (om_file m)"
        and lo1: "ready x lo1" "pg_modules (lo_seen lo1) = pg_modules (lo_seen lo)" for base t l m lo1
    proof (cases "t_error t = []")
      case True
      then have "ready x (add_module (m\<lparr>om_mapping := t_mapping_id t\<rparr>) (lo1\<lparr>lo_seen := (lo_seen lo1)\<lparr>pg_mappings := l\<rparr>\<rparr>))"
        using ready_admit[OF lo1(1) a True, of "m\<lparr>om_mapping := t_mapping_id t\<rparr>"] m room lo1(2) by simp
      then show ?thesis using True by (simp add: Let_def other_verdict ready_sound)
    next
      case False
      have "t_error t = t_error (fst (admit base (lo_events lo1) (pg_mappings (lo_seen lo1))))" by (simp add: a)
      then have "verdict_true x (Verdict (t_error t)) lo2" for lo2 using not_final_verdict mapping_errors(1) by metis
      then show ?thesis using False unknown[OF _ lo1] by (simp add: sound_admit_refused[OF a False])
    qed
    let ?n = "if event_file e = 0 then None else file_length (files_now x lo) (event_file e)"
    show ?thesis
    proof (cases "\<exists>n. ?n = Some n \<and> n > 0 \<and> nat n \<le> unat (limit_bytes (ex_limits x) - lo_charged lo)")
      case False
      then show ?thesis using unknown[OF _ assms] open_room
        by (auto simp: on_load_def Let_def other_verdict closed_file_moves split: option.splits)
    next
      case True
      then obtain n where n: "?n = Some n" "n > 0" "nat n \<le> unat (limit_bytes (ex_limits x) - lo_charged lo)" by blast
      note b = budget[OF n(2,3)]
      let ?lo1 = "?charged n"
      note load = on_load_def Let_def other_verdict closed_file_moves
      show ?thesis
      proof (cases "inspect_loader_file (files_now x lo) (event_file e) max_loader_file_bytes")
        case None
        then show ?thesis using unknown[OF _ b] open_room n by (simp add: load)
      next
        case (Some i)
        obtain t l where t: "admit (event_image e) (lo_events lo) (pg_mappings (lo_seen lo)) = (t, l)" by fastforce
        then have "admit (event_image e) (lo_events ?lo1) (pg_mappings (lo_seen ?lo1)) = (t, l)" by simp
        note admitted[OF this _ _ b, of "\<lparr>om_file = i, om_base = event_image e, om_mapping = 0, om_admitted = True, om_event = lo_events lo\<rparr>"]
        then show ?thesis using unknown[OF _ b] open_room n Some t
          by (cases "is_pinned x i"; cases "t_error t = []") (simp_all add: load)
      qed
    qed
  qed
qed

lemma on_thread_sound:
  assumes "ready x lo"
  shows "turn_sound x (on_thread x lo)"
proof -
  have t: "lo_threads lo \<le> limit_threads (ex_limits x)" using assms by (simp add: ready_def)
  then have "unat (lo_threads lo + 1) \<le> unat (limit_threads (ex_limits x)) + 1"
    by (metis add.commute unatSuc eq_neg_iff_add_eq_0 word_le_nat_alt Suc_eq_plus1 Suc_le_mono le0 unat_0 add_0)
  then have "state_sound x (lo\<lparr>lo_threads := lo_threads lo + 1\<rparr>)"
    using assms by (simp add: ready_def state_sound_def within_budget_def)
  then show ?thesis using assms
    by (auto simp: on_thread_def Let_def other_verdict ready_def steps_in_order_def proxy_pinned_def)
qed

lemma on_unload_sound:
  assumes "ready x lo"
  shows "turn_sound x (on_unload x e lo)"
proof -
  obtain t l where t: "retire (event_image e) (lo_events lo) (pg_mappings (lo_seen lo)) = (t, l)" by fastforce
  show ?thesis
  proof (cases "t_error t = []")
    case False
    have "t_error t = t_error (fst (retire (event_image e) (lo_events lo) (pg_mappings (lo_seen lo))))" by (simp add: t)
    then have "verdict_true x (Verdict (t_error t)) lo" using not_final_verdict mapping_errors(2) by metis
    then show ?thesis using assms False by (simp add: on_unload_def t sound_retire_refused[OF t False] ready_sound)
  next
    case True
    let ?lo = "lo\<lparr>lo_seen := (lo_seen lo)\<lparr>pg_mappings := l\<rparr>\<rparr>"
    have r: "ready x ?lo" by (rule ready_retire[OF assms t True])
    have "t_mapping_id t \<in> set (ledger_issued (pg_mappings (lo_seen lo)))" by (rule retired_known(1)[OF t True])
    also have "\<dots> \<subseteq> om_mapping ` set (pg_modules (lo_seen lo))"
      using assms unfolding ready_def state_sound_def modules_known_def Let_def by (metis (no_types, lifting) filter_is_subset image_mono list.set_map)
    finally have "List.find (\<lambda>m. om_mapping m = t_mapping_id t) (pg_modules (lo_seen lo)) \<noteq> None" by (auto simp: find_None_iff)
    then show ?thesis using r True by (auto simp: on_unload_def t Let_def other_verdict ready_sound)
  qed
qed

lemma on_first_exception_sound:
  assumes "ready x lo"
  shows "turn_sound x (on_first_exception x e lo)"
proof -
  have "ready x (lo\<lparr>lo_candidate := c\<rparr>)" for c
    using assms by (simp add: ready_def state_sound_def within_budget_def steps_in_order_def proxy_pinned_def)
  then show ?thesis by (auto simp: on_first_exception_def Let_def other_verdict ready_sound split: option.splits)
qed

section \<open>Stops\<close>

lemma sound_context [simp]: "state_sound x (lo\<lparr>lo_context := st\<rparr>) = state_sound x lo"
  by (simp add: state_sound_def within_budget_def)

lemma set_stop_sound:
  assumes "state_sound x lo" and "\<And>st. ready x (armed (lo\<lparr>lo_context := st\<rparr>))"
    and "\<And>lo. verdict_true x (Verdict unwritten) lo" "\<And>lo. verdict_true x (Verdict differing) lo"
  shows "turn_sound x (set_stop x unwritten differing c dr expected armed lo)"
  using assms by (auto simp: set_stop_def Let_def split: prod.splits option.splits)

lemma stop_refusal_none:
  assumes "stop_refusal e c a g = []"
  shows "c_eip c = a" "c_dr c ! 0 = a" "c_dr c ! 4 AND 0xe00f = 1" "gu_slot g = Some slot \<Longrightarrow> c_dr c ! 1 = slot \<and> c_dr c ! 4 AND 2 = 0"
    "gu_slot g \<noteq> None \<Longrightarrow> guards_hold g c"
  using assms by (auto simp: stop_refusal_def guard_refusal_def guards_hold_def Let_def split: if_splits option.splits)

lemma plugin_guard_reason: "snd (plugin_guard rs p s) \<notin> final_reports"
  by (simp add: plugin_guard_def final_literal)

lemma if_not_final: "(b \<Longrightarrow> r \<notin> final_reports) \<Longrightarrow> (\<not> b \<Longrightarrow> r' \<notin> final_reports) \<Longrightarrow> (if b then r else r') \<notin> final_reports"
  by simp

lemma guard_refusal_reason:
  assumes "gu_plugin g = None \<or> snd (the (gu_plugin g)) \<notin> final_reports"
  shows "guard_refusal e c a g \<notin> final_reports"
proof (cases "gu_plugin g")
  case None
  show ?thesis unfolding guard_refusal_def Let_def by (intro if_not_final; simp add: None stage_report_final(2) final_literal)
next
  case (Some r)
  then have "snd r \<notin> final_reports" using assms by simp
  then show ?thesis unfolding guard_refusal_def Let_def by (intro if_not_final; simp add: Some stage_report_final(2) final_literal)
qed

lemma stop_refusal_reason:
  assumes "gu_plugin g = None \<or> snd (the (gu_plugin g)) \<notin> final_reports"
  shows "stop_refusal e c a g \<notin> final_reports"
  unfolding stop_refusal_def Let_def
  by (intro if_not_final; (rule guard_refusal_reason[OF assms] | simp add: stage_report_final(2) final_literal))

lemma stop_refusal_verdict:
  "verdict_true x (Verdict (stop_refusal e c a no_guards)) lo"
  "verdict_true x (Verdict (stop_refusal e c a (no_guards\<lparr>gu_slot := slot\<rparr>))) lo"
  "verdict_true x (Verdict (stop_refusal e c a (late_guards x' lo' l))) lo"
  by (rule not_final_verdict[OF stop_refusal_reason]; simp add: no_guards_def late_guards_def Let_def plugin_guard_reason)+

text \<open>A stop behind the startup call.\<close>

lemma ready_ground:
  assumes "ready x lo" "same_ground (lo_seen lo) q"
  shows "ready x (lo\<lparr>lo_seen := q\<rparr>)"
proof -
  have "steps_in_order x (lo\<lparr>lo_seen := q\<rparr>)"
    by (rule steps_more_modules[where ms = "[]"]) (use assms in \<open>simp_all add: ready_def same_ground_def\<close>)
  then show ?thesis using assms by (simp add: ready_def state_sound_def modules_known_def within_budget_def Let_def same_ground_def)
qed

lemma ready_late:
  "ready x lo \<Longrightarrow> lo_startup_armed lo \<Longrightarrow> recipes_present (ex_stages x) (la_stop l) \<Longrightarrow> ready x (lo\<lparr>lo_context := st, lo_late := Some l\<rparr>)"
  by (simp add: ready_def state_sound_def within_budget_def steps_in_order_def proxy_pinned_def)

lemma sound_late [simp]: "state_sound x (lo\<lparr>lo_late := l\<rparr>) = state_sound x lo"
  by (simp add: state_sound_def within_budget_def)

lemma settle_break_sound:
  assumes r: "ready x lo" "lo_startup_armed lo" and q: "same_ground (lo_seen lo) q" "recipes_present (ex_stages x) (la_stop l)"
    and reasons: "unwritten \<notin> final_reports" "differing \<notin> final_reports"
  shows "turn_sound x (settle x c (Break unwritten differing dr expected q l) lo)"
proof -
  note g = ready_ground[OF r(1) q(1)]
  have late: "ready x (lo\<lparr>lo_seen := q, lo_context := st, lo_late := Some l\<rparr>)" for st using ready_late[OF g _ q(2)] r(2) by simp
  show ?thesis unfolding settle_def by (simp, rule set_stop_sound) (use late ready_sound[OF g] reasons not_final_verdict in auto)
qed

lemma unsuppress_restores:
  assumes "unsuppress host t st = (True, st')"
  shows "fst (windows_read (host_get host) st') = Some ((original t)\<lparr>r_debug := (r_debug (original t))[4 := 0]\<rparr>)"
proof -
  obtain t1 where r: "suppression_restore (windows_read (host_get host)) (windows_write (host_set host)) t st = (True, t1, st')"
    using assms by (auto simp: unsuppress_def split: prod.splits)
  have "write_attempted t" "\<not> restore_attempted t" using r by (auto simp: suppression_restore_def split: if_splits)
  from windows_port.restore_result(5,7)[OF r this] show ?thesis by simp
qed

lemma settle_late_sound:
  assumes r: "ready x lo" "lo_startup_armed lo" "lo_late lo = Some l"
    and at: "stopped_at x lo (la_address l) c" "guards_hold (late_guards x lo (la_stop l)) c"
  shows "turn_sound x (settle x c (late_stop (site_now x lo) c (lo_seen lo) l) lo)"
proof -
  let ?v = "site_now x lo" and ?p = "lo_seen lo"
  have stages: "si_stages ?v = ex_stages x" and host: "si_host ?v = now_host x lo" by (simp_all add: site_now_def Let_def)
  have present: "recipes_present (ex_stages x) (la_stop l)" using r by (simp add: ready_def steps_in_order_def)
  then have d: "decision_sound (ex_stages x) ?p l (late_stop ?v c ?p l)" using late_stop_sound[of ?v l] stages by simp
  note sound = ready_sound[OF r(1)]
  show ?thesis
  proof (cases "late_stop ?v c ?p l")
    case (Deny reason)
    then show ?thesis using d sound by (simp add: settle_def not_final_verdict)
  next
    case (Report reason q l')
    then have q: "same_ground ?p q" "reports l reason l'" "la_stop l \<noteq> Suppressed" using d by simp_all
    have "late_seen x reason (lo\<lparr>lo_seen := q, lo_late := Some l'\<rparr>)" if "reason = stage_report (la_stop l')"
    proof -
      have "site_now x (lo\<lparr>lo_seen := q, lo_late := Some l'\<rparr>) = ?v" "late_guards x (lo\<lparr>lo_seen := q, lo_late := Some l'\<rparr>) (la_stop l) = late_guards x lo (la_stop l)"
        using q(1) by (simp_all add: site_now_def now_host_def files_now_def late_guards_def plugin_guard_def same_ground_def Let_def)
      then show ?thesis using that at present q(2,3) Report
        by (simp add: late_seen_def reports_def stopped_at_def now_host_def) metis
    qed
    then have "verdict_true x (Verdict reason) (lo\<lparr>lo_seen := q, lo_late := Some l'\<rparr>)"
      using q(2) not_final_verdict late_verdict stage_report_final(2) unfolding reports_def by metis
    then show ?thesis using Report ready_sound[OF ready_ground[OF r(1) q(1)]] by (simp add: settle_def)
  next
    case (Conclude bad reason f q l')
    then have q: "la_stop l = Suppressed" "bad \<notin> final_reports" "same_ground ?p q" "reports l reason l'" using d by simp_all
    have f: "f = unsuppress (si_host ?v) (la_transaction l')"
      using Conclude q(1) by (auto simp: late_stop_def at_suppressed_def Let_def split: if_splits option.splits)
    obtain ok st1 where u: "unsuppress (now_host x lo) (la_transaction l') (lo_context lo) = (ok, st1)" by fastforce
    let ?lo = "lo\<lparr>lo_context := st1, lo_seen := q, lo_late := Some l'\<rparr>"
    have "late_seen x reason ?lo" if "reason = stage_report (la_stop l')" ok
      using unsuppress_restores[of "now_host x lo" "la_transaction l'" "lo_context lo" st1] u that q(1,4) present
      by (auto simp: late_seen_def reports_def thread_restored_def now_host_def)
    then have "ok \<Longrightarrow> verdict_true x (Verdict reason) ?lo"
      using q(4) not_final_verdict late_verdict stage_report_final(2) unfolding reports_def by metis
    moreover have "state_sound x ?lo" using ready_sound[OF ready_ground[OF r(1) q(3)]] by (simp add: state_sound_def within_budget_def)
    ultimately show ?thesis using Conclude u f host q(2) by (simp add: settle_def not_final_verdict)
  next
    case (Break unwritten differing dr expected q l')
    then show ?thesis using d settle_break_sound[OF r(1,2), of q l' unwritten differing] by (simp add: follows_def)
  next
    case (Move reason f q)
    then have q: "reason \<notin> final_reports" "same_ground ?p q" "\<And>c st l' st'. f c st = (Some l', st') \<Longrightarrow> recipes_present (ex_stages x) (la_stop l')"
      using d by (auto simp: decision_sound_def follows_def)
    note g = ready_ground[OF r(1) q(2)]
    have moved: "ready x (lo\<lparr>lo_context := st1, lo_seen := q, lo_late := Some l'\<rparr>)" if "f c (lo_context lo) = (Some l', st1)" for l' st1
    proof -
      have order: "lo\<lparr>lo_context := st1, lo_seen := q, lo_late := Some l'\<rparr> = lo\<lparr>lo_seen := q, lo_context := st1, lo_late := Some l'\<rparr>" by simp
      have "lo_startup_armed (lo\<lparr>lo_seen := q\<rparr>)" using r(2) by simp
      then show ?thesis unfolding order by (rule ready_late[OF g _ q(3)[OF that]])
    qed
    have refused: "state_sound x (lo\<lparr>lo_context := st1, lo_seen := q\<rparr>)" for st1
      using ready_sound[OF g] by (simp add: state_sound_def within_budget_def)
    obtain answer st1 where a: "f c (lo_context lo) = (answer, st1)" by fastforce
    show ?thesis
    proof (cases answer)
      case None
      then show ?thesis using Move a refused q(1) by (simp add: settle_def not_final_verdict)
    next
      case (Some l')
      then have "settle x c (late_stop ?v c ?p l) lo = More (lo\<lparr>lo_context := st1, lo_seen := q, lo_late := Some l'\<rparr>)"
        using Move a by (simp add: settle_def)
      then show ?thesis using moved[of l' st1] a Some by (simp only: turn_sound_simps)
    qed
  next
    case Unfollowed
    then show ?thesis using sound by (simp add: settle_def)
  next
    case Null
    then show ?thesis using d by simp
  qed
qed

lemma proxy_in_place_pinned:
  assumes "proxy_pinned x lo" "st_proxy (ex_stages x) = Some s" "proxy_shape (now_os x lo) s (lo_seen lo)"
  shows "proxy_in_place x s lo"
  using assms by (fastforce simp: proxy_pinned_def proxy_in_place_def module_active_def proxy_shape_def Let_def split: if_splits)

lemma entry_stop_sound:
  assumes r: "ready x lo" "\<not> lo_proxy_armed lo" and s: "st_entry (ex_stages x) = Some s"
    and at: "stopped_at x lo (pg_entry_address (lo_seen lo)) c"
  shows "turn_sound x (entry_stop x s c lo)"
proof -
  note sound = ready_sound[OF r(1)]
  have steps: "steps_in_order x lo" using r(1) by (simp add: ready_def)
  have entry: "pg_entry_address (lo_seen lo) = child_base (lo_child lo) + stop_entry_rva s" using steps s by (simp add: steps_in_order_def)
  have seen: "entry_seen x lo" if "copy_now x lo (stop_entry_rva s) 16 = Some (entry_expected s)" "st_proxy (ex_stages x) = None"
    using s at that unfolding entry_seen_def entry by blast
  let ?lo1 = "\<lambda>m. lo\<lparr>lo_seen := (lo_seen lo)\<lparr>pg_proxy_mapping := om_mapping m, pg_proxy_base := om_base m\<rparr>\<rparr>"
  have recorded: "state_sound x (?lo1 m)" for m
    using sound by (simp add: state_sound_def modules_known_def within_budget_def Let_def)
  have armed: "ready x (?lo1 m\<lparr>lo_validated := True, lo_context := st, lo_proxy_armed := True\<rparr>)"
    if "proxy_modules x p lo = [m]" "st_proxy (ex_stages x) = Some p" for m p st
  proof -
    have "m \<in> set (proxy_modules x p lo)" using that(1) by simp
    then have "proxy_pinned x (?lo1 m\<lparr>lo_validated := True, lo_context := st, lo_proxy_armed := True\<rparr>)"
      using that(2) by (auto simp: proxy_modules_def proxy_pinned_def module_active_def split: option.splits)
    moreover have "\<not> lo_startup_armed lo" "lo_late lo = None" using steps r(2) by (auto simp: steps_in_order_def)
    ultimately show ?thesis using r(1) steps by (simp add: ready_def state_sound_def modules_known_def within_budget_def Let_def steps_in_order_def)
  qed
  show ?thesis
  proof (cases "st_proxy (ex_stages x)")
    case None
    then show ?thesis using sound seen by (simp add: entry_stop_def early_verdicts other_verdict split: option.split)
  next
    case (Some p)
    show ?thesis
    proof (cases "\<exists>m. proxy_modules x p lo = [m]")
      case True
      then obtain m where m: "proxy_modules x p lo = [m]" by blast
      have "turn_sound x (set_stop x ''proxy_breakpoint_write_failed'' ''proxy_breakpoint_arm_failed'' c dr expected
          (\<lambda>lo. lo\<lparr>lo_proxy_armed := True\<rparr>) (?lo1 m\<lparr>lo_validated := True\<rparr>))" for dr expected
        by (rule set_stop_sound)
          (use recorded[of m] armed[OF m Some] in \<open>simp_all add: other_verdict state_sound_def within_budget_def\<close>)
      then show ?thesis using Some m sound recorded[of m]
        by (simp add: entry_stop_def Let_def other_verdict split: option.split)
    next
      case False
      then show ?thesis using Some sound by (simp add: entry_stop_def other_verdict split: option.split list.split)
    qed
  qed
qed

lemma proxy_stop_sound:
  assumes r: "ready x lo" "lo_proxy_armed lo" "\<not> lo_startup_armed lo" and s: "st_entry (ex_stages x) = Some e" "st_proxy (ex_stages x) = Some s"
    and at: "stopped_at x lo (proxy_return_address s lo) c"
  shows "turn_sound x (proxy_stop x e s c lo)"
proof -
  note sound = ready_sound[OF r(1)]
  have steps: "steps_in_order x lo" using r(1) by (simp add: ready_def)
  have pinned: "proxy_pinned x lo" using steps r(2) by (simp add: steps_in_order_def)
  have seen: "proxy_seen x lo" if "copy_now x lo (stop_entry_rva e) 16 = Some (entry_expected e)" "st_startup (ex_stages x) = None"
    "proxy_shape (now_os x lo) s (lo_seen lo)" "image_word x lo (iat_rva s) = Some (pg_proxy_base (lo_seen lo) + iat_target_rva s)"
    using s at that proxy_in_place_pinned[OF pinned s(2)] unfolding proxy_seen_def by blast
  let ?lo1 = "lo\<lparr>lo_seen := (lo_seen lo)\<lparr>pg_startup_address := pg_proxy_base (lo_seen lo) + iat_target_rva s\<rparr>\<rparr>"
  have recorded: "state_sound x ?lo1" "state_sound x (?lo1\<lparr>lo_target_before := t\<rparr>)" for t
    using sound by (simp_all add: state_sound_def modules_known_def within_budget_def Let_def)
  have armed: "ready x (?lo1\<lparr>lo_target_before := t, lo_context := st, lo_startup_armed := True\<rparr>)" if "st_startup (ex_stages x) \<noteq> None" for t st
    using r(1,2) steps that s(2) recorded(2)[of t]
    by (simp add: ready_def state_sound_def modules_known_def within_budget_def Let_def steps_in_order_def proxy_pinned_def)
  have set: "turn_sound x (set_stop x ''startup_breakpoint_write_failed'' ''startup_breakpoint_arm_failed'' c dr expected
      (\<lambda>lo. lo\<lparr>lo_startup_armed := True\<rparr>) (?lo1\<lparr>lo_target_before := t\<rparr>))" if "st_startup (ex_stages x) \<noteq> None" for dr expected t
    by (rule set_stop_sound) (use recorded(2)[of t] armed[OF that] in \<open>simp_all add: other_verdict\<close>)
  show ?thesis
  proof (cases "proxy_shape (now_os x lo) s (lo_seen lo) \<and> copy_now x lo (stop_entry_rva e) 16 = Some (entry_expected e)
      \<and> image_word x lo (iat_rva s) = Some (pg_proxy_base (lo_seen lo) + iat_target_rva s)")
    case False
    then show ?thesis using sound by (auto simp: proxy_stop_def Let_def other_verdict split: option.splits)
  next
    case True
    then show ?thesis using sound seen set recorded
      by (cases "st_startup (ex_stages x)") (simp_all add: proxy_stop_def Let_def early_verdicts other_verdict split: option.split)
  qed
qed

lemma startup_stop_sound:
  assumes r: "ready x lo" "lo_startup_armed lo" and s: "st_startup (ex_stages x) = Some u" "st_proxy (ex_stages x) = Some s"
    and at: "stopped_at x lo (pg_startup_address (lo_seen lo)) c"
    and watch: "c_dr c ! 1 = child_base (lo_child lo) + iat_rva s" "c_dr c ! 4 AND 2 = 0"
  shows "turn_sound x (startup_stop x u s c lo)"
proof -
  note sound = ready_sound[OF r(1)]
  have "steps_in_order x lo" using r(1) by (simp add: ready_def)
  then have place: "pg_startup_address (lo_seen lo) = pg_proxy_base (lo_seen lo) + iat_target_rva s" and pinned: "proxy_pinned x lo"
    using r(2) s(2) by (simp_all add: steps_in_order_def)
  have seen: "startup_seen x lo"
    if "proxy_shape (now_os x lo) s (lo_seen lo)" "image_word x lo (iat_rva s) = Some (pg_startup_address (lo_seen lo))"
      "query_region (now_os x lo) (c_esp c) = Some stack" "read_process (now_os x lo) (c_esp c) 8 = (True, got, buffer)"
      "read_image (now_os x lo) (child_base (lo_child lo)) (get_word (map buffer [0..<8]) 0 - child_base (lo_child lo) - 6) 6 True = Some call"
      "call ! 0 = 0xff" "call ! 1 = 0x15" "get_word call 2 = child_base (lo_child lo) + iat_rva s"
      "startup_argument_valid (now_os x lo) stack (get_word (map buffer [0..<8]) 4)" "st_codec (ex_stages x) = None"
    for stack got buffer call
  proof -
    have "length call = 6" using that(5) by (auto simp: read_image_def Let_def split: option.splits if_splits prod.splits)
    then have "take 2 call = [0xff, 0x15]" using that(6,7) by (cases call) (auto simp: take_Cons' nth_Cons' hd_drop_conv_nth take_Suc_conv_app_nth)
    then show ?thesis unfolding startup_seen_def Let_def
      using s proxy_in_place_pinned[OF pinned s(2) that(1)] at place watch that by metis
  qed
  have codec: "turn_sound x (settle x c (at_codec_call (site_now x lo) k ret argument c (lo_seen lo)) lo)" if "st_codec (ex_stages x) = Some k" for k ret argument
  proof -
    have "si_stages (site_now x lo) = ex_stages x" by (simp add: site_now_def Let_def)
    then have b: "turn_sound x (settle x c (Break unwritten differing dr expected q l) lo)"
      if "at_codec_call (site_now x lo) k ret argument c (lo_seen lo) = Break unwritten differing dr expected q l" for unwritten differing dr expected q l
      using settle_break_sound[OF r] at_codec_call_sound[OF _ that] \<open>st_codec (ex_stages x) = Some k\<close> by simp
    have "settle x c (Deny reason) lo = reject reason lo" for reason by (simp add: settle_def)
    then show ?thesis using b sound
      by (auto simp: at_codec_call_def Let_def other_verdict split: option.splits if_splits)
  qed
  show ?thesis
  proof (cases "st_codec (ex_stages x)")
    case None
    show ?thesis
    proof (cases "startup_seen x lo")
      case True
      then show ?thesis using sound None by (simp add: startup_stop_def Let_def early_verdicts other_verdict split: option.split prod.split)
    next
      case False
      then show ?thesis using sound seen None
        by (auto simp: startup_stop_def Let_def other_verdict split: option.splits prod.splits)
    qed
  next
    case (Some k)
    then show ?thesis using sound codec[OF Some] by (simp add: startup_stop_def Let_def other_verdict split: option.split prod.split)
  qed
qed

lemma on_stop_sound:
  assumes r: "ready x lo" "lo_proxy_armed lo \<longrightarrow> lo_proxy_continued lo" "lo_startup_armed lo \<longrightarrow> lo_startup_continued lo"
    and s: "st_entry (ex_stages x) = Some s"
  shows "turn_sound x (on_stop x e s lo)"
proof -
  note sound = ready_sound[OF r(1)]
  have steps: "steps_in_order x lo" using r(1) by (simp add: ready_def)
  have at: "stopped_at x lo a c" if "stop_refusal e c a w = []" "host_get (now_host x lo) (lo_context lo) = Some c" for a c w
    using stop_refusal_none(1-3)[OF that(1)] that(2) by (simp add: stopped_at_def)
  show ?thesis
  proof (cases "event_exception e \<noteq> EXCEPTION_SINGLE_STEP \<or> \<not> event_first_chance e \<or> event_thread e \<noteq> host_thread_id (now_host x lo)
      \<or> host_get (now_host x lo) (lo_context lo) = None")
    case True
    then show ?thesis using sound by (auto simp: on_stop_def other_verdict split: option.split)
  next
    case False
    then obtain c where c: "host_get (now_host x lo) (lo_context lo) = Some c" by blast
    show ?thesis
    proof (cases "lo_startup_continued lo")
      case True
      then have armed: "lo_startup_armed lo" using steps by (simp add: steps_in_order_def)
      then obtain u p i m where p: "st_startup (ex_stages x) = Some u" "st_proxy (ex_stages x) = Some p"
        using steps by (auto simp: steps_in_order_def proxy_pinned_def)
      let ?g = "no_guards\<lparr>gu_slot := Some (child_base (lo_child lo) + iat_rva p)\<rparr>"
      have first: "turn_sound x (startup_stop x u p c lo)" if "stop_refusal e c (pg_startup_address (lo_seen lo)) ?g = []"
        by (rule startup_stop_sound[OF r(1) armed p at[OF that c]]) (use stop_refusal_none(4)[OF that] in simp_all)
      have late: "turn_sound x (on_late_stop x e c l lo)" if "lo_late lo = Some l" for l
      proof (cases "stop_refusal e c (la_address l) (late_guards x lo (la_stop l)) = []")
        case True
        have "gu_slot (late_guards x lo (la_stop l)) \<noteq> None" by (simp add: late_guards_def Let_def)
        from settle_late_sound[OF r(1) armed that at[OF True c] stop_refusal_none(5)[OF True this]]
        show ?thesis using True steps that by (simp add: on_late_stop_def steps_in_order_def)
      next
        case False
        then show ?thesis using steps that sound by (simp add: on_late_stop_def steps_in_order_def Let_def stop_refusal_verdict)
      qed
      show ?thesis using True False c p sound first late by (simp add: on_stop_def Let_def stop_refusal_verdict split: option.split)
    next
      case later: False
      show ?thesis
      proof (cases "lo_proxy_continued lo")
        case True
        then have armed: "lo_proxy_armed lo" using steps by (simp add: steps_in_order_def)
        then obtain p where p: "st_proxy (ex_stages x) = Some p" using steps by (auto simp: steps_in_order_def proxy_pinned_def)
        have "turn_sound x (proxy_stop x s p c lo)" if "stop_refusal e c (proxy_return_address p lo) no_guards = []"
          by (rule proxy_stop_sound[OF r(1) armed _ s p at[OF that c]]) (use r(3) later in simp)
        then show ?thesis using True False later c p sound by (simp add: on_stop_def Let_def stop_refusal_verdict)
      next
        case before: False
        have "turn_sound x (entry_stop x s c lo)" if "stop_refusal e c (pg_entry_address (lo_seen lo)) no_guards = []"
          by (rule entry_stop_sound[OF r(1) _ s at[OF that c]]) (use r(2) before in simp)
        then show ?thesis using False later before c sound by (simp add: on_stop_def Let_def stop_refusal_verdict)
      qed
    qed
  qed
qed

section \<open>A turn\<close>

lemma closed_file_none: "\<not> event_has_file e \<Longrightarrow> closed_file e lo = lo"
  by (simp add: closed_file_def close_event_file_def)

lemma on_event_sound:
  assumes "event_at_hand x e lo"
  shows "turn_sound x (on_event x e lo)"
proof -
  note r = assms[unfolded event_at_hand_def]
  have codes: "UNLOAD_DLL_DEBUG_EVENT \<noteq> LOAD_DLL_DEBUG_EVENT" "UNLOAD_DLL_DEBUG_EVENT \<noteq> CREATE_PROCESS_DEBUG_EVENT"
      "CREATE_THREAD_DEBUG_EVENT \<noteq> LOAD_DLL_DEBUG_EVENT" "CREATE_THREAD_DEBUG_EVENT \<noteq> CREATE_PROCESS_DEBUG_EVENT"
      "EXCEPTION_DEBUG_EVENT \<noteq> LOAD_DLL_DEBUG_EVENT" "EXCEPTION_DEBUG_EVENT \<noteq> CREATE_PROCESS_DEBUG_EVENT"
      "EXIT_PROCESS_DEBUG_EVENT \<noteq> LOAD_DLL_DEBUG_EVENT" "EXIT_PROCESS_DEBUG_EVENT \<noteq> CREATE_PROCESS_DEBUG_EVENT"
    by (simp_all add: UNLOAD_DLL_DEBUG_EVENT_def LOAD_DLL_DEBUG_EVENT_def CREATE_PROCESS_DEBUG_EVENT_def CREATE_THREAD_DEBUG_EVENT_def
        EXCEPTION_DEBUG_EVENT_def EXIT_PROCESS_DEBUG_EVENT_def)
  have plain: "ready x lo" if "\<not> event_has_file e" using r by (simp add: closed_file_none[OF that])
  have gone: "state_sound x (lo\<lparr>lo_child := (lo_child lo)\<lparr>child_exit_seen := True\<rparr>\<rparr>)" if "ready x lo"
    using that by (simp add: ready_def state_sound_def within_budget_def)
  consider "event_code e = LOAD_DLL_DEBUG_EVENT" | "event_code e \<noteq> LOAD_DLL_DEBUG_EVENT" "\<not> event_has_file e"
    | "event_code e = CREATE_PROCESS_DEBUG_EVENT" by (auto simp: event_has_file_def)
  then show ?thesis
  proof cases
    case 1
    then show ?thesis using r by (simp add: on_event_def on_load_sound)
  next
    case 2
    note here = plain[OF 2(2)]
    show ?thesis using 2(1) here r on_unload_sound[OF here] on_thread_sound[OF here] on_first_exception_sound[OF here] on_stop_sound[OF here]
        gone[OF here] ready_sound[OF here] by (simp add: on_event_def other_verdict closed_file_none[OF 2(2)] split: option.split)
  next
    case 3
    have "CREATE_PROCESS_DEBUG_EVENT \<noteq> LOAD_DLL_DEBUG_EVENT" by (simp add: CREATE_PROCESS_DEBUG_EVENT_def LOAD_DLL_DEBUG_EVENT_def)
    then show ?thesis using 3 codes conjunct1[OF r, THEN ready_sound] by (simp add: on_event_def other_verdict)
  qed
qed

lemma ready_child:
  "ready x lo \<Longrightarrow> owned s \<Longrightarrow> child_base s = child_base (lo_child lo) \<Longrightarrow> ready x (lo\<lparr>lo_child := s\<rparr>)"
  by (simp add: ready_def state_sound_def within_budget_def steps_in_order_def proxy_pinned_def)

lemma ready_event:
  assumes "ready x lo" "lo_events lo < limit_events (ex_limits x)"
  shows "ready x (lo\<lparr>lo_events := lo_events lo + 1\<rparr>)"
proof -
  have "unat (lo_events lo + 1) = Suc (unat (lo_events lo))" by (rule unat_suc_below[OF assms(2)])
  then show ?thesis using assms
    by (simp add: ready_def state_sound_def within_budget_def steps_in_order_def proxy_pinned_def word_le_nat_alt word_less_nat_alt)
qed

lemma account_wait_base:
  "wait_debug_event os timeout s = (answer, s') \<Longrightarrow> child_base s' = child_base s"
  "read_clock os s = (now, s') \<Longrightarrow> child_base s' = child_base s"
  "continue_debug_event os status s = (ok, s') \<Longrightarrow> child_base s' = child_base s"
  by (auto simp: call_defs Let_def)

lemma take_event_sound:
  assumes r: "ready x lo" "lo_proxy_armed lo \<longrightarrow> lo_proxy_continued lo" "lo_startup_armed lo \<longrightarrow> lo_startup_continued lo"
    and s: "owned (close_event_file e s)" "child_base s = child_base (lo_child lo)"
  shows "turn_sound x (take_event x e (lo\<lparr>lo_child := s\<rparr>))"
proof -
  have base: "child_base (close_event_file e t) = child_base t" for t by (simp add: call_defs)
  have closed: "ready x (closed_file e (lo\<lparr>lo_child := s\<rparr>))"
    using ready_child[OF r(1) s(1)] s(2) by (simp add: closed_file_def base)
  have "close_event_file e (s\<lparr>child_pending := True, child_pending_thread := t\<rparr>) = close_event_file e s\<lparr>child_pending := True, child_pending_thread := t\<rparr>" for t
    by (simp add: call_defs)
  then have "ready x (closed_file e (lo\<lparr>lo_child := s\<lparr>child_pending := True, child_pending_thread := event_thread e\<rparr>\<rparr>))"
    using ready_child[OF r(1), of "close_event_file e s\<lparr>child_pending := True, child_pending_thread := event_thread e\<rparr>"] s
    by (simp add: closed_file_def base)
  then show ?thesis using r(2,3) ready_sound[OF closed] by (simp add: take_event_def other_verdict on_event_sound event_at_hand_def)
qed

lemma update_order: "lo\<lparr>lo_child := s, lo_events := n\<rparr> = lo\<lparr>lo_events := n, lo_child := s\<rparr>"
  by simp

lemma loader_turn_sound:
  assumes r: "ready x lo"
  shows "turn_sound x (loader_turn x deadline lo)"
proof (cases "lo_events lo \<ge> limit_events (ex_limits x)")
  case True
  then show ?thesis using ready_sound[OF r] by (simp add: loader_turn_def other_verdict)
next
  case False
  then have less_events: "lo_events lo < limit_events (ex_limits x)" by simp
  have a: "owned (lo_child lo)" using r by (simp add: ready_def state_sound_def)
  obtain now s1 where clock: "read_clock (now_os x lo) (lo_child lo) = (now, s1)" by fastforce
  obtain ok s2 where go: "continue_debug_event (now_os x lo) DBG_CONTINUE s1 = (ok, s2)" by fastforce
  have s1: "owned s1" "child_base s1 = child_base (lo_child lo)" using a owned_calls(1)[OF clock] account_wait_base(2)[OF clock] by simp_all
  have s2: "owned s2" "child_base s2 = child_base (lo_child lo)" using owned_calls(2)[OF go] account_wait_base(3)[OF go] s1 by simp_all
  let ?lo = "continued x (lo\<lparr>lo_child := s2\<rparr>)"
  have c: "ready x ?lo" "lo_proxy_armed ?lo \<longrightarrow> lo_proxy_continued ?lo" "lo_startup_armed ?lo \<longrightarrow> lo_startup_continued ?lo"
    using r s2 by (auto simp: continued_def ready_def state_sound_def within_budget_def steps_in_order_def proxy_pinned_def)
  have ev: "lo_events ?lo = lo_events lo" "child_base (lo_child ?lo) = child_base (lo_child lo)" "owned (lo_child ?lo)"
    using s2 by (simp_all add: continued_def)
  obtain now' s3 where clock': "read_clock (now_os x ?lo) (lo_child ?lo) = (now', s3)" by fastforce
  have s3: "owned s3" "child_base s3 = child_base (lo_child ?lo)"
    using ev(3) owned_calls(1)[OF clock'] account_wait_base(2)[OF clock'] by simp_all
  obtain answer s4 where wait: "wait_debug_event (now_os x ?lo) (ucast (deadline - now')) s3 = (answer, s4)" by fastforce
  have s4: "child_base s4 = child_base (lo_child ?lo)" "case answer of Delivered e \<Rightarrow> owned (close_event_file e s4) | _ \<Rightarrow> owned s4"
    using account_wait_base(1)[OF wait] owned_calls(3)[OF wait s3(1)] s3(2) by simp_all
  have fine: "state_sound x (?lo\<lparr>lo_child := s\<rparr>)" if "owned s" "child_base s = child_base (lo_child ?lo)" for s
    using ready_sound[OF ready_child[OF c(1) that]] .
  have "turn_sound x (await_event x deadline ?lo)"
  proof (cases answer)
    case (Delivered e)
    have "ready x (?lo\<lparr>lo_events := lo_events lo + 1\<rparr>)" using ready_event[OF c(1)] ev(1) less_events by simp
    from take_event_sound[OF this, of e s4]
    have "turn_sound x (take_event x e (?lo\<lparr>lo_child := s4, lo_events := lo_events lo + 1\<rparr>))"
      using c(2,3) s4 Delivered by (subst update_order) simp
    then show ?thesis using Delivered fine[OF s3] wait clock' ev(1) by (simp add: await_event_def other_verdict)
  qed (use s4 fine[OF _ s4(1)] fine[OF s3] wait clock' in \<open>simp_all add: await_event_def other_verdict\<close>)
  then show ?thesis using False clock go s1 s2 ready_sound[OF ready_child[OF r s1]] ready_sound[OF ready_child[OF r s2]]
    by (simp add: loader_turn_def other_verdict)
qed

lemma loader_loop_sound:
  assumes "ready x lo" and "loader_loop x deadline lo = (v, lo')"
  shows "state_sound x lo' \<and> verdict_true x v lo'"
  using assms
proof (induction x deadline lo rule: loader_loop.induct)
  case (1 x deadline lo)
  note t = loader_turn_sound[OF 1(2), of deadline]
  show ?case
  proof (cases "loader_turn x deadline lo")
    case (End w lo1)
    then show ?thesis using t 1(3) by (simp add: loader_loop.simps turn_sound_def)
  next
    case (More lo1)
    then show ?thesis using t 1(1)[OF More] 1(3) by (simp add: loader_loop.simps[of x deadline lo])
  qed
qed

section \<open>The whole observation\<close>

lemma account_mono: "account False s \<Longrightarrow> account True s"
proof -
  have "kill_before_release pid dead cs \<Longrightarrow> dead \<longrightarrow> d \<Longrightarrow> kill_before_release pid d cs" for pid dead cs d
    by (induction pid dead cs arbitrary: d rule: kill_before_release.induct) auto
  then show "account False s \<Longrightarrow> account True s" by (auto simp: account_def)
qed

lemma first_state_ready:
  assumes "owned s" and "\<not> limits_bad (ex_limits x) pins allocating"
  shows "ready x (first_state x s st)"
proof -
  have "1 \<le> limit_events (ex_limits x)" "1 \<le> limit_threads (ex_limits x)"
    using assms(2) by (auto simp: limits_bad_def word_le_nat_alt unat_gt_0 Suc_le_eq)
  then show ?thesis using assms(1)
    by (simp add: first_state_def first_progress_def ready_def state_sound_def within_budget_def modules_known_def steps_in_order_def
        ledger_inv_new[unfolded new_ledger_def] ledger_issued_def new_ledger_def Let_def)
qed

lemma admitted_limits:
  assumes "run_admission host me s executable pins limits x = Admitted"
  shows "\<not> limits_bad limits pins (st_allocation x \<noteq> None)"
  using admitted_checks(1)[OF assms] by (auto simp: general_checks_def refuse_def)

lemma finish_owned:
  assumes "\<forall>i. \<exists>j>i. clock os i + timeout_ms \<le> clock os j" and "owned s"
  obtains reason' ok s' where "finish os me reason s st = Some (Stopped reason' ok st, s')" "account True s'"
    "if ok then reason' = reason \<and> child_stopped s' else reason' = ''loader_exit_unconfirmed''"
proof -
  obtain ok s' where stop: "stop_child os me s = Some (ok, s')" using stop_child_returns[OF assms(1), of me s] by auto
  then have "account True s'" using accounted_stop assms(2) by (auto simp: owned_def)
  moreover have "ok \<Longrightarrow> child_stopped s'" using stop stop_child_True assms(2) by (auto simp: owned_def child_created_def)
  ultimately show ?thesis using that[of "if ok then reason else ''loader_exit_unconfirmed''" ok s'] stop assms(2)
    by (auto simp: finish_def owned_def)
qed

text \<open>How an observation comes out.\<close>

lemma observe_cases:
  assumes c: "\<forall>n i. \<exists>j>i. clock (host_os (ex_world x n)) i + timeout_ms \<le> clock (host_os (ex_world x n)) j"
    and s: "accounted s" "child_created s"
  obtains o' s' where "observe x s executable st = Some (Unstarted o' s')" "account True s'"
  | reason reason' ok lo s' where "observe x s executable st = Some (Over (Stopped reason' ok (lo_context lo)) lo s')" "account True s'"
      "if ok then reason' = reason \<and> child_stopped s' else reason' = ''loader_exit_unconfirmed''"
      "state_sound x lo" "verdict_true x (Verdict reason) lo"
  | lo where "observe x s executable st = Some (Later lo)" "state_sound x lo"
proof -
  let ?run = "run_impl (ex_world x 1) (ex_me x) s executable (ex_pins x) (ex_limits x) (ex_stages x) st"
  have clock: "\<forall>i. \<exists>j>i. clock (host_os (ex_world x n)) i + timeout_ms \<le> clock (host_os (ex_world x n)) j" for n using c by blast
  have own: "owned s" using s account_mono by (simp add: owned_def)
  show thesis
  proof (cases "ex_me x = child_owner_thread s")
    case False
    then have "?run = Some (Stopped ''loader_owner_thread'' False st, s)" by (simp add: run_impl_def)
    then show ?thesis using that(1)[of _ s] own by (simp add: observe_def owned_def)
  next
    case True
    from run_impl_cases[OF this, of "ex_world x 1" executable "ex_pins x" "ex_limits x" "ex_stages x" st] show ?thesis
    proof (elim disjE exE conjE)
      fix reason st1 assume run: "?run = finish (host_os (ex_world x 1)) (ex_me x) reason s st1"
      obtain reason' ok s' where "finish (host_os (ex_world x 1)) (ex_me x) reason s st1 = Some (Stopped reason' ok st1, s')" "account True s'"
        by (rule finish_owned[OF clock[of 1] own])
      then show ?thesis using that(1)[of _ s'] run by (simp add: observe_def)
    next
      fix st1 assume adm: "run_admission (ex_world x 1) (ex_me x) s executable (ex_pins x) (ex_limits x) (ex_stages x) = Admitted"
        and run: "?run = Some (Started st1, s\<lparr>child_loader_started := True\<rparr>)"
      obtain now s2 where ck: "read_clock (host_os (ex_world x 1)) (s\<lparr>child_loader_started := True\<rparr>) = (now, s2)" by fastforce
      have "owned (s\<lparr>child_loader_started := True\<rparr>)" using own by (simp add: owned_def account_def held_handles_def child_created_def)
      then have s2: "owned s2" by (rule owned_calls(1)[OF ck])
      obtain v lo where loop: "loader_loop x (now + ucast (limit_milliseconds (ex_limits x))) (first_state x s2 st1) = (v, lo)" by fastforce
      have "\<not> limits_bad (ex_limits x) (ex_pins x) (st_allocation (ex_stages x) \<noteq> None)"
        by (rule admitted_limits[OF adm])
      from loader_loop_sound[OF first_state_ready[OF s2 this] loop] have sound: "state_sound x lo" "verdict_true x v lo" by simp_all
      then have own': "owned (lo_child lo)" by (simp add: state_sound_def)
      have here: "\<forall>i. \<exists>j>i. clock (now_os x lo) i + timeout_ms \<le> clock (now_os x lo) j"
        using clock[of "lo_events lo"] by (simp add: now_os_def now_host_def)
      show ?thesis
      proof (cases v)
        case (Verdict reason)
        obtain reason' ok s' where "finish (now_os x lo) (ex_me x) reason (lo_child lo) (lo_context lo) = Some (Stopped reason' ok (lo_context lo), s')"
          "account True s'" "if ok then reason' = reason \<and> child_stopped s' else reason' = ''loader_exit_unconfirmed''"
          by (rule finish_owned[OF here own'])
        then show ?thesis using that(2)[of reason' ok lo s' reason] run ck loop sound Verdict by (simp add: observe_def)
      next
        case Beyond
        then show ?thesis using that(3)[of lo] run ck loop sound by (simp add: observe_def)
      next
        case Null_recipe
        then show ?thesis using sound by (simp add: verdict_true_def)
      qed
    qed
  qed
qed

text \<open>The child an observation leaves behind.\<close>

fun child_after :: "'c observation \<Rightarrow> suspended" where
  "child_after (Unstarted r s) = s"
| "child_after (Over r lo s) = s"
| "child_after (Later lo) = lo_child lo"
| "child_after (Fault lo) = lo_child lo"



section \<open>A sample run\<close>

text \<open>
  The child of the demonstrations loads the system module, hits the loader's breakpoint and stops at the entry; its
  image holds the byte 0x90 throughout. The clock advances by a tenth of a second per reading.
\<close>

definition sample_stop_event :: "nat \<Rightarrow> debug_event" where
  "sample_stop_event i = (let e = demo_debug_event EXCEPTION_DEBUG_EVENT 0 in
     if i = 1 then demo_debug_event LOAD_DLL_DEBUG_EVENT 5\<lparr>event_image := 0x77000000\<rparr>
     else if i = 2 then e\<lparr>event_exception := EXCEPTION_BREAKPOINT, event_address := 0x77000010\<rparr>
     else if i = 3 then e\<lparr>event_exception := EXCEPTION_SINGLE_STEP, event_address := 0x400100\<rparr>
     else demo_debug_event EXIT_PROCESS_DEBUG_EVENT 0)"

definition sample_region :: "u32 \<Rightarrow> region" where
  "sample_region base = \<lparr>base_address = base, allocation_base = base, region_size = 0x1000, region_state = MEM_COMMIT,
     region_type = MEM_IMAGE, region_protect = 0x20\<rparr>"

definition sample_files :: file_api where
  "sample_files = demo_file_api\<lparr>file_path := \<lambda>h. Some [0x5c, 0x6e, 0x74, 0x64, 0x6c, 0x6c, 0x2e, 0x64, 0x6c, 0x6c]\<rparr>"

definition sample_identity :: loader_identity where
  "sample_identity = \<lparr>id_volume = 1, id_bytes = 2, id_file = [5], id_sha256 = [1, 0], id_name = ''ntdll.dll''\<rparr>"

definition sample_os :: observer_api where
  "sample_os = demo_observer_api\<lparr>clock := \<lambda>i. 100 * of_nat i, wait_event := \<lambda>i t. Delivered (sample_stop_event i),
     query_region := \<lambda>a. Some (sample_region (if a < 0x70000000 then 0x400000 else 0x77000000)),
     read_process := \<lambda>a n. (True, n, \<lambda>i. 0x90)\<rparr>"

definition sample_host :: "u32 \<Rightarrow> thread_context loader_host" where
  "sample_host n = \<lparr>host_os = sample_os, host_files = \<lambda>p. \<lparr>pin_handle = p, pin_identity = Some sample_identity\<rparr>,
     host_get = \<lambda>c. Some (if n = 4 then c\<lparr>c_eip := 0x400100, c_dr := (c_dr c)[4 := 1]\<rparr> else c),
     host_set = \<lambda>c st. (True, c), host_thread_id = 1\<rparr>"

definition sample_bytes :: bytes where
  "sample_bytes = [0x90, 0x90, 0x90, 0x90, 0x90, 0x90, 0x90, 0x90, 0x90, 0x90, 0x90, 0x90, 0x90, 0x90, 0x90, 0x90]"

definition sample_trial :: "thread_context trial" where
  "sample_trial = \<lparr>ex_world = sample_host, ex_files = \<lambda>n. sample_files, ex_me = 1, ex_pins = [5], ex_limits = default_limits,
     ex_stages = no_stages\<lparr>st_entry := Some \<lparr>stop_entry_rva = 0x100, entry_expected = sample_bytes\<rparr>\<rparr>,
     ex_selector = \<lambda>n s. None, ex_events = \<lambda>n. \<lparr>api_compare = None, api_duplicate = \<lambda>h. None, api_open = \<lambda>name. 0\<rparr>\<rparr>"

definition sample_context :: thread_context where
  "sample_context = \<lparr>c_eip = 0, c_esp = 0, c_eax = 0, c_ebx = 0, c_ecx = 0, c_edx = 0, c_esi = 0, c_edi = 0, c_ebp = 0, c_eflags = 0,
     c_cs = 0, c_ss = 0, c_ds = 0, c_es = 0, c_fs = 0, c_gs = 0, c_dr = [0, 0, 0, 0, 0, 0]\<rparr>"

lemma sample_inspect: "inspect_loader_file sample_files 5 max_loader_file_bytes = Some sample_identity"
proof -
  have "hash_contents sample_files 5 [] 2 = Some [0, 1]" by (simp add: sample_files_def demo_file_api_def hash_contents.simps)
  moreover have "char_of (110 :: nat) = CHR ''n''" "char_of (116 :: nat) = CHR ''t''" "char_of (100 :: nat) = CHR ''d''" "char_of (108 :: nat) = CHR ''l''" "char_of (46 :: nat) = CHR ''.''"
    by code_simp+
  ultimately show ?thesis
    by (simp add: inspect_loader_file_def sample_identity_def sample_files_def demo_file_api_def max_loader_file_bytes_def base_name_def lower_unit_def name_unit_def unit_char_def)
qed

lemma demo_child_eq: "demo_child = \<lparr>child_error = [], child_system_error = 0, child_job = 1, child_process = 2, child_thread = 3,
     child_image_file = 4, child_owner_thread = 1, child_process_id = 9, child_pending_thread = 1, child_base = 0x400000,
     child_image_bytes = 4096, child_pending = True, child_kill_requested = False, child_exit_seen = False,
     child_stopped = False, child_loader_started = False, child_clocks = 0, child_waits = 1, child_continues = 0, child_kills = 0,
     child_exit_waits = 0, child_calls = [Opened 1, Opened 2, Opened 3, Opened 4]\<rparr>"
  by (simp add: demo_child_def create_suspended_def start_child_def fresh_child_def demo_observer_api_def
        max_image_bytes_def call_defs take_first_event_def demo_debug_event_def opens_def closes_def event_has_file_def Let_def
        CREATE_PROCESS_DEBUG_EVENT_def LOAD_DLL_DEBUG_EVENT_def EXIT_PROCESS_DEBUG_EVENT_def)

lemma sample_copy:
  assumes "child_readable 1 s" "child_base s = 0x400000" "child_image_bytes s = 4096"
  shows "child_copy sample_os 1 s 0x100 16 = Some sample_bytes"
proof -
  have "regions_readable (query_region sample_os) 0x400000 0x400110 0x400100"
    by (simp add: regions_readable.simps sample_os_def sample_region_def region_readable_def region_advances_def MEM_COMMIT_def MEM_IMAGE_def
        PAGE_GUARD_def readable_protections_def)
  then show ?thesis using assms by (simp add: child_copy_def sample_os_def sample_bytes_def upt_rec)
qed

lemma sample_start:
  "run_impl (ex_world sample_trial 1) 1 demo_child 8 [5] default_limits (ex_stages sample_trial) sample_context
     = Some (Started (sample_context\<lparr>c_dr := [0x400100, 0, 0, 0, 0, 1]\<rparr>), demo_child\<lparr>child_loader_started := True\<rparr>)"
proof -
  have held: "child_readable 1 demo_child" by (simp add: demo_child_eq child_readable_def)
  then have own_file: "child_same_file sample_os 1 demo_child 8"
    by (simp add: child_same_file_def sample_os_def demo_observer_api_def)
  have copy: "child_copy sample_os 1 demo_child 0x100 16 = Some sample_bytes"
    by (rule sample_copy[OF held]) (simp_all add: demo_child_eq)
  have "entry_refusal sample_os 1 demo_child \<lparr>stop_entry_rva = 0x100, entry_expected = sample_bytes\<rparr> = []"
    using copy by (simp add: entry_refusal_def demo_child_eq sample_os_def sample_region_def MEM_COMMIT_def MEM_IMAGE_def PAGE_GUARD_def)
  then have "run_admission (ex_world sample_trial 1) 1 demo_child 8 [5] default_limits (ex_stages sample_trial) = Admitted"
    unfolding run_admission_def first_refusal_Admitted
    using own_file by (simp add: general_checks_def startup_checks_def directory_checks_def loader_file_valid_def
        stream_checks_def base_checks_def no_stages_def sample_trial_def sample_host_def limits_bad_def default_limits_def demo_child_eq)
  then show ?thesis using copy
    by (simp add: run_impl_def arm_entry_def sample_trial_def sample_host_def no_stages_def sample_context_def demo_child_eq)
qed


definition sample_child :: "nat \<Rightarrow> os_call list \<Rightarrow> suspended" where
  "sample_child n calls = demo_child\<lparr>child_loader_started := True, child_clocks := 2 * n + 1, child_waits := n + 1, child_continues := n,
     child_calls := child_calls demo_child @ calls\<rparr>"

lemma sample_child_simps [simp]:
  "child_clocks (sample_child n calls) = 2 * n + 1" "child_waits (sample_child n calls) = n + 1" "child_continues (sample_child n calls) = n"
  "child_process_id (sample_child n calls) = 9" "child_pending_thread (sample_child n calls) = 1"
  by (simp_all add: sample_child_def demo_child_eq)

lemma sample_child_next:
  "sample_child n calls\<lparr>child_clocks := Suc (Suc (Suc (2 * n))), child_continues := Suc n, child_calls := child_calls (sample_child n calls) @ extra,
     child_pending := True, child_waits := Suc (Suc n), child_pending_thread := 1\<rparr> = sample_child (Suc n) (calls @ extra)"
  by (simp add: sample_child_def demo_child_eq)

lemmas event_codes = EXCEPTION_DEBUG_EVENT_def CREATE_PROCESS_DEBUG_EVENT_def EXIT_PROCESS_DEBUG_EVENT_def LOAD_DLL_DEBUG_EVENT_def
  UNLOAD_DLL_DEBUG_EVENT_def CREATE_THREAD_DEBUG_EVENT_def EXCEPTION_BREAKPOINT_def EXCEPTION_SINGLE_STEP_def

lemma sample_stop_event_simps [simp]:
  "event_process (sample_stop_event i) = 9" "event_thread (sample_stop_event i) = 1" "event_first_chance (sample_stop_event i)"
  "i \<noteq> 1 \<Longrightarrow> \<not> event_has_file (sample_stop_event i)" "event_has_file (sample_stop_event (Suc 0))" "event_file (sample_stop_event (Suc 0)) = 5"
  by (simp_all add: sample_stop_event_def demo_debug_event_def event_has_file_def event_codes Let_def)

text \<open>One turn releases the held event and takes the next.\<close>

lemma sample_turn:
  assumes n: "n < 3" and lo: "lo_child lo = sample_child n calls" "\<not> 128 \<le> lo_events lo"
    "\<not> lo_startup_armed lo" "\<not> lo_proxy_armed lo" "\<not> lo_startup_continued lo" "\<not> lo_proxy_continued lo"
  shows "loader_turn sample_trial 5000 lo = on_event sample_trial (sample_stop_event (Suc n)) (lo\<lparr>
    lo_child := sample_child (Suc n) (calls @ Continue_event 9 1 DBG_CONTINUE True # (if n = 0 then [Opened 5] else [])),
    lo_events := lo_events lo + 1, lo_initial := lo_initial lo \<or> lo_candidate lo\<rparr>)"
proof -
  have c: "\<not> 5000 \<le> clock sample_os (2 * n + 1)" "\<not> 5000 \<le> clock sample_os (2 * n + 2)" using n by (auto simp: sample_os_def less_Suc_eq numeral_3_eq_3)
  have f: "\<And>i. continue_event sample_os i" "\<And>i t. wait_event sample_os i t = Delivered (sample_stop_event i)"
    by (simp_all add: sample_os_def demo_observer_api_def)
  have os: "now_os sample_trial lo = sample_os" for lo by (simp add: now_os_def now_host_def sample_trial_def sample_host_def)
  have e: "event_has_file (sample_stop_event (Suc n)) \<longleftrightarrow> n = 0" by (cases "n = 0") simp_all
  have s: "ex_limits sample_trial = default_limits" "st_entry (ex_stages sample_trial) \<noteq> None" by (simp_all add: sample_trial_def)
  show ?thesis using c f lo s e
    by (cases lo; cases "n = 0") (simp_all add: sample_child_def demo_child_eq numeral_3_eq_3 loader_turn_def os read_clock_def continue_debug_event_def log_calls_def default_limits_def await_event_def continued_def
       wait_debug_event_def take_event_def opens_def)
qed

abbreviation sample_first :: "thread_context looping" where
  "sample_first \<equiv> first_state sample_trial (sample_child 0 []) (sample_context\<lparr>c_dr := [0x400100, 0, 0, 0, 0, 1]\<rparr>)"

definition sample_mapped :: progress where
  "sample_mapped = (first_progress sample_trial demo_child)\<lparr>pg_mappings := \<lparr>l_history = [\<lparr>m_base = 0x77000000, m_id = 1, load_event = 2, unload_event = 0\<rparr>],
     l_limit = 64, l_active = 1, l_last_event = 2\<rparr>, pg_modules := [\<lparr>om_file = sample_identity, om_base = 0x77000000, om_mapping = 1, om_admitted = True, om_event = 2\<rparr>]\<rparr>"

definition sample_calls :: "os_call list" where
  "sample_calls = [Continue_event 9 1 DBG_CONTINUE True, Opened 5, Closed 5]"

definition sample_loaded :: "thread_context looping" where
  "sample_loaded = sample_first\<lparr>lo_child := sample_child 1 sample_calls, lo_seen := sample_mapped, lo_events := 2, lo_charged := 2\<rparr>"

lemmas sample_defs = sample_trial_def default_limits_def no_stages_def now_os_def now_host_def sample_host_def files_now_def pin_files_def

lemma sample_load: "loader_turn sample_trial 5000 sample_first = More sample_loaded"
proof -
  have e: "event_code (sample_stop_event (Suc 0)) = LOAD_DLL_DEBUG_EVENT" "event_image (sample_stop_event (Suc 0)) = 0x77000000"
    by (simp_all add: sample_stop_event_def demo_debug_event_def Let_def)
  have a: "admit 0x77000000 2 (new_ledger 64) = (\<lparr>t_mapping_id = 1, t_error = []\<rparr>, pg_mappings sample_mapped)"
    by (simp add: admit_def ledger_validate_def new_ledger_def l_count_def max_loader_mappings_def sample_mapped_def)
  have n: "file_length sample_files 5 = Some 2" by (simp add: sample_files_def demo_file_api_def)
  have turn: "loader_turn sample_trial 5000 sample_first = on_event sample_trial (sample_stop_event (Suc 0)) (sample_first\<lparr>
      lo_child := sample_child (Suc 0) [Continue_event 9 1 DBG_CONTINUE True, Opened 5], lo_events := 2\<rparr>)"
    by (subst sample_turn[where n = 0 and calls = "[]"]) (simp_all add: first_state_def word_le_nat_alt)
  show ?thesis unfolding turn using e a n sample_inspect
    by (simp add: on_event_def on_load_def sample_defs first_state_def first_progress_def closed_file_def close_event_file_def log_calls_def closes_def
        is_pinned_def matches_file_def add_module_def loads_barred_def sample_loaded_def sample_mapped_def sample_child_def sample_calls_def)
qed


abbreviation sample_go :: os_call where
  "sample_go \<equiv> Continue_event 9 1 DBG_CONTINUE True"

lemma sample_readable: "child_copy sample_os 1 (sample_child n calls) 0x100 16 = Some sample_bytes"
  by (rule sample_copy) (simp_all add: sample_child_def demo_child_eq child_readable_def)

lemma sample_breakpoint:
  "loader_turn sample_trial 5000 sample_loaded = More (sample_loaded\<lparr>lo_child := sample_child 2 (sample_calls @ [sample_go]), lo_events := 3, lo_candidate := True\<rparr>)"
proof -
  let ?e = "sample_stop_event 2"
  have e: "event_code ?e = EXCEPTION_DEBUG_EVENT" "event_exception ?e = EXCEPTION_BREAKPOINT" "event_address ?e = 0x77000010"
    by (simp_all add: sample_stop_event_def demo_debug_event_def Let_def)
  have turn: "loader_turn sample_trial 5000 sample_loaded = on_event sample_trial ?e (sample_loaded\<lparr>
      lo_child := sample_child 2 (sample_calls @ [sample_go]), lo_events := 3\<rparr>)"
    by (subst sample_turn[where n = 1 and calls = sample_calls]) (simp_all add: sample_loaded_def first_state_def flip: numeral_2_eq_2)
  have seen: "lo_seen sample_loaded = sample_mapped" "\<not> lo_initial sample_loaded" "lo_context sample_loaded = sample_context\<lparr>c_dr := [0x400100, 0, 0, 0, 0, 1]\<rparr>"
    by (simp_all add: sample_loaded_def first_state_def)
  have "mapping_active 1 0x77000000 (pg_mappings sample_mapped)" by (simp add: mapping_active_def sample_mapped_def l_count_def)
  then have b: "is_loader_breakpoint sample_trial ?e (sample_loaded\<lparr>lo_child := sample_child 2 (sample_calls @ [sample_go]), lo_events := 3\<rparr>)"
    using e seen by (simp add: is_loader_breakpoint_def sample_defs sample_os_def sample_region_def sample_mapped_def module_active_def sample_identity_def)
  show ?thesis unfolding turn using e b seen sample_readable
    by (simp add: on_event_def event_codes on_first_exception_def copy_now_def sample_defs sample_mapped_def first_progress_def demo_child_eq sample_context_def)
qed

definition sample_ending :: "thread_context looping" where
  "sample_ending = sample_loaded\<lparr>lo_child := sample_child 3 (sample_calls @ [sample_go, sample_go]), lo_events := 4, lo_candidate := True, lo_initial := True\<rparr>"

lemma sample_stop:
  "loader_turn sample_trial 5000 (sample_loaded\<lparr>lo_child := sample_child 2 (sample_calls @ [sample_go]), lo_events := 3, lo_candidate := True\<rparr>)
     = End (Verdict ''entry_boundary_reached'') sample_ending"
proof -
  let ?e = "sample_stop_event 3" and ?lo = "sample_loaded\<lparr>lo_child := sample_child 2 (sample_calls @ [sample_go]), lo_events := 3, lo_candidate := True\<rparr>"
  have e: "event_code ?e = EXCEPTION_DEBUG_EVENT" "event_exception ?e = EXCEPTION_SINGLE_STEP" "event_address ?e = 0x400100"
    by (simp_all add: sample_stop_event_def demo_debug_event_def Let_def)
  have turn: "loader_turn sample_trial 5000 ?lo = on_event sample_trial ?e sample_ending"
    by (subst sample_turn[where n = 2 and calls = "sample_calls @ [sample_go]"])
      (simp_all add: sample_loaded_def sample_ending_def first_state_def)
  have seen: "lo_seen sample_ending = sample_mapped" "lo_initial sample_ending" "lo_context sample_ending = sample_context\<lparr>c_dr := [0x400100, 0, 0, 0, 0, 1]\<rparr>"
    "lo_events sample_ending = 4" "\<not> lo_startup_continued sample_ending" "\<not> lo_proxy_continued sample_ending"
    "lo_child sample_ending = sample_child 3 (sample_calls @ [sample_go, sample_go])"
    by (simp_all add: sample_loaded_def first_state_def sample_ending_def)
  show ?thesis unfolding turn using e seen sample_readable
    by (simp add: on_event_def event_codes on_stop_def entry_stop_def stop_refusal_def guard_refusal_def no_guards_def reject_def copy_now_def sample_defs sample_mapped_def
        first_progress_def demo_child_eq sample_context_def)
qed

lemma sample_observed:
  "\<exists>s'. observe sample_trial demo_child 8 sample_context = Some (Over (Stopped ''entry_boundary_reached'' True (lo_context sample_ending)) sample_ending s')"
proof -
  have loop: "loader_loop sample_trial 5000 sample_first = (Verdict ''entry_boundary_reached'', sample_ending)"
    by (subst loader_loop.simps, simp only: sample_load turn.case, subst loader_loop.simps, simp only: sample_breakpoint turn.case,
        subst loader_loop.simps, simp only: sample_stop turn.case)
  have child: "read_clock sample_os (demo_child\<lparr>child_loader_started := True\<rparr>) = (0, sample_child 0 [])"
    by (simp add: read_clock_def sample_os_def sample_child_def demo_child_eq)
  have world: "host_os (ex_world sample_trial n) = sample_os" "now_os sample_trial lo = sample_os" "ex_me sample_trial = 1" "ex_pins sample_trial = [5]"
    "ex_limits sample_trial = default_limits" for n lo
    by (simp_all add: sample_trial_def sample_host_def now_os_def now_host_def)
  have "lo_child sample_ending = sample_child 3 (sample_calls @ [sample_go, sample_go])" by (simp add: sample_ending_def)
  moreover have "\<exists>s'. finish sample_os 1 ''entry_boundary_reached'' (sample_child 3 calls) st = Some (Stopped ''entry_boundary_reached'' True st, s')" for calls st
    by (simp add: finish_def stop_child_def sample_child_def demo_child_eq child_created_def sample_os_def demo_observer_api_def
      call_defs request_kill_def release_pending_def confirm_exit_def drain_events.simps timeout_ms_def
      closes_def event_has_file_def sample_stop_event_def demo_debug_event_def event_codes Let_def)
  ultimately show ?thesis using sample_start loop child by (auto simp: observe_def world default_limits_def)
qed

lemma sample_clock: "\<forall>n i. \<exists>j>i. clock (host_os (ex_world sample_trial n)) i + timeout_ms \<le> clock (host_os (ex_world sample_trial n)) j"
proof (intro allI)
  fix n i
  show "\<exists>j>i. clock (host_os (ex_world sample_trial n)) i + timeout_ms \<le> clock (host_os (ex_world sample_trial n)) j"
    by (rule exI[of _ "i + 50"]) (simp add: sample_trial_def sample_host_def sample_os_def timeout_ms_def algebra_simps)
qed

lemma demo_child_accounted: "accounted demo_child" "child_created demo_child"
  using accounted_create by (simp_all add: demo_child_def) (simp add: demo_child_def[symmetric] demo_child_eq child_created_def)



end
