(* ===== verification/Spec2Isabelle.thy ===== *)
theory Spec2Isabelle
  imports Fixture_Codec Bounded_Inbox Lease_Authority Mapping_Ledger Loader_Path Loader_Stages Loader_Run
begin

text \<open>
  Verification library for the C++ code of saex: the engine-neutral core, the bootstrap module that runs
  inside the game, and the observer that starts the game as a child under a debugger and follows its
  start-up. Paths below are relative to the repository: \<open>src/...\<close> for implementations,
  \<open>include/saex/...\<close> for headers. The observer and the module are x86 programs:
  \<open>std::size_t\<close> and addresses have 32 bits there.

  \<^bold>\<open>Conventions.\<close> \<open>Prelude\<close> holds the machine types (words of their source width, so wrap-around is
  the source's), little-endian access to byte lists, address spans and their pairwise overlap test, and the lemma collections.
  A class or struct is a record, an enumeration a datatype, a fixed array a list whose length a property states where
  it matters, a member function a function from state to state. An early return with a reason is a value
  (a string, an option or a sum). What is not in the repository, the operating system and its hash provider,
  is a record of functions or a parameter; the hypotheses on it are named in the properties.

  \<^bold>\<open>Core.\<close> \<open>Identity\<close> (\<open>contracts/strong_id.hpp\<close>, \<open>foundation.generated.hpp\<close>) with \<open>linorder\<close>
  and \<open>equal\<close> instances; \<open>Fixture_Codec\<close> (\<open>contracts/fixture_codec.cpp\<close>, \<open>tools/contract_probe.cpp\<close>):
  exact round trip and rejection, C1 and C2; \<open>Bounded_Inbox\<close> (\<open>core/bounded_inbox\<close>): refinement of a bounded
  first-in-first-out queue, stated as the locale \<open>bounded_fifo\<close>, and the budgets, C3 and C4; \<open>Control_Clock\<close>
  and \<open>Lease_Authority\<close> (\<open>core/control_clock\<close>, \<open>core/lease_authority\<close>): fencing, admission, sequence numbers, suspension and progress of the
  lease gate over arbitrary histories, C5 to C9; the clock is the locale \<open>control_clock\<close>.

  \<^bold>\<open>Bootstrap.\<close> \<open>Mapping_Ledger\<close> (\<open>engine/loader/loader_mapping_ledger.cpp\<close>): refinement of a map of live modules, C10 and C11, as the locale
  \<open>lifetime_registry\<close>; \<open>Pe_Image\<close> (\<open>engine/bootstrap/pe_image.cpp\<close>): a parser in the option monad where an
  out-of-bounds read is \<open>None\<close>, C12 to C14; \<open>Profile_Gate\<close> and \<open>Windows_Image_Reader\<close>: the locale \<open>image_reader\<close> and
  its provider for the current process, C15; \<open>Bootstrap_Session\<close>, \<open>Bootstrap_Module\<close>: the session with
  its atomic flag and the inspection of the process, C16 and C18; \<open>Bootstrap_Lifecycle\<close>: the
  observer's view of the same calls, C17 and C19, where C19 relates the two sides.

  \<^bold>\<open>Recipes.\<close> \<open>Frame_Target\<close>, \<open>Application_Entry\<close>, \<open>Platform_Suppression\<close>, \<open>Instance_Startup\<close>, \<open>Event_Dispatch\<close>,
  \<open>Application_Routing\<close>, \<open>Game_Prelude\<close>, \<open>Cwd_Entry\<close>, \<open>Cwd_Lock\<close>, \<open>Cwd_Query\<close>, \<open>Cwd_Return\<close> and \<open>Cd_Stream\<close> model the
  files of the same names under \<open>engine/loader\<close>, in the order in which the observed start-up reaches them. Each has a recipe
  (addresses and audited bytes), a validity check, the code rebuilt at the image base, and predicates on
  the registers and memory of the stopped thread. \<open>X86_Reference\<close> is an independent processor model; the properties C26 to C36 run the
  rebuilt code on it and show that the predicates accept exactly, or at least, the states it reaches. C24 and
  C25 state the transaction of the register context and the relocation of the instance check; C37 the block layout of the aligned allocation.

  \<^bold>\<open>Observer.\<close> \<open>Launch_Context\<close> (\<open>engine/observer/launch_context.cpp\<close>): validation, order and rebuilding of
  the environment block, C38; \<open>Suspended_Image\<close> (\<open>engine/observer/suspended_image.cpp\<close>): the owned child from construction to
  destruction, its event drain as a partial function that is shown to return, with a log of the calls that open and
  close handles, kill or release, C39; it also provides \<open>image_reader\<close>. \<open>Loader_Policy\<close> (\<open>loader_policy.cpp\<close> and the file inspection of
  \<open>loader_observation.cpp\<close>): C20; \<open>Loader_Observation\<close> (\<open>loader_observation.cpp\<close> up to the first release of the child): the entry
  points, the admission of every recipe against those it builds on, the entry breakpoint, C40, which composes all recipe theories with the child. \<open>Loader_Shapes\<close> and \<open>Loader_Stages\<close> model the checks of
  \<open>run_impl\<close> that compare the audited code with the child's memory, their bounded readers and the arming of the stops; \<open>Game_Start\<close> runs the stages
  from the dispatch to the file manager as one execution, and \<open>Loader_Path\<close> joins the two: what a passed check found in memory is
  the code the processor executes, C23.

  \<^bold>\<open>The run.\<close> The stops of \<open>run_impl\<close> behind the startup call are functions from the held child to a decision: deny with a reason, report,
  or arm the next stop. \<open>Loader_Stops\<close> has the codec, its bindings, the plugin, the return of the startup call and the C runtime,
  \<open>Loader_Game_Stops\<close> the application's entry to the end of the game's prelude, \<open>Loader_Directory_Stops\<close> the file manager and its
  directory routine, \<open>Loader_Stream_Stops\<close> the stream and the choice of the stop that is due. The flags \<open>armed\<close> and \<open>continued\<close> of the code's
  twenty-four stage records are one value, \<open>la_stop\<close>: a flag once set stays set, and the latest stage armed is the one handled. Each decision
  is shown to be the stop's own (\<open>late_stop_sound\<close>): the report of its stage, a reason that is no success, or the stop that follows
  with its recipe given. \<open>Loader_Events\<close> carries the decisions out in the debug-event loop, with the guards of the debug registers, and
  \<open>Loader_Run\<close> has the loop and the whole observation: its invariant (limits, pinned modules, handles, released processes), C21, and the
  meaning of its verdicts, C22.

  \<^bold>\<open>Bounds and fuel.\<close> Loops are structural or have a measure; the only loops that depend on the outside are the drain of
  \<open>Suspended_Image\<close> (ends because the clock reaches the deadline, a hypothesis of C21, C22, C39 and C40), the event loop of \<open>Loader_Run\<close> (each
  turn takes an event, and their number is limited), the reads of \<open>Loader_Policy\<close> (each returns at least one
  byte or fails) and the memory queries (each region advances the cursor). The runs on \<open>X86_Reference\<close> take an explicit number of steps.

  \<^bold>\<open>Not modelled.\<close> In \<open>LoaderObservation::run_impl\<close> the calls of the plugin's exported functions and the write of their envelope into the
  child's stack (lines 1356 to 1413 and 2684 to 2717; a run with a bootstrap recipe ends as \<open>Beyond\<close> when it gets there), and the counters
  and samples of the trace; \<open>loader_probe.cpp\<close>, \<open>process_probe.cpp\<close> and \<open>sdk_probe.cpp\<close>, which parse arguments, call the modelled
  components and print JSON; the generated policy headers, which are data of the recipes; the managed tools, scripts and tests.
\<close>

end
